(* ===== verification/VL_Prelude.thy ===== *)
theory VL_Prelude
  imports Main "HOL-Library.Sublist" "HOL-Library.Multiset" "HOL-Library.Word"
    "HOL-Library.Signed_Division"
begin

text \<open>
  The shared prelude of the VoiceLife development: the collections of simplification rules the
  component theories fill, the C++ integer conversions and truncating division the sources use,
  the parts of the C++ standard library that the modelled code calls (\<open>isspace\<close>, \<open>tolower\<close>,
  \<open>std::to_string\<close>, token extraction, \<open>std::find_if\<close> with assignment through the iterator,
  \<open>std::sort\<close> with a comparator), and the UTF-8 encoding in which the message constants
  are written.
\<close>

named_theorems width_simps \<open>conversions between integer widths that do not wrap\<close>
named_theorems result_simps \<open>evaluation of Status, Result and CommandResult\<close>
named_theorems repo_defs \<open>operations of the in-memory repositories\<close>

section \<open>Integer widths and C++ division\<close>

text \<open>\<open>static_cast<unsigned>\<close> and \<open>static_cast<int>\<close> of a 64-bit value on the 32-bit target.\<close>

definition u32 :: "int \<Rightarrow> int" where
  "u32 x = take_bit 32 x"

definition i32 :: "int \<Rightarrow> int" where
  "i32 x = signed_take_bit 31 x"

lemma u32_id [width_simps]: "0 \<le> x \<Longrightarrow> x < 4294967296 \<Longrightarrow> u32 x = x"
  by (simp add: u32_def take_bit_int_eq_self)

lemma i32_id [width_simps]: "- 2147483648 \<le> x \<Longrightarrow> x < 2147483648 \<Longrightarrow> i32 x = x"
  by (simp add: i32_def signed_take_bit_int_eq_self)

lemma u32_bounds: "0 \<le> u32 x" "u32 x < 4294967296"
  using take_bit_int_less_exp [of 32 x] by (simp_all add: u32_def)

lemma sdiv_nonneg [width_simps]: "0 \<le> a \<Longrightarrow> 0 < b \<Longrightarrow> (a :: int) sdiv b = a div b"
  by (cases "a = 0") (simp_all add: signed_divide_int_def)

lemma smod_nonneg [width_simps]: "0 \<le> a \<Longrightarrow> 0 < b \<Longrightarrow> (a :: int) smod b = a mod b"
  by (cases "a = 0") (simp_all add: signed_modulo_int_def)

section \<open>Characters and strings\<close>

text \<open>A \<open>char\<close> is a byte, a \<open>string\<close> a sequence of bytes, as \<open>std::string\<close> is.\<close>

abbreviation byte :: "char \<Rightarrow> nat" where
  "byte c \<equiv> of_char c"

definition isspace :: "char \<Rightarrow> bool" where
  "isspace c \<longleftrightarrow> (9 \<le> byte c \<and> byte c \<le> 13) \<or> byte c = 32"

definition tolower :: "char \<Rightarrow> char" where
  "tolower c = (if 65 \<le> byte c \<and> byte c \<le> 90 then char_of (byte c + 32) else c)"

text \<open>The UTF-8 encoding of a code point of the basic multilingual plane.\<close>

definition utf8_char :: "int \<Rightarrow> string" where
  "utf8_char n =
     (if n < 128 then [char_of n]
      else if n < 2048 then [char_of (192 + n div 64), char_of (128 + n mod 64)]
      else [char_of (224 + n div 4096), char_of (128 + n div 64 mod 64), char_of (128 + n mod 64)])"

definition utf8 :: "int list \<Rightarrow> string" where
  "utf8 ns = concat (map utf8_char ns)"

lemma utf8_eq_Nil [simp]: "utf8 ns = [] \<longleftrightarrow> ns = []"
  by (cases ns) (auto simp: utf8_def utf8_char_def)

text \<open>\<open>std::to_string\<close> of a signed integer.\<close>

function digits :: "int \<Rightarrow> string" where
  "digits n = (if n < 10 then [char_of (48 + n)] else digits (n div 10) @ [char_of (48 + n mod 10)])"
  by pat_completeness auto
termination by (relation "measure nat") auto

declare digits.simps [simp del]

definition to_string :: "int \<Rightarrow> string" where
  "to_string i = (if i < 0 then CHR ''-'' # digits (- i) else digits i)"

text \<open>The tokens that \<open>stream >> token\<close> extracts one after the other.\<close>

function tokens :: "string \<Rightarrow> string list" where
  "tokens s =
     (let t = dropWhile isspace s in
      if t = [] then []
      else takeWhile (\<lambda>c. \<not> isspace c) t # tokens (dropWhile (\<lambda>c. \<not> isspace c) t))"
  by pat_completeness auto
termination
proof (relation "measure length")
  show "wf (measure length)" by simp
next
  fix s t
  assume t: "t = dropWhile isspace s" and ne: "t \<noteq> []"
  then have "\<not> isspace (hd t)" using hd_dropWhile by blast
  with ne have "length (dropWhile (\<lambda>c. \<not> isspace c) t) < length t"
    by (cases t) (auto intro: le_imp_less_Suc length_dropWhile_le)
  also have "\<dots> \<le> length s" using t by (simp add: length_dropWhile_le)
  finally show "(dropWhile (\<lambda>c. \<not> isspace c) t, s) \<in> measure length" by simp
qed

declare tokens.simps [simp del]

section \<open>Entities in a vector\<close>

text \<open>
  \<open>std::find_if\<close> followed by an assignment through the iterator: the first element that
  satisfies the predicate is replaced, the others keep their places.
\<close>

fun update_first :: "('a \<Rightarrow> bool) \<Rightarrow> ('a \<Rightarrow> 'a) \<Rightarrow> 'a list \<Rightarrow> 'a list" where
  "update_first p f [] = []"
| "update_first p f (x # xs) = (if p x then f x # xs else x # update_first p f xs)"

lemma length_update_first [simp]: "length (update_first p f xs) = length xs"
  by (induction xs) auto

lemma map_update_first [simp]:
  "(\<And>x. p x \<Longrightarrow> g (f x) = g x) \<Longrightarrow> map g (update_first p f xs) = map g xs"
  by (induction xs) auto

lemma set_update_first: "set (update_first p f xs) \<subseteq> set xs \<union> f ` {x \<in> set xs. p x}"
  by (induction xs) auto

lemma update_first_id: "(\<And>x. x \<in> set xs \<Longrightarrow> \<not> p x) \<Longrightarrow> update_first p f xs = xs"
  by (induction xs) auto

lemma find_update_first:
  assumes "\<And>x. p x \<Longrightarrow> p (f x)"
  shows "List.find p (update_first p f xs) = map_option f (List.find p xs)"
  using assms by (induction xs) auto

lemma find_update_first_other:
  assumes "\<And>x. p x \<Longrightarrow> q x = False" and "\<And>x. p x \<Longrightarrow> q (f x) = False"
  shows "List.find q (update_first p f xs) = List.find q xs"
  using assms by (induction xs) auto

lemma update_first_map_if:
  assumes "distinct (map k xs)"
  shows "update_first (\<lambda>x. k x = i) f xs = map (\<lambda>x. if k x = i then f x else x) xs"
  using assms
proof (induction xs)
  case (Cons y ys)
  show ?case
  proof (cases "k y = i")
    case True
    with Cons.prems have "map (\<lambda>x. if k x = i then f x else x) ys = ys"
      by (intro map_idI) (auto simp: image_iff)
    with True show ?thesis by simp
  next
    case False
    with Cons show ?thesis by simp
  qed
qed simp

lemma find_append: "List.find p (xs @ ys) =
    (case List.find p xs of None \<Rightarrow> List.find p ys | Some x \<Rightarrow> Some x)"
  by (induction xs) auto

lemma find_key_unique:
  assumes "distinct (map k xs)" and "x \<in> set xs"
  shows "List.find (\<lambda>y. k y = k x) xs = Some x"
  using assms by (induction xs) auto

lemma find_SomeD: "List.find p xs = Some x \<Longrightarrow> x \<in> set xs \<and> p x"
  by (induction xs) (auto split: if_splits)

lemma find_NoneD: "List.find p xs = None \<Longrightarrow> x \<in> set xs \<Longrightarrow> \<not> p x"
  by (induction xs) (auto split: if_splits)

section \<open>Sorting with a comparator\<close>

text \<open>
  \<open>std::sort\<close> with a strict comparator. The order of elements that the comparator does not
  distinguish is unspecified in C++; the model keeps their input order. Everything proved of it
  here (a permutation, sorted for the comparator) holds of every implementation.
\<close>

fun insert_by :: "('a \<Rightarrow> 'a \<Rightarrow> bool) \<Rightarrow> 'a \<Rightarrow> 'a list \<Rightarrow> 'a list" where
  "insert_by lt x [] = [x]"
| "insert_by lt x (y # ys) = (if lt y x then y # insert_by lt x ys else x # y # ys)"

definition sort_by :: "('a \<Rightarrow> 'a \<Rightarrow> bool) \<Rightarrow> 'a list \<Rightarrow> 'a list" where
  "sort_by lt xs = foldr (insert_by lt) xs []"

lemma mset_insert_by [simp]: "mset (insert_by lt x xs) = add_mset x (mset xs)"
  by (induction xs) auto

lemma set_insert_by [simp]: "set (insert_by lt x xs) = insert x (set xs)"
  by (induction xs) auto

lemma mset_sort_by [simp]: "mset (sort_by lt xs) = mset xs"
  by (induction xs) (auto simp: sort_by_def)

lemma set_sort_by [simp]: "set (sort_by lt xs) = set xs"
  by (rule mset_eq_setD) simp

lemma length_sort_by [simp]: "length (sort_by lt xs) = length xs"
  by (rule mset_eq_length) simp

lemma sorted_insert_by:
  assumes trans: "\<And>x y z. \<not> lt y x \<Longrightarrow> \<not> lt z y \<Longrightarrow> \<not> lt z x"
    and asym: "\<And>x y. lt x y \<Longrightarrow> \<not> lt y x"
    and "sorted_wrt (\<lambda>x y. \<not> lt y x) xs"
  shows "sorted_wrt (\<lambda>x y. \<not> lt y x) (insert_by lt x xs)"
  using assms(3)
proof (induction xs)
  case (Cons y ys)
  show ?case
  proof (cases "lt y x")
    case True
    have "\<not> lt x y" using True by (rule asym)
    moreover have "sorted_wrt (\<lambda>x y. \<not> lt y x) (insert_by lt x ys)"
      using Cons.prems by (intro Cons.IH) simp
    ultimately show ?thesis using True Cons.prems by simp
  next
    case False
    have "\<not> lt z x" if "z \<in> set ys" for z
    proof (rule trans [OF False])
      from Cons.prems that show "\<not> lt z y" by simp
    qed
    with False Cons.prems show ?thesis by simp
  qed
qed simp

lemma sorted_sort_by:
  assumes "\<And>x y z. \<not> lt y x \<Longrightarrow> \<not> lt z y \<Longrightarrow> \<not> lt z x"
    and "\<And>x y. lt x y \<Longrightarrow> \<not> lt y x"
  shows "sorted_wrt (\<lambda>x y. \<not> lt y x) (sort_by lt xs)"
proof (induction xs)
  case (Cons x xs)
  have "sorted_wrt (\<lambda>x y. \<not> lt y x) (insert_by lt x (sort_by lt xs))"
    by (rule sorted_insert_by [OF assms Cons.IH])
  then show ?case by (simp add: sort_by_def)
qed (simp add: sort_by_def)

section \<open>Pages\<close>

text \<open>The page that the queries cut out of a result: \<open>offset\<close> and \<open>limit\<close> are \<open>int64_t\<close> converted to
  \<open>std::size_t\<close>, so a negative value becomes a huge one (\<open>std::size_t\<close> has 32 bits on the ESP32-S3 target).\<close>

definition size_of_int :: "int \<Rightarrow> nat" where
  "size_of_int x = nat (x mod 2 ^ 32)"

definition page :: "int \<Rightarrow> int \<Rightarrow> 'a list \<Rightarrow> 'a list" where
  "page offset limit xs =
     (let begin = min (size_of_int offset) (length xs);
          count = min (size_of_int limit) (length xs - begin)
      in take count (drop begin xs))"

lemma size_of_int_nonneg: "0 \<le> x \<Longrightarrow> x < 2 ^ 32 \<Longrightarrow> size_of_int x = nat x"
  by (simp add: size_of_int_def)

lemma page_nonneg:
  assumes "0 \<le> offset" "offset < 2 ^ 32" "0 \<le> limit" "limit < 2 ^ 32"
  shows "page offset limit xs = take (nat limit) (drop (nat offset) xs)"
  using assms by (auto simp: page_def Let_def size_of_int_nonneg min_def)

lemma set_page_subset: "set (page offset limit xs) \<subseteq> set xs"
  by (auto simp: page_def Let_def dest: in_set_takeD in_set_dropD)

lemma length_page_le: "length (page offset limit xs) \<le> length xs"
  by (auto simp: page_def Let_def min_def)

section \<open>Pieces of a list\<close>

text \<open>The lists \<open>fs\<close> are disjoint contiguous pieces of the input, in their order, with gaps between them.\<close>

definition pieces :: "'a list \<Rightarrow> 'a list list \<Rightarrow> bool" where
  "pieces input fs \<longleftrightarrow> (\<exists>gaps rest. length gaps = length fs \<and> input = concat (map2 (@) gaps fs) @ rest)"

lemma pieces_Nil: "pieces input []"
  by (simp add: pieces_def)

lemma pieces_frame: "pieces input fs \<Longrightarrow> pieces (f @ input) (f # fs)"
  unfolding pieces_def by (elim exE) (rule_tac x = "[] # gaps" in exI, auto)

lemma pieces_gap: "pieces input fs \<Longrightarrow> pieces (gap @ input) fs"
proof (cases fs)
  case (Cons f fs')
  assume "pieces input fs"
  then obtain g gaps rest where "length gaps = length fs'" "input = g @ f @ concat (map2 (@) gaps fs') @ rest"
    by (auto simp: pieces_def Cons length_Suc_conv)
  then show ?thesis unfolding pieces_def Cons by (intro exI [of _ "(gap @ g) # gaps"] exI [of _ rest]) simp
qed (simp add: pieces_Nil)

end
