(* ===== verification/Contracts.thy ===== *)
theory Contracts
  imports VL_Prelude
begin

text \<open>
  \<open>voicelife_contracts\<close>: the status and result types of \<open>contracts/status.h\<close> that every
  operation of the system returns, and \<open>ErrorCodeName\<close> of \<open>status.cc\<close>.
\<close>

datatype ErrorCode =
    kNone
  | kInvalidArgument
  | kNotFound
  | kAlreadyExists
  | kConflict
  | kUnavailable
  | kInternal

record Status =
  code :: ErrorCode
  message :: string

definition status_ok :: "Status \<Rightarrow> bool" where
  "status_ok s \<longleftrightarrow> code s = kNone"

definition Status_Ok :: Status where
  "Status_Ok = \<lparr>code = kNone, message = []\<rparr>"

definition Status_Error :: "ErrorCode \<Rightarrow> string \<Rightarrow> Status" where
  "Status_Error c m = \<lparr>code = c, message = m\<rparr>"

text \<open>\<open>Result<T>\<close>: a status and an optional value; it is a success only when both say so.\<close>

record 'a Result =
  status :: Status
  val :: "'a option"

definition ok :: "'a Result \<Rightarrow> bool" where
  "ok r \<longleftrightarrow> status_ok (status r) \<and> val r \<noteq> None"

definition Success :: "'a \<Rightarrow> 'a Result" where
  "Success v = \<lparr>status = Status_Ok, val = Some v\<rparr>"

definition Failure :: "ErrorCode \<Rightarrow> string \<Rightarrow> 'a Result" where
  "Failure c m = \<lparr>status = Status_Error c m, val = None\<rparr>"

text \<open>
  \<open>CommandResult<T>\<close> carries the value directly; a failure carries the value-initialised \<open>T\<close>,
  which the model passes as the first argument.
\<close>

record 'a CommandResult =
  cr_status :: Status
  cr_value :: 'a
  cr_error :: string

definition command_ok :: "'a CommandResult \<Rightarrow> bool" where
  "command_ok r \<longleftrightarrow> status_ok (cr_status r)"

definition Command_Success :: "'a \<Rightarrow> 'a CommandResult" where
  "Command_Success v = \<lparr>cr_status = Status_Ok, cr_value = v, cr_error = []\<rparr>"

definition Command_Failure :: "'a \<Rightarrow> Status \<Rightarrow> 'a CommandResult" where
  "Command_Failure dflt s = \<lparr>cr_status = s, cr_value = dflt, cr_error = message s\<rparr>"

fun ErrorCodeName :: "ErrorCode \<Rightarrow> string" where
  "ErrorCodeName kNone = ''none''"
| "ErrorCodeName kInvalidArgument = ''invalid_argument''"
| "ErrorCodeName kNotFound = ''not_found''"
| "ErrorCodeName kAlreadyExists = ''already_exists''"
| "ErrorCodeName kConflict = ''conflict''"
| "ErrorCodeName kUnavailable = ''unavailable''"
| "ErrorCodeName kInternal = ''internal''"

section \<open>Evaluation\<close>

lemma status_ok_simps [simp, result_simps]:
  "status_ok Status_Ok" "status_ok (Status_Error c m) \<longleftrightarrow> c = kNone"
  "code Status_Ok = kNone" "code (Status_Error c m) = c" "message (Status_Error c m) = m"
  "status_ok \<lparr>code = c, message = m\<rparr> \<longleftrightarrow> c = kNone"
  by (simp_all add: status_ok_def Status_Ok_def Status_Error_def)

lemma result_simps_basic [simp, result_simps]:
  "ok (Success v)" "\<not> ok (Failure c m)"
  "val (Success v) = Some v" "val (Failure c m) = None"
  "status (Success v) = Status_Ok" "status (Failure c m) = Status_Error c m"
  by (simp_all add: ok_def Success_def Failure_def)

lemma command_simps [simp, result_simps]:
  "command_ok (Command_Success v)" "command_ok (Command_Failure d s) \<longleftrightarrow> status_ok s"
  "cr_status (Command_Success v) = Status_Ok" "cr_status (Command_Failure d s) = s"
  "cr_value (Command_Success v) = v" "cr_value (Command_Failure d s) = d"
  "cr_error (Command_Success v) = []" "cr_error (Command_Failure d s) = message s"
  by (simp_all add: command_ok_def Command_Success_def Command_Failure_def)

lemma okE:
  assumes "ok r"
  obtains v where "val r = Some v" "status_ok (status r)"
  using assms by (auto simp: ok_def)

lemma Success_eq_iff [simp]: "Success v = Success w \<longleftrightarrow> v = w"
  by (simp add: Success_def)

lemma Success_neq_Failure [simp]: "Success v \<noteq> Failure c m" "Failure c m \<noteq> Success v"
  by (simp_all add: Success_def Failure_def)

lemma Failure_eq_iff [simp]: "Failure c m = Failure c' m' \<longleftrightarrow> c = c' \<and> m = m'"
  by (simp add: Failure_def Status_Error_def)

lemma ErrorCodeName_inj: "ErrorCodeName c = ErrorCodeName d \<longleftrightarrow> c = d"
  by (cases c; cases d) simp_all

end
