(* ===== verification/Calendar.thy ===== *)
theory Calendar
  imports VL_Prelude
begin

text \<open>
  \<open>voicelife_schedule/src/calendar.cc\<close>: the civil calendar, with the 32-bit conversions of the
  source written out. The theory shows that the two conversions are inverse to each other on every
  valid date, that they count days (a day's successor has the next number, and 1970-01-01 is day
  zero), and that they keep the order of dates.
\<close>

section \<open>The code\<close>

definition IsLeapYear :: "int \<Rightarrow> bool" where
  "IsLeapYear year \<longleftrightarrow> (year smod 4 = 0 \<and> year smod 100 \<noteq> 0) \<or> year smod 400 = 0"

text \<open>The array access outside \<open>kDays\<close> is undefined behaviour: nothing is said of its value.\<close>

definition kDays :: "int list" where
  "kDays = [31, 28, 31, 30, 31, 30, 31, 31, 30, 31, 30, 31]"

definition DaysInMonth :: "int \<Rightarrow> int \<Rightarrow> int" where
  "DaysInMonth year month =
     (if month = 2 \<and> IsLeapYear year then 29
      else if 1 \<le> month \<and> month \<le> 12 then kDays ! nat (month - 1) else undefined)"

definition DaysFromCivil :: "int \<Rightarrow> int \<Rightarrow> int \<Rightarrow> int" where
  "DaysFromCivil y month day =
     (let year = y - (if month \<le> 2 then 1 else 0);
          era = (if year \<ge> 0 then year else year - 399) sdiv 400;
          yoe = u32 (year - era * 400);
          doy = u32 ((153 * (month + (if month > 2 then - 3 else 9)) + 2) sdiv 5 + day - 1);
          doe = u32 (yoe * 365 + yoe div 4 - yoe div 100 + doy)
      in era * 146097 + doe - 719468)"

definition CivilFromDays :: "int \<Rightarrow> int \<times> int \<times> int" where
  "CivilFromDays d =
     (let days = d + 719468;
          era = (if days \<ge> 0 then days else days - 146096) sdiv 146097;
          doe = u32 (days - era * 146097);
          yoe = u32 (doe - doe div 1460 + doe div 36524 - doe div 146096) div 365;
          year = i32 yoe + i32 (era * 400);
          doy = u32 (doe - u32 (365 * yoe + yoe div 4 - yoe div 100));
          mp = u32 (5 * doy + 2) div 153;
          day = i32 (u32 (doy - u32 (153 * mp + 2) div 5 + 1));
          month = i32 (u32 (mp + (if mp < 10 then 3 else - 9)))
      in (year + (if month \<le> 2 then 1 else 0), month, day))"

definition Weekday :: "int \<Rightarrow> int \<Rightarrow> int \<Rightarrow> int" where
  "Weekday year month day =
     (let days = DaysFromCivil year month day;
          weekday = i32 ((days + 3) smod 7)
      in if weekday < 0 then weekday + 7 else weekday)"

section \<open>Valid dates and the successor of a date\<close>

text \<open>Years whose day arithmetic stays within \<open>int\<close>; the product's dates are far inside.\<close>

definition civil_year :: "int \<Rightarrow> bool" where
  "civil_year y \<longleftrightarrow> - 2000000000 \<le> y \<and> y \<le> 2000000000"

definition valid_date :: "int \<Rightarrow> int \<Rightarrow> int \<Rightarrow> bool" where
  "valid_date y m d \<longleftrightarrow>
     civil_year y \<and> 1 \<le> m \<and> m \<le> 12 \<and> 1 \<le> d \<and> d \<le> DaysInMonth y m"

definition next_date :: "int \<times> int \<times> int \<Rightarrow> int \<times> int \<times> int" where
  "next_date = (\<lambda>(y, m, d).
     if d < DaysInMonth y m then (y, m, d + 1)
     else if m < 12 then (y, m + 1, 1) else (y + 1, 1, 1))"

section \<open>Leap years and months\<close>

lemma smod_eq_0_iff: "(a :: int) smod b = 0 \<longleftrightarrow> b dvd a"
  by (auto simp: signed_modulo_int_def mod_eq_0_iff_dvd sgn_0_0)

lemma IsLeapYear_iff: "IsLeapYear y \<longleftrightarrow> (4 dvd y \<and> \<not> 100 dvd y) \<or> 400 dvd y"
  by (simp add: IsLeapYear_def smod_eq_0_iff)

lemma era_floor: "(if 0 \<le> y then y else y - 399) sdiv 400 = (y :: int) div 400"
  by (auto simp: signed_divide_int_def sgn_if)

lemma era_floor_days: "(if 0 \<le> y then y else y - 146096) sdiv 146097 = (y :: int) div 146097"
  by (auto simp: signed_divide_int_def sgn_if)

lemma month_cases:
  fixes m :: int
  assumes "1 \<le> m" "m \<le> 12"
  obtains "m = 1" | "m = 2" | "m = 3" | "m = 4" | "m = 5" | "m = 6" | "m = 7" | "m = 8" | "m = 9"
    | "m = 10" | "m = 11" | "m = 12"
proof -
  from assms have "m \<in> set [1..12]" by simp
  then have "m \<in> {1, 2, 3, 4, 5, 6, 7, 8, 9, 10, 11, 12}" by (simp add: upto.simps)
  with that show thesis by blast
qed

lemma DaysInMonth_simps:
  "DaysInMonth y 1 = 31" "DaysInMonth y 2 = (if IsLeapYear y then 29 else 28)"
  "DaysInMonth y 3 = 31" "DaysInMonth y 4 = 30" "DaysInMonth y 5 = 31" "DaysInMonth y 6 = 30"
  "DaysInMonth y 7 = 31" "DaysInMonth y 8 = 31" "DaysInMonth y 9 = 30" "DaysInMonth y 10 = 31"
  "DaysInMonth y 11 = 30" "DaysInMonth y 12 = 31"
  by (simp_all add: DaysInMonth_def kDays_def)

lemma DaysInMonth_bounds:
  assumes "1 \<le> m" "m \<le> 12"
  shows "28 \<le> DaysInMonth y m" "DaysInMonth y m \<le> 31"
  using assms by (cases rule: month_cases; simp add: DaysInMonth_simps)+

section \<open>The March-based year\<close>

text \<open>
  The code moves January and February to the end of the previous year. \<open>march_month\<close> numbers the
  months from March, \<open>march_day\<close> the days from 1 March, and \<open>year_start\<close> is the number of days
  from the start of an era (0000-03-01) to the start of a March-based year.
\<close>

definition march_month :: "int \<Rightarrow> int" where
  "march_month m = (if m > 2 then m - 3 else m + 9)"

definition march_year :: "int \<Rightarrow> int \<Rightarrow> int" where
  "march_year y m = (if m \<le> 2 then y - 1 else y)"

definition march_day :: "int \<Rightarrow> int \<Rightarrow> int" where
  "march_day m d = (153 * march_month m + 2) div 5 + d - 1"

definition year_start :: "int \<Rightarrow> int" where
  "year_start y = 365 * y + y div 4 - y div 100 + y div 400"

lemmas march_defs = march_month_def march_year_def march_day_def

lemma march_day_bounds:
  assumes "valid_date y m d"
  shows "0 \<le> march_day m d"
    and "march_day m d \<le> 364 + (if IsLeapYear (march_year y m + 1) then 1 else 0)"
proof -
  from assms have m: "1 \<le> m" "m \<le> 12" and d: "1 \<le> d" "d \<le> DaysInMonth y m"
    by (simp_all add: valid_date_def)
  from m show "0 \<le> march_day m d"
    by (cases rule: month_cases) (use d in \<open>simp_all add: march_defs\<close>)
  from m show "march_day m d \<le> 364 + (if IsLeapYear (march_year y m + 1) then 1 else 0)"
    by (cases rule: month_cases) (use d in \<open>simp_all add: march_defs DaysInMonth_simps split: if_splits\<close>)
qed

text \<open>A year of the March-based calendar has 366 days when the January in it is of a leap year.\<close>

lemma div_Suc:
  fixes y k :: int
  assumes "0 < k"
  shows "(y + 1) div k = y div k + (if k dvd y + 1 then 1 else 0)"
proof (cases "k dvd y + 1")
  case True
  then obtain c where c: "y + 1 = k * c" ..
  with assms have "y div k = c - 1"
    by (intro int_div_pos_eq [where r = "k - 1"]) (simp_all add: algebra_simps)
  with True c assms show ?thesis by simp
next
  case False
  then have "(y + 1) mod k \<noteq> 0" by (simp add: dvd_eq_mod_eq_0)
  moreover have "0 \<le> (y + 1) mod k" "(y + 1) mod k < k"
    using assms by simp_all
  ultimately have r: "0 < (y + 1) mod k" "(y + 1) mod k < k" by simp_all
  have "y = k * ((y + 1) div k) + ((y + 1) mod k - 1)"
    using mult_div_mod_eq [of k "y + 1"] by linarith
  then have "y div k = (y + 1) div k"
    by (rule int_div_pos_eq) (use r in simp_all)
  with False show ?thesis by simp
qed

lemma year_start_Suc:
  "year_start (y + 1) = year_start y + 365 + (if IsLeapYear (y + 1) then 1 else 0)"
proof -
  have "100 dvd x" if "400 dvd x" for x :: int
    by (rule dvd_trans [OF _ that]) simp
  moreover have "4 dvd x" if "100 dvd x" for x :: int
    by (rule dvd_trans [OF _ that]) simp
  ultimately show ?thesis
    by (auto simp: year_start_def IsLeapYear_iff div_Suc)
qed

lemma year_start_era: "year_start y = (y div 400) * 146097 + year_start (y mod 400)"
proof -
  define E where "E = y div 400"
  define r where "r = y mod 400"
  have y: "y = 400 * E + r" and r: "0 \<le> r" "r < 400" by (simp_all add: E_def r_def)
  have "(4 * (100 * E) + r) div 4 = 100 * E + r div 4"
    and "(100 * (4 * E) + r) div 100 = 4 * E + r div 100"
    and "(400 * E + r) div 400 = E + r div 400" by simp_all
  then have "year_start (400 * E + r) = 146097 * E + year_start r"
    by (simp add: year_start_def algebra_simps)
  then have "year_start y = 146097 * E + year_start r" using y by metis
  then show ?thesis by (simp add: E_def r_def mult.commute)
qed

lemma year_start_small: "0 \<le> y \<Longrightarrow> y < 400 \<Longrightarrow> year_start y = 365 * y + y div 4 - y div 100"
  by (simp add: year_start_def)

lemma year_start_mono:
  assumes "x \<le> y"
  shows "year_start x + 365 * (y - x) \<le> year_start y"
  using assms
proof (induction y rule: int_ge_induct)
  case (step i)
  have "year_start i + 365 \<le> year_start (i + 1)" by (simp add: year_start_Suc)
  with step show ?case by (simp add: algebra_simps)
qed simp

lemma year_start_bounds:
  assumes "0 \<le> y" "y < 400"
  shows "365 * y \<le> year_start y" "year_start y \<le> 365 * y + 99"
  using year_start_mono [OF assms(1)] assms by (simp_all add: year_start_small year_start_def)

lemma year_end_le:
  assumes "0 \<le> y" "y < 400"
  shows "year_start (y + 1) \<le> 146097"
proof -
  have "year_start (y + 1) + 365 * (400 - (y + 1)) \<le> year_start 400"
    using assms by (intro year_start_mono) simp
  moreover have "year_start 400 = 146097" by (simp add: year_start_def)
  moreover have "0 \<le> 365 * (400 - (y + 1))" using assms by simp
  ultimately show ?thesis by linarith
qed

section \<open>Days from a date\<close>

lemma march_year_day_count:
  assumes "valid_date y m d"
  shows "DaysFromCivil y m d = year_start (march_year y m) + march_day m d - 719468"
proof -
  let ?Y = "march_year y m"
  from assms have m: "1 \<le> m" "m \<le> 12" by (simp_all add: valid_date_def)
  note md = march_day_bounds [OF assms]
  have doy: "u32 ((153 * (m + (if m > 2 then - 3 else 9)) + 2) sdiv 5 + d - 1) = march_day m d"
    using m md by (auto simp: march_defs width_simps split: if_splits)
  have Y: "y - (if m \<le> 2 then 1 else 0) = ?Y" by (simp add: march_year_def)
  have yoe: "u32 (?Y - ?Y div 400 * 400) = ?Y mod 400"
    by (simp add: minus_div_mult_eq_mod width_simps)
  have r: "0 \<le> ?Y mod 400" "?Y mod 400 < 400" by simp_all
  have "u32 (?Y mod 400 * 365 + ?Y mod 400 div 4 - ?Y mod 400 div 100 + march_day m d)
      = year_start (?Y mod 400) + march_day m d"
  proof -
    have "0 \<le> year_start (?Y mod 400) + march_day m d"
      and "year_start (?Y mod 400) + march_day m d < 4294967296"
      using md year_start_bounds [OF r] r by (simp_all split: if_splits)
    then show ?thesis by (simp add: u32_id year_start_small mult.commute)
  qed
  then have "DaysFromCivil y m d
      = ?Y div 400 * 146097 + (year_start (?Y mod 400) + march_day m d) - 719468"
    unfolding DaysFromCivil_def Let_def Y era_floor yoe doy by simp
  with year_start_era [of ?Y] show ?thesis by simp
qed

section \<open>A date from days\<close>

definition year_index :: "int \<Rightarrow> int" where
  "year_index doe = doe - doe div 1460 + doe div 36524 - doe div 146096"

lemma year_index_mono:
  assumes "a \<le> b"
  shows "year_index a \<le> year_index b"
  using assms
proof (induction b rule: int_ge_induct)
  case (step i)
  have "36524 dvd x" if "146096 dvd x" for x :: int
    by (rule dvd_trans [OF _ that]) simp
  then have "i div 36524 - i div 146096 \<le> (i + 1) div 36524 - (i + 1) div 146096"
    by (simp add: div_Suc)
  moreover have "(i + 1) div 1460 \<le> i div 1460 + 1" by (simp add: div_Suc)
  ultimately have "year_index i \<le> year_index (i + 1)" unfolding year_index_def by linarith
  with step show ?case by simp
qed simp

lemma year_index_ends:
  assumes "0 \<le> y" "y < 400"
  shows "365 * y \<le> year_index (year_start y)"
    and "year_index (year_start (y + 1) - 1) < 365 * (y + 1)"
proof -
  have "list_all (\<lambda>y. 365 * y \<le> year_index (year_start y) \<and>
      year_index (year_start (y + 1) - 1) < 365 * (y + 1)) [0..399]"
    by code_simp
  then have "\<forall>y \<in> {0..399}. 365 * y \<le> year_index (year_start y) \<and>
      year_index (year_start (y + 1) - 1) < 365 * (y + 1)"
    by (simp only: list_all_iff set_upto)
  with assms show "365 * y \<le> year_index (year_start y)"
    and "year_index (year_start (y + 1) - 1) < 365 * (y + 1)" by simp_all
qed

lemma year_of_era:
  assumes "0 \<le> y" "y < 400" "year_start y \<le> doe" "doe < year_start (y + 1)"
  shows "year_index doe div 365 = y"
proof -
  from assms year_index_mono [OF assms(3)] year_index_ends [OF assms(1,2)]
  have lo: "365 * y \<le> year_index doe" by linarith
  from assms(4) have "doe \<le> year_start (y + 1) - 1" by simp
  from year_index_mono [OF this] year_index_ends [OF assms(1,2)]
  have "year_index doe < 365 * (y + 1)" by linarith
  with lo show ?thesis by (intro int_div_pos_eq [where r = "year_index doe - 365 * y"]) simp_all
qed

lemma month_of_march_day:
  assumes "1 \<le> m" "m \<le> 12" "1 \<le> d" "d \<le> DaysInMonth y m"
  shows "(5 * march_day m d + 2) div 153 = march_month m"
  using assms(1,2)
  by (cases rule: month_cases)
    (use assms(3,4) in \<open>simp_all add: march_defs DaysInMonth_simps split: if_splits\<close>)

lemma IsLeapYear_periodic: "IsLeapYear (400 * e + y) = IsLeapYear y"
proof -
  have "k dvd 400 * e + y \<longleftrightarrow> k dvd y" if "k dvd 400" for k :: int
    using that by (simp add: dvd_add_right_iff)
  from this [of 4] this [of 100] this [of 400] show ?thesis by (simp add: IsLeapYear_iff)
qed

text \<open>The position in its era of a day given by its March-based year and day.\<close>

lemma era_position:
  assumes "0 \<le> doy" "year_start Y + doy < year_start (Y + 1)"
  defines "doe \<equiv> year_start (Y mod 400) + doy"
  shows "(year_start Y + doy) div 146097 = Y div 400"
    and "year_start Y + doy - Y div 400 * 146097 = doe"
    and "0 \<le> doe" "doe < 146097" "doe < year_start (Y mod 400 + 1)" "doy \<le> 365"
proof -
  let ?r = "Y mod 400"
  have r: "0 \<le> ?r" "?r < 400" by simp_all
  have leap: "IsLeapYear (Y + 1) = IsLeapYear (?r + 1)"
    using IsLeapYear_periodic [of "Y div 400" "?r + 1"] by (simp add: algebra_simps)
  show doy: "doy \<le> 365"
    using assms(2) year_start_Suc [of Y] by (simp split: if_splits)
  show less: "doe < year_start (?r + 1)"
    using assms(2) year_start_Suc [of Y] year_start_Suc [of ?r] leap
    by (simp add: doe_def split: if_splits)
  have "year_start (?r + 1) \<le> 146097" using r by (rule year_end_le)
  with less show top: "doe < 146097" by simp
  show nonneg: "0 \<le> doe" using year_start_bounds [OF r] assms(1) by (simp add: doe_def)
  show "year_start Y + doy - Y div 400 * 146097 = doe"
    using year_start_era [of Y] by (simp add: doe_def)
  then have "year_start Y + doy = 146097 * (Y div 400) + doe" by simp
  then show "(year_start Y + doy) div 146097 = Y div 400"
    by (rule int_div_pos_eq) (use nonneg top in simp_all)
qed

text \<open>\<open>CivilFromDays\<close> for a day count whose March-based year and day are known.\<close>

lemma CivilFromDays_eq:
  assumes Y: "- 2100000000 \<le> Y" "Y \<le> 2100000000"
    and doy: "0 \<le> doy" "year_start Y + doy < year_start (Y + 1)"
  defines "mp \<equiv> (5 * doy + 2) div 153"
  defines "m \<equiv> mp + (if mp < 10 then 3 else - 9)"
  shows "CivilFromDays (year_start Y + doy - 719468) =
    (Y + (if m \<le> 2 then 1 else 0), m, doy - (153 * mp + 2) div 5 + 1)"
proof -
  let ?r = "Y mod 400"
  note pos = era_position [OF doy]
  define doe where "doe = year_start ?r + doy"
  have r: "0 \<le> ?r" "?r < 400" by simp_all
  have year: "year_index doe div 365 = ?r"
    using pos doy(1) by (intro year_of_era [OF r]) (simp_all add: doe_def)
  then have "0 \<le> year_index doe" "year_index doe < 365 * 400" using r by linarith+
  then have yoe: "u32 (doe - doe div 1460 + doe div 36524 - doe div 146096) div 365 = ?r"
    using year by (simp add: u32_id year_index_def)
  have start: "u32 (365 * ?r + ?r div 4 - ?r div 100) = year_start ?r"
    using year_start_bounds [OF r] r by (simp add: u32_id year_start_small [OF r, symmetric])
  have doe': "u32 doe = doe" using pos by (simp add: u32_id doe_def)
  have doy': "u32 (doe - year_start ?r) = doy" using pos doy(1) by (simp add: u32_id doe_def)
  have mp: "0 \<le> mp" "mp \<le> 11" using doy(1) pos(6) by (simp_all add: mp_def)
  have "153 * mp \<le> 5 * doy + 2" unfolding mp_def by linarith
  then have day: "0 \<le> doy - (153 * mp + 2) div 5 + 1" by linarith
  have mp': "u32 (5 * doy + 2) div 153 = mp"
    using doy(1) pos(6) by (simp add: u32_id mp_def)
  have m: "1 \<le> m" "m \<le> 12" using mp by (auto simp: m_def)
  have m': "i32 (u32 (mp + (if mp < 10 then 3 else - 9))) = m"
    using m by (simp add: u32_id i32_id flip: m_def)
  have day': "i32 (u32 (doy - u32 (153 * mp + 2) div 5 + 1)) = doy - (153 * mp + 2) div 5 + 1"
    using day mp doy(1) pos(6) by (simp add: u32_id i32_id)
  have "Y div 400 * 400 = Y - ?r" by (simp add: minus_mod_eq_div_mult)
  then have y': "i32 ?r + i32 (Y div 400 * 400) = Y" using Y r by (simp add: i32_id)
  have days: "year_start Y + doy - 719468 + 719468 = year_start Y + doy" by simp
  show ?thesis
    unfolding CivilFromDays_def Let_def days era_floor_days pos(1)
      pos(2) [folded doe_def] doe' yoe start doy' mp' m' day' y' ..
qed

section \<open>Round trips, order and counting\<close>

lemma march_month_bounds: "1 \<le> m \<Longrightarrow> m \<le> 12 \<Longrightarrow> 0 \<le> march_month m \<and> march_month m \<le> 11"
  by (auto simp: march_month_def)

lemma march_position:
  assumes "valid_date y m d"
  shows "- 2100000000 \<le> march_year y m" "march_year y m \<le> 2100000000" "0 \<le> march_day m d"
    "year_start (march_year y m) + march_day m d < year_start (march_year y m + 1)"
  using march_day_bounds [OF assms] assms year_start_Suc [of "march_year y m"]
  by (auto simp: valid_date_def civil_year_def march_year_def split: if_splits)

lemma civil_roundtrip:
  assumes "valid_date y m d"
  shows "CivilFromDays (DaysFromCivil y m d) = (y, m, d)"
proof -
  from assms have m: "1 \<le> m" "m \<le> 12" and d: "1 \<le> d" "d \<le> DaysInMonth y m"
    by (simp_all add: valid_date_def)
  note mp = month_of_march_day [OF m d]
  have "march_month m + (if march_month m < 10 then 3 else - 9) = m"
    using m by (auto simp: march_month_def)
  then show ?thesis
    using CivilFromDays_eq [OF march_position [OF assms]]
    by (simp add: march_year_day_count [OF assms] mp march_year_def)
      (simp add: march_day_def)
qed

text \<open>Every day count of the supported range lies in one March-based year.\<close>

lemma march_year_exists:
  assumes "year_start a \<le> n" "n < year_start b" "a \<le> b"
  shows "\<exists>Y. a \<le> Y \<and> Y < b \<and> year_start Y \<le> n \<and> n < year_start (Y + 1)"
  using assms(3,2)
proof (induction b rule: int_ge_induct)
  case base
  with assms(1) show ?case by simp
next
  case (step i)
  show ?case
  proof (cases "n < year_start i")
    case True
    with step.IH obtain Y where "a \<le> Y" "Y < i" "year_start Y \<le> n" "n < year_start (Y + 1)"
      by blast
    then show ?thesis by (intro exI [of _ Y]) simp
  next
    case False
    with step.hyps step.prems show ?thesis by (intro exI [of _ i]) simp
  qed
qed

definition civil_days :: "int \<Rightarrow> bool" where
  "civil_days n \<longleftrightarrow> - 730000000000 \<le> n \<and> n \<le> 730000000000"

lemma march_date_valid:
  assumes Y: "- 1999999999 \<le> Y" "Y < 2000000000" and doy: "0 \<le> doy" "year_start Y + doy < year_start (Y + 1)"
  defines "mp \<equiv> (5 * doy + 2) div 153"
  defines "m \<equiv> mp + (if mp < 10 then 3 else - 9)"
  defines "y \<equiv> Y + (if m \<le> 2 then 1 else 0)" and "d \<equiv> doy - (153 * mp + 2) div 5 + 1"
  shows "valid_date y m d" "march_year y m = Y" "march_day m d = doy"
proof -
  have doy': "doy \<le> 364 + (if IsLeapYear (Y + 1) then 1 else 0)"
    using doy year_start_Suc [of Y] by (simp split: if_splits)
  have "mp \<in> set [0..11]" using doy doy' by (auto simp: mp_def split: if_splits)
  then have mp: "mp \<in> {0, 1, 2, 3, 4, 5, 6, 7, 8, 9, 10, 11}" by (simp add: upto.simps)
  have lo: "153 * mp \<le> 5 * doy + 2" and hi: "5 * doy + 2 < 153 * (mp + 1)"
    using div_mult_mod_eq [of "5 * doy + 2" 153] pos_mod_sign [of 153 "5 * doy + 2"]
      pos_mod_bound [of 153 "5 * doy + 2"] by (simp_all add: mp_def)
  show "march_year y m = Y" using mp by (auto simp: march_year_def y_def m_def)
  have mm: "march_month m = mp" using mp by (auto simp: march_month_def m_def)
  then show "march_day m d = doy" by (simp add: march_day_def d_def)
  have "1 \<le> d" using lo unfolding d_def by linarith
  moreover have "d \<le> DaysInMonth y m"
    using mp lo hi doy' by (auto simp: d_def m_def y_def DaysInMonth_simps split: if_splits)
  ultimately show "valid_date y m d"
    using mp Y by (auto simp: valid_date_def civil_year_def m_def y_def)
qed

lemma days_roundtrip:
  assumes "civil_days n"
  shows "case CivilFromDays n of (y, m, d) \<Rightarrow> valid_date y m d \<and> DaysFromCivil y m d = n"
proof -
  have "year_start (- 1999999999) \<le> n + 719468" "n + 719468 < year_start 2000000000"
    using assms by (simp_all add: civil_days_def year_start_def)
  from march_year_exists [OF this] obtain Y where
    Y: "- 1999999999 \<le> Y" "Y < 2000000000" and
    doy: "0 \<le> n + 719468 - year_start Y" "year_start Y + (n + 719468 - year_start Y) < year_start (Y + 1)"
    by auto
  from march_date_valid [OF Y doy] CivilFromDays_eq [OF _ _ doy] Y show ?thesis
    by (simp add: march_year_day_count)
qed

text \<open>The order of dates is the order of their day counts.\<close>

definition date_less :: "int \<times> int \<times> int \<Rightarrow> int \<times> int \<times> int \<Rightarrow> bool" where
  "date_less = (\<lambda>(y, m, d) (y', m', d'). y < y' \<or> (y = y' \<and> (m < m' \<or> (m = m' \<and> d < d'))))"

lemma DaysFromCivil_less:
  assumes v: "valid_date y m d" and v': "valid_date y' m' d'" and less: "date_less (y, m, d) (y', m', d')"
  shows "DaysFromCivil y m d < DaysFromCivil y' m' d'"
proof (cases "march_year y m = march_year y' m'")
  case True
  from v v' have m: "1 \<le> m" "m \<le> 12" "1 \<le> m'" "m' \<le> 12" and d: "d \<le> DaysInMonth y m" "1 \<le> d'"
    by (simp_all add: valid_date_def)
  have lex: "march_month m < march_month m' \<or> (m = m' \<and> d < d')"
    using less True m by (auto simp: date_less_def march_year_def march_month_def split: if_splits)
  have "march_day m d < march_day m' d'"
  proof (cases "m = m'")
    case False
    then have lt: "march_month m + 1 \<le> march_month m'" using lex by simp
    have "d \<le> (153 * (march_month m + 1) + 2) div 5 - (153 * march_month m + 2) div 5"
      if "march_month m < 11"
      using m(1,2) by (cases rule: month_cases)
        (use d(1) that in \<open>simp_all add: march_month_def DaysInMonth_simps split: if_splits\<close>)
    moreover have "march_month m < 11" using lt march_month_bounds [OF m(3,4)] by simp
    moreover have "(153 * (march_month m + 1) + 2) div 5 \<le> (153 * march_month m' + 2) div 5"
      using lt by (intro zdiv_mono1) simp_all
    ultimately show ?thesis using d(2) by (simp add: march_day_def)
  qed (use lex in \<open>simp add: march_day_def\<close>)
  with True show ?thesis by (simp add: march_year_day_count [OF v] march_year_day_count [OF v'])
next
  case False
  have "march_year y m + 1 \<le> march_year y' m'"
    using less False v v' by (auto simp: date_less_def march_year_def valid_date_def split: if_splits)
  then have "year_start (march_year y m + 1) \<le> year_start (march_year y' m')"
    using year_start_mono by fastforce
  with march_position(4) [OF v] march_position(3) [OF v'] show ?thesis
    by (simp add: march_year_day_count [OF v] march_year_day_count [OF v'])
qed

lemma DaysFromCivil_less_iff:
  assumes v: "valid_date y m d" and v': "valid_date y' m' d'"
  shows "DaysFromCivil y m d < DaysFromCivil y' m' d' \<longleftrightarrow> date_less (y, m, d) (y', m', d')"
proof
  assume lt: "DaysFromCivil y m d < DaysFromCivil y' m' d'"
  show "date_less (y, m, d) (y', m', d')"
  proof (rule ccontr)
    assume "\<not> date_less (y, m, d) (y', m', d')"
    then have "(y, m, d) = (y', m', d') \<or> date_less (y', m', d') (y, m, d)"
      by (auto simp: date_less_def)
    with lt DaysFromCivil_less [OF v' v] show False by auto
  qed
qed (rule DaysFromCivil_less [OF v v'])

lemma DaysFromCivil_eq_iff:
  assumes v: "valid_date y m d" and v': "valid_date y' m' d'"
  shows "DaysFromCivil y m d = DaysFromCivil y' m' d' \<longleftrightarrow> (y, m, d) = (y', m', d')"
proof
  assume "DaysFromCivil y m d = DaysFromCivil y' m' d'"
  then have "CivilFromDays (DaysFromCivil y m d) = CivilFromDays (DaysFromCivil y' m' d')" by simp
  then show "(y, m, d) = (y', m', d')" by (simp add: civil_roundtrip [OF v] civil_roundtrip [OF v'])
qed simp

lemma Weekday_eq:
  "Weekday y m d = (DaysFromCivil y m d + 3) mod 7"
proof -
  define n where "n = DaysFromCivil y m d + 3"
  have "- 7 < n smod 7" "n smod 7 < 7"
    using smod_int_range [of 7 n] by simp_all
  then show ?thesis
    by (simp add: Weekday_def Let_def i32_id flip: n_def)
      (auto simp: signed_modulo_int_eq_modulo_int split: if_splits)
qed

lemma next_date_count:
  assumes v: "valid_date y m d" and y: "y < 2000000000" and n: "next_date (y, m, d) = (y', m', d')"
  shows "valid_date y' m' d'" "DaysFromCivil y' m' d' = DaysFromCivil y m d + 1"
proof -
  from v have m: "1 \<le> m" "m \<le> 12" and d: "1 \<le> d" "d \<le> DaysInMonth y m"
    by (simp_all add: valid_date_def)
  show v': "valid_date y' m' d'"
    using v y n DaysInMonth_bounds [of "m + 1" y] DaysInMonth_bounds [of 1 "y + 1"]
    by (auto simp: next_date_def valid_date_def civil_year_def split: if_splits)
  have leap: "year_start y = year_start (y - 1) + 365 + (if IsLeapYear y then 1 else 0)"
    using year_start_Suc [of "y - 1"] by simp
  have "year_start (march_year y' m') + march_day m' d' = year_start (march_year y m) + march_day m d + 1"
    using m by (cases rule: month_cases)
      (use n d leap in \<open>auto simp: next_date_def march_defs DaysInMonth_simps split: if_splits\<close>)
  then show "DaysFromCivil y' m' d' = DaysFromCivil y m d + 1"
    by (simp add: march_year_day_count [OF v] march_year_day_count [OF v'])
qed

section \<open>Properties\<close>

text \<open>
  C38. The two calendar conversions are inverse to each other: every valid date is recovered from
  its day count, and every day count in range yields a valid date with that count.
\<close>

theorem calendar_roundtrip:
  "(valid_date y m d \<longrightarrow> CivilFromDays (DaysFromCivil y m d) = (y, m, d)) \<and>
   (civil_days n \<longrightarrow>
     (case CivilFromDays n of (y', m', d') \<Rightarrow> valid_date y' m' d' \<and> DaysFromCivil y' m' d' = n))"
  by (intro conjI impI civil_roundtrip days_roundtrip)

theorem calendar_roundtrip_witness:
  "valid_date 2024 2 29 \<and> civil_days 19782 \<and>
   CivilFromDays (DaysFromCivil 2024 2 29) = (2024, 2, 29) \<and>
   (case CivilFromDays 19782 of (y, m, d) \<Rightarrow> DaysFromCivil y m d = 19782)"
proof -
  have v: "valid_date 2024 2 29" and n: "civil_days 19782"
    by (simp_all add: valid_date_def civil_year_def civil_days_def DaysInMonth_simps IsLeapYear_iff)
  from v n calendar_roundtrip [of 2024 2 29 19782] show ?thesis by (auto split: prod.splits)
qed

text \<open>
  \<open>DaysFromCivil\<close> counts days: 1970-01-01 is day 0, the calendar successor of a valid date is
  valid and has the next number, so the order of dates is the order of their numbers.
\<close>

theorem calendar_counts_days:
  "DaysFromCivil 1970 1 1 = 0 \<and>
   (valid_date y m d \<and> y < 2000000000 \<and> next_date (y, m, d) = (y', m', d') \<longrightarrow>
      valid_date y' m' d' \<and> DaysFromCivil y' m' d' = DaysFromCivil y m d + 1) \<and>
   (valid_date y m d \<and> valid_date a b c \<longrightarrow>
      (DaysFromCivil y m d < DaysFromCivil a b c \<longleftrightarrow> date_less (y, m, d) (a, b, c)))"
proof -
  have "DaysFromCivil 1970 1 1 = 0"
    by (subst march_year_day_count)
      (simp_all add: valid_date_def civil_year_def DaysInMonth_simps march_defs year_start_def)
  then show ?thesis using next_date_count DaysFromCivil_less_iff by auto
qed

theorem calendar_counts_days_witness:
  "next_date (2023, 12, 31) = (2024, 1, 1) \<and>
   DaysFromCivil 2024 1 1 = DaysFromCivil 2023 12 31 + 1 \<and>
   DaysFromCivil 2023 12 31 < DaysFromCivil 2024 2 29"
proof -
  have v: "valid_date 2023 12 31" "valid_date 2024 2 29"
    and n: "next_date (2023, 12, 31) = (2024, 1, 1)" and l: "date_less (2023, 12, 31) (2024, 2, 29)"
    by (simp_all add: valid_date_def civil_year_def next_date_def date_less_def DaysInMonth_simps
        IsLeapYear_iff)
  from v n l calendar_counts_days [of 2023 12 31 2024 1 1 2024 2 29] show ?thesis by simp
qed

text \<open>
  \<open>Weekday\<close> numbers the days from Monday: it lies in 0..6, 1970-01-01 is a Thursday, and the
  successor of a valid date falls on the next day of the week.
\<close>

theorem weekday_cycles:
  "0 \<le> Weekday y m d \<and> Weekday y m d \<le> 6 \<and> Weekday 1970 1 1 = 3 \<and>
   (valid_date y m d \<and> y < 2000000000 \<and> next_date (y, m, d) = (y', m', d') \<longrightarrow>
      Weekday y' m' d' = (Weekday y m d + 1) mod 7)"
proof -
  have "0 \<le> n mod 7 \<and> n mod 7 \<le> 6" for n :: int by presburger
  moreover have "Weekday 1970 1 1 = 3"
    unfolding Weekday_eq
    by (subst march_year_day_count)
      (simp_all add: valid_date_def civil_year_def DaysInMonth_simps march_defs year_start_def)
  moreover have "Weekday y' m' d' = (Weekday y m d + 1) mod 7"
    if "valid_date y m d" "y < 2000000000" "next_date (y, m, d) = (y', m', d')"
    using next_date_count(2) [OF that] by (simp add: Weekday_eq mod_simps algebra_simps)
  ultimately show ?thesis by (simp add: Weekday_eq)
qed

theorem weekday_cycles_witness:
  "next_date (2023, 12, 31) = (2024, 1, 1) \<and> Weekday 2024 1 1 = (Weekday 2023 12 31 + 1) mod 7"
proof -
  have v: "valid_date 2023 12 31" and n: "next_date (2023, 12, 31) = (2024, 1, 1)"
    by (simp_all add: valid_date_def civil_year_def next_date_def DaysInMonth_simps)
  from v n weekday_cycles [of 2023 12 31 2024 1 1] show ?thesis by simp
qed

end
