(* ===== verification/Schedule_Types.thy ===== *)
theory Schedule_Types
  imports Contracts Calendar
begin

text \<open>
  \<open>voicelife_schedule\<close>: the entities of \<open>schedule_types.h\<close>, the commands of \<open>schedule_commands.h\<close>
  and \<open>schedule_rule_commands.h\<close>, the results of \<open>schedule_results.h\<close> and
  \<open>schedule_rule_results.h\<close>, and the factory of \<open>schedule_factory.cc\<close>. A \<open>DateTime\<close> is the number
  of seconds since the epoch; the default-constructed one is 0. A \<open>uint8_t\<close> is an \<open>8 word\<close>.
\<close>

type_synonym ScheduleId = int
type_synonym OperationId = int
type_synonym ScheduleRuleId = int
type_synonym ScheduleExceptionId = int
type_synonym DateTime = int
type_synonym uint8 = "8 word"

section \<open>Entities\<close>

datatype ScheduleStatus = kActive | kCancelled | kCompleted

datatype ScheduleStatusFilter = Filter_kAll | Filter_kActive | Filter_kCancelled | Filter_kCompleted

datatype OperationEntityType = Entity_kSchedule | Entity_kRule | Entity_kException

datatype ScheduleOperationType = Op_kCreate | Op_kUpdate | Op_kDelete

record Schedule =
  sc_id :: ScheduleId
  sc_event :: string
  sc_start_time :: "DateTime option"
  sc_end_time :: "DateTime option"
  sc_location :: "string option"
  sc_notes :: "string option"
  sc_rule_id :: "ScheduleId option"
  sc_status :: ScheduleStatus
  sc_created_at :: DateTime
  sc_updated_at :: DateTime

record OperationRecord =
  op_id :: OperationId
  op_entity_type :: OperationEntityType
  op_type :: ScheduleOperationType
  op_entity_id :: int
  op_operated_at :: DateTime
  op_label :: string
  op_before :: "string option"

datatype Frequency = kDaily | kWeekly | kMonthly | kYearly

datatype MonthlyMode = kSpecificDay | kLastDay

datatype ExceptionType = kModify | kSkip

record LocalDate =
  year :: int
  month :: int
  day :: int

record LocalTime =
  hour :: int
  minute :: int
  second :: int

record ScheduleRule =
  ru_id :: ScheduleRuleId
  ru_event :: string
  ru_location :: "string option"
  ru_notes :: "string option"
  ru_freq_type :: Frequency
  ru_interval_val :: int
  ru_weekdays_mask :: "uint8 option"
  ru_day_of_month :: "uint8 option"
  ru_month_of_year :: "uint8 option"
  ru_monthly_mode :: "MonthlyMode option"
  ru_start_time :: LocalTime
  ru_end_time :: "LocalTime option"
  ru_start_date :: LocalDate
  ru_end_date :: "LocalDate option"
  ru_occurrence_count :: "int option"
  ru_status :: ScheduleStatus
  ru_created_at :: DateTime
  ru_updated_at :: DateTime

record ScheduleException =
  ex_id :: ScheduleExceptionId
  ex_rule_id :: ScheduleRuleId
  ex_original_start_time :: DateTime
  ex_schedule_id :: "ScheduleId option"
  ex_type :: ExceptionType
  ex_override_start_time :: "DateTime option"
  ex_override_end_time :: "DateTime option"
  ex_override_event :: "string option"
  ex_override_location :: "string option"
  ex_override_notes :: "string option"
  ex_created_at :: DateTime
  ex_updated_at :: DateTime

section \<open>Commands\<close>

text \<open>A nullable update: \<open>None\<close> leaves the field, \<open>Some None\<close> clears it.\<close>

type_synonym 'a NullableUpdate = "'a option option"

record CreateScheduleCommand =
  cs_event :: string
  cs_start_time :: "DateTime option"
  cs_end_time :: "DateTime option"
  cs_location :: "string option"
  cs_notes :: "string option"
  cs_ignore_conflict :: bool

record UpdateScheduleCommand =
  us_schedule_id :: ScheduleId
  us_event :: "string option"
  us_start_time :: "DateTime NullableUpdate"
  us_end_time :: "DateTime NullableUpdate"
  us_location :: "string NullableUpdate"
  us_notes :: "string NullableUpdate"
  us_ignore_conflict :: bool

record QueryScheduleCommand =
  qs_schedule_id :: "ScheduleId option"
  qs_rule_id :: "ScheduleId option"
  qs_keyword :: "string option"
  qs_start_from :: "DateTime option"
  qs_start_to :: "DateTime option"
  qs_status :: ScheduleStatusFilter
  qs_limit :: int
  qs_offset :: int

record RecordOperationCommand =
  ro_entity_type :: OperationEntityType
  ro_type :: ScheduleOperationType
  ro_entity_id :: int
  ro_label :: string
  ro_before :: "string option"

record QueryOperationCommand =
  qo_operation_id :: "OperationId option"
  qo_entity_type :: "OperationEntityType option"
  qo_entity_id :: "int option"
  qo_type :: "ScheduleOperationType option"
  qo_operated_from :: "DateTime option"
  qo_operated_to :: "DateTime option"
  qo_keyword :: "string option"
  qo_limit :: int
  qo_offset :: int

record CreateScheduleRuleCommand =
  cr_event :: string
  cr_freq_type :: Frequency
  cr_start_time :: LocalTime
  cr_start_date :: "LocalDate option"
  cr_end_time :: "LocalTime option"
  cr_location :: "string option"
  cr_notes :: "string option"
  cr_interval_val :: int
  cr_weekdays_mask :: "uint8 option"
  cr_day_of_month :: "uint8 option"
  cr_month_of_year :: "uint8 option"
  cr_monthly_mode :: "MonthlyMode option"
  cr_end_date :: "LocalDate option"
  cr_occurrence_count :: "int option"
  cr_ignore_conflict :: bool

record QueryScheduleRulesCommand =
  qr_rule_id :: "ScheduleRuleId option"
  qr_keyword :: "string option"
  qr_status :: ScheduleStatusFilter
  qr_occurrence_start :: "DateTime option"
  qr_occurrence_end :: "DateTime option"
  qr_limit :: int
  qr_offset :: int

record UpdateScheduleRuleCommand =
  ur_rule_id :: ScheduleRuleId
  ur_event :: "string option"
  ur_location :: "string NullableUpdate"
  ur_notes :: "string NullableUpdate"
  ur_freq_type :: "Frequency option"
  ur_interval_val :: "int option"
  ur_weekdays_mask :: "uint8 NullableUpdate"
  ur_day_of_month :: "uint8 NullableUpdate"
  ur_month_of_year :: "uint8 NullableUpdate"
  ur_monthly_mode :: "MonthlyMode NullableUpdate"
  ur_start_time :: "LocalTime option"
  ur_start_date :: "LocalDate NullableUpdate"
  ur_end_time :: "LocalTime NullableUpdate"
  ur_end_date :: "LocalDate NullableUpdate"
  ur_occurrence_count :: "int NullableUpdate"
  ur_ignore_conflict :: bool

record UpdateScheduleOccurrenceCommand =
  uo_rule_id :: ScheduleRuleId
  uo_original_start_time :: DateTime
  uo_event :: "string NullableUpdate"
  uo_start_time :: "DateTime NullableUpdate"
  uo_end_time :: "DateTime NullableUpdate"
  uo_location :: "string NullableUpdate"
  uo_notes :: "string NullableUpdate"
  uo_ignore_conflict :: bool

record SkipScheduleOccurrenceCommand =
  so_rule_id :: ScheduleRuleId
  so_original_start_time :: DateTime

section \<open>Results\<close>

record CreateScheduleResult =
  csr_result :: "Schedule option CommandResult"
  csr_message :: string
  csr_conflicts :: "Schedule list"
  csr_nearby_schedules :: "Schedule list"

record UpdateScheduleResult =
  usr_result :: "Schedule option CommandResult"
  usr_message :: string
  usr_conflicts :: "Schedule list"

record CancelScheduleResult =
  xsr_result :: "bool CommandResult"
  xsr_schedule_id :: ScheduleId

record QueryScheduleResult =
  qsr_result :: "Schedule list CommandResult"
  qsr_total :: int

record RecordOperationResult =
  ror_result :: "OperationRecord option CommandResult"

record QueryOperationResult =
  qor_result :: "OperationRecord list CommandResult"
  qor_total :: int

record ScheduleRuleView =
  rv_rule :: ScheduleRule
  rv_exceptions :: "ScheduleException list"
  rv_upcoming_occurrences :: "DateTime list"

record CreateScheduleRuleResult =
  crr_status :: Status
  crr_rule :: "ScheduleRule option"
  crr_schedules :: "Schedule list"
  crr_conflicts :: "Schedule list"
  crr_error :: string

record QueryScheduleRulesResult =
  qrr_status :: Status
  qrr_rules :: "ScheduleRuleView list"
  qrr_total :: int
  qrr_error :: string

record UpdateScheduleRuleResult =
  urr_status :: Status
  urr_rule :: "ScheduleRule option"
  urr_schedules :: "Schedule list"
  urr_conflicts :: "Schedule list"
  urr_error :: string

record CancelScheduleRuleResult =
  xrr_status :: Status
  xrr_rule :: "ScheduleRule option"
  xrr_cancelled_count :: int
  xrr_error :: string

record UpdateScheduleOccurrenceResult =
  uor_status :: Status
  uor_schedule :: "Schedule option"
  uor_exception :: "ScheduleException option"
  uor_conflicts :: "Schedule list"
  uor_error :: string

record SkipScheduleOccurrenceResult =
  sor_status :: Status
  sor_schedule :: "Schedule option"
  sor_exception :: "ScheduleException option"
  sor_error :: string

record GenerateNextScheduleInstanceResult =
  gnr_status :: Status
  gnr_schedule :: "Schedule option"
  gnr_error :: string

section \<open>The factory\<close>

text \<open>The default-constructed entities of \<open>schedule_types.h\<close>.\<close>

definition default_Schedule :: Schedule where
  "default_Schedule = \<lparr>sc_id = 0, sc_event = [], sc_start_time = None, sc_end_time = None,
     sc_location = None, sc_notes = None, sc_rule_id = None, sc_status = kActive,
     sc_created_at = 0, sc_updated_at = 0\<rparr>"

definition default_LocalDate :: LocalDate where
  "default_LocalDate = \<lparr>year = 0, month = 0, day = 0\<rparr>"

definition default_ScheduleException :: ScheduleException where
  "default_ScheduleException = \<lparr>ex_id = 0, ex_rule_id = 0, ex_original_start_time = 0,
     ex_schedule_id = None, ex_type = kModify, ex_override_start_time = None,
     ex_override_end_time = None, ex_override_event = None, ex_override_location = None,
     ex_override_notes = None, ex_created_at = 0, ex_updated_at = 0\<rparr>"

definition LocalTimeToSeconds :: "LocalTime \<Rightarrow> int" where
  "LocalTimeToSeconds v = hour v * 3600 + minute v * 60 + second v"

definition CreateFromCommand :: "CreateScheduleCommand \<Rightarrow> Schedule" where
  "CreateFromCommand c = default_Schedule\<lparr>sc_id := 0, sc_event := cs_event c,
     sc_start_time := cs_start_time c, sc_end_time := cs_end_time c, sc_location := cs_location c,
     sc_notes := cs_notes c, sc_rule_id := None, sc_status := kActive\<rparr>"

definition CreateRuleFromCommand :: "CreateScheduleRuleCommand \<Rightarrow> ScheduleRule" where
  "CreateRuleFromCommand c = \<lparr>ru_id = 0, ru_event = cr_event c, ru_location = cr_location c,
     ru_notes = cr_notes c, ru_freq_type = cr_freq_type c, ru_interval_val = cr_interval_val c,
     ru_weekdays_mask = cr_weekdays_mask c, ru_day_of_month = cr_day_of_month c,
     ru_month_of_year = cr_month_of_year c, ru_monthly_mode = cr_monthly_mode c,
     ru_start_time = cr_start_time c, ru_end_time = cr_end_time c,
     ru_start_date = (case cr_start_date c of Some d \<Rightarrow> d | None \<Rightarrow> default_LocalDate),
     ru_end_date = cr_end_date c, ru_occurrence_count = cr_occurrence_count c,
     ru_status = kActive, ru_created_at = 0, ru_updated_at = 0\<rparr>"

definition CreateOccurrence :: "ScheduleRule \<Rightarrow> DateTime \<Rightarrow> Schedule" where
  "CreateOccurrence rule occurrence = default_Schedule\<lparr>sc_id := 0, sc_event := ru_event rule,
     sc_start_time := Some occurrence,
     sc_end_time := (case ru_end_time rule of
        None \<Rightarrow> None
      | Some e \<Rightarrow> Some (occurrence + (LocalTimeToSeconds e - LocalTimeToSeconds (ru_start_time rule)))),
     sc_location := ru_location rule, sc_notes := ru_notes rule, sc_rule_id := None,
     sc_status := kActive\<rparr>"

text \<open>The pattern \<open>if (override.has_value()) field = override\<close>.\<close>

definition override :: "'a option \<Rightarrow> 'a option \<Rightarrow> 'a option" where
  "override new old = (case new of Some _ \<Rightarrow> new | None \<Rightarrow> old)"

definition ApplyOverride :: "Schedule \<Rightarrow> ScheduleException \<Rightarrow> Schedule" where
  "ApplyOverride s e = s\<lparr>sc_start_time := override (ex_override_start_time e) (sc_start_time s),
     sc_end_time := override (ex_override_end_time e) (sc_end_time s),
     sc_event := (case ex_override_event e of Some v \<Rightarrow> v | None \<Rightarrow> sc_event s),
     sc_location := override (ex_override_location e) (sc_location s),
     sc_notes := override (ex_override_notes e) (sc_notes s)\<rparr>"

section \<open>Facts\<close>

lemma CreateFromCommand_simps [simp]:
  "sc_id (CreateFromCommand c) = 0" "sc_event (CreateFromCommand c) = cs_event c"
  "sc_start_time (CreateFromCommand c) = cs_start_time c"
  "sc_end_time (CreateFromCommand c) = cs_end_time c"
  "sc_status (CreateFromCommand c) = kActive" "sc_rule_id (CreateFromCommand c) = None"
  "sc_location (CreateFromCommand c) = cs_location c" "sc_notes (CreateFromCommand c) = cs_notes c"
  "sc_created_at (CreateFromCommand c) = 0" "sc_updated_at (CreateFromCommand c) = 0"
  by (simp_all add: CreateFromCommand_def default_Schedule_def)

lemma CreateOccurrence_simps [simp]:
  "sc_id (CreateOccurrence r t) = 0" "sc_event (CreateOccurrence r t) = ru_event r"
  "sc_start_time (CreateOccurrence r t) = Some t" "sc_status (CreateOccurrence r t) = kActive"
  "sc_rule_id (CreateOccurrence r t) = None" "sc_location (CreateOccurrence r t) = ru_location r"
  "sc_notes (CreateOccurrence r t) = ru_notes r" "sc_created_at (CreateOccurrence r t) = 0"
  "sc_updated_at (CreateOccurrence r t) = 0"
  by (simp_all add: CreateOccurrence_def default_Schedule_def)

lemma ApplyOverride_simps [simp]:
  "sc_id (ApplyOverride s e) = sc_id s" "sc_status (ApplyOverride s e) = sc_status s"
  "sc_rule_id (ApplyOverride s e) = sc_rule_id s"
  by (simp_all add: ApplyOverride_def)

end
