(* ===== verification/Messages.thy ===== *)
theory Messages
  imports VL_Prelude
begin

text \<open>
  The user-facing messages of the schedule modules, as the UTF-8 byte strings of the source: each
  definition lists the code points of one literal. The text of a message is data that the callers
  see, so the error branches of the models carry it as the code does.
\<close>

section \<open>Schedule queries\<close>

definition msg_schedule_id_positive :: string where
  "msg_schedule_id_positive = utf8 [26085, 31243, 32, 73, 68, 32, 24517, 39035, 22823, 20110, 32,
     48]"

definition msg_rule_id_positive :: string where
  "msg_rule_id_positive = utf8 [35268, 21017, 32, 73, 68, 32, 24517, 39035, 22823, 20110, 32, 48]"

definition msg_start_range_order :: string where
  "msg_start_range_order = utf8 [24320, 22987, 26102, 38388, 33539, 22260, 19979, 38480, 19981,
     33021, 26202, 20110, 19978, 38480]"

definition msg_limit_1_50 :: string where
  "msg_limit_1_50 = utf8 [36820, 22238, 26465, 25968, 24517, 39035, 22312, 32, 49, 32, 21040, 32,
     53, 48, 32, 20043, 38388]"

definition msg_page_offset_negative :: string where
  "msg_page_offset_negative = utf8 [20998, 39029, 20559, 31227, 37327, 19981, 33021, 23567,
     20110, 32, 48]"

section \<open>Operation records\<close>

definition msg_entity_type :: string where
  "msg_entity_type = utf8 [23454, 20307, 31867, 22411, 24517, 39035, 20026, 26085, 31243, 12289,
     35268, 21017, 25110, 20363, 22806]"

definition msg_operation_type :: string where
  "msg_operation_type = utf8 [25805, 20316, 31867, 22411, 24517, 39035, 20026, 21019, 24314,
     12289, 20462, 25913, 25110, 21024, 38500]"

definition msg_entity_id_positive :: string where
  "msg_entity_id_positive = utf8 [23454, 20307, 32, 73, 68, 32, 24517, 39035, 22823, 20110, 32, 48]"

definition msg_label_empty :: string where
  "msg_label_empty = utf8 [25805, 20316, 23545, 35937, 21517, 31216, 19981, 33021, 20026, 31354]"

definition msg_label_too_long :: string where
  "msg_label_too_long = utf8 [25805, 20316, 23545, 35937, 21517, 31216, 19981, 33021, 36229,
     36807, 32, 49, 48, 48, 32, 20010, 23383, 31526]"

definition msg_create_before :: string where
  "msg_create_before = utf8 [21019, 24314, 25805, 20316, 19981, 33021, 25552, 20379, 32, 98, 101,
     102, 111, 114, 101, 32, 24555, 29031]"

definition msg_mutation_needs_before :: string where
  "msg_mutation_needs_before = utf8 [20462, 25913, 21644, 21024, 38500, 25805, 20316, 24517,
     39035, 25552, 20379, 32, 98, 101, 102, 111, 114, 101, 32, 24555, 29031]"

definition msg_before_too_long :: string where
  "msg_before_too_long = utf8 [98, 101, 102, 111, 114, 101, 32, 24555, 29031, 19981, 33021,
     36229, 36807, 32, 50, 48, 52, 56, 32, 23383, 33410]"

definition msg_entity_type_missing :: string where
  "msg_entity_type_missing = utf8 [25353, 23454, 20307, 32, 73, 68, 32, 26597, 35810, 26102,
     24517, 39035, 21516, 26102, 25552, 20379, 23454, 20307, 31867, 22411]"

definition msg_query_range_order :: string where
  "msg_query_range_order = utf8 [26597, 35810, 26102, 38388, 19979, 30028, 19981, 33021, 26202,
     20110, 19978, 30028]"

definition msg_limit_1_100 :: string where
  "msg_limit_1_100 = utf8 [108, 105, 109, 105, 116, 32, 24517, 39035, 22312, 32, 49, 32, 21040,
     32, 49, 48, 48, 32, 20043, 38388]"

definition msg_offset_negative :: string where
  "msg_offset_negative = utf8 [111, 102, 102, 115, 101, 116, 32, 19981, 33021, 23567, 20110, 32,
     48]"

section \<open>Schedules\<close>

definition msg_event_empty :: string where
  "msg_event_empty = utf8 [26085, 31243, 21517, 31216, 19981, 33021, 20026, 31354]"

definition msg_event_too_long :: string where
  "msg_event_too_long = utf8 [26085, 31243, 21517, 31216, 19981, 33021, 36229, 36807, 32, 49, 48,
     48, 32, 20010, 23383, 31526]"

definition msg_end_without_start :: string where
  "msg_end_without_start = utf8 [26085, 31243, 25552, 20379, 32467, 26463, 26102, 38388, 26102,
     24517, 39035, 21516, 26102, 25552, 20379, 24320, 22987, 26102, 38388]"

definition msg_end_not_after_start :: string where
  "msg_end_not_after_start = utf8 [26085, 31243, 32467, 26463, 26102, 38388, 24517, 39035, 26202,
     20110, 24320, 22987, 26102, 38388]"

definition msg_create_conflict :: string where
  "msg_create_conflict = utf8 [26085, 31243, 26102, 38388, 19982, 24050, 26377, 26085, 31243,
     20914, 31361]"

definition msg_created :: string where
  "msg_created = utf8 [26085, 31243, 21019, 24314, 25104, 21151]"

definition msg_created_nearby :: string where
  "msg_created_nearby = utf8 [26085, 31243, 21019, 24314, 25104, 21151, 65292, 38468, 36817,
     36824, 26377, 20854, 20182, 26085, 31243]"

definition msg_cancel_id :: string where
  "msg_cancel_id = utf8 [26085, 31243, 32, 73, 68, 32, 24517, 39035, 20026, 27491, 25972, 25968]"

definition msg_update_id :: string where
  "msg_update_id = utf8 [26085, 31243, 32, 73, 68, 32, 24517, 39035, 22823, 20110, 38646]"

definition msg_nothing_to_update :: string where
  "msg_nothing_to_update = utf8 [33267, 23569, 38656, 35201, 25552, 20379, 19968, 20010, 35201,
     20462, 25913, 30340, 23383, 27573]"

definition msg_update_conflict :: string where
  "msg_update_conflict = utf8 [20462, 25913, 21518, 30340, 26085, 31243, 26102, 38388, 19982,
     24050, 26377, 26085, 31243, 20914, 31361]"

definition msg_updated :: string where
  "msg_updated = utf8 [26085, 31243, 20462, 25913, 25104, 21151]"

definition msg_updated_ignored :: string where
  "msg_updated_ignored = utf8 [26085, 31243, 20462, 25913, 25104, 21151, 65292, 24050, 24573,
     30053, 26102, 38388, 20914, 31361]"

definition msg_complete_only_active :: string where
  "msg_complete_only_active = utf8 [21482, 26377, 36827, 34892, 20013, 30340, 26085, 31243,
     21487, 20197, 26631, 35760, 20026, 24050, 23436, 25104]"

section \<open>Recurring rules\<close>

definition msg_no_first_occurrence :: string where
  "msg_no_first_occurrence = utf8 [26080, 27861, 26681, 25454, 24403, 21069, 21608, 26399, 35268,
     21017, 35745, 31639, 39318, 20010, 21457, 29983, 26102, 38388]"

definition msg_load_failed_prefix :: string where
  "msg_load_failed_prefix = utf8 [35835, 21462, 29616, 26377, 26085, 31243, 22833, 36133, 65306]"

definition msg_first_instance_conflict :: string where
  "msg_first_instance_conflict = utf8 [39318, 26465, 23454, 20363, 19982, 24050, 26377, 26085,
     31243, 20914, 31361]"

definition msg_rule_id_zero :: string where
  "msg_rule_id_zero = utf8 [35268, 21017, 32, 73, 68, 32, 24517, 39035, 22823, 20110, 38646]"

definition msg_next_instance_conflict :: string where
  "msg_next_instance_conflict = utf8 [35268, 21017, 19979, 19968, 26465, 23454, 20363, 19982,
     24050, 26377, 26085, 31243, 20914, 31361]"

definition msg_occurrence_generated_update :: string where
  "msg_occurrence_generated_update = utf8 [35813, 21608, 26399, 23454, 20363, 24050, 29983,
     25104, 65292, 35831, 20351, 29992, 32, 117, 112, 100, 97, 116, 101, 95, 115, 99, 104, 101,
     100, 117, 108, 101, 32, 20462, 25913]"

definition msg_occurrence_generated_skip :: string where
  "msg_occurrence_generated_skip = utf8 [35813, 21608, 26399, 23454, 20363, 24050, 29983, 25104,
     65292, 35831, 20351, 29992, 32, 117, 112, 100, 97, 116, 101, 95, 115, 99, 104, 101, 100,
     117, 108, 101, 32, 25110, 32, 99, 97, 110, 99, 101, 108, 95, 115, 99, 104, 101, 100, 117,
     108, 101, 32, 22788, 29702]"

definition msg_generation_limit :: string where
  "msg_generation_limit = utf8 [29983, 25104, 19979, 19968, 26465, 23454, 20363, 36229, 20986,
     36845, 20195, 19978, 38480]"

section \<open>Validation of rules\<close>

definition msg_rule_event_empty :: string where
  "msg_rule_event_empty = utf8 [35268, 21017, 21517, 31216, 19981, 33021, 20026, 31354]"

definition msg_rule_event_too_long :: string where
  "msg_rule_event_too_long = utf8 [35268, 21017, 21517, 31216, 19981, 33021, 36229, 36807, 32,
     49, 48, 48, 32, 20010, 23383, 31526]"

definition msg_interval_positive :: string where
  "msg_interval_positive = utf8 [21608, 26399, 38388, 38548, 24517, 39035, 22823, 20110, 38646]"

definition msg_count_unsupported :: string where
  "msg_count_unsupported = utf8 [24403, 21069, 29256, 26412, 26242, 19981, 25903, 25345, 26368,
     22823, 21457, 29983, 27425, 25968]"

definition msg_weekly_mask :: string where
  "msg_weekly_mask = utf8 [27599, 21608, 35268, 21017, 24517, 39035, 25552, 20379, 26377, 25928,
     30340, 26143, 26399, 20301, 22270]"

definition msg_monthly_mode :: string where
  "msg_monthly_mode = utf8 [27599, 26376, 35268, 21017, 24517, 39035, 25552, 20379, 26376, 27169,
     24335]"

definition msg_monthly_day_missing :: string where
  "msg_monthly_day_missing = utf8 [25351, 23450, 26085, 26399, 27169, 24335, 24517, 39035, 25552,
     20379, 26085, 26399]"

definition msg_monthly_day_range :: string where
  "msg_monthly_day_range = utf8 [27599, 26376, 25351, 23450, 26085, 26399, 24517, 39035, 22312,
     32, 49, 32, 21040, 32, 51, 49, 32, 20043, 38388]"

definition msg_yearly_missing :: string where
  "msg_yearly_missing = utf8 [27599, 24180, 35268, 21017, 24517, 39035, 25552, 20379, 26376,
     20221, 21644, 26085, 26399]"

definition msg_yearly_month_range :: string where
  "msg_yearly_month_range = utf8 [27599, 24180, 35268, 21017, 26376, 20221, 24517, 39035, 22312,
     32, 49, 32, 21040, 32, 49, 50, 32, 20043, 38388]"

definition msg_yearly_day_range :: string where
  "msg_yearly_day_range = utf8 [27599, 24180, 35268, 21017, 26085, 26399, 24517, 39035, 22312,
     32, 49, 32, 21040, 32, 51, 49, 32, 20043, 38388]"

definition msg_yearly_combination :: string where
  "msg_yearly_combination = utf8 [27599, 24180, 35268, 21017, 26376, 20221, 19982, 26085, 26399,
     32452, 21512, 24517, 39035, 26377, 25928]"

definition msg_start_clock :: string where
  "msg_start_clock = utf8 [35268, 21017, 24320, 22987, 26102, 38388, 24517, 39035, 22312, 26377,
     25928, 26102, 38047, 33539, 22260, 20869]"

definition msg_end_after_start :: string where
  "msg_end_after_start = utf8 [35268, 21017, 32467, 26463, 26102, 38388, 24517, 39035, 26202,
     20110, 24320, 22987, 26102, 38388]"

definition msg_end_clock :: string where
  "msg_end_clock = utf8 [35268, 21017, 32467, 26463, 26102, 38388, 24517, 39035, 22312, 26377,
     25928, 26102, 38047, 33539, 22260, 20869]"

definition msg_end_date_order :: string where
  "msg_end_date_order = utf8 [35268, 21017, 22833, 25928, 26085, 26399, 19981, 33021, 26089,
     20110, 29983, 25928, 26085, 26399]"

section \<open>Reminders\<close>

definition msg_last_reminder :: string where
  "msg_last_reminder = utf8 [36825, 26159, 26368, 21518, 19968, 27425, 25552, 37266, 65307,
     20043, 21518, 19981, 20877, 21019, 24314, 26032, 30340, 25512, 36831, 25552, 37266, 12290]"

definition msg_not_started :: string where
  "msg_not_started = utf8 [26085, 31243, 25552, 37266, 26381, 21153, 23578, 26410, 21551, 21160]"

definition msg_cancel_rejected :: string where
  "msg_cancel_rejected = utf8 [25552, 37266, 20219, 21153, 21462, 28040, 21629, 20196, 26410,
     34987, 25509, 25910]"

definition msg_retry_cancel_rejected :: string where
  "msg_retry_cancel_rejected = utf8 [21608, 26399, 29983, 25104, 37325, 35797, 21462, 28040,
     21629, 20196, 26410, 34987, 25509, 25910]"

definition msg_no_recent_reminder :: string where
  "msg_no_recent_reminder = utf8 [26368, 36817, 32, 49, 48, 32, 20998, 38047, 20869, 27809,
     26377, 24050, 35302, 21457, 30340, 25552, 37266]"

definition msg_followup_cancel_rejected :: string where
  "msg_followup_cancel_rejected = utf8 [21518, 32493, 25552, 37266, 21462, 28040, 21629, 20196,
     26410, 34987, 25509, 25910]"

definition msg_no_delayable_reminder :: string where
  "msg_no_delayable_reminder = utf8 [26368, 36817, 32, 49, 48, 32, 20998, 38047, 20869, 27809,
     26377, 21487, 24310, 36831, 30340, 25552, 37266]"

definition msg_action_id_empty :: string where
  "msg_action_id_empty = utf8 [25552, 37266, 21160, 20316, 26631, 35782, 19981, 33021, 20026,
     31354]"

definition msg_action_type_invalid :: string where
  "msg_action_type_invalid = utf8 [25552, 37266, 21160, 20316, 31867, 22411, 26080, 25928]"

definition msg_action_args_invalid :: string where
  "msg_action_args_invalid = utf8 [25552, 37266, 21160, 20316, 21442, 25968, 26080, 25928]"

definition msg_action_taken :: string where
  "msg_action_taken = utf8 [25552, 37266, 24050, 30001, 20854, 20182, 32, 111, 112, 101, 114, 97,
     116, 105, 111, 110, 73, 100, 32, 25110, 21160, 20316, 22788, 29702]"

definition msg_action_terminal :: string where
  "msg_action_terminal = utf8 [25552, 37266, 24050, 32463, 36827, 20837, 19981, 21487, 25805,
     20316, 32456, 24577]"

definition msg_operation_id_used :: string where
  "msg_operation_id_used = utf8 [111, 112, 101, 114, 97, 116, 105, 111, 110, 73, 100, 32, 24050,
     29992, 20110, 20854, 20182, 25552, 37266, 21160, 20316]"

definition msg_no_followup_time :: string where
  "msg_no_followup_time = utf8 [25552, 37266, 27809, 26377, 21487, 29992, 30340, 21518, 32493,
     35302, 21457, 26102, 38388]"

definition msg_schedule_not_completable :: string where
  "msg_schedule_not_completable = utf8 [25552, 37266, 20851, 32852, 26085, 31243, 19981, 21487,
     23436, 25104]"

definition msg_no_actionable_reminder :: string where
  "msg_no_actionable_reminder = utf8 [26368, 36817, 32, 49, 48, 32, 20998, 38047, 20869, 27809,
     26377, 21487, 25805, 20316, 30340, 25552, 37266]"

definition msg_task_id_missing :: string where
  "msg_task_id_missing = utf8 [25552, 37266, 20219, 21153, 32570, 23569, 32, 84, 105, 109, 105,
     110, 103, 32, 116, 97, 115, 107, 32, 26631, 35782]"

definition msg_task_id_invalid :: string where
  "msg_task_id_invalid = utf8 [25552, 37266, 20219, 21153, 26631, 35782, 26080, 25928]"

definition msg_register_rejected :: string where
  "msg_register_rejected = utf8 [25552, 37266, 20219, 21153, 27880, 20876, 21629, 20196, 26410,
     34987, 25509, 25910]"

definition msg_speech_prefix :: string where
  "msg_speech_prefix = utf8 [25552, 37266, 65306, 29616, 22312, 26159, 12300]"

definition msg_speech_suffix :: string where
  "msg_speech_suffix = utf8 [12301, 26102, 38388, 20102]"

definition msg_retry_id_failed :: string where
  "msg_retry_id_failed = utf8 [26080, 27861, 21019, 24314, 21608, 26399, 29983, 25104, 37325,
     35797, 20219, 21153, 26631, 35782]"

definition msg_retry_register_rejected :: string where
  "msg_retry_register_rejected = utf8 [21608, 26399, 29983, 25104, 37325, 35797, 27880, 20876,
     21629, 20196, 26410, 34987, 25509, 25910]"

section \<open>The schedule store\<close>

definition msg_schedule_missing :: string where
  "msg_schedule_missing = utf8 [26085, 31243, 19981, 23384, 22312]"

definition msg_schedule_cancelled :: string where
  "msg_schedule_cancelled = utf8 [26085, 31243, 24050, 21462, 28040, 65292, 19981, 33021, 37325,
     22797, 21024, 38500]"

definition msg_schedule_not_found :: string where
  "msg_schedule_not_found = utf8 [26410, 25214, 21040, 25351, 23450, 26085, 31243]"

definition msg_rule_missing :: string where
  "msg_rule_missing = utf8 [35268, 21017, 19981, 23384, 22312]"

definition msg_rule_or_first_empty :: string where
  "msg_rule_or_first_empty = utf8 [35268, 21017, 25110, 39318, 26465, 26085, 31243, 21517, 31216,
     19981, 33021, 20026, 31354]"

definition msg_instance_invalid :: string where
  "msg_instance_invalid = utf8 [26085, 31243, 23454, 20363, 23383, 27573, 26080, 25928]"

definition msg_exception_rule_invalid :: string where
  "msg_exception_rule_invalid = utf8 [20363, 22806, 35268, 21017, 26631, 35782, 26080, 25928]"

section \<open>The reminder store\<close>

definition msg_task_fields_invalid :: string where
  "msg_task_fields_invalid = utf8 [25552, 37266, 20219, 21153, 23383, 27573, 26080, 25928]"

definition msg_chain_attempt_exists :: string where
  "msg_chain_attempt_exists = utf8 [25552, 37266, 38142, 23581, 35797, 27425, 25968, 24050,
     23384, 22312]"

definition msg_timing_id_exists :: string where
  "msg_timing_id_exists = utf8 [84, 105, 109, 105, 110, 103, 32, 116, 97, 115, 107, 32, 26631,
     35782, 24050, 23384, 22312]"

definition msg_action_operation_exists :: string where
  "msg_action_operation_exists = utf8 [25552, 37266, 21160, 20316, 32, 111, 112, 101, 114, 97,
     116, 105, 111, 110, 73, 100, 32, 24050, 23384, 22312]"

definition msg_task_missing :: string where
  "msg_task_missing = utf8 [25552, 37266, 20219, 21153, 19981, 23384, 22312]"

end
