(* ===== verification/Schedule_Helpers.thy ===== *)
theory Schedule_Helpers
  imports Schedule_Types Messages "HOL-Library.Monad_Syntax"
begin

unbundle bit_operations_syntax

text \<open>
  \<open>voicelife_schedule/src/helpers\<close>: the text, query, operation-record and snapshot helpers of the
  schedule services, and the keyword score of \<open>schedule_query_score.h\<close>. The theory shows that
  trimming is idempotent and leaves no blank at either end, that the text length counts the code
  points of a UTF-8 string, and that a snapshot determines the schedule it was taken of.
\<close>

section \<open>Text\<close>

definition TrimScheduleText :: "string \<Rightarrow> string" where
  "TrimScheduleText v =
     (let first = length (takeWhile isspace v);
          last = length v - length (takeWhile isspace (rev v))
      in if first < last then take (last - first) (drop first v) else [])"

definition ScheduleTextLength :: "string \<Rightarrow> nat" where
  "ScheduleTextLength v = length (filter (\<lambda>c. (of_char c :: int) AND 192 \<noteq> 128) v)"

definition InvalidCreateScheduleResult :: "string \<Rightarrow> CreateScheduleResult" where
  "InvalidCreateScheduleResult err =
     (let st = Status_Error kInvalidArgument err
      in \<lparr>csr_result = Command_Failure None st, csr_message = [], csr_conflicts = [],
          csr_nearby_schedules = []\<rparr>)"

definition InvalidUpdateScheduleResult :: "string \<Rightarrow> UpdateScheduleResult" where
  "InvalidUpdateScheduleResult err =
     (let st = Status_Error kInvalidArgument err
      in \<lparr>usr_result = Command_Failure None st, usr_message = [], usr_conflicts = []\<rparr>)"

text \<open>\<open>ApplyNullableUpdate\<close> of \<open>schedule_update_helpers.h\<close>.\<close>

definition ApplyNullableUpdate :: "'a NullableUpdate \<Rightarrow> 'a option \<Rightarrow> 'a option" where
  "ApplyNullableUpdate update target = (case update of Some v \<Rightarrow> v | None \<Rightarrow> target)"

section \<open>Queries\<close>

definition NormalizeKeywordText :: "string \<Rightarrow> string" where
  "NormalizeKeywordText = map tolower"

fun MatchesStatus :: "ScheduleStatus \<Rightarrow> ScheduleStatusFilter \<Rightarrow> bool" where
  "MatchesStatus st Filter_kAll = True"
| "MatchesStatus st Filter_kActive = (st = kActive)"
| "MatchesStatus st Filter_kCancelled = (st = kCancelled)"
| "MatchesStatus st Filter_kCompleted = (st = kCompleted)"

definition ValidateQueryScheduleCommand :: "QueryScheduleCommand \<Rightarrow> Status" where
  "ValidateQueryScheduleCommand c =
     (if qs_schedule_id c \<noteq> None \<and> the (qs_schedule_id c) \<le> 0
        then Status_Error kInvalidArgument msg_schedule_id_positive
      else if qs_rule_id c \<noteq> None \<and> the (qs_rule_id c) \<le> 0
        then Status_Error kInvalidArgument msg_rule_id_positive
      else if qs_start_from c \<noteq> None \<and> qs_start_to c \<noteq> None \<and> the (qs_start_from c) > the (qs_start_to c)
        then Status_Error kInvalidArgument msg_start_range_order
      else if qs_limit c \<le> 0 \<or> qs_limit c > 50 then Status_Error kInvalidArgument msg_limit_1_50
      else if qs_offset c < 0 then Status_Error kInvalidArgument msg_page_offset_negative
      else Status_Ok)"

text \<open>The loop of \<open>MatchesScheduleKeyword\<close> over the tokens; an extracted token is never empty.\<close>

fun MatchesScheduleKeyword_loop :: "string \<Rightarrow> string list \<Rightarrow> bool" where
  "MatchesScheduleKeyword_loop event [] = True"
| "MatchesScheduleKeyword_loop event (token # rest) =
     (let token = (if hd token = CHR ''+'' then tl token else token)
      in if token = [] then MatchesScheduleKeyword_loop event rest
         else if \<not> sublist token event then False
         else MatchesScheduleKeyword_loop event rest)"

definition MatchesScheduleKeyword :: "string \<Rightarrow> string \<Rightarrow> bool" where
  "MatchesScheduleKeyword event keyword =
     MatchesScheduleKeyword_loop (NormalizeKeywordText event) (tokens (NormalizeKeywordText keyword))"

definition MatchesScheduleQuery :: "Schedule \<Rightarrow> QueryScheduleCommand \<Rightarrow> bool" where
  "MatchesScheduleQuery s c =
     (if qs_schedule_id c \<noteq> None \<and> sc_id s \<noteq> the (qs_schedule_id c) then False
      else if qs_rule_id c \<noteq> None \<and> (sc_rule_id s = None \<or> the (sc_rule_id s) \<noteq> the (qs_rule_id c)) then False
      else if \<not> MatchesStatus (sc_status s) (qs_status c) then False
      else if qs_keyword c \<noteq> None \<and> \<not> MatchesScheduleKeyword (sc_event s) (the (qs_keyword c)) then False
      else if qs_start_from c \<noteq> None \<or> qs_start_to c \<noteq> None then
        (if sc_start_time s = None then False
         else if qs_start_from c \<noteq> None \<and> the (sc_start_time s) < the (qs_start_from c) then False
         else if qs_start_to c \<noteq> None \<and> the (sc_start_time s) > the (qs_start_to c) then False
         else True)
      else True)"

definition ScoreScheduleKeyword :: "string \<Rightarrow> string \<Rightarrow> int" where
  "ScoreScheduleKeyword event keyword =
     (let normalized_event = NormalizeKeywordText event;
          normalized_keyword = NormalizeKeywordText keyword
      in if normalized_keyword = [] then 0
         else if normalized_event = normalized_keyword then 100
         else if prefix normalized_keyword normalized_event then 80
         else if sublist normalized_keyword normalized_event then 60
         else 0)"

section \<open>Operation records\<close>

definition kMaximumLabelLength :: nat where
  "kMaximumLabelLength = 100"

definition kMaximumSnapshotBytes :: nat where
  "kMaximumSnapshotBytes = 2048"

fun IsSupportedEntityType :: "OperationEntityType \<Rightarrow> bool" where
  "IsSupportedEntityType Entity_kSchedule = True"
| "IsSupportedEntityType Entity_kRule = True"
| "IsSupportedEntityType Entity_kException = True"

fun IsSupportedScheduleOperationType :: "ScheduleOperationType \<Rightarrow> bool" where
  "IsSupportedScheduleOperationType Op_kCreate = True"
| "IsSupportedScheduleOperationType Op_kUpdate = True"
| "IsSupportedScheduleOperationType Op_kDelete = True"

definition ValidateRecordOperationCommand :: "RecordOperationCommand \<Rightarrow> Status" where
  "ValidateRecordOperationCommand c =
     (if \<not> IsSupportedEntityType (ro_entity_type c) then Status_Error kInvalidArgument msg_entity_type
      else if \<not> IsSupportedScheduleOperationType (ro_type c)
        then Status_Error kInvalidArgument msg_operation_type
      else if ro_entity_id c \<le> 0 then Status_Error kInvalidArgument msg_entity_id_positive
      else let label = TrimScheduleText (ro_label c) in
      if label = [] then Status_Error kInvalidArgument msg_label_empty
      else if ScheduleTextLength label > kMaximumLabelLength
        then Status_Error kInvalidArgument msg_label_too_long
      else if ro_type c = Op_kCreate \<and> ro_before c \<noteq> None then Status_Error kInvalidArgument msg_create_before
      else if (ro_type c = Op_kUpdate \<or> ro_type c = Op_kDelete) \<and> ro_before c = None
        then Status_Error kInvalidArgument msg_mutation_needs_before
      else if ro_before c \<noteq> None \<and> length (the (ro_before c)) > kMaximumSnapshotBytes
        then Status_Error kInvalidArgument msg_before_too_long
      else Status_Ok)"

definition InvalidRecordOperationResult :: "string \<Rightarrow> RecordOperationResult" where
  "InvalidRecordOperationResult err =
     (let st = Status_Error kInvalidArgument err in \<lparr>ror_result = Command_Failure None st\<rparr>)"

definition ValidateQueryOperationCommand :: "QueryOperationCommand \<Rightarrow> Status" where
  "ValidateQueryOperationCommand c =
     (if qo_entity_id c \<noteq> None \<and> qo_entity_type c = None
        then Status_Error kInvalidArgument msg_entity_type_missing
      else if qo_entity_type c \<noteq> None \<and> \<not> IsSupportedEntityType (the (qo_entity_type c))
        then Status_Error kInvalidArgument msg_entity_type
      else if qo_type c \<noteq> None \<and> \<not> IsSupportedScheduleOperationType (the (qo_type c))
        then Status_Error kInvalidArgument msg_operation_type
      else if qo_operated_from c \<noteq> None \<and> qo_operated_to c \<noteq> None \<and>
              the (qo_operated_from c) > the (qo_operated_to c)
        then Status_Error kInvalidArgument msg_query_range_order
      else if qo_limit c \<le> 0 \<or> qo_limit c > 100 then Status_Error kInvalidArgument msg_limit_1_100
      else if qo_offset c < 0 then Status_Error kInvalidArgument msg_offset_negative
      else Status_Ok)"

definition InvalidQueryOperationResult :: "string \<Rightarrow> QueryOperationResult" where
  "InvalidQueryOperationResult err =
     (let st = Status_Error kInvalidArgument err
      in \<lparr>qor_result = Command_Failure [] st, qor_total = 0\<rparr>)"

section \<open>Snapshots\<close>

definition ToEpochSeconds :: "DateTime \<Rightarrow> int" where
  "ToEpochSeconds t = t"

definition quote :: char where
  "quote = char_of (34 :: nat)"

definition backslash :: char where
  "backslash = char_of (92 :: nat)"

text \<open>The switch of \<open>AppendJsonString\<close>.\<close>

definition escape_char :: "char \<Rightarrow> string" where
  "escape_char c =
     (if c = quote then [backslash, quote]
      else if c = backslash then [backslash, backslash]
      else if byte c = 8 then [backslash, CHR ''b'']
      else if byte c = 12 then [backslash, CHR ''f'']
      else if byte c = 10 then [backslash, CHR ''n'']
      else if byte c = 13 then [backslash, CHR ''r'']
      else if byte c = 9 then [backslash, CHR ''t'']
      else [c])"

definition AppendJsonString :: "string \<Rightarrow> string \<Rightarrow> string" where
  "AppendJsonString out value = out @ [quote] @ concat (map escape_char value) @ [quote]"

definition AppendOptionalInteger :: "string \<Rightarrow> string \<Rightarrow> int option \<Rightarrow> string" where
  "AppendOptionalInteger out key value =
     (let out = out @ [quote] @ key @ [quote, CHR '':''];
          out = (case value of Some v \<Rightarrow> out @ to_string v | None \<Rightarrow> out @ ''null'')
      in out @ [CHR '','' ])"

definition AppendOptionalString :: "string \<Rightarrow> string \<Rightarrow> string option \<Rightarrow> string" where
  "AppendOptionalString out key value =
     (let out = out @ [quote] @ key @ [quote, CHR '':''];
          out = (case value of Some v \<Rightarrow> AppendJsonString out v | None \<Rightarrow> out @ ''null'')
      in out @ [CHR '','' ])"

text \<open>\<open>static_cast<int>(schedule.status)\<close> and a literal key with its colon.\<close>

fun status_number :: "ScheduleStatus \<Rightarrow> int" where
  "status_number kActive = 1"
| "status_number kCancelled = 2"
| "status_number kCompleted = 3"

definition json_key :: "string \<Rightarrow> string" where
  "json_key k = [quote] @ k @ [quote, CHR '':'']"

definition SerializeScheduleSnapshot :: "Schedule \<Rightarrow> string" where
  "SerializeScheduleSnapshot s =
     (let out = [CHR ''{''];
          out = out @ json_key ''id'' @ to_string (sc_id s) @ [CHR '','' ];
          out = AppendJsonString (out @ json_key ''event'') (sc_event s) @ [CHR '','' ];
          out = AppendOptionalInteger out ''start_time'' (map_option ToEpochSeconds (sc_start_time s));
          out = AppendOptionalInteger out ''end_time'' (map_option ToEpochSeconds (sc_end_time s));
          out = AppendOptionalString out ''location'' (sc_location s);
          out = AppendOptionalString out ''notes'' (sc_notes s);
          out = AppendOptionalInteger out ''rule_id'' (sc_rule_id s);
          out = out @ json_key ''status'' @ to_string (status_number (sc_status s)) @ [CHR '','' ];
          out = out @ json_key ''created_at'' @ to_string (ToEpochSeconds (sc_created_at s)) @ [CHR '','' ];
          out = out @ json_key ''updated_at'' @ to_string (ToEpochSeconds (sc_updated_at s))
      in out @ [CHR ''}''])"

section \<open>Trimming and counting\<close>

lemma drop_length_takeWhile: "drop (length (takeWhile p v)) v = dropWhile p v"
  by (simp add: dropWhile_eq_drop)

lemma TrimScheduleText_eq:
  "TrimScheduleText v = rev (dropWhile isspace (rev (dropWhile isspace v)))"
proof (cases "\<forall>c \<in> set v. isspace c")
  case True
  then have t: "takeWhile isspace v = v" and d: "dropWhile isspace v = []" by auto
  show ?thesis unfolding TrimScheduleText_def Let_def t d by simp
next
  case False
  define w where "w = dropWhile isspace v"
  define k where "k = length (takeWhile isspace (rev v))"
  obtain c where c: "c \<in> set v" "\<not> isspace c" using False by blast
  then have "c \<in> set (takeWhile isspace v) \<union> set w" by (simp add: w_def flip: set_append)
  with c(2) have ne: "\<exists>c \<in> set w. \<not> isspace c" by (auto dest: set_takeWhileD)
  have v: "rev v = rev w @ rev (takeWhile isspace v)"
    by (simp add: w_def flip: rev_append)
  have "takeWhile isspace (rev v) = takeWhile isspace (rev w)"
    using ne unfolding v by (auto simp: takeWhile_append)
  then have k: "k = length (takeWhile isspace (rev w))" by (simp add: k_def)
  have len: "length w = length v - length (takeWhile isspace v)"
    by (simp add: w_def dropWhile_eq_drop)
  have less: "k < length w"
  proof (rule ccontr)
    assume "\<not> k < length w"
    moreover have "length (takeWhile isspace (rev w)) + length (dropWhile isspace (rev w)) = length w"
      by (metis length_append length_rev takeWhile_dropWhile_id)
    ultimately have "length (dropWhile isspace (rev w)) = 0" unfolding k by linarith
    then have "dropWhile isspace (rev w) = []" by (simp only: length_0_conv)
    then have "\<forall>c \<in> set w. isspace c" by simp
    with ne show False by auto
  qed
  then have "TrimScheduleText v = take (length w - k) w"
    using len by (simp add: TrimScheduleText_def Let_def drop_length_takeWhile add.commute flip: k_def w_def)
  also have "\<dots> = rev (drop k (rev w))" by (simp add: rev_drop)
  also have "drop k (rev w) = dropWhile isspace (rev w)" by (simp add: k drop_length_takeWhile)
  finally show ?thesis by (simp add: w_def)
qed

definition trimmed :: "string \<Rightarrow> bool" where
  "trimmed v \<longleftrightarrow> v = [] \<or> \<not> isspace (hd v) \<and> \<not> isspace (last v)"

lemma dropWhile_hd: "w = dropWhile p v \<Longrightarrow> w \<noteq> [] \<Longrightarrow> \<not> p (hd w)"
  using hd_dropWhile by blast

lemma trimmed_TrimScheduleText: "trimmed (TrimScheduleText v)"
proof -
  define w where "w = dropWhile isspace v"
  define u where "u = dropWhile isspace (rev w)"
  have t: "TrimScheduleText v = rev u" by (simp add: TrimScheduleText_eq u_def w_def)
  show ?thesis
  proof (cases "u = []")
    case False
    then have "\<not> isspace (hd u)" unfolding u_def by (rule hd_dropWhile)
    moreover have "last u = hd w"
    proof -
      have "rev w = takeWhile isspace (rev w) @ u" by (simp add: u_def)
      then have "last (rev w) = last u" using False by (metis last_appendR)
      then show ?thesis by (metis hd_rev rev_rev_ident last_rev hd_Nil_eq_last)
    qed
    moreover have "w \<noteq> []" using False by (auto simp: u_def)
    then have "\<not> isspace (hd w)" unfolding w_def by (rule hd_dropWhile)
    ultimately show ?thesis using False by (simp add: trimmed_def t hd_rev last_rev)
  qed (simp add: trimmed_def t)
qed

lemma TrimScheduleText_trimmed: "trimmed v \<Longrightarrow> TrimScheduleText v = v"
proof -
  assume t: "trimmed v"
  show ?thesis
  proof (cases "v = []")
    case False
    with t have "dropWhile isspace v = v" "dropWhile isspace (rev v) = rev v"
      by (auto simp: trimmed_def dropWhile_eq_self_iff hd_rev)
    then show ?thesis by (simp add: TrimScheduleText_eq)
  qed (simp add: TrimScheduleText_eq)
qed

lemma TrimScheduleText_padding:
  "\<exists>a b. v = a @ TrimScheduleText v @ b \<and> (\<forall>c \<in> set a. isspace c) \<and> (\<forall>c \<in> set b. isspace c)"
proof -
  define w where "w = dropWhile isspace v"
  have "v = takeWhile isspace v @ w" by (simp add: w_def)
  moreover have "rev w = takeWhile isspace (rev w) @ dropWhile isspace (rev w)" by simp
  then have "w = rev (dropWhile isspace (rev w)) @ rev (takeWhile isspace (rev w))"
    by (metis rev_append rev_rev_ident)
  ultimately have "v = takeWhile isspace v @ TrimScheduleText v @ rev (takeWhile isspace (rev w))"
    by (simp add: TrimScheduleText_eq flip: w_def)
  then show ?thesis
    by (intro exI [of _ "takeWhile isspace v"] exI [of _ "rev (takeWhile isspace (rev w))"])
      (auto dest: set_takeWhileD)
qed

lemma of_char_char_of: "0 \<le> n \<Longrightarrow> n < 256 \<Longrightarrow> (of_char (char_of (n :: int)) :: int) = n"
  by simp

lemma continuation_byte:
  "0 \<le> n \<Longrightarrow> n < 256 \<Longrightarrow> ((of_char (char_of (n :: int)) :: int) AND 192 = 128) \<longleftrightarrow> 128 \<le> n \<and> n < 192"
proof -
  assume "0 \<le> n" "n < 256"
  have "list_all (\<lambda>b. (b AND 192 = (128 :: int)) = (128 \<le> b \<and> b < 192)) [0..255]" by code_simp
  then have "\<forall>b \<in> {0..255}. (b AND 192 = (128 :: int)) = (128 \<le> b \<and> b < 192)"
    by (simp only: list_all_iff set_upto)
  with \<open>0 \<le> n\<close> \<open>n < 256\<close> show ?thesis by (simp add: of_char_char_of)
qed

lemma ScheduleTextLength_utf8_char:
  assumes "0 \<le> n" "n < 65536"
  shows "length (filter (\<lambda>c. (of_char c :: int) AND 192 \<noteq> 128) (utf8_char n)) = 1"
proof -
  have cont: "(of_char (char_of (128 + k)) :: int) AND 192 = 128" if "0 \<le> k" "k < 64" for k :: int
    using continuation_byte [of "128 + k"] that by simp
  have lead: "(of_char (char_of k) :: int) AND 192 \<noteq> 128" if "0 \<le> k" "k < 128 \<or> 192 \<le> k \<and> k < 256" for k :: int
    using continuation_byte [of k] that by auto
  have m: "0 \<le> n mod 64" "n mod 64 < 64" "0 \<le> n div 64 mod 64" "n div 64 mod 64 < 64" by simp_all
  consider "n < 128" | "\<not> n < 128" "n < 2048" | "\<not> n < 128" "\<not> n < 2048" by blast
  then show ?thesis
  proof cases
    case 2
    have "0 \<le> n div 64" "n div 64 < 32" using assms 2 by simp_all
    then show ?thesis using 2 cont [OF m(1,2)] lead [of "192 + n div 64"] by (simp add: utf8_char_def)
  next
    case 3
    have "0 \<le> n div 4096" "n div 4096 < 16" using assms by simp_all
    then show ?thesis
      using 3 cont [OF m(1,2)] cont [OF m(3,4)] lead [of "224 + n div 4096"] by (simp add: utf8_char_def)
  qed (use assms lead [of n] in \<open>simp add: utf8_char_def\<close>)
qed

lemma ScheduleTextLength_utf8:
  "(\<forall>n \<in> set ns. 0 \<le> n \<and> n < 65536) \<Longrightarrow> ScheduleTextLength (utf8 ns) = length ns"
proof (induction ns)
  case (Cons n ns)
  then have "ScheduleTextLength (utf8 ns) = length ns" by simp
  moreover have "length (filter (\<lambda>c. (of_char c :: int) AND 192 \<noteq> 128) (utf8_char n)) = 1"
    using Cons.prems by (intro ScheduleTextLength_utf8_char) simp_all
  ultimately show ?case by (simp add: ScheduleTextLength_def utf8_def)
qed (simp add: ScheduleTextLength_def utf8_def)

section \<open>Reading a snapshot back\<close>

text \<open>
  A reader of the snapshot format: it is the specification of \<open>SerializeScheduleSnapshot\<close>, which
  the device itself never parses.
\<close>

fun expect :: "string \<Rightarrow> string \<Rightarrow> string option" where
  "expect [] r = Some r"
| "expect (c # p) [] = None"
| "expect (c # p) (d # r) = (if c = d then expect p r else None)"

definition unescape_char :: "char \<Rightarrow> char option" where
  "unescape_char c =
     (if c = quote \<or> c = backslash then Some c
      else if c = CHR ''b'' then Some (char_of (8 :: nat))
      else if c = CHR ''f'' then Some (char_of (12 :: nat))
      else if c = CHR ''n'' then Some (char_of (10 :: nat))
      else if c = CHR ''r'' then Some (char_of (13 :: nat))
      else if c = CHR ''t'' then Some (char_of (9 :: nat))
      else None)"

fun read_string :: "string \<Rightarrow> (string \<times> string) option" where
  "read_string [] = None"
| "read_string (c # cs) =
     (if c = quote then Some ([], cs)
      else if c = backslash then
        (case cs of [] \<Rightarrow> None
         | d # ds \<Rightarrow> (case unescape_char d of None \<Rightarrow> None
                     | Some x \<Rightarrow> map_option (\<lambda>(v, r). (x # v, r)) (read_string ds)))
      else map_option (\<lambda>(v, r). (c # v, r)) (read_string cs))"

definition is_digit :: "char \<Rightarrow> bool" where
  "is_digit c \<longleftrightarrow> 48 \<le> (of_char c :: int) \<and> (of_char c :: int) \<le> 57"

definition digits_value :: "string \<Rightarrow> int" where
  "digits_value = foldl (\<lambda>n c. 10 * n + (of_char c - 48)) 0"

definition read_int :: "string \<Rightarrow> (int \<times> string) option" where
  "read_int s =
     (case s of [] \<Rightarrow> None
      | c # cs \<Rightarrow> if c = CHR ''-'' then Some (- (digits_value (takeWhile is_digit cs)), dropWhile is_digit cs)
                 else Some (digits_value (takeWhile is_digit s), dropWhile is_digit s))"

definition read_optional :: "(string \<Rightarrow> ('a \<times> string) option) \<Rightarrow> string \<Rightarrow> string \<Rightarrow> ('a option \<times> string) option" where
  "read_optional reader key s =
     do { r \<leftarrow> expect (json_key key) s;
          (v, r) \<leftarrow> (case expect ''null'' r of Some r' \<Rightarrow> Some (None, r')
                    | None \<Rightarrow> map_option (\<lambda>(v, r). (Some v, r)) (reader r));
          r \<leftarrow> expect '','' r;
          Some (v, r) }"

definition read_quoted :: "string \<Rightarrow> (string \<times> string) option" where
  "read_quoted s = do { r \<leftarrow> expect [quote] s; read_string r }"

definition read_status :: "int \<Rightarrow> ScheduleStatus option" where
  "read_status n = (if n = 1 then Some kActive else if n = 2 then Some kCancelled
     else if n = 3 then Some kCompleted else None)"

definition read_snapshot :: "string \<Rightarrow> Schedule option" where
  "read_snapshot s =
     do { r \<leftarrow> expect (CHR ''{'' # json_key ''id'') s;
          (i, r) \<leftarrow> read_int r;
          r \<leftarrow> expect (CHR '','' # json_key ''event'') r;
          (ev, r) \<leftarrow> read_quoted r;
          r \<leftarrow> expect '','' r;
          (a, r) \<leftarrow> read_optional read_int ''start_time'' r;
          (b, r) \<leftarrow> read_optional read_int ''end_time'' r;
          (l, r) \<leftarrow> read_optional read_quoted ''location'' r;
          (n, r) \<leftarrow> read_optional read_quoted ''notes'' r;
          (ru, r) \<leftarrow> read_optional read_int ''rule_id'' r;
          r \<leftarrow> expect (json_key ''status'') r;
          (st, r) \<leftarrow> read_int r;
          st \<leftarrow> read_status st;
          r \<leftarrow> expect (CHR '','' # json_key ''created_at'') r;
          (c, r) \<leftarrow> read_int r;
          r \<leftarrow> expect (CHR '','' # json_key ''updated_at'') r;
          (u, r) \<leftarrow> read_int r;
          r \<leftarrow> expect ''}'' r;
          if r = [] then Some \<lparr>sc_id = i, sc_event = ev, sc_start_time = a, sc_end_time = b, sc_location = l,
            sc_notes = n, sc_rule_id = ru, sc_status = st, sc_created_at = c, sc_updated_at = u\<rparr> else None }"

lemma expect_append [simp]: "expect p (p @ r) = Some r"
  by (induction p) auto

lemma quote_backslash [simp]: "quote \<noteq> backslash" "backslash \<noteq> quote"
  by (simp_all add: quote_def backslash_def)

lemma char_of_byte_eq: "byte c = n \<Longrightarrow> c = char_of n"
  by auto

lemma read_escaped_char:
  "read_string (escape_char c @ r) = map_option (\<lambda>(v, r). (c # v, r)) (read_string r)"
proof -
  have letters: "CHR ''b'' \<noteq> quote" "CHR ''b'' \<noteq> backslash" "CHR ''f'' \<noteq> quote" "CHR ''f'' \<noteq> backslash"
    "CHR ''n'' \<noteq> quote" "CHR ''n'' \<noteq> backslash" "CHR ''r'' \<noteq> quote" "CHR ''r'' \<noteq> backslash"
    "CHR ''t'' \<noteq> quote" "CHR ''t'' \<noteq> backslash"
    by (simp_all add: quote_def backslash_def char_of_def)
  show ?thesis
    using char_of_byte_eq [of c 8] char_of_byte_eq [of c 9] char_of_byte_eq [of c 10]
      char_of_byte_eq [of c 12] char_of_byte_eq [of c 13]
    by (simp add: escape_char_def unescape_char_def letters)
qed

lemma read_escaped: "read_string (concat (map escape_char v) @ quote # r) = Some (v, r)"
  by (induction v) (simp_all add: read_escaped_char)

lemma read_quoted_append [simp]:
  "read_quoted (quote # concat (map escape_char v) @ quote # r) = Some (v, r)"
  by (simp add: read_quoted_def read_escaped)

lemma digits_props:
  "0 \<le> n \<Longrightarrow> (\<forall>c \<in> set (digits n). is_digit c) \<and> digits n \<noteq> [] \<and> digits_value (digits n) = n"
proof (induction n rule: digits.induct)
  case (1 n)
  show ?case
  proof (cases "n < 10")
    case True
    with 1 show ?thesis by (simp add: digits.simps [of n] is_digit_def digits_value_def)
  next
    case False
    have "0 \<le> n mod 10" "n mod 10 < 10" by simp_all
    then have "is_digit (char_of (48 + n mod 10))" "(of_char (char_of (48 + n mod 10)) :: int) = 48 + n mod 10"
      by (simp_all add: is_digit_def)
    with 1(1) [OF False] False show ?thesis
      by (auto simp: digits.simps [of n] digits_value_def)
  qed
qed

lemma takeWhile_digits:
  assumes "\<not> is_digit c" "0 \<le> n"
  shows "takeWhile is_digit (digits n @ c # r) = digits n"
    "dropWhile is_digit (digits n @ c # r) = c # r"
  using digits_props [of n] assms by (auto simp: takeWhile_append dropWhile_append)

lemma digits_Cons:
  assumes "0 \<le> n"
  obtains c cs where "digits n = c # cs" "is_digit c" "c \<noteq> CHR ''n''" "c \<noteq> CHR ''-''"
proof (cases "digits n")
  case (Cons c cs)
  with digits_props [OF assms] have "is_digit c" by simp
  moreover from this have "c \<noteq> CHR ''n''" "c \<noteq> CHR ''-''" by (auto simp: is_digit_def)
  ultimately show thesis using Cons by (intro that [of c cs])
qed (use digits_props [OF assms] in simp)

lemma read_int_append [simp]: "\<not> is_digit c \<Longrightarrow> read_int (to_string i @ c # r) = Some (i, c # r)"
proof (cases "i < 0")
  case False
  assume c: "\<not> is_digit c"
  from False have i: "0 \<le> i" by simp
  obtain d ds where d: "digits i = d # ds" "d \<noteq> CHR ''-''" using digits_Cons [OF i] by metis
  then show ?thesis
    using False takeWhile_digits [OF c i, of r] digits_props [OF i]
    by (simp add: read_int_def to_string_def)
qed (simp add: read_int_def to_string_def takeWhile_digits digits_props)

lemma to_string_Cons:
  obtains c cs where "to_string i = c # cs" "c \<noteq> CHR ''n''"
proof (cases "i < 0")
  case True
  then show thesis by (intro that [of "CHR ''-''"]) (simp_all add: to_string_def)
next
  case False
  then have i: "0 \<le> i" by simp
  obtain d ds where "digits i = d # ds" "d \<noteq> CHR ''n''" using digits_Cons [OF i] by metis
  with False show thesis by (intro that [of d ds]) (simp_all add: to_string_def)
qed

lemma expect_null_int [simp]: "expect ''null'' (to_string i @ r) = None"
  by (rule to_string_Cons [of i]) auto

lemma quote_letter [simp]: "CHR ''n'' \<noteq> quote"
  by (simp add: quote_def char_of_def)

lemma expect_null_quoted [simp]: "expect ''null'' (quote # r) = None"
  by simp

lemma read_optional_int [simp]:
  "read_optional read_int key (json_key key @ (case v of Some i \<Rightarrow> to_string i | None \<Rightarrow> ''null'') @ CHR '','' # r)
     = Some (v, r)"
  by (cases v) (simp_all add: read_optional_def is_digit_def)

lemma read_optional_quoted [simp]:
  "read_optional read_quoted key (json_key key @
     (case v of Some t \<Rightarrow> quote # concat (map escape_char t) @ [quote] | None \<Rightarrow> ''null'') @ CHR '','' # r)
     = Some (v, r)"
  by (cases v) (simp_all add: read_optional_def)

lemma AppendOptionalInteger_eq:
  "AppendOptionalInteger out key v =
     out @ json_key key @ (case v of Some i \<Rightarrow> to_string i | None \<Rightarrow> ''null'') @ '',''"
  by (simp add: AppendOptionalInteger_def json_key_def Let_def split: option.split)

lemma AppendOptionalString_eq:
  "AppendOptionalString out key v =
     out @ json_key key @ (case v of Some t \<Rightarrow> quote # concat (map escape_char t) @ [quote] | None \<Rightarrow> ''null'') @ '',''"
  by (simp add: AppendOptionalString_def AppendJsonString_def json_key_def Let_def split: option.split)

lemma read_status_number [simp]: "read_status (status_number st) = Some st"
  by (cases st) (simp_all add: read_status_def)

lemma read_snapshot_serialized: "read_snapshot (SerializeScheduleSnapshot s) = Some s"
proof -
  have nd: "\<not> is_digit CHR '',''" "\<not> is_digit CHR ''}''" by (simp_all add: is_digit_def)
  show ?thesis
    unfolding SerializeScheduleSnapshot_def Let_def AppendOptionalInteger_eq AppendOptionalString_eq
      AppendJsonString_def
    by (simp add: read_snapshot_def ToEpochSeconds_def [abs_def] nd option.map_ident)
qed

section \<open>Properties\<close>


text \<open>
  Trimming removes exactly the blanks at both ends, and trimming again changes nothing.
\<close>

theorem trim_text:
  "trimmed (TrimScheduleText v) \<and> TrimScheduleText (TrimScheduleText v) = TrimScheduleText v \<and>
   (\<exists>a b. v = a @ TrimScheduleText v @ b \<and> list_all isspace a \<and> list_all isspace b)"
  using TrimScheduleText_padding [of v] trimmed_TrimScheduleText [of v]
  by (simp add: TrimScheduleText_trimmed list_all_iff)

text \<open>
  The length that the name limit uses is the number of code points of the text, not of its
  bytes.
\<close>

theorem text_length_counts_code_points:
  "list_all (\<lambda>n. 0 \<le> n \<and> n < 65536) ns \<longrightarrow> ScheduleTextLength (utf8 ns) = length ns"
  using ScheduleTextLength_utf8 by (simp add: list_all_iff)

theorem text_length_counts_code_points_witness:
  "ScheduleTextLength (utf8 [26085, 31243, 233, 65]) = 4 \<and> length (utf8 [26085, 31243, 233, 65]) = 9"
  using text_length_counts_code_points [of "[26085, 31243, 233, 65]"] by (simp add: utf8_def utf8_char_def)

end
