(* ===== verification/Time_Rules.thy ===== *)
theory Time_Rules
  imports Schedule_Types
begin

text \<open>
  \<open>voicelife_schedule/src/rules/schedule_time_rules.cc\<close>: when two schedules conflict, when they are
  near each other, and the window of candidates the services ask the repository for. The conflict
  test is shown to decide whether the two schedules share an instant, and the window to contain
  every schedule that can conflict with, or be near to, the candidate.
\<close>

section \<open>The code\<close>

definition kNearbyWindow :: int where
  "kNearbyWindow = 15 * 60"

text \<open>\<open>*schedule.start_time\<close> on an empty optional is undefined behaviour, modelled by \<open>the\<close>.\<close>

definition ScheduleRangeEnd :: "Schedule \<Rightarrow> DateTime" where
  "ScheduleRangeEnd s = (case sc_end_time s of Some e \<Rightarrow> e | None \<Rightarrow> the (sc_start_time s))"

definition SchedulesConflict :: "Schedule \<Rightarrow> Schedule \<Rightarrow> bool" where
  "SchedulesConflict left right =
     (let left_start = the (sc_start_time left);
          right_start = the (sc_start_time right);
          left_end = ScheduleRangeEnd left;
          right_end = ScheduleRangeEnd right;
          left_is_point = (sc_end_time left = None);
          right_is_point = (sc_end_time right = None)
      in if left_is_point \<and> right_is_point then left_start = right_start
         else if left_is_point then left_start \<ge> right_start \<and> left_start < right_end
         else if right_is_point then right_start \<ge> left_start \<and> right_start < left_end
         else left_start < right_end \<and> right_start < left_end)"

definition SchedulesAreNearby :: "Schedule \<Rightarrow> Schedule \<Rightarrow> bool" where
  "SchedulesAreNearby left right =
     (let left_start = the (sc_start_time left);
          right_start = the (sc_start_time right)
      in if left_start \<le> right_start then right_start - left_start \<le> kNearbyWindow
         else left_start - right_start \<le> kNearbyWindow)"

definition ScheduleNearbyWindow :: "Schedule \<Rightarrow> DateTime \<times> DateTime" where
  "ScheduleNearbyWindow s =
     (let start = the (sc_start_time s); end = ScheduleRangeEnd s
      in (start - kNearbyWindow, end + kNearbyWindow))"

definition FindConflictingSchedules ::
    "Schedule \<Rightarrow> Schedule list \<Rightarrow> ScheduleRuleId option \<Rightarrow> Schedule list" where
  "FindConflictingSchedules candidate schedules ignored_rule_id =
     filter (\<lambda>existing.
       \<not> (sc_id existing = sc_id candidate \<or> sc_status existing \<noteq> kActive \<or> sc_start_time existing = None) \<and>
       \<not> (ignored_rule_id \<noteq> None \<and> sc_rule_id existing = ignored_rule_id) \<and>
       SchedulesConflict candidate existing) schedules"

definition FindNearbySchedules :: "Schedule \<Rightarrow> Schedule list \<Rightarrow> Schedule list" where
  "FindNearbySchedules candidate schedules =
     filter (\<lambda>existing.
       \<not> (sc_id existing = sc_id candidate \<or> sc_status existing \<noteq> kActive \<or> sc_start_time existing = None) \<and>
       \<not> SchedulesConflict candidate existing \<and> SchedulesAreNearby candidate existing) schedules"

section \<open>What a conflict is\<close>

text \<open>
  A schedule with a start time is timed when its end, if it has one, is later than its start (the
  services reject every other one). It occupies its start instant alone, or the half-open interval
  up to its end.
\<close>

definition timed :: "Schedule \<Rightarrow> bool" where
  "timed s \<longleftrightarrow>
     (case sc_start_time s of None \<Rightarrow> False
      | Some a \<Rightarrow> (case sc_end_time s of None \<Rightarrow> True | Some b \<Rightarrow> a < b))"

definition occupied :: "Schedule \<Rightarrow> DateTime set" where
  "occupied s =
     (case sc_end_time s of
        None \<Rightarrow> {the (sc_start_time s)}
      | Some e \<Rightarrow> {the (sc_start_time s)..<e})"

definition in_window :: "DateTime \<times> DateTime \<Rightarrow> Schedule \<Rightarrow> bool" where
  "in_window w s \<longleftrightarrow> the (sc_start_time s) \<le> snd w \<and> fst w \<le> ScheduleRangeEnd s"

lemmas time_rule_defs = SchedulesConflict_def SchedulesAreNearby_def ScheduleRangeEnd_def
  ScheduleNearbyWindow_def kNearbyWindow_def Let_def

lemma half_open_overlap:
  fixes a b c d :: int
  assumes "a < b" "c < d"
  shows "{a..<b} \<inter> {c..<d} \<noteq> {} \<longleftrightarrow> a < d \<and> c < b"
proof
  assume "a < d \<and> c < b"
  with assms have "max a c \<in> {a..<b} \<inter> {c..<d}" by auto
  then show "{a..<b} \<inter> {c..<d} \<noteq> {}" by blast
qed auto

lemma conflict_iff_occupied:
  assumes "timed l" "timed r"
  shows "SchedulesConflict l r \<longleftrightarrow> occupied l \<inter> occupied r \<noteq> {}"
proof -
  from assms obtain a c where a: "sc_start_time l = Some a" and c: "sc_start_time r = Some c"
    by (auto simp: timed_def split: option.splits)
  show ?thesis
  proof (cases "sc_end_time l"; cases "sc_end_time r")
    fix b d
    assume b: "sc_end_time l = Some b" and d: "sc_end_time r = Some d"
    with assms a c have "a < b" "c < d" by (simp_all add: timed_def)
    from half_open_overlap [OF this] a b c d show ?thesis
      by (simp add: time_rule_defs occupied_def)
  qed (use a c in \<open>auto simp: time_rule_defs occupied_def\<close>)
qed

lemma conflict_sym: "SchedulesConflict l r = SchedulesConflict r l"
  by (auto simp: time_rule_defs split: option.splits)

lemma window_complete:
  assumes "timed s" "timed e" "SchedulesConflict s e \<or> SchedulesAreNearby s e"
  shows "in_window (ScheduleNearbyWindow s) e"
  using assms by (auto simp: time_rule_defs in_window_def timed_def split: option.splits if_splits)

section \<open>Properties\<close>

text \<open>
  The conflict test decides whether two timed schedules share an instant, where a schedule
  without an end is a point and one with an end is half-open; it is symmetric, so schedules that
  only touch never conflict.
\<close>

theorem conflict_is_overlap:
  "timed l \<and> timed r \<longrightarrow>
     SchedulesConflict l r = (occupied l \<inter> occupied r \<noteq> {}) \<and> SchedulesConflict r l = SchedulesConflict l r"
  using conflict_iff_occupied conflict_sym by blast

theorem conflict_is_overlap_witness:
  "let l = default_Schedule\<lparr>sc_start_time := Some 100, sc_end_time := Some 200\<rparr>;
       r = default_Schedule\<lparr>sc_start_time := Some 150\<rparr>
   in SchedulesConflict l r = (occupied l \<inter> occupied r \<noteq> {}) \<and> SchedulesConflict l r"
  using conflict_is_overlap [of "default_Schedule\<lparr>sc_start_time := Some 100, sc_end_time := Some 200\<rparr>"
      "default_Schedule\<lparr>sc_start_time := Some 150\<rparr>"]
  by (simp add: timed_def default_Schedule_def time_rule_defs)

end
