(* ===== verification/Repositories.thy ===== *)
theory Repositories
  imports Schedule_Helpers Time_Rules
begin

text \<open>
  The persistence interfaces of \<open>voicelife_schedule\<close>: every abstract class is a record of its
  virtual methods over a store of any type (the object behind the reference). A \<open>const\<close> method
  returns its result, every other method also the store after the call. The locales state what the
  interface comments promise and what the services rely on; \<open>Memory_Store\<close> interprets them on the
  in-memory implementation.
\<close>

section \<open>Interfaces\<close>

record 's ScheduleRepository =
  repo_Insert :: "'s \<Rightarrow> Schedule \<Rightarrow> Schedule Result \<times> 's"
  repo_Update :: "'s \<Rightarrow> Schedule \<Rightarrow> Status \<times> 's"
  repo_Delete :: "'s \<Rightarrow> ScheduleId \<Rightarrow> Status \<times> 's"
  repo_FindById :: "'s \<Rightarrow> ScheduleId \<Rightarrow> Schedule Result"
  repo_Find :: "'s \<Rightarrow> QueryScheduleCommand \<Rightarrow> Schedule list Result"
  repo_Count :: "'s \<Rightarrow> QueryScheduleCommand \<Rightarrow> int Result"
  repo_FindOverlapping :: "'s \<Rightarrow> DateTime \<Rightarrow> DateTime \<Rightarrow> ScheduleId option \<Rightarrow> Schedule list Result"
  repo_FindAll :: "'s \<Rightarrow> Schedule list Result"

record 's ScheduleOperationRepository =
  ops_InsertOperation :: "'s \<Rightarrow> OperationRecord \<Rightarrow> OperationRecord Result \<times> 's"
  ops_FindOperations :: "'s \<Rightarrow> QueryOperationCommand \<Rightarrow> OperationRecord list Result"
  ops_CountOperations :: "'s \<Rightarrow> QueryOperationCommand \<Rightarrow> int Result"

text \<open>\<open>CancelRuleAndInstances\<close> has an output parameter: its value before the call is an argument.\<close>

record 's ScheduleRuleRepository =
  rules_Insert :: "'s \<Rightarrow> ScheduleRule \<Rightarrow> ScheduleRule Result \<times> 's"
  rules_Update :: "'s \<Rightarrow> ScheduleRule \<Rightarrow> Status \<times> 's"
  rules_FindAll :: "'s \<Rightarrow> ScheduleRule list Result"
  rules_FindById :: "'s \<Rightarrow> ScheduleRuleId \<Rightarrow> ScheduleRule Result"
  rules_CreateWithFirstInstance :: "'s \<Rightarrow> ScheduleRule \<Rightarrow> Schedule option \<Rightarrow> ScheduleRule Result \<times> 's"
  rules_UpdateAndRebuild :: "'s \<Rightarrow> ScheduleRule \<Rightarrow> Schedule option \<Rightarrow> ScheduleRule Result \<times> 's"
  rules_CancelRuleAndInstances :: "'s \<Rightarrow> ScheduleRuleId \<Rightarrow> int \<Rightarrow> Status \<times> int \<times> 's"
  rules_CreateNextInstance :: "'s \<Rightarrow> Schedule \<Rightarrow> ScheduleException option \<Rightarrow> Schedule Result \<times> 's"

record 's ScheduleExceptionRepository =
  exc_Upsert :: "'s \<Rightarrow> ScheduleException \<Rightarrow> ScheduleException Result \<times> 's"
  exc_FindByRule :: "'s \<Rightarrow> ScheduleRuleId \<Rightarrow> ScheduleException list Result"
  exc_FindByRuleAndTime :: "'s \<Rightarrow> ScheduleRuleId \<Rightarrow> DateTime \<Rightarrow> ScheduleException option Result"
  exc_DeleteFuture :: "'s \<Rightarrow> ScheduleRuleId \<Rightarrow> DateTime \<Rightarrow> Status \<times> 's"

section \<open>Contracts\<close>

text \<open>What a store may add to a schedule: its identifier and its time stamps.\<close>

definition stored_as :: "Schedule \<Rightarrow> Schedule \<Rightarrow> bool" where
  "stored_as s s' \<longleftrightarrow> s' = s\<lparr>sc_id := sc_id s', sc_created_at := sc_created_at s', sc_updated_at := sc_updated_at s'\<rparr>"

lemma stored_as_fields:
  assumes "stored_as s s'"
  shows "sc_event s' = sc_event s" "sc_start_time s' = sc_start_time s" "sc_end_time s' = sc_end_time s"
    "sc_location s' = sc_location s" "sc_notes s' = sc_notes s" "sc_rule_id s' = sc_rule_id s"
    "sc_status s' = sc_status s"
  using assms by (metis stored_as_def Schedule.ext_inject Schedule.surjective Schedule.update_convs Schedule.select_convs)+

definition overlap_candidate :: "DateTime \<Rightarrow> DateTime \<Rightarrow> ScheduleId option \<Rightarrow> Schedule \<Rightarrow> bool" where
  "overlap_candidate a b exclude s \<longleftrightarrow>
     sc_status s = kActive \<and> sc_start_time s \<noteq> None \<and> exclude \<noteq> Some (sc_id s) \<and> in_window (a, b) s"

locale schedule_repository =
  fixes R :: "'s ScheduleRepository"
    and inv :: "'s \<Rightarrow> bool"
    and content :: "'s \<Rightarrow> ScheduleId \<Rightarrow> Schedule option"
  assumes content_id: "inv st \<Longrightarrow> content st i = Some s \<Longrightarrow> sc_id s = i \<and> 0 < i"
    and insert_stores: "inv st \<Longrightarrow> sc_event s \<noteq> [] \<Longrightarrow> repo_Insert R st s = (r, st') \<Longrightarrow>
      \<exists>s'. r = Success s' \<and> stored_as s s' \<and> 0 < sc_id s' \<and> content st (sc_id s') = None \<and>
           content st' = (content st)(sc_id s' \<mapsto> s') \<and> inv st'"
    and update_stores: "inv st \<Longrightarrow> content st (sc_id s) \<noteq> None \<Longrightarrow> repo_Update R st s = (w, st') \<Longrightarrow>
      w = Status_Ok \<and> content st' = (content st)(sc_id s \<mapsto> s) \<and> inv st'"
    and delete_cancels: "inv st \<Longrightarrow> content st i = Some s \<Longrightarrow> sc_status s \<noteq> kCancelled \<Longrightarrow>
      repo_Delete R st i = (w, st') \<Longrightarrow>
      \<exists>t. w = Status_Ok \<and> content st' = (content st)(i \<mapsto> s\<lparr>sc_status := kCancelled, sc_updated_at := t\<rparr>) \<and> inv st'"
    and delete_conflict: "inv st \<Longrightarrow> content st i = Some s \<Longrightarrow> sc_status s = kCancelled \<Longrightarrow>
      code (fst (repo_Delete R st i)) = kConflict \<and> snd (repo_Delete R st i) = st"
    and find_present: "inv st \<Longrightarrow> content st i = Some s \<Longrightarrow> repo_FindById R st i = Success s"
    and find_absent: "inv st \<Longrightarrow> content st i = None \<Longrightarrow>
      \<not> ok (repo_FindById R st i) \<and> code (status (repo_FindById R st i)) = kNotFound"
    and overlapping: "inv st \<Longrightarrow> \<exists>xs. repo_FindOverlapping R st a b x = Success xs \<and>
      set xs = {s \<in> ran (content st). overlap_candidate a b x s}"
    and query: "inv st \<Longrightarrow> \<exists>xs. distinct xs \<and> set xs = {s \<in> ran (content st). MatchesScheduleQuery s q} \<and>
      repo_Find R st q = Success (page (qs_offset q) (qs_limit q) xs) \<and> repo_Count R st q = Success (int (length xs))"

definition recorded_as :: "OperationRecord \<Rightarrow> OperationRecord \<Rightarrow> bool" where
  "recorded_as e e' \<longleftrightarrow> e' = e\<lparr>op_id := op_id e', op_operated_at := op_operated_at e'\<rparr>"

locale operation_repository =
  fixes Ops :: "'s ScheduleOperationRepository"
    and inv :: "'s \<Rightarrow> bool"
    and log :: "'s \<Rightarrow> OperationRecord list"
  assumes insert_operation: "inv st \<Longrightarrow> ops_InsertOperation Ops st e = (r, st') \<Longrightarrow>
      \<exists>e'. r = Success e' \<and> recorded_as e e' \<and> log st' = log st @ [e'] \<and> inv st'"

text \<open>The two repositories share one store: neither touches the other's part.\<close>

locale schedule_store =
  schedule_repository R inv content + operation_repository Ops inv log
  for R :: "'s ScheduleRepository" and Ops :: "'s ScheduleOperationRepository"
    and inv :: "'s \<Rightarrow> bool" and content :: "'s \<Rightarrow> ScheduleId \<Rightarrow> Schedule option"
    and log :: "'s \<Rightarrow> OperationRecord list" +
  assumes operation_frame: "inv st \<Longrightarrow> content (snd (ops_InsertOperation Ops st e)) = content st"
    and insert_frame: "inv st \<Longrightarrow> log (snd (repo_Insert R st s)) = log st"
    and update_frame: "inv st \<Longrightarrow> log (snd (repo_Update R st s)) = log st"
    and delete_frame: "inv st \<Longrightarrow> log (snd (repo_Delete R st i)) = log st"

end
