(* ===== verification/Memory_Store.thy ===== *)
theory Memory_Store
  imports Repositories
begin

text \<open>
  \<open>voicelife_storage_memory/src/memory_schedule_repository.cc\<close>: the in-memory store behind the
  schedule, operation, rule and exception interfaces. The two classes share one object, so the
  model has one record for it; every method runs under the store's mutex and is one step. The
  system clock is a sequence of readings, and \<open>Now\<close> takes the next one.
\<close>

section \<open>State\<close>

record MemoryStore =
  ms_schedules :: "Schedule list"
  ms_operations :: "OperationRecord list"
  ms_rules :: "ScheduleRule list"
  ms_exceptions :: "ScheduleException list"
  ms_next_schedule_id :: ScheduleId
  ms_next_operation_id :: OperationId
  ms_next_rule_id :: ScheduleRuleId
  ms_next_exception_id :: ScheduleExceptionId
  ms_clock :: "nat \<Rightarrow> DateTime"
  ms_clock_reads :: nat

definition empty_store :: "(nat \<Rightarrow> DateTime) \<Rightarrow> MemoryStore" where
  "empty_store clock = \<lparr>ms_schedules = [], ms_operations = [], ms_rules = [], ms_exceptions = [],
     ms_next_schedule_id = 1, ms_next_operation_id = 1, ms_next_rule_id = 1, ms_next_exception_id = 1,
     ms_clock = clock, ms_clock_reads = 0\<rparr>"

definition Mem_Now :: "MemoryStore \<Rightarrow> DateTime \<times> MemoryStore" where
  "Mem_Now st = (ms_clock st (ms_clock_reads st), st\<lparr>ms_clock_reads := Suc (ms_clock_reads st)\<rparr>)"

section \<open>Queries\<close>

definition Mem_MatchesStatus :: "ScheduleStatus \<Rightarrow> ScheduleStatusFilter \<Rightarrow> bool" where
  "Mem_MatchesStatus st flt \<longleftrightarrow> flt = Filter_kAll \<or>
     (flt = Filter_kActive \<and> st = kActive) \<or>
     (flt = Filter_kCancelled \<and> st = kCancelled) \<or>
     (flt = Filter_kCompleted \<and> st = kCompleted)"

fun Mem_MatchesKeyword_loop :: "string \<Rightarrow> string list \<Rightarrow> bool" where
  "Mem_MatchesKeyword_loop event [] = True"
| "Mem_MatchesKeyword_loop event (token # rest) =
     (let token = (if token \<noteq> [] \<and> hd token = CHR ''+'' then tl token else token)
      in if token \<noteq> [] \<and> \<not> sublist token event then False
         else Mem_MatchesKeyword_loop event rest)"

definition Mem_MatchesKeyword :: "string \<Rightarrow> string \<Rightarrow> bool" where
  "Mem_MatchesKeyword event keyword =
     Mem_MatchesKeyword_loop (map tolower event) (tokens (map tolower keyword))"

definition Mem_MatchesSchedule :: "Schedule \<Rightarrow> QueryScheduleCommand \<Rightarrow> bool" where
  "Mem_MatchesSchedule s q =
     (if qs_schedule_id q \<noteq> None \<and> sc_id s \<noteq> the (qs_schedule_id q) then False
      else if qs_rule_id q \<noteq> None \<and> (sc_rule_id s = None \<or> the (sc_rule_id s) \<noteq> the (qs_rule_id q)) then False
      else if \<not> Mem_MatchesStatus (sc_status s) (qs_status q) then False
      else if qs_keyword q \<noteq> None \<and> \<not> Mem_MatchesKeyword (sc_event s) (the (qs_keyword q)) then False
      else if qs_start_from q \<noteq> None \<or> qs_start_to q \<noteq> None then
        (if sc_start_time s = None then False
         else if qs_start_from q \<noteq> None \<and> the (sc_start_time s) < the (qs_start_from q) then False
         else if qs_start_to q \<noteq> None \<and> the (sc_start_time s) > the (qs_start_to q) then False
         else True)
      else True)"

definition Mem_MatchesOperation :: "OperationRecord \<Rightarrow> QueryOperationCommand \<Rightarrow> bool" where
  "Mem_MatchesOperation e q =
     (if qo_operation_id q \<noteq> None \<and> op_id e \<noteq> the (qo_operation_id q) then False
      else if qo_entity_type q \<noteq> None \<and> op_entity_type e \<noteq> the (qo_entity_type q) then False
      else if qo_entity_id q \<noteq> None \<and> op_entity_id e \<noteq> the (qo_entity_id q) then False
      else if qo_type q \<noteq> None \<and> op_type e \<noteq> the (qo_type q) then False
      else if qo_operated_from q \<noteq> None \<and> op_operated_at e < the (qo_operated_from q) then False
      else if qo_keyword q \<noteq> None \<and> \<not> Mem_MatchesKeyword (op_label e) (the (qo_keyword q)) then False
      else qo_operated_to q = None \<or> op_operated_at e \<le> the (qo_operated_to q))"

section \<open>Schedules\<close>

definition Mem_InsertScheduleLocked :: "MemoryStore \<Rightarrow> Schedule \<Rightarrow> Schedule Result \<times> MemoryStore" where
  "Mem_InsertScheduleLocked st input =
     (if sc_event input = [] then (Failure kInvalidArgument msg_event_empty, st)
      else
        (let stored = input\<lparr>sc_id := ms_next_schedule_id st\<rparr>;
             st = st\<lparr>ms_next_schedule_id := ms_next_schedule_id st + 1\<rparr>;
             (now, st) = Mem_Now st;
             stored = (if sc_created_at stored = 0 then stored\<lparr>sc_created_at := now\<rparr> else stored);
             stored = (if sc_updated_at stored = 0 then stored\<lparr>sc_updated_at := sc_created_at stored\<rparr> else stored);
             st = st\<lparr>ms_schedules := ms_schedules st @ [stored]\<rparr>
         in (Success stored, st)))"

definition Mem_Insert :: "MemoryStore \<Rightarrow> Schedule \<Rightarrow> Schedule Result \<times> MemoryStore" where
  "Mem_Insert st s = Mem_InsertScheduleLocked st s"

definition find_schedule :: "MemoryStore \<Rightarrow> ScheduleId \<Rightarrow> Schedule option" where
  "find_schedule st i = List.find (\<lambda>s. sc_id s = i) (ms_schedules st)"

definition Mem_Update :: "MemoryStore \<Rightarrow> Schedule \<Rightarrow> Status \<times> MemoryStore" where
  "Mem_Update st s =
     (if find_schedule st (sc_id s) = None then (Status_Error kNotFound msg_schedule_missing, st)
      else (Status_Ok, st\<lparr>ms_schedules := update_first (\<lambda>x. sc_id x = sc_id s) (\<lambda>_. s) (ms_schedules st)\<rparr>))"

definition Mem_Delete :: "MemoryStore \<Rightarrow> ScheduleId \<Rightarrow> Status \<times> MemoryStore" where
  "Mem_Delete st i =
     (case find_schedule st i of
        None \<Rightarrow> (Status_Error kNotFound msg_schedule_missing, st)
      | Some found \<Rightarrow>
        if sc_status found = kCancelled then (Status_Error kConflict msg_schedule_cancelled, st)
        else
          (let (now, st) = Mem_Now st
           in (Status_Ok, st\<lparr>ms_schedules := update_first (\<lambda>x. sc_id x = i)
                 (\<lambda>x. x\<lparr>sc_status := kCancelled, sc_updated_at := now\<rparr>) (ms_schedules st)\<rparr>)))"

definition Mem_FindById :: "MemoryStore \<Rightarrow> ScheduleId \<Rightarrow> Schedule Result" where
  "Mem_FindById st i =
     (case find_schedule st i of
        None \<Rightarrow> Failure kNotFound msg_schedule_not_found
      | Some found \<Rightarrow> Success found)"

text \<open>The comparator of \<open>Find\<close>: by keyword score, then by start time with the open ones last, then by id.\<close>

definition Mem_Find_less :: "QueryScheduleCommand \<Rightarrow> Schedule \<Rightarrow> Schedule \<Rightarrow> bool" where
  "Mem_Find_less q left right =
     (let by_time =
            (if sc_start_time left \<noteq> sc_start_time right then
               (if sc_start_time left = None then False
                else if sc_start_time right = None then True
                else the (sc_start_time left) < the (sc_start_time right))
             else sc_id left < sc_id right)
      in if qs_keyword q \<noteq> None \<and> the (qs_keyword q) \<noteq> [] then
           (let left_score = ScoreScheduleKeyword (sc_event left) (the (qs_keyword q));
                right_score = ScoreScheduleKeyword (sc_event right) (the (qs_keyword q))
            in if left_score \<noteq> right_score then left_score > right_score else by_time)
         else by_time)"

definition Mem_Find :: "MemoryStore \<Rightarrow> QueryScheduleCommand \<Rightarrow> Schedule list Result" where
  "Mem_Find st q =
     (let result = filter (\<lambda>s. Mem_MatchesSchedule s q) (ms_schedules st);
          result = sort_by (Mem_Find_less q) result
      in Success (page (qs_offset q) (qs_limit q) result))"

definition Mem_Count :: "MemoryStore \<Rightarrow> QueryScheduleCommand \<Rightarrow> int Result" where
  "Mem_Count st q = Success (int (length (filter (\<lambda>s. Mem_MatchesSchedule s q) (ms_schedules st))))"

definition Mem_FindOverlapping ::
    "MemoryStore \<Rightarrow> DateTime \<Rightarrow> DateTime \<Rightarrow> ScheduleId option \<Rightarrow> Schedule list Result" where
  "Mem_FindOverlapping st a b exclude_id =
     (let result = filter (\<lambda>s.
            if sc_status s \<noteq> kActive \<or> sc_start_time s = None then False
            else if exclude_id \<noteq> None \<and> sc_id s = the exclude_id then False
            else the (sc_start_time s) \<le> b \<and>
                 (case sc_end_time s of Some e \<Rightarrow> e | None \<Rightarrow> the (sc_start_time s)) \<ge> a) (ms_schedules st)
      in Success (sort_by (\<lambda>l r. the (sc_start_time l) < the (sc_start_time r)) result))"

definition Mem_FindAll :: "MemoryStore \<Rightarrow> Schedule list Result" where
  "Mem_FindAll st = Success (ms_schedules st)"

section \<open>Operations\<close>

definition Mem_InsertOperation :: "MemoryStore \<Rightarrow> OperationRecord \<Rightarrow> OperationRecord Result \<times> MemoryStore" where
  "Mem_InsertOperation st operation =
     (let stored = operation\<lparr>op_id := ms_next_operation_id st\<rparr>;
          st = st\<lparr>ms_next_operation_id := ms_next_operation_id st + 1\<rparr>;
          (now, st) = Mem_Now st;
          stored = stored\<lparr>op_operated_at := now\<rparr>;
          st = st\<lparr>ms_operations := ms_operations st @ [stored]\<rparr>
      in (Success stored, st))"

definition Mem_operation_less :: "OperationRecord \<Rightarrow> OperationRecord \<Rightarrow> bool" where
  "Mem_operation_less left right =
     (if op_operated_at left = op_operated_at right then op_id left > op_id right
      else op_operated_at left > op_operated_at right)"

definition Mem_FindOperations :: "MemoryStore \<Rightarrow> QueryOperationCommand \<Rightarrow> OperationRecord list Result" where
  "Mem_FindOperations st q =
     (let result = filter (\<lambda>e. Mem_MatchesOperation e q) (ms_operations st);
          result = sort_by Mem_operation_less result
      in Success (page (qo_offset q) (qo_limit q) result))"

definition Mem_CountOperations :: "MemoryStore \<Rightarrow> QueryOperationCommand \<Rightarrow> int Result" where
  "Mem_CountOperations st q = Success (int (length (filter (\<lambda>e. Mem_MatchesOperation e q) (ms_operations st))))"

section \<open>Rules and exceptions\<close>

definition MemRule_InsertRuleLocked :: "MemoryStore \<Rightarrow> ScheduleRule \<Rightarrow> ScheduleRule Result \<times> MemoryStore" where
  "MemRule_InsertRuleLocked st input =
     (if ru_event input = [] then (Failure kInvalidArgument msg_rule_event_empty, st)
      else
        (let stored = input\<lparr>ru_id := ms_next_rule_id st\<rparr>;
             st = st\<lparr>ms_next_rule_id := ms_next_rule_id st + 1\<rparr>;
             (now, st) = Mem_Now st;
             stored = (if ru_created_at stored = 0 then stored\<lparr>ru_created_at := now\<rparr> else stored);
             stored = (if ru_updated_at stored = 0 then stored\<lparr>ru_updated_at := ru_created_at stored\<rparr> else stored);
             st = st\<lparr>ms_rules := ms_rules st @ [stored]\<rparr>
         in (Success stored, st)))"

definition MemRule_Insert :: "MemoryStore \<Rightarrow> ScheduleRule \<Rightarrow> ScheduleRule Result \<times> MemoryStore" where
  "MemRule_Insert st r = MemRule_InsertRuleLocked st r"

definition find_rule :: "MemoryStore \<Rightarrow> ScheduleRuleId \<Rightarrow> ScheduleRule option" where
  "find_rule st i = List.find (\<lambda>r. ru_id r = i) (ms_rules st)"

definition put_rule :: "ScheduleRule \<Rightarrow> MemoryStore \<Rightarrow> MemoryStore" where
  "put_rule r st = st\<lparr>ms_rules := update_first (\<lambda>x. ru_id x = ru_id r) (\<lambda>_. r) (ms_rules st)\<rparr>"

definition MemRule_Update :: "MemoryStore \<Rightarrow> ScheduleRule \<Rightarrow> Status \<times> MemoryStore" where
  "MemRule_Update st r =
     (if find_rule st (ru_id r) = None then (Status_Error kNotFound msg_rule_missing, st)
      else if ru_event r = [] then (Status_Error kInvalidArgument msg_rule_event_empty, st)
      else (Status_Ok, put_rule r st))"

definition MemRule_FindAll :: "MemoryStore \<Rightarrow> ScheduleRule list Result" where
  "MemRule_FindAll st = Success (ms_rules st)"

definition MemRule_FindById :: "MemoryStore \<Rightarrow> ScheduleRuleId \<Rightarrow> ScheduleRule Result" where
  "MemRule_FindById st i =
     (case find_rule st i of
        None \<Rightarrow> Failure kNotFound msg_rule_missing
      | Some found \<Rightarrow> Success found)"

definition first_event_empty :: "Schedule option \<Rightarrow> bool" where
  "first_event_empty first = (case first of None \<Rightarrow> False | Some s \<Rightarrow> sc_event s = [])"

definition MemRule_CreateWithFirstInstance ::
    "MemoryStore \<Rightarrow> ScheduleRule \<Rightarrow> Schedule option \<Rightarrow> ScheduleRule Result \<times> MemoryStore" where
  "MemRule_CreateWithFirstInstance st rule first =
     (if ru_event rule = [] \<or> first_event_empty first
        then (Failure kInvalidArgument msg_rule_or_first_empty, st)
      else
        (let (created, st) = MemRule_InsertRuleLocked st rule
         in if \<not> ok created then (created, st)
            else (case first of
                    None \<Rightarrow> (created, st)
                  | Some instance \<Rightarrow>
                    (let instance = instance\<lparr>sc_rule_id := Some (ru_id (the (val created)))\<rparr>;
                         (inserted, st) = Mem_InsertScheduleLocked st instance
                     in if \<not> ok inserted
                        then (Failure (code (status inserted)) (message (status inserted)), st)
                        else (created, st)))))"

definition MemRule_UpdateAndRebuild ::
    "MemoryStore \<Rightarrow> ScheduleRule \<Rightarrow> Schedule option \<Rightarrow> ScheduleRule Result \<times> MemoryStore" where
  "MemRule_UpdateAndRebuild st rule first =
     (if find_rule st (ru_id rule) = None then (Failure kNotFound msg_rule_missing, st)
      else if ru_event rule = [] \<or> first_event_empty first
        then (Failure kInvalidArgument msg_rule_or_first_empty, st)
      else
        (let st = put_rule rule st;
             (now, st) = Mem_Now st;
             st = st\<lparr>ms_schedules := filter (\<lambda>s. \<not> (sc_rule_id s = Some (ru_id rule) \<and>
                     sc_status s = kActive \<and> sc_start_time s \<noteq> None \<and> the (sc_start_time s) > now))
                     (ms_schedules st)\<rparr>;
             st = st\<lparr>ms_exceptions := filter (\<lambda>e. \<not> (ex_rule_id e = ru_id rule \<and>
                     ex_original_start_time e > now)) (ms_exceptions st)\<rparr>
         in case first of
              None \<Rightarrow> (Success (the (find_rule st (ru_id rule))), st)
            | Some instance \<Rightarrow>
              (let instance = instance\<lparr>sc_rule_id := Some (ru_id rule)\<rparr>;
                   (inserted, st) = Mem_InsertScheduleLocked st instance
               in if \<not> ok inserted
                  then (Failure (code (status inserted)) (message (status inserted)), st)
                  else (Success (the (find_rule st (ru_id rule))), st))))"

definition MemRule_CancelRuleAndInstances ::
    "MemoryStore \<Rightarrow> ScheduleRuleId \<Rightarrow> int \<Rightarrow> Status \<times> int \<times> MemoryStore" where
  "MemRule_CancelRuleAndInstances st i cancelled =
     (case find_rule st i of
        None \<Rightarrow> (Status_Error kNotFound msg_rule_missing, cancelled, st)
      | Some found \<Rightarrow>
        (let (now, st) = Mem_Now st;
             found = found\<lparr>ru_status := kCancelled, ru_updated_at := now\<rparr>;
             st = put_rule found st;
             hit = (\<lambda>s. sc_rule_id s = Some i \<and> sc_status s = kActive);
             cancelled = int (length (filter hit (ms_schedules st)));
             st = st\<lparr>ms_schedules := map (\<lambda>s. if hit s
                     then s\<lparr>sc_status := kCancelled, sc_updated_at := ru_updated_at found\<rparr> else s)
                     (ms_schedules st)\<rparr>;
             st = st\<lparr>ms_exceptions := filter (\<lambda>e. ex_rule_id e \<noteq> i) (ms_exceptions st)\<rparr>
         in (Status_Ok, cancelled, st)))"

definition same_occurrence :: "ScheduleException \<Rightarrow> ScheduleException \<Rightarrow> bool" where
  "same_occurrence e x \<longleftrightarrow>
     ex_rule_id x = ex_rule_id e \<and> ex_original_start_time x = ex_original_start_time e"

definition MemRule_UpsertExceptionLocked ::
    "MemoryStore \<Rightarrow> ScheduleException \<Rightarrow> ScheduleException Result \<times> MemoryStore" where
  "MemRule_UpsertExceptionLocked st exception =
     (if ex_rule_id exception \<le> 0 then (Failure kInvalidArgument msg_exception_rule_invalid, st)
      else
        (let found = List.find (same_occurrence exception) (ms_exceptions st);
             stored = exception;
             (now, st) = Mem_Now st
         in case found of
              Some f \<Rightarrow>
                (let stored = stored\<lparr>ex_id := ex_id f\<rparr>;
                     stored = (if ex_created_at stored = 0 then stored\<lparr>ex_created_at := ex_created_at f\<rparr> else stored);
                     stored = (if ex_updated_at stored = 0 then stored\<lparr>ex_updated_at := now\<rparr> else stored)
                 in (Success stored,
                     st\<lparr>ms_exceptions := update_first (same_occurrence exception) (\<lambda>_. stored) (ms_exceptions st)\<rparr>))
            | None \<Rightarrow>
                (let stored = stored\<lparr>ex_id := ms_next_exception_id st\<rparr>;
                     st = st\<lparr>ms_next_exception_id := ms_next_exception_id st + 1\<rparr>;
                     stored = (if ex_created_at stored = 0 then stored\<lparr>ex_created_at := now\<rparr> else stored);
                     stored = (if ex_updated_at stored = 0 then stored\<lparr>ex_updated_at := ex_created_at stored\<rparr> else stored)
                 in (Success stored, st\<lparr>ms_exceptions := ms_exceptions st @ [stored]\<rparr>))))"

definition MemRule_CreateNextInstance ::
    "MemoryStore \<Rightarrow> Schedule \<Rightarrow> ScheduleException option \<Rightarrow> Schedule Result \<times> MemoryStore" where
  "MemRule_CreateNextInstance st schedule linked_exception =
     (if sc_event schedule = [] \<or> sc_rule_id schedule = None \<or> the (sc_rule_id schedule) \<le> 0
        then (Failure kInvalidArgument msg_instance_invalid, st)
      else
        (let (inserted, st) = Mem_InsertScheduleLocked st schedule
         in if \<not> ok inserted then (inserted, st)
            else (case linked_exception of
                    None \<Rightarrow> (inserted, st)
                  | Some linked \<Rightarrow>
                    (let linked = linked\<lparr>ex_schedule_id := Some (sc_id (the (val inserted)))\<rparr>;
                         (saved, st) = MemRule_UpsertExceptionLocked st linked
                     in if \<not> ok saved then (Failure (code (status saved)) (message (status saved)), st)
                        else (inserted, st)))))"

definition MemRule_Upsert :: "MemoryStore \<Rightarrow> ScheduleException \<Rightarrow> ScheduleException Result \<times> MemoryStore" where
  "MemRule_Upsert st exception = MemRule_UpsertExceptionLocked st exception"

definition MemRule_FindByRule :: "MemoryStore \<Rightarrow> ScheduleRuleId \<Rightarrow> ScheduleException list Result" where
  "MemRule_FindByRule st i = Success (filter (\<lambda>e. ex_rule_id e = i) (ms_exceptions st))"

definition MemRule_FindByRuleAndTime ::
    "MemoryStore \<Rightarrow> ScheduleRuleId \<Rightarrow> DateTime \<Rightarrow> ScheduleException option Result" where
  "MemRule_FindByRuleAndTime st i t =
     Success (List.find (\<lambda>e. ex_rule_id e = i \<and> ex_original_start_time e = t) (ms_exceptions st))"

definition MemRule_DeleteFuture :: "MemoryStore \<Rightarrow> ScheduleRuleId \<Rightarrow> DateTime \<Rightarrow> Status \<times> MemoryStore" where
  "MemRule_DeleteFuture st i after =
     (Status_Ok, st\<lparr>ms_exceptions := filter (\<lambda>e. \<not> (ex_rule_id e = i \<and> ex_original_start_time e > after))
        (ms_exceptions st)\<rparr>)"

text \<open>The objects, as the services hold them.\<close>

definition memory_schedules :: "MemoryStore ScheduleRepository" where
  "memory_schedules = \<lparr>repo_Insert = Mem_Insert, repo_Update = Mem_Update, repo_Delete = Mem_Delete,
     repo_FindById = Mem_FindById, repo_Find = Mem_Find, repo_Count = Mem_Count,
     repo_FindOverlapping = Mem_FindOverlapping, repo_FindAll = Mem_FindAll\<rparr>"

definition memory_operations :: "MemoryStore ScheduleOperationRepository" where
  "memory_operations = \<lparr>ops_InsertOperation = Mem_InsertOperation,
     ops_FindOperations = Mem_FindOperations, ops_CountOperations = Mem_CountOperations\<rparr>"

definition memory_rules :: "MemoryStore ScheduleRuleRepository" where
  "memory_rules = \<lparr>rules_Insert = MemRule_Insert, rules_Update = MemRule_Update,
     rules_FindAll = MemRule_FindAll, rules_FindById = MemRule_FindById,
     rules_CreateWithFirstInstance = MemRule_CreateWithFirstInstance,
     rules_UpdateAndRebuild = MemRule_UpdateAndRebuild,
     rules_CancelRuleAndInstances = MemRule_CancelRuleAndInstances,
     rules_CreateNextInstance = MemRule_CreateNextInstance\<rparr>"

definition memory_exceptions :: "MemoryStore ScheduleExceptionRepository" where
  "memory_exceptions = \<lparr>exc_Upsert = MemRule_Upsert, exc_FindByRule = MemRule_FindByRule,
     exc_FindByRuleAndTime = MemRule_FindByRuleAndTime, exc_DeleteFuture = MemRule_DeleteFuture\<rparr>"

section \<open>The invariant of the store\<close>

text \<open>
  Identifiers are unique, positive and below the counter that issues them; there is at most one
  exception for an occurrence of a rule, and exceptions belong to rules with positive identifiers.
\<close>

definition keyed :: "('a \<Rightarrow> int) \<Rightarrow> int \<Rightarrow> 'a list \<Rightarrow> bool" where
  "keyed k bound xs \<longleftrightarrow> distinct (map k xs) \<and> (\<forall>x \<in> set xs. 1 \<le> k x \<and> k x < bound) \<and> 1 \<le> bound"

definition exception_key :: "ScheduleException \<Rightarrow> ScheduleRuleId \<times> DateTime" where
  "exception_key e = (ex_rule_id e, ex_original_start_time e)"

definition store_inv :: "MemoryStore \<Rightarrow> bool" where
  "store_inv st \<longleftrightarrow>
     keyed sc_id (ms_next_schedule_id st) (ms_schedules st) \<and>
     keyed op_id (ms_next_operation_id st) (ms_operations st) \<and>
     keyed ru_id (ms_next_rule_id st) (ms_rules st) \<and>
     keyed ex_id (ms_next_exception_id st) (ms_exceptions st) \<and>
     distinct (map exception_key (ms_exceptions st)) \<and>
     (\<forall>e \<in> set (ms_exceptions st). 0 < ex_rule_id e)"

lemma keyed_Nil [simp]: "keyed k 1 []"
  by (simp add: keyed_def)

lemma keyed_cong: "map k xs = map k ys \<Longrightarrow> keyed k n xs = keyed k n ys"
proof -
  assume m: "map k xs = map k ys"
  then have "k ` set xs = k ` set ys" by (metis list.set_map)
  then have "(\<forall>x \<in> set xs. 1 \<le> k x \<and> k x < n) = (\<forall>y \<in> set ys. 1 \<le> k y \<and> k y < n)"
    by (metis (mono_tags, lifting) imageE imageI)
  with m show ?thesis by (simp add: keyed_def)
qed

lemma keyed_append: "keyed k n xs \<Longrightarrow> k x = n \<Longrightarrow> keyed k (n + 1) (xs @ [x])"
  by (fastforce simp: keyed_def)

lemma keyed_update_first:
  assumes "keyed k n xs" "\<And>x. p x \<Longrightarrow> k (f x) = k x"
  shows "keyed k n (update_first p f xs)"
proof -
  have "map k (update_first p f xs) = map k xs" using assms(2) by (rule map_update_first)
  from keyed_cong [OF this] assms(1) show ?thesis by simp
qed

lemma keyed_filter: "keyed k n xs \<Longrightarrow> keyed k n (filter p xs)"
  by (auto simp: keyed_def distinct_map_filter)

lemma keyed_map: "keyed k n xs \<Longrightarrow> (\<And>x. k (f x) = k x) \<Longrightarrow> keyed k n (map f xs)"
  by (simp add: keyed_def comp_def)

lemma keyed_find:
  assumes "keyed k n xs"
  shows "List.find (\<lambda>x. k x = i) xs = Some x \<longleftrightarrow> x \<in> set xs \<and> k x = i"
  using assms find_key_unique [of k xs x] by (auto simp: keyed_def dest: find_SomeD)

lemma keyed_fresh: "keyed k n xs \<Longrightarrow> n \<le> i \<Longrightarrow> List.find (\<lambda>x. k x = i) xs = None"
  by (auto simp: keyed_def find_None_iff)

lemma keyed_pos: "keyed k n xs \<Longrightarrow> x \<in> set xs \<Longrightarrow> 0 < k x"
  by (auto simp: keyed_def)

lemma Mem_Now_simps [simp]:
  "ms_schedules (snd (Mem_Now st)) = ms_schedules st" "ms_operations (snd (Mem_Now st)) = ms_operations st"
  "ms_rules (snd (Mem_Now st)) = ms_rules st" "ms_exceptions (snd (Mem_Now st)) = ms_exceptions st"
  "store_inv (snd (Mem_Now st)) = store_inv st"
  by (simp_all add: Mem_Now_def store_inv_def)

lemma empty_store_inv: "store_inv (empty_store clock)"
  by (simp add: store_inv_def empty_store_def)

subsection \<open>Schedules\<close>

lemma Mem_InsertScheduleLocked_cases:
  assumes "Mem_InsertScheduleLocked st s = (r, st')" "sc_event s \<noteq> []"
  obtains s' where "r = Success s'" "stored_as s s'" "sc_id s' = ms_next_schedule_id st"
    "sc_created_at s' = (if sc_created_at s = 0 then ms_clock st (ms_clock_reads st) else sc_created_at s)"
    "st' = st\<lparr>ms_next_schedule_id := ms_next_schedule_id st + 1, ms_clock_reads := Suc (ms_clock_reads st),
       ms_schedules := ms_schedules st @ [s']\<rparr>"
proof -
  let ?s' = "\<lparr>sc_id = ms_next_schedule_id st, sc_event = sc_event s, sc_start_time = sc_start_time s,
      sc_end_time = sc_end_time s, sc_location = sc_location s, sc_notes = sc_notes s, sc_rule_id = sc_rule_id s,
      sc_status = sc_status s,
      sc_created_at = (if sc_created_at s = 0 then ms_clock st (ms_clock_reads st) else sc_created_at s),
      sc_updated_at = (if sc_updated_at s = 0
        then (if sc_created_at s = 0 then ms_clock st (ms_clock_reads st) else sc_created_at s) else sc_updated_at s)\<rparr>"
  have "(r, st') = (Success ?s', st\<lparr>ms_next_schedule_id := ms_next_schedule_id st + 1,
      ms_clock_reads := Suc (ms_clock_reads st), ms_schedules := ms_schedules st @ [?s']\<rparr>)"
    using assms by (cases s) (auto simp: Mem_InsertScheduleLocked_def Mem_Now_def Let_def)
  then show thesis by (intro that [of ?s']) (simp_all add: stored_as_def)
qed

lemma find_schedule_insert:
  assumes "store_inv st" "Mem_InsertScheduleLocked st s = (r, st')" "sc_event s \<noteq> []"
  shows "\<exists>s'. r = Success s' \<and> stored_as s s' \<and> 0 < sc_id s' \<and> find_schedule st (sc_id s') = None \<and>
    find_schedule st' = (find_schedule st)(sc_id s' \<mapsto> s') \<and> store_inv st' \<and>
    ms_operations st' = ms_operations st \<and> ms_rules st' = ms_rules st \<and> ms_exceptions st' = ms_exceptions st"
proof (rule Mem_InsertScheduleLocked_cases [OF assms(2,3)])
  fix s'
  assume r: "r = Success s'" "stored_as s s'" and i: "sc_id s' = ms_next_schedule_id st"
    and st': "st' = st\<lparr>ms_next_schedule_id := ms_next_schedule_id st + 1,
      ms_clock_reads := Suc (ms_clock_reads st), ms_schedules := ms_schedules st @ [s']\<rparr>"
  have k: "keyed sc_id (ms_next_schedule_id st) (ms_schedules st)" using assms(1) by (simp add: store_inv_def)
  have fresh: "find_schedule st (sc_id s') = None" using keyed_fresh [OF k] i by (simp add: find_schedule_def)
  have "find_schedule st' = (find_schedule st)(sc_id s' \<mapsto> s')"
    using fresh by (auto simp: fun_eq_iff find_schedule_def st' find_append split: option.splits)
  moreover have "store_inv st'"
    using assms(1) keyed_append [OF k i] by (simp add: store_inv_def st')
  moreover have "0 < sc_id s'" using k i by (simp add: keyed_def)
  ultimately show ?thesis using r fresh st' by auto
qed

lemma find_schedule_update:
  assumes "\<And>x. sc_id x = i \<Longrightarrow> sc_id (f x) = i"
  shows "find_schedule (st\<lparr>ms_schedules := update_first (\<lambda>x. sc_id x = i) f (ms_schedules st)\<rparr>) =
    (find_schedule st)(i := map_option f (find_schedule st i))"
proof
  fix j
  show "find_schedule (st\<lparr>ms_schedules := update_first (\<lambda>x. sc_id x = i) f (ms_schedules st)\<rparr>) j =
    ((find_schedule st)(i := map_option f (find_schedule st i))) j"
  proof (cases "j = i")
    case True
    then show ?thesis using assms by (simp add: find_schedule_def find_update_first)
  next
    case False
    then show ?thesis using assms
      by (auto simp: find_schedule_def intro!: find_update_first_other)
  qed
qed

lemma ran_find_schedule:
  assumes "store_inv st"
  shows "ran (find_schedule st) = set (ms_schedules st)"
  using assms keyed_find [of sc_id "ms_next_schedule_id st" "ms_schedules st"]
  by (auto simp: store_inv_def ran_def find_schedule_def)

lemma store_inv_update_schedules:
  assumes "store_inv st" "\<And>x. sc_id x = i \<Longrightarrow> sc_id (f x) = i"
  shows "store_inv (st\<lparr>ms_schedules := update_first (\<lambda>x. sc_id x = i) f (ms_schedules st)\<rparr>)"
  using assms by (auto simp: store_inv_def intro!: keyed_update_first)

subsection \<open>The two query predicates agree\<close>

lemma MatchesKeyword_loops: "[] \<notin> set ts \<Longrightarrow> Mem_MatchesKeyword_loop e ts = MatchesScheduleKeyword_loop e ts"
  by (induction ts) (auto simp: Let_def)

lemma tokens_nonempty: "[] \<notin> set (tokens s)"
proof (induction s rule: tokens.induct)
  case (1 s)
  show ?case
  proof (cases "dropWhile isspace s = []")
    case False
    then have "\<not> isspace (hd (dropWhile isspace s))" by (rule hd_dropWhile)
    then have "takeWhile (\<lambda>c. \<not> isspace c) (dropWhile isspace s) \<noteq> []"
      using False by (cases "dropWhile isspace s") auto
    then show ?thesis using 1 [OF refl False] False by (simp add: tokens.simps [of s] Let_def)
  qed (simp add: tokens.simps [of s])
qed

lemma Mem_MatchesSchedule_eq: "Mem_MatchesSchedule s q = MatchesScheduleQuery s q"
proof -
  have "Mem_MatchesStatus st flt = MatchesStatus st flt" for st flt
    by (cases flt) (simp_all add: Mem_MatchesStatus_def)
  moreover have "Mem_MatchesKeyword e k = MatchesScheduleKeyword e k" for e k
    by (simp add: Mem_MatchesKeyword_def MatchesScheduleKeyword_def NormalizeKeywordText_def
        MatchesKeyword_loops tokens_nonempty)
  ultimately show ?thesis by (simp add: Mem_MatchesSchedule_def MatchesScheduleQuery_def)
qed

subsection \<open>The store meets the contracts\<close>

lemmas memory_methods = memory_schedules_def memory_operations_def memory_rules_def memory_exceptions_def

lemma Mem_Update_law:
  assumes "store_inv st" "find_schedule st (sc_id s) \<noteq> None" "Mem_Update st s = (r, st')"
  shows "r = Status_Ok \<and> find_schedule st' = (find_schedule st)(sc_id s \<mapsto> s) \<and> store_inv st' \<and>
    ms_operations st' = ms_operations st"
proof -
  let ?st = "st\<lparr>ms_schedules := update_first (\<lambda>x. sc_id x = sc_id s) (\<lambda>_. s) (ms_schedules st)\<rparr>"
  have "r = Status_Ok" "st' = ?st" using assms(2,3) by (auto simp: Mem_Update_def)
  moreover have "store_inv ?st" using assms(1) by (intro store_inv_update_schedules) simp_all
  moreover have "find_schedule ?st = (find_schedule st)(sc_id s \<mapsto> s)"
    using assms(2) by (auto simp: find_schedule_update)
  ultimately show ?thesis by simp
qed

lemma Mem_Delete_law:
  assumes "store_inv st" "find_schedule st i = Some s" "sc_status s \<noteq> kCancelled" "Mem_Delete st i = (r, st')"
  shows "\<exists>t. r = Status_Ok \<and> store_inv st' \<and> ms_operations st' = ms_operations st \<and>
    find_schedule st' = (find_schedule st)(i \<mapsto> s\<lparr>sc_status := kCancelled, sc_updated_at := t\<rparr>)"
proof -
  define st1 where "st1 = snd (Mem_Now st)"
  define t where "t = fst (Mem_Now st)"
  let ?f = "\<lambda>x. x\<lparr>sc_status := kCancelled, sc_updated_at := t\<rparr>"
  let ?st = "st1\<lparr>ms_schedules := update_first (\<lambda>x. sc_id x = i) ?f (ms_schedules st1)\<rparr>"
  have res: "r = Status_Ok" "st' = ?st"
    using assms(2-4) by (auto simp: Mem_Delete_def st1_def t_def Let_def Mem_Now_def)
  have f1: "find_schedule st1 = find_schedule st" by (simp add: fun_eq_iff find_schedule_def st1_def)
  have "store_inv ?st" using assms(1) by (intro store_inv_update_schedules) (simp_all add: st1_def)
  moreover have "find_schedule ?st = (find_schedule st)(i \<mapsto> ?f s)"
    using assms(2) by (subst find_schedule_update) (simp_all add: f1)
  ultimately show ?thesis using res by (auto simp: st1_def)
qed

interpretation memory: schedule_repository memory_schedules store_inv find_schedule
proof
  fix st i s
  assume inv: "store_inv st" and s: "find_schedule st i = Some s"
  then show "sc_id s = i \<and> 0 < i"
    using keyed_pos [of sc_id "ms_next_schedule_id st" "ms_schedules st" s]
    by (auto simp: store_inv_def find_schedule_def dest!: find_SomeD)
  show "repo_FindById memory_schedules st i = Success s"
    using s by (simp add: memory_methods Mem_FindById_def)
  show "code (fst (repo_Delete memory_schedules st i)) = kConflict \<and> snd (repo_Delete memory_schedules st i) = st"
    if "sc_status s = kCancelled" using s that by (simp add: memory_methods Mem_Delete_def)
  show "\<exists>t. w = Status_Ok \<and>
      find_schedule st' = (find_schedule st)(i \<mapsto> s\<lparr>sc_status := kCancelled, sc_updated_at := t\<rparr>) \<and> store_inv st'"
    if "sc_status s \<noteq> kCancelled" "repo_Delete memory_schedules st i = (w, st')" for w st'
    using Mem_Delete_law [OF inv s that(1)] that(2) by (fastforce simp: memory_methods)
next
  fix st :: MemoryStore and i
  assume "find_schedule st i = None"
  then show "\<not> ok (repo_FindById memory_schedules st i) \<and> code (status (repo_FindById memory_schedules st i)) = kNotFound"
    by (simp add: memory_methods Mem_FindById_def)
next
  fix st s r st'
  assume "store_inv st" "sc_event s \<noteq> []" "repo_Insert memory_schedules st s = (r, st')"
  then show "\<exists>s'. r = Success s' \<and> stored_as s s' \<and> 0 < sc_id s' \<and> find_schedule st (sc_id s') = None \<and>
      find_schedule st' = (find_schedule st)(sc_id s' \<mapsto> s') \<and> store_inv st'"
    using find_schedule_insert [of st s r st'] by (auto simp: memory_methods Mem_Insert_def)
next
  fix st s w st'
  assume "store_inv st" "find_schedule st (sc_id s) \<noteq> None" "repo_Update memory_schedules st s = (w, st')"
  then show "w = Status_Ok \<and> find_schedule st' = (find_schedule st)(sc_id s \<mapsto> s) \<and> store_inv st'"
    using Mem_Update_law [of st s w st'] by (auto simp: memory_methods)
next
  fix st a b x
  assume inv: "store_inv st"
  have "{s \<in> set (ms_schedules st). overlap_candidate a b x s} =
      set (filter (overlap_candidate a b x) (ms_schedules st))" by auto
  then show "\<exists>xs. repo_FindOverlapping memory_schedules st a b x = Success xs \<and>
      set xs = {s \<in> ran (find_schedule st). overlap_candidate a b x s}"
    unfolding ran_find_schedule [OF inv]
    by (auto simp: memory_methods Mem_FindOverlapping_def overlap_candidate_def in_window_def
        ScheduleRangeEnd_def Let_def)
next
  fix st q
  assume inv: "store_inv st"
  let ?xs = "sort_by (Mem_Find_less q) (filter (\<lambda>s. Mem_MatchesSchedule s q) (ms_schedules st))"
  have "distinct (ms_schedules st)" using inv by (auto simp: store_inv_def keyed_def distinct_map)
  then have "distinct ?xs" by (metis distinct_filter distinct_count_atmost_1 mset_sort_by set_sort_by)
  moreover have "set ?xs = {s \<in> ran (find_schedule st). MatchesScheduleQuery s q}"
    by (auto simp: ran_find_schedule [OF inv] Mem_MatchesSchedule_eq)
  moreover have "repo_Find memory_schedules st q = Success (page (qs_offset q) (qs_limit q) ?xs)"
    "repo_Count memory_schedules st q = Success (int (length ?xs))"
    by (simp_all add: memory_methods Mem_Find_def Mem_Count_def Let_def)
  ultimately show "\<exists>xs. distinct xs \<and> set xs = {s \<in> ran (find_schedule st). MatchesScheduleQuery s q} \<and>
      repo_Find memory_schedules st q = Success (page (qs_offset q) (qs_limit q) xs) \<and>
      repo_Count memory_schedules st q = Success (int (length xs))" by blast
qed

interpretation memory_log: operation_repository memory_operations store_inv ms_operations
proof
  fix st e r st'
  assume "store_inv st" "ops_InsertOperation memory_operations st e = (r, st')"
  then show "\<exists>e'. r = Success e' \<and> recorded_as e e' \<and> ms_operations st' = ms_operations st @ [e'] \<and> store_inv st'"
    by (auto simp: memory_methods Mem_InsertOperation_def Mem_Now_def Let_def recorded_as_def store_inv_def
        keyed_append)
qed

interpretation memory_store: schedule_store memory_schedules memory_operations store_inv find_schedule ms_operations
proof
  fix st e s i
  assume inv: "store_inv st"
  show "find_schedule (snd (ops_InsertOperation memory_operations st e)) = find_schedule st"
    by (simp add: memory_methods Mem_InsertOperation_def Mem_Now_def Let_def find_schedule_def fun_eq_iff)
  show "ms_operations (snd (repo_Insert memory_schedules st s)) = ms_operations st"
    by (simp add: memory_methods Mem_Insert_def Mem_InsertScheduleLocked_def Mem_Now_def Let_def)
  show "ms_operations (snd (repo_Update memory_schedules st s)) = ms_operations st"
    by (simp add: memory_methods Mem_Update_def)
  show "ms_operations (snd (repo_Delete memory_schedules st i)) = ms_operations st"
    by (simp add: memory_methods Mem_Delete_def Mem_Now_def Let_def split: option.split)
qed

section \<open>Rules and exceptions\<close>

lemma store_inv_put_rule: "store_inv st \<Longrightarrow> store_inv (put_rule r st)"
  by (auto simp: store_inv_def put_rule_def intro!: keyed_update_first)

lemma MemRule_InsertRuleLocked_cases:
  assumes "MemRule_InsertRuleLocked st r = (res, st')"
  obtains (rejected) "ru_event r = []" "st' = st" "\<not> ok res"
  | (stored) r' where "ru_event r \<noteq> []" "res = Success r'" "ru_id r' = ms_next_rule_id st" "ru_event r' = ru_event r"
      "r' = r\<lparr>ru_id := ru_id r', ru_created_at := ru_created_at r', ru_updated_at := ru_updated_at r'\<rparr>"
      "st' = st\<lparr>ms_next_rule_id := ms_next_rule_id st + 1, ms_clock_reads := Suc (ms_clock_reads st),
         ms_rules := ms_rules st @ [r']\<rparr>"
proof (cases "ru_event r = []")
  case True
  with assms show thesis by (intro rejected) (auto simp: MemRule_InsertRuleLocked_def)
next
  case False
  let ?now = "ms_clock st (ms_clock_reads st)"
  define c where "c = (if ru_created_at r = 0 then ?now else ru_created_at r)"
  define u where "u = (if ru_updated_at r = 0 then c else ru_updated_at r)"
  let ?r' = "r\<lparr>ru_id := ms_next_rule_id st, ru_created_at := c, ru_updated_at := u\<rparr>"
  have "(res, st') = (Success ?r', st\<lparr>ms_next_rule_id := ms_next_rule_id st + 1,
      ms_clock_reads := Suc (ms_clock_reads st), ms_rules := ms_rules st @ [?r']\<rparr>)"
    using assms False by (cases r) (auto simp: MemRule_InsertRuleLocked_def Mem_Now_def Let_def c_def u_def)
  with False show thesis by (intro stored [of ?r']) simp_all
qed

lemma store_inv_InsertRuleLocked:
  assumes "store_inv st" "MemRule_InsertRuleLocked st r = (res, st')"
  shows "store_inv st'"
  using assms(2) by (cases rule: MemRule_InsertRuleLocked_cases)
    (use assms(1) in \<open>auto simp: store_inv_def keyed_append\<close>)

lemma store_inv_InsertScheduleLocked:
  assumes "store_inv st" "Mem_InsertScheduleLocked st s = (res, st')"
  shows "store_inv st'"
proof (cases "sc_event s = []")
  case True
  with assms show ?thesis by (auto simp: Mem_InsertScheduleLocked_def)
next
  case False
  with assms find_schedule_insert show ?thesis by blast
qed

lemma exception_key_same: "same_occurrence e x \<longleftrightarrow> exception_key x = exception_key e"
  by (auto simp: same_occurrence_def exception_key_def)

lemma MemRule_UpsertExceptionLocked_cases:
  assumes "store_inv st" "MemRule_UpsertExceptionLocked st e = (res, st')"
  obtains (rejected) "ex_rule_id e \<le> 0" "st' = st" "\<not> ok res"
  | (stored) e' where "0 < ex_rule_id e" "res = Success e'"
      "e' = e\<lparr>ex_id := ex_id e', ex_created_at := ex_created_at e', ex_updated_at := ex_updated_at e'\<rparr>"
      "store_inv st'" "ms_schedules st' = ms_schedules st" "ms_rules st' = ms_rules st"
      "ms_operations st' = ms_operations st"
      "\<And>k. List.find (\<lambda>x. exception_key x = k) (ms_exceptions st') =
         (if k = exception_key e then Some e' else List.find (\<lambda>x. exception_key x = k) (ms_exceptions st))"
proof (cases "ex_rule_id e \<le> 0")
  case True
  with assms(2) show thesis by (intro rejected) (auto simp: MemRule_UpsertExceptionLocked_def)
next
  case False
  let ?now = "ms_clock st (ms_clock_reads st)"
  let ?st1 = "st\<lparr>ms_clock_reads := Suc (ms_clock_reads st)\<rparr>"
  have same: "same_occurrence e = (\<lambda>x. exception_key x = exception_key e)" by (auto simp: exception_key_same)
  show thesis
  proof (cases "List.find (same_occurrence e) (ms_exceptions st)")
    case (Some f)
    define c where "c = (if ex_created_at e = 0 then ex_created_at f else ex_created_at e)"
    define u where "u = (if ex_updated_at e = 0 then ?now else ex_updated_at e)"
    let ?e' = "e\<lparr>ex_id := ex_id f, ex_created_at := c, ex_updated_at := u\<rparr>"
    let ?st = "?st1\<lparr>ms_exceptions := update_first (same_occurrence e) (\<lambda>_. ?e') (ms_exceptions st)\<rparr>"
    have res: "res = Success ?e'" "st' = ?st"
      using assms(2) False Some
      by (cases e; auto simp: MemRule_UpsertExceptionLocked_def Mem_Now_def Let_def c_def u_def)+
    have f: "f \<in> set (ms_exceptions st)" "exception_key f = exception_key e"
      using find_SomeD [OF Some] by (auto simp: exception_key_same)
    have uniq: "distinct (map exception_key (ms_exceptions st))" using assms(1) by (simp add: store_inv_def)
    have key: "exception_key ?e' = exception_key e" by (simp add: exception_key_def)
    have eq: "ms_exceptions ?st = map (\<lambda>x. if exception_key x = exception_key e then ?e' else x) (ms_exceptions st)"
      by (simp add: same update_first_map_if [OF uniq])
    have only: "x = f" if "x \<in> set (ms_exceptions st)" "exception_key x = exception_key e" for x
      using that f uniq by (auto simp: distinct_map inj_on_def)
    have m: "map ex_id (ms_exceptions ?st) = map ex_id (ms_exceptions st)"
      "map exception_key (ms_exceptions ?st) = map exception_key (ms_exceptions st)"
      unfolding eq using only key by (auto intro!: map_cong)
    have "keyed ex_id (ms_next_exception_id st) (ms_exceptions ?st)"
      "distinct (map exception_key (ms_exceptions ?st))"
      using assms(1) unfolding keyed_cong [OF m(1)] m(2) by (simp_all add: store_inv_def)
    moreover have "\<forall>x \<in> set (ms_exceptions ?st). 0 < ex_rule_id x"
      unfolding eq using assms(1) False by (auto simp: store_inv_def)
    ultimately have "store_inv ?st" using assms(1) unfolding store_inv_def by simp
    moreover have "List.find (\<lambda>x. exception_key x = k) (ms_exceptions ?st) =
         (if k = exception_key e then Some ?e' else List.find (\<lambda>x. exception_key x = k) (ms_exceptions st))" for k
      using Some key by (auto simp: same find_update_first intro!: find_update_first_other)
    ultimately show thesis using False res by (intro stored [of ?e']) simp_all
  next
    case None
    define c where "c = (if ex_created_at e = 0 then ?now else ex_created_at e)"
    define u where "u = (if ex_updated_at e = 0 then c else ex_updated_at e)"
    let ?e' = "e\<lparr>ex_id := ms_next_exception_id st, ex_created_at := c, ex_updated_at := u\<rparr>"
    let ?st = "?st1\<lparr>ms_next_exception_id := ms_next_exception_id st + 1, ms_exceptions := ms_exceptions st @ [?e']\<rparr>"
    have res: "res = Success ?e'" "st' = ?st"
      using assms(2) False None
      by (cases e; auto simp: MemRule_UpsertExceptionLocked_def Mem_Now_def Let_def c_def u_def)+
    have key: "exception_key ?e' = exception_key e" by (simp add: exception_key_def)
    have new: "exception_key e \<notin> exception_key ` set (ms_exceptions st)"
      using None unfolding same by (auto simp: find_None_iff)
    have "store_inv ?st"
      using assms(1) False new key by (auto simp: store_inv_def keyed_append)
    moreover have "List.find (\<lambda>x. exception_key x = k) (ms_exceptions ?st) =
         (if k = exception_key e then Some ?e' else List.find (\<lambda>x. exception_key x = k) (ms_exceptions st))" for k
      using None key by (auto simp: find_append same split: option.splits)
    ultimately show thesis using False res by (intro stored [of ?e']) simp_all
  qed
qed

lemma store_inv_Upsert:
  assumes "store_inv st"
  shows "store_inv (snd (MemRule_UpsertExceptionLocked st e))"
proof (cases "MemRule_UpsertExceptionLocked st e")
  case (Pair res st')
  from assms Pair show ?thesis
    by (cases rule: MemRule_UpsertExceptionLocked_cases) (use assms Pair in auto)
qed

lemma store_inv_schedules_filter:
  "store_inv st \<Longrightarrow> store_inv (st\<lparr>ms_schedules := filter p (ms_schedules st)\<rparr>)"
  by (simp add: store_inv_def keyed_filter)

lemma store_inv_exceptions_filter:
  "store_inv st \<Longrightarrow> store_inv (st\<lparr>ms_exceptions := filter p (ms_exceptions st)\<rparr>)"
  by (auto simp: store_inv_def keyed_filter distinct_map_filter)

lemma store_inv_schedules_map:
  "store_inv st \<Longrightarrow> (\<And>s. sc_id (f s) = sc_id s) \<Longrightarrow> store_inv (st\<lparr>ms_schedules := map f (ms_schedules st)\<rparr>)"
  by (simp add: store_inv_def keyed_map)

lemma store_inv_Insert_snd: "store_inv st \<Longrightarrow> store_inv (snd (Mem_InsertScheduleLocked st s))"
  by (metis store_inv_InsertScheduleLocked prod.collapse)

lemma store_inv_clock: "store_inv (st\<lparr>ms_clock_reads := n\<rparr>) = store_inv st"
  by (simp add: store_inv_def)

lemma store_inv_purge:
  "store_inv st \<Longrightarrow>
     store_inv (st\<lparr>ms_schedules := filter p (ms_schedules st), ms_exceptions := filter q (ms_exceptions st)\<rparr>)"
  using store_inv_exceptions_filter [OF store_inv_schedules_filter] by fastforce

lemma store_inv_map_purge:
  "store_inv st \<Longrightarrow> (\<And>s. sc_id (f s) = sc_id s) \<Longrightarrow>
     store_inv (st\<lparr>ms_schedules := map f (ms_schedules st), ms_exceptions := filter q (ms_exceptions st)\<rparr>)"
  using store_inv_exceptions_filter [OF store_inv_schedules_map] by fastforce

text \<open>The methods that change the store, as the steps of a machine.\<close>

inductive memory_step :: "MemoryStore \<Rightarrow> MemoryStore \<Rightarrow> bool" where
  insert: "memory_step st (snd (Mem_Insert st s))"
| update: "memory_step st (snd (Mem_Update st s))"
| delete: "memory_step st (snd (Mem_Delete st i))"
| insert_operation: "memory_step st (snd (Mem_InsertOperation st e))"
| insert_rule: "memory_step st (snd (MemRule_Insert st r))"
| update_rule: "memory_step st (snd (MemRule_Update st r))"
| create_rule: "memory_step st (snd (MemRule_CreateWithFirstInstance st r first))"
| rebuild_rule: "memory_step st (snd (MemRule_UpdateAndRebuild st r first))"
| cancel_rule: "memory_step st (snd (snd (MemRule_CancelRuleAndInstances st i n)))"
| next_instance: "memory_step st (snd (MemRule_CreateNextInstance st s linked))"
| upsert: "memory_step st (snd (MemRule_Upsert st x))"
| delete_future: "memory_step st (snd (MemRule_DeleteFuture st i t))"

lemma store_inv_create_rule:
  assumes "store_inv st"
  shows "store_inv (snd (MemRule_CreateWithFirstInstance st r first))"
proof -
  obtain created st1 where c: "MemRule_InsertRuleLocked st r = (created, st1)" by fastforce
  have "store_inv st1" using store_inv_InsertRuleLocked [OF assms c] .
  then show ?thesis
    using assms by (auto simp: MemRule_CreateWithFirstInstance_def c Let_def intro: store_inv_InsertScheduleLocked
        split: option.splits prod.splits)
qed

lemma store_inv_rebuild:
  assumes "store_inv st"
  shows "store_inv (snd (MemRule_UpdateAndRebuild st r first))"
proof -
  let ?now = "fst (Mem_Now (put_rule r st))" and ?st = "snd (Mem_Now (put_rule r st))"
  define st1 where "st1 = ?st\<lparr>ms_schedules := filter (\<lambda>s. \<not> (sc_rule_id s = Some (ru_id r) \<and>
      sc_status s = kActive \<and> sc_start_time s \<noteq> None \<and> the (sc_start_time s) > ?now)) (ms_schedules ?st),
    ms_exceptions := filter (\<lambda>e. \<not> (ex_rule_id e = ru_id r \<and> ex_original_start_time e > ?now)) (ms_exceptions ?st)\<rparr>"
  have "store_inv st1"
    unfolding st1_def using store_inv_put_rule [OF assms] by (intro store_inv_purge) simp
  moreover have "snd (MemRule_UpdateAndRebuild st r first) =
      (if find_rule st (ru_id r) = None \<or> ru_event r = [] \<or> first_event_empty first then st
       else case first of None \<Rightarrow> st1
         | Some i \<Rightarrow> snd (Mem_InsertScheduleLocked st1 (i\<lparr>sc_rule_id := Some (ru_id r)\<rparr>)))"
    by (simp add: MemRule_UpdateAndRebuild_def st1_def Let_def case_prod_beta split: option.split)
  ultimately show ?thesis
    using assms store_inv_Insert_snd by (simp split: option.split)
qed

lemma store_inv_cancel_rule:
  assumes "store_inv st"
  shows "store_inv (snd (snd (MemRule_CancelRuleAndInstances st i n)))"
proof (cases "find_rule st i")
  case (Some r)
  have "store_inv (put_rule x (st\<lparr>ms_clock_reads := m\<rparr>))" for x m
    using assms by (intro store_inv_put_rule) (simp add: store_inv_clock)
  then show ?thesis
    unfolding MemRule_CancelRuleAndInstances_def Some Mem_Now_def Let_def
    by (simp add: store_inv_map_purge)
qed (simp add: assms MemRule_CancelRuleAndInstances_def)

lemma store_inv_next_instance:
  assumes "store_inv st"
  shows "store_inv (snd (MemRule_CreateNextInstance st s linked))"
proof -
  obtain inserted st1 where i: "Mem_InsertScheduleLocked st s = (inserted, st1)" by fastforce
  have "store_inv st1" using store_inv_InsertScheduleLocked [OF assms i] .
  from store_inv_Upsert [OF this] this assms show ?thesis
    by (auto simp: MemRule_CreateNextInstance_def i Let_def split: option.splits prod.splits) (metis snd_conv)+
qed

lemma store_inv_step:
  assumes "memory_step st st'" "store_inv st"
  shows "store_inv st'"
  using assms
proof (induction rule: memory_step.induct)
  case (insert st s)
  then show ?case by (metis Mem_Insert_def store_inv_InsertScheduleLocked prod.collapse)
next
  case (update st s)
  then show ?case by (auto simp: Mem_Update_def intro!: store_inv_update_schedules)
next
  case (delete st i)
  have "store_inv (st\<lparr>ms_clock_reads := n\<rparr>)" for n using delete by (simp add: store_inv_def)
  from store_inv_update_schedules [OF this] delete show ?case
    by (auto simp: Mem_Delete_def Mem_Now_def Let_def split: option.splits)
next
  case (insert_operation st e)
  then show ?case by (simp add: Mem_InsertOperation_def Mem_Now_def Let_def store_inv_def keyed_append)
next
  case (insert_rule st r)
  then show ?case by (metis MemRule_Insert_def store_inv_InsertRuleLocked prod.collapse)
qed (simp_all add: MemRule_Update_def store_inv_put_rule store_inv_create_rule store_inv_rebuild
    store_inv_cancel_rule store_inv_next_instance MemRule_Upsert_def store_inv_Upsert
    MemRule_DeleteFuture_def store_inv_exceptions_filter)

lemma store_inv_reachable:
  assumes "memory_step\<^sup>*\<^sup>* (empty_store clock) st"
  shows "store_inv st"
  using assms by (induction rule: rtranclp_induct) (auto simp: empty_store_inv intro: store_inv_step)

section \<open>The order of query results\<close>

lemma Mem_Find_less_asym: "Mem_Find_less q x y \<Longrightarrow> \<not> Mem_Find_less q y x"
  by (auto simp: Mem_Find_less_def Let_def split: if_splits option.splits)

lemma Mem_Find_less_trans:
  assumes "\<not> Mem_Find_less q y x" "\<not> Mem_Find_less q z y"
  shows "\<not> Mem_Find_less q z x"
  using assms
  by (cases "sc_start_time x"; cases "sc_start_time y"; cases "sc_start_time z")
    (auto simp: Mem_Find_less_def Let_def split: if_splits)

lemma Mem_Find_sorted: "sorted_wrt (\<lambda>x y. \<not> Mem_Find_less q y x) (sort_by (Mem_Find_less q) xs)"
  by (rule sorted_sort_by) (use Mem_Find_less_trans Mem_Find_less_asym in blast)+

section \<open>Properties\<close>

text \<open>
  In every state the store can reach from the empty one by its methods, in any order and with
  any arguments, identifiers are unique and below the counters that issue them, and an occurrence
  of a rule has at most one exception.
\<close>

theorem memory_store_invariant:
  "memory_step\<^sup>*\<^sup>* (empty_store clock) st \<longrightarrow> store_inv st"
  using store_inv_reachable by blast

theorem memory_store_invariant_witness:
  "store_inv (snd (Mem_Insert (empty_store (\<lambda>n. 100 + int n)) (default_Schedule\<lparr>sc_event := ''a''\<rparr>)))"
proof -
  let ?st = "empty_store (\<lambda>n. 100 + int n)" and ?s = "default_Schedule\<lparr>sc_event := ''a''\<rparr>"
  have "memory_step\<^sup>*\<^sup>* ?st (snd (Mem_Insert ?st ?s))"
    by (intro r_into_rtranclp memory_step.insert)
  then show ?thesis using memory_store_invariant by blast
qed

text \<open>
  A query returns the requested page of all schedules that match it, each once, in the order
  of keyword score, start time (open ones last) and identifier, and the count is the number of
  matches whatever the page.
\<close>

theorem memory_query:
  "store_inv st \<longrightarrow>
     (\<exists>xs. Mem_Find st q = Success (page (qs_offset q) (qs_limit q) xs) \<and>
        Mem_Count st q = Success (int (length xs)) \<and> distinct xs \<and>
        set xs = {s \<in> set (ms_schedules st). MatchesScheduleQuery s q} \<and>
        sorted_wrt (\<lambda>x y. \<not> Mem_Find_less q y x) xs)"
proof
  assume inv: "store_inv st"
  let ?ms = "filter (\<lambda>s. Mem_MatchesSchedule s q) (ms_schedules st)"
  have "distinct ?ms" using inv by (auto simp: store_inv_def keyed_def distinct_map)
  then have "distinct (sort_by (Mem_Find_less q) ?ms)"
    by (metis distinct_count_atmost_1 mset_sort_by set_sort_by)
  then show "\<exists>xs. Mem_Find st q = Success (page (qs_offset q) (qs_limit q) xs) \<and>
      Mem_Count st q = Success (int (length xs)) \<and> distinct xs \<and>
      set xs = {s \<in> set (ms_schedules st). MatchesScheduleQuery s q} \<and>
      sorted_wrt (\<lambda>x y. \<not> Mem_Find_less q y x) xs"
    using Mem_Find_sorted [of q ?ms]
    by (intro exI [of _ "sort_by (Mem_Find_less q) ?ms"])
      (auto simp: Mem_Find_def Mem_Count_def Let_def Mem_MatchesSchedule_eq)
qed

theorem memory_query_witness:
  "let st = snd (Mem_Insert (empty_store (\<lambda>n. 100)) (default_Schedule\<lparr>sc_event := ''run''\<rparr>));
       q = \<lparr>qs_schedule_id = None, qs_rule_id = None, qs_keyword = Some ''RUN'', qs_start_from = None,
            qs_start_to = None, qs_status = Filter_kAll, qs_limit = 10, qs_offset = 0\<rparr>
   in \<exists>xs. Mem_Find st q = Success (page 0 10 xs) \<and> Mem_Count st q = Success (int (length xs))"
proof -
  let ?st = "snd (Mem_Insert (empty_store (\<lambda>n. 100)) (default_Schedule\<lparr>sc_event := ''run''\<rparr>))"
  let ?q = "\<lparr>qs_schedule_id = None, qs_rule_id = None, qs_keyword = Some ''RUN'', qs_start_from = None,
            qs_start_to = None, qs_status = Filter_kAll, qs_limit = 10, qs_offset = 0\<rparr>"
  have "store_inv ?st" using store_inv_Insert_snd [OF empty_store_inv] by (simp add: Mem_Insert_def)
  then show ?thesis using memory_query [of ?st ?q] by (auto simp: Let_def)
qed

text \<open>
  An exception that was stored is the one found for its occurrence, with the caller's
  overrides, and storing it touches no other occurrence.
\<close>

theorem exception_upsert_lookup:
  "store_inv st \<and> 0 < ex_rule_id e \<and> MemRule_Upsert st e = (r, st') \<longrightarrow>
     (\<exists>e'. r = Success e' \<and>
        e' = e\<lparr>ex_id := ex_id e', ex_created_at := ex_created_at e', ex_updated_at := ex_updated_at e'\<rparr> \<and>
        MemRule_FindByRuleAndTime st' i t =
          (if i = ex_rule_id e \<and> t = ex_original_start_time e then Success (Some e')
           else MemRule_FindByRuleAndTime st i t))"
proof (intro impI, elim conjE)
  assume a: "store_inv st" "0 < ex_rule_id e" "MemRule_Upsert st e = (r, st')"
  have key: "(\<lambda>x. ex_rule_id x = i \<and> ex_original_start_time x = t) = (\<lambda>x. exception_key x = (i, t))"
    by (auto simp: exception_key_def)
  from a(1) a(3) [unfolded MemRule_Upsert_def] show "\<exists>e'. r = Success e' \<and>
        e' = e\<lparr>ex_id := ex_id e', ex_created_at := ex_created_at e', ex_updated_at := ex_updated_at e'\<rparr> \<and>
        MemRule_FindByRuleAndTime st' i t =
          (if i = ex_rule_id e \<and> t = ex_original_start_time e then Success (Some e')
           else MemRule_FindByRuleAndTime st i t)"
  proof (cases rule: MemRule_UpsertExceptionLocked_cases)
    case (stored e')
    then show ?thesis unfolding MemRule_FindByRuleAndTime_def key
      by (intro exI [of _ e']) (auto simp: exception_key_def)
  qed (use a(2) in simp)
qed

theorem exception_upsert_lookup_witness:
  "let e = default_ScheduleException\<lparr>ex_rule_id := 7, ex_original_start_time := 500, ex_type := kSkip\<rparr>;
       (r, st') = MemRule_Upsert (empty_store (\<lambda>n. 100)) e
   in MemRule_FindByRuleAndTime st' 7 500 = Success (val r)"
proof -
  let ?e = "default_ScheduleException\<lparr>ex_rule_id := 7, ex_original_start_time := 500, ex_type := kSkip\<rparr>"
  obtain r st' where u: "MemRule_Upsert (empty_store (\<lambda>n. 100)) ?e = (r, st')" by fastforce
  then have "\<exists>e'. r = Success e' \<and> MemRule_FindByRuleAndTime st' 7 500 = Success (Some e')"
    using exception_upsert_lookup [of "empty_store (\<lambda>n. 100)" ?e r st' 7 500] empty_store_inv
    by (auto simp: default_ScheduleException_def)
  with u show ?thesis by (auto simp: Let_def)
qed

end
