(* ===== verification/Schedule_Service.thy ===== *)
theory Schedule_Service
  imports Memory_Store
begin

text \<open>
  \<open>voicelife_schedule/src/service/schedule_operation_service.cc\<close> and \<open>schedule_service.cc\<close>: the
  operation log and the one-off schedules. A service holds references to its repositories, so the
  operations take the service, the store and the command, and return the result and the store.
  \<open>update_schedule\<close> and \<open>complete_schedule\<close> read the system clock once: that reading is an argument.

  What is proved once for every store that meets the contract of \<open>Repositories\<close> (locale
  \<open>schedule_store\<close>): the exact effect of each operation on each branch, that no operation creates
  two conflicting schedules unless it was told to, that the times of stored schedules stay
  sensible, and that the log records every change with a snapshot of the schedule before it.
\<close>

section \<open>The operation service\<close>

record 's ScheduleOperationService =
  operation_repository :: "'s ScheduleOperationRepository"

definition record_operation ::
    "'s ScheduleOperationService \<Rightarrow> 's \<Rightarrow> RecordOperationCommand \<Rightarrow> RecordOperationResult \<times> 's" where
  "record_operation svc st command =
     (let validation = ValidateRecordOperationCommand command
      in if \<not> status_ok validation then (InvalidRecordOperationResult (message validation), st)
         else
           (let operation = \<lparr>op_id = 0, op_entity_type = ro_entity_type command, op_type = ro_type command,
                  op_entity_id = ro_entity_id command, op_operated_at = 0, op_label = ro_label command,
                  op_before = ro_before command\<rparr>;
                (recorded, st) = ops_InsertOperation (operation_repository svc) st operation
            in if \<not> ok recorded then (\<lparr>ror_result = Command_Failure None (status recorded)\<rparr>, st)
               else (\<lparr>ror_result = Command_Success (val recorded)\<rparr>, st)))"

definition query_operations ::
    "'s ScheduleOperationService \<Rightarrow> 's \<Rightarrow> QueryOperationCommand \<Rightarrow> QueryOperationResult" where
  "query_operations svc st command =
     (let validation = ValidateQueryOperationCommand command
      in if \<not> status_ok validation then InvalidQueryOperationResult (message validation)
         else
           (let loaded = ops_FindOperations (operation_repository svc) st command
            in if \<not> ok loaded then \<lparr>qor_result = Command_Failure [] (status loaded), qor_total = 0\<rparr>
               else
                 (let counted = ops_CountOperations (operation_repository svc) st command
                  in if \<not> ok counted then \<lparr>qor_result = Command_Failure [] (status counted), qor_total = 0\<rparr>
                     else \<lparr>qor_result = Command_Success (the (val loaded)), qor_total = the (val counted)\<rparr>)))"

section \<open>The schedule service\<close>

record 's ScheduleService =
  repository :: "'s ScheduleRepository"
  operation_service :: "'s ScheduleOperationService option"

definition kMaximumEventLength :: nat where
  "kMaximumEventLength = 100"

definition RecordScheduleMutation ::
    "'s ScheduleOperationService option \<Rightarrow> 's \<Rightarrow> OperationEntityType \<Rightarrow> ScheduleOperationType \<Rightarrow> int \<Rightarrow> string
       \<Rightarrow> string option \<Rightarrow> 's" where
  "RecordScheduleMutation service st entity_type type entity_id label before =
     (case service of None \<Rightarrow> st
      | Some svc \<Rightarrow> snd (record_operation svc st \<lparr>ro_entity_type = entity_type, ro_type = type,
          ro_entity_id = entity_id, ro_label = label, ro_before = before\<rparr>))"

definition create_schedule ::
    "'s ScheduleService \<Rightarrow> 's \<Rightarrow> CreateScheduleCommand \<Rightarrow> CreateScheduleResult \<times> 's" where
  "create_schedule svc st command =
     (let event = TrimScheduleText (cs_event command)
      in if event = [] then (InvalidCreateScheduleResult msg_event_empty, st)
         else if ScheduleTextLength event > kMaximumEventLength
           then (InvalidCreateScheduleResult msg_event_too_long, st)
         else if cs_start_time command = None \<and> cs_end_time command \<noteq> None
           then (InvalidCreateScheduleResult msg_end_without_start, st)
         else if cs_start_time command \<noteq> None \<and> cs_end_time command \<noteq> None \<and>
                 the (cs_end_time command) \<le> the (cs_start_time command)
           then (InvalidCreateScheduleResult msg_end_not_after_start, st)
         else
           (let schedule = CreateFromCommand (command\<lparr>cs_event := event\<rparr>);
                (ws, we) = ScheduleNearbyWindow schedule;
                candidates = (if sc_start_time schedule \<noteq> None
                              then repo_FindOverlapping (repository svc) st ws we None else Success []);
                conflicts = (if sc_start_time schedule \<noteq> None
                             then FindConflictingSchedules schedule (the (val candidates)) None else []);
                nearby = (if sc_start_time schedule \<noteq> None
                          then FindNearbySchedules schedule (the (val candidates)) else [])
            in if sc_start_time schedule \<noteq> None \<and> \<not> ok candidates
                 then (\<lparr>csr_result = Command_Failure None (status candidates), csr_message = [],
                        csr_conflicts = [], csr_nearby_schedules = []\<rparr>, st)
               else if conflicts \<noteq> [] \<and> \<not> cs_ignore_conflict command
                 then (\<lparr>csr_result = Command_Failure None (Status_Error kConflict msg_create_conflict),
                        csr_message = [], csr_conflicts = conflicts, csr_nearby_schedules = nearby\<rparr>, st)
               else
                 (let (stored, st) = repo_Insert (repository svc) st schedule
                  in if \<not> ok stored
                       then (\<lparr>csr_result = Command_Failure None (status stored), csr_message = [],
                              csr_conflicts = conflicts, csr_nearby_schedules = nearby\<rparr>, st)
                     else
                       (let schedule = the (val stored);
                            st = RecordScheduleMutation (operation_service svc) st Entity_kSchedule Op_kCreate
                                   (sc_id schedule) (sc_event schedule) None;
                            msg = (if nearby = [] then msg_created else msg_created_nearby)
                        in (\<lparr>csr_result = Command_Success (Some schedule), csr_message = msg,
                             csr_conflicts = conflicts, csr_nearby_schedules = nearby\<rparr>, st)))))"

definition cancel_schedule :: "'s ScheduleService \<Rightarrow> 's \<Rightarrow> ScheduleId \<Rightarrow> CancelScheduleResult \<times> 's" where
  "cancel_schedule svc st schedule_id =
     (if schedule_id \<le> 0
        then (\<lparr>xsr_result = Command_Failure False (Status_Error kInvalidArgument msg_cancel_id),
               xsr_schedule_id = schedule_id\<rparr>, st)
      else
        (let loaded = repo_FindById (repository svc) st schedule_id
         in if \<not> ok loaded
              then (\<lparr>xsr_result = Command_Failure False (status loaded), xsr_schedule_id = schedule_id\<rparr>, st)
            else
              (let (cancelled, st) = repo_Delete (repository svc) st schedule_id
               in if \<not> status_ok cancelled
                    then (\<lparr>xsr_result = Command_Failure False cancelled, xsr_schedule_id = schedule_id\<rparr>, st)
                  else
                    (let st = RecordScheduleMutation (operation_service svc) st Entity_kSchedule Op_kDelete
                           schedule_id (sc_event (the (val loaded)))
                           (Some (SerializeScheduleSnapshot (the (val loaded))))
                     in (\<lparr>xsr_result = Command_Success True, xsr_schedule_id = schedule_id\<rparr>, st)))))"

text \<open>\<open>update_schedule\<close> after the fields have been merged: the time checks, the conflicts and the write.\<close>

definition update_schedule_merged ::
    "'s ScheduleService \<Rightarrow> 's \<Rightarrow> DateTime \<Rightarrow> UpdateScheduleCommand \<Rightarrow> Schedule \<Rightarrow> Schedule
       \<Rightarrow> UpdateScheduleResult \<times> 's" where
  "update_schedule_merged svc st now command loaded updated =
     (if sc_start_time updated = None \<and> sc_end_time updated \<noteq> None
        then (InvalidUpdateScheduleResult msg_end_without_start, st)
      else if sc_start_time updated \<noteq> None \<and> sc_end_time updated \<noteq> None \<and>
              the (sc_end_time updated) \<le> the (sc_start_time updated)
        then (InvalidUpdateScheduleResult msg_end_not_after_start, st)
      else
        (let check = (sc_status updated = kActive \<and> sc_start_time updated \<noteq> None);
             (ws, we) = ScheduleNearbyWindow updated;
             candidates = (if check then repo_FindOverlapping (repository svc) st ws we (Some (sc_id updated))
                           else Success []);
             conflicts = (if check then FindConflictingSchedules updated (the (val candidates)) None else [])
         in if check \<and> \<not> ok candidates
              then (\<lparr>usr_result = Command_Failure None (status candidates), usr_message = [],
                     usr_conflicts = []\<rparr>, st)
            else if conflicts \<noteq> [] \<and> \<not> us_ignore_conflict command
              then (\<lparr>usr_result = Command_Failure None (Status_Error kConflict msg_update_conflict),
                     usr_message = [], usr_conflicts = conflicts\<rparr>, st)
            else
              (let updated = updated\<lparr>sc_updated_at := now\<rparr>;
                   (stored, st) = repo_Update (repository svc) st updated
               in if \<not> status_ok stored
                    then (\<lparr>usr_result = Command_Failure None stored, usr_message = [],
                           usr_conflicts = conflicts\<rparr>, st)
                  else
                    (let st = RecordScheduleMutation (operation_service svc) st Entity_kSchedule Op_kUpdate
                           (sc_id updated) (sc_event updated) (Some (SerializeScheduleSnapshot loaded))
                     in (\<lparr>usr_result = Command_Success (Some updated),
                          usr_message = (if conflicts = [] then msg_updated else msg_updated_ignored),
                          usr_conflicts = conflicts\<rparr>, st)))))"

definition update_schedule ::
    "'s ScheduleService \<Rightarrow> 's \<Rightarrow> DateTime \<Rightarrow> UpdateScheduleCommand \<Rightarrow> UpdateScheduleResult \<times> 's" where
  "update_schedule svc st now command =
     (if us_schedule_id command \<le> 0 then (InvalidUpdateScheduleResult msg_update_id, st)
      else
        (let has_update = (us_event command \<noteq> None \<or> us_start_time command \<noteq> None \<or>
               us_end_time command \<noteq> None \<or> us_location command \<noteq> None \<or> us_notes command \<noteq> None)
         in if \<not> has_update then (InvalidUpdateScheduleResult msg_nothing_to_update, st)
            else
              (let loaded = repo_FindById (repository svc) st (us_schedule_id command)
               in if \<not> ok loaded
                    then (\<lparr>usr_result = Command_Failure None (status loaded), usr_message = [],
                           usr_conflicts = []\<rparr>, st)
                  else
                    (let updated = the (val loaded);
                         updated = (case us_event command of None \<Rightarrow> updated
                                    | Some e \<Rightarrow> updated\<lparr>sc_event := TrimScheduleText e\<rparr>)
                     in if us_event command \<noteq> None \<and> sc_event updated = []
                          then (InvalidUpdateScheduleResult msg_event_empty, st)
                        else if us_event command \<noteq> None \<and>
                                ScheduleTextLength (sc_event updated) > kMaximumEventLength
                          then (InvalidUpdateScheduleResult msg_event_too_long, st)
                        else
                          (let updated = updated\<lparr>
                                 sc_start_time := ApplyNullableUpdate (us_start_time command) (sc_start_time updated),
                                 sc_end_time := ApplyNullableUpdate (us_end_time command) (sc_end_time updated),
                                 sc_location := ApplyNullableUpdate (us_location command) (sc_location updated),
                                 sc_notes := ApplyNullableUpdate (us_notes command) (sc_notes updated)\<rparr>
                           in update_schedule_merged svc st now command (the (val loaded)) updated)))))"

definition complete_schedule :: "'s ScheduleService \<Rightarrow> 's \<Rightarrow> DateTime \<Rightarrow> ScheduleId \<Rightarrow> Status \<times> 's" where
  "complete_schedule svc st now schedule_id =
     (if schedule_id \<le> 0 then (Status_Error kInvalidArgument msg_update_id, st)
      else
        (let loaded = repo_FindById (repository svc) st schedule_id
         in if \<not> ok loaded then (status loaded, st)
            else
              (let completed = the (val loaded)
               in if sc_status completed \<noteq> kActive then (Status_Error kConflict msg_complete_only_active, st)
                  else repo_Update (repository svc) st
                         (completed\<lparr>sc_status := kCompleted, sc_updated_at := now\<rparr>))))"

definition query_schedule :: "'s ScheduleService \<Rightarrow> 's \<Rightarrow> QueryScheduleCommand \<Rightarrow> QueryScheduleResult" where
  "query_schedule svc st command =
     (let validation = ValidateQueryScheduleCommand command
      in if \<not> status_ok validation then \<lparr>qsr_result = Command_Failure [] validation, qsr_total = 0\<rparr>
         else
           (let loaded = repo_Find (repository svc) st command
            in if \<not> ok loaded then \<lparr>qsr_result = Command_Failure [] (status loaded), qsr_total = 0\<rparr>
               else
                 (let total = repo_Count (repository svc) st command
                  in if \<not> ok total then \<lparr>qsr_result = Command_Failure [] (status total), qsr_total = 0\<rparr>
                     else \<lparr>qsr_result = Command_Success (the (val loaded)), qsr_total = the (val total)\<rparr>)))"

section \<open>Specification\<close>

text \<open>The schedules a service accepts: a trimmed name of 1 to 100 characters and a sensible time.\<close>

definition well_timed :: "Schedule \<Rightarrow> bool" where
  "well_timed s \<longleftrightarrow>
     (case (sc_start_time s, sc_end_time s) of
        (None, Some e) \<Rightarrow> False | (Some a, Some e) \<Rightarrow> a < e | _ \<Rightarrow> True)"

definition name_ok :: "string \<Rightarrow> bool" where
  "name_ok e \<longleftrightarrow> e \<noteq> [] \<and> trimmed e \<and> ScheduleTextLength e \<le> kMaximumEventLength"

definition schedule_ok :: "Schedule \<Rightarrow> bool" where
  "schedule_ok s \<longleftrightarrow> name_ok (sc_event s) \<and> well_timed s"

definition all_ok :: "(ScheduleId \<Rightarrow> Schedule option) \<Rightarrow> bool" where
  "all_ok m \<longleftrightarrow> (\<forall>i s. m i = Some s \<longrightarrow> schedule_ok s)"

text \<open>Two active schedules that share an instant, and a collection of schedules without such a pair.\<close>

definition clash :: "Schedule \<Rightarrow> Schedule \<Rightarrow> bool" where
  "clash a b \<longleftrightarrow> sc_status a = kActive \<and> sc_status b = kActive \<and> sc_start_time a \<noteq> None \<and>
     sc_start_time b \<noteq> None \<and> SchedulesConflict a b"

definition conflict_free :: "(ScheduleId \<Rightarrow> Schedule option) \<Rightarrow> bool" where
  "conflict_free m \<longleftrightarrow> (\<forall>i j a b. m i = Some a \<and> m j = Some b \<and> i \<noteq> j \<longrightarrow> \<not> clash a b)"

definition clear_of :: "(ScheduleId \<Rightarrow> Schedule option) \<Rightarrow> ScheduleId \<Rightarrow> Schedule \<Rightarrow> bool" where
  "clear_of m i s \<longleftrightarrow> (\<forall>j b. m j = Some b \<and> j \<noteq> i \<longrightarrow> \<not> clash s b)"

definition create_valid :: "CreateScheduleCommand \<Rightarrow> bool" where
  "create_valid c \<longleftrightarrow> schedule_ok (CreateFromCommand (c\<lparr>cs_event := TrimScheduleText (cs_event c)\<rparr>))"

text \<open>The schedule that an update asks for.\<close>

definition patched :: "UpdateScheduleCommand \<Rightarrow> Schedule \<Rightarrow> Schedule" where
  "patched c s = s\<lparr>sc_event := (case us_event c of None \<Rightarrow> sc_event s | Some e \<Rightarrow> TrimScheduleText e),
     sc_start_time := ApplyNullableUpdate (us_start_time c) (sc_start_time s),
     sc_end_time := ApplyNullableUpdate (us_end_time c) (sc_end_time s),
     sc_location := ApplyNullableUpdate (us_location c) (sc_location s),
     sc_notes := ApplyNullableUpdate (us_notes c) (sc_notes s)\<rparr>"

lemma clash_sym: "clash a b = clash b a"
  using conflict_sym by (auto simp: clash_def)

lemma conflict_free_upd:
  assumes "conflict_free m" "clear_of m i s"
  shows "conflict_free (m(i \<mapsto> s))"
  using assms clash_sym by (auto simp: conflict_free_def clear_of_def)

lemma conflict_free_inactive:
  assumes "conflict_free m" "sc_status s \<noteq> kActive"
  shows "conflict_free (m(i \<mapsto> s))"
  using assms by (intro conflict_free_upd) (auto simp: clear_of_def clash_def)

lemma all_ok_upd: "all_ok m \<Longrightarrow> schedule_ok s \<Longrightarrow> all_ok (m(i \<mapsto> s))"
  by (auto simp: all_ok_def)

lemma timed_iff: "timed s \<longleftrightarrow> well_timed s \<and> sc_start_time s \<noteq> None"
  by (auto simp: timed_def well_timed_def split: option.splits)

lemma create_valid_iff:
  "create_valid c \<longleftrightarrow> TrimScheduleText (cs_event c) \<noteq> [] \<and>
     ScheduleTextLength (TrimScheduleText (cs_event c)) \<le> kMaximumEventLength \<and>
     \<not> (cs_start_time c = None \<and> cs_end_time c \<noteq> None) \<and>
     \<not> (cs_start_time c \<noteq> None \<and> cs_end_time c \<noteq> None \<and> the (cs_end_time c) \<le> the (cs_start_time c))"
  using trimmed_TrimScheduleText [of "cs_event c"]
  by (auto simp: create_valid_def schedule_ok_def name_ok_def well_timed_def split: option.splits)

lemma well_timed_cong:
  "sc_start_time s = sc_start_time s' \<Longrightarrow> sc_end_time s = sc_end_time s' \<Longrightarrow> well_timed s = well_timed s'"
  by (simp add: well_timed_def)

lemma stored_as_ok: "stored_as s s' \<Longrightarrow> schedule_ok s' = schedule_ok s"
  by (simp add: schedule_ok_def stored_as_fields well_timed_def)

lemma SchedulesConflict_cong:
  "sc_start_time a = sc_start_time a' \<Longrightarrow> sc_end_time a = sc_end_time a' \<Longrightarrow>
     SchedulesConflict a b = SchedulesConflict a' b"
  by (simp add: time_rule_defs split: option.split)

lemma stored_as_clash: "stored_as s s' \<Longrightarrow> clash s' b = clash s b"
  using SchedulesConflict_cong [of s' s b] by (simp add: clash_def stored_as_fields)

section \<open>The service over any store that meets the contract\<close>

text \<open>A service on a schedule repository, with or without an operation service on the operation repository.\<close>

definition serves ::
    "'s ScheduleRepository \<Rightarrow> 's ScheduleOperationRepository \<Rightarrow> 's ScheduleService \<Rightarrow> bool" where
  "serves R Ops svc \<longleftrightarrow> repository svc = R \<and>
     (operation_service svc = None \<or> operation_service svc = Some \<lparr>operation_repository = Ops\<rparr>)"

lemma create_schedule_invalid:
  assumes "\<not> create_valid c"
  shows "\<not> command_ok (csr_result (fst (create_schedule svc st c))) \<and> snd (create_schedule svc st c) = st"
proof -
  let ?e = "TrimScheduleText (cs_event c)"
  from assms consider "?e = []" | "?e \<noteq> []" "kMaximumEventLength < ScheduleTextLength ?e"
    | "?e \<noteq> []" "\<not> kMaximumEventLength < ScheduleTextLength ?e" "cs_start_time c = None" "cs_end_time c \<noteq> None"
    | "?e \<noteq> []" "\<not> kMaximumEventLength < ScheduleTextLength ?e" "cs_start_time c \<noteq> None" "cs_end_time c \<noteq> None"
      "the (cs_end_time c) \<le> the (cs_start_time c)"
    unfolding create_valid_iff by fastforce
  then show ?thesis
    by cases (simp_all add: create_schedule_def InvalidCreateScheduleResult_def Let_def del: not_None_eq)
qed

text \<open>Past the validation, the rest of \<open>create_schedule\<close>.\<close>

lemma create_schedule_valid:
  assumes "create_valid c"
  defines "s0 \<equiv> CreateFromCommand (c\<lparr>cs_event := TrimScheduleText (cs_event c)\<rparr>)"
  defines "cand svc st \<equiv> (if sc_start_time s0 \<noteq> None then repo_FindOverlapping (repository svc) st
      (fst (ScheduleNearbyWindow s0)) (snd (ScheduleNearbyWindow s0)) None else Success [])"
  defines "conf svc st \<equiv> (if sc_start_time s0 \<noteq> None
      then FindConflictingSchedules s0 (the (val (cand svc st))) None else [])"
  assumes "ok (cand svc st)"
  shows "conf svc st \<noteq> [] \<and> \<not> cs_ignore_conflict c \<Longrightarrow>
      \<not> command_ok (csr_result (fst (create_schedule svc st c))) \<and> snd (create_schedule svc st c) = st"
    and "\<not> (conf svc st \<noteq> [] \<and> \<not> cs_ignore_conflict c) \<Longrightarrow>
      repo_Insert (repository svc) st s0 = (Success s, st1) \<Longrightarrow>
      csr_result (fst (create_schedule svc st c)) = Command_Success (Some s) \<and>
      csr_conflicts (fst (create_schedule svc st c)) = conf svc st \<and>
      snd (create_schedule svc st c) = RecordScheduleMutation (operation_service svc) st1 Entity_kSchedule
        Op_kCreate (sc_id s) (sc_event s) None"
proof -
  let ?e = "TrimScheduleText (cs_event c)"
  from assms(1) have v: "?e \<noteq> []" "\<not> kMaximumEventLength < ScheduleTextLength ?e"
    "\<not> (cs_start_time c = None \<and> cs_end_time c \<noteq> None)"
    "\<not> (cs_start_time c \<noteq> None \<and> cs_end_time c \<noteq> None \<and> the (cs_end_time c) \<le> the (cs_start_time c))"
    by (simp_all add: create_valid_iff not_less)
  note eq = create_schedule_def [of svc st c] Let_def if_not_P [OF v(1)] if_not_P [OF v(2)] if_not_P [OF v(3)]
    if_not_P [OF v(4)] case_prod_beta s0_def [symmetric] cand_def [of svc st, symmetric] conf_def [of svc st, symmetric]
  show "\<not> command_ok (csr_result (fst (create_schedule svc st c))) \<and> snd (create_schedule svc st c) = st"
    if "conf svc st \<noteq> [] \<and> \<not> cs_ignore_conflict c"
    using that assms(5) unfolding eq by simp
  show "csr_result (fst (create_schedule svc st c)) = Command_Success (Some s) \<and>
      csr_conflicts (fst (create_schedule svc st c)) = conf svc st \<and>
      snd (create_schedule svc st c) = RecordScheduleMutation (operation_service svc) st1 Entity_kSchedule
        Op_kCreate (sc_id s) (sc_event s) None"
    if "\<not> (conf svc st \<noteq> [] \<and> \<not> cs_ignore_conflict c)" "repo_Insert (repository svc) st s0 = (Success s, st1)"
    using that assms(5) unfolding eq by auto
qed

text \<open>The update command, stage by stage.\<close>

definition update_requested :: "UpdateScheduleCommand \<Rightarrow> bool" where
  "update_requested c \<longleftrightarrow> us_event c \<noteq> None \<or> us_start_time c \<noteq> None \<or>
     us_end_time c \<noteq> None \<or> us_location c \<noteq> None \<or> us_notes c \<noteq> None"

definition update_name_ok :: "UpdateScheduleCommand \<Rightarrow> bool" where
  "update_name_ok c \<longleftrightarrow> (case us_event c of None \<Rightarrow> True | Some e \<Rightarrow> name_ok (TrimScheduleText e))"

definition update_valid :: "UpdateScheduleCommand \<Rightarrow> Schedule \<Rightarrow> bool" where
  "update_valid c s \<longleftrightarrow> update_name_ok c \<and> well_timed (patched c s)"

text \<open>When an update goes through: the schedule exists, and the result is valid and clear of conflicts.\<close>

definition update_applies ::
    "UpdateScheduleCommand \<Rightarrow> DateTime \<Rightarrow> (ScheduleId \<Rightarrow> Schedule option) \<Rightarrow> Schedule \<Rightarrow> bool" where
  "update_applies c now m s \<longleftrightarrow> 0 < us_schedule_id c \<and> update_requested c \<and> m (us_schedule_id c) = Some s \<and>
     update_valid c s \<and>
     (us_ignore_conflict c \<or> clear_of m (us_schedule_id c) ((patched c s)\<lparr>sc_updated_at := now\<rparr>))"

lemma update_schedule_rejected:
  assumes "us_schedule_id c \<le> 0 \<or> \<not> update_requested c \<or> \<not> ok (repo_FindById (repository svc) st (us_schedule_id c))"
    and "status_ok (status (repo_FindById (repository svc) st (us_schedule_id c))) \<longrightarrow>
      ok (repo_FindById (repository svc) st (us_schedule_id c))"
  shows "\<not> command_ok (usr_result (fst (update_schedule svc st now c))) \<and> snd (update_schedule svc st now c) = st"
proof -
  let ?l = "repo_FindById (repository svc) st (us_schedule_id c)"
  from assms consider "us_schedule_id c \<le> 0" | "\<not> us_schedule_id c \<le> 0" "\<not> update_requested c"
    | "\<not> us_schedule_id c \<le> 0" "update_requested c" "\<not> ok ?l" "\<not> status_ok (status ?l)" by blast
  then show ?thesis
    unfolding update_schedule_def Let_def update_requested_def [symmetric]
    by cases (simp_all add: InvalidUpdateScheduleResult_def)
qed

lemma patched_simps [simp]:
  "sc_id (patched c s) = sc_id s" "sc_status (patched c s) = sc_status s" "sc_rule_id (patched c s) = sc_rule_id s"
  "sc_created_at (patched c s) = sc_created_at s"
  by (simp_all add: patched_def)

lemma update_schedule_loaded:
  assumes "0 < us_schedule_id c" "update_requested c"
    and found: "repo_FindById (repository svc) st (us_schedule_id c) = Success s"
  defines "p \<equiv> patched c s"
  defines "check \<equiv> sc_status p = kActive \<and> sc_start_time p \<noteq> None"
  defines "cand \<equiv> (if check then repo_FindOverlapping (repository svc) st (fst (ScheduleNearbyWindow p))
      (snd (ScheduleNearbyWindow p)) (Some (sc_id p)) else Success [])"
  defines "conf \<equiv> (if check then FindConflictingSchedules p (the (val cand)) None else [])"
  assumes cand: "ok cand"
  shows "\<not> update_valid c s \<or> (conf \<noteq> [] \<and> \<not> us_ignore_conflict c) \<Longrightarrow>
      \<not> command_ok (usr_result (fst (update_schedule svc st now c))) \<and> snd (update_schedule svc st now c) = st"
    and "update_valid c s \<Longrightarrow> \<not> (conf \<noteq> [] \<and> \<not> us_ignore_conflict c) \<Longrightarrow>
      repo_Update (repository svc) st (p\<lparr>sc_updated_at := now\<rparr>) = (Status_Ok, st1) \<Longrightarrow>
      usr_result (fst (update_schedule svc st now c)) = Command_Success (Some (p\<lparr>sc_updated_at := now\<rparr>)) \<and>
      usr_conflicts (fst (update_schedule svc st now c)) = conf \<and>
      snd (update_schedule svc st now c) = RecordScheduleMutation (operation_service svc) st1 Entity_kSchedule
        Op_kUpdate (sc_id p) (sc_event p) (Some (SerializeScheduleSnapshot s))"
proof -
  define tail where "tail = update_schedule_merged svc st now c s p"
  have pos: "\<not> us_schedule_id c \<le> 0" using assms(1) by simp
  have eq: "update_schedule svc st now c =
      (case us_event c of None \<Rightarrow> tail
       | Some e \<Rightarrow> if TrimScheduleText e = [] then (InvalidUpdateScheduleResult msg_event_empty, st)
           else if ScheduleTextLength (TrimScheduleText e) > kMaximumEventLength
             then (InvalidUpdateScheduleResult msg_event_too_long, st) else tail)"
    unfolding update_schedule_def Let_def if_not_P [OF pos] update_requested_def [symmetric] found tail_def p_def
      patched_def
    using assms(2) by (cases "us_event c") simp_all
  note tail = tail_def update_schedule_merged_def [of svc st now c s p] Let_def case_prod_beta check_def [symmetric]
    cand_def [symmetric] conf_def [symmetric]
  have ok': "\<not> (check \<and> \<not> ok cand)" using cand by simp
  show "\<not> command_ok (usr_result (fst (update_schedule svc st now c))) \<and> snd (update_schedule svc st now c) = st"
    if "\<not> update_valid c s \<or> (conf \<noteq> [] \<and> \<not> us_ignore_conflict c)"
    using that trimmed_TrimScheduleText unfolding eq tail if_not_P [OF ok']
    by (auto simp: update_valid_def update_name_ok_def name_ok_def well_timed_def InvalidUpdateScheduleResult_def
        p_def [symmetric] split: option.splits)
  show "usr_result (fst (update_schedule svc st now c)) = Command_Success (Some (p\<lparr>sc_updated_at := now\<rparr>)) \<and>
      usr_conflicts (fst (update_schedule svc st now c)) = conf \<and>
      snd (update_schedule svc st now c) = RecordScheduleMutation (operation_service svc) st1 Entity_kSchedule
        Op_kUpdate (sc_id p) (sc_event p) (Some (SerializeScheduleSnapshot s))"
    if "update_valid c s" "\<not> (conf \<noteq> [] \<and> \<not> us_ignore_conflict c)"
      "repo_Update (repository svc) st (p\<lparr>sc_updated_at := now\<rparr>) = (Status_Ok, st1)"
    using that unfolding eq tail if_not_P [OF ok'] if_not_P [OF that(2)]
    by (auto simp: update_valid_def update_name_ok_def name_ok_def well_timed_def p_def [symmetric]
        split: option.splits)
qed

text \<open>
  The operations that change the schedules, as steps; a careful caller never asks to ignore a
  conflict.
\<close>

inductive service_step :: "'s ScheduleService \<Rightarrow> bool \<Rightarrow> 's \<Rightarrow> 's \<Rightarrow> bool" for svc careful where
  create: "careful \<longrightarrow> \<not> cs_ignore_conflict c \<Longrightarrow> service_step svc careful st (snd (create_schedule svc st c))"
| update: "careful \<longrightarrow> \<not> us_ignore_conflict u \<Longrightarrow> service_step svc careful st (snd (update_schedule svc st now u))"
| cancel: "service_step svc careful st (snd (cancel_schedule svc st i))"
| complete: "service_step svc careful st (snd (complete_schedule svc st now i))"

text \<open>How the status of a schedule may change.\<close>

definition status_may :: "ScheduleStatus \<Rightarrow> ScheduleStatus \<Rightarrow> bool" where
  "status_may a b \<longleftrightarrow> a = b \<or> b = kCancelled \<or> (a = kActive \<and> b = kCompleted)"

lemma update_keeps_ok:
  assumes "schedule_ok s" "update_valid c s"
  shows "schedule_ok ((patched c s)\<lparr>sc_updated_at := now\<rparr>)"
proof -
  have "well_timed ((patched c s)\<lparr>sc_updated_at := now\<rparr>) = well_timed (patched c s)"
    by (rule well_timed_cong) simp_all
  with assms show ?thesis
    by (auto simp: schedule_ok_def update_valid_def update_name_ok_def patched_def split: option.splits)
qed

lemma status_change_ok:
  "schedule_ok (s\<lparr>sc_status := a, sc_updated_at := t\<rparr>) = schedule_ok s"
  by (simp add: schedule_ok_def well_timed_def)

context schedule_store
begin

lemma overlap_conflicts:
  assumes inv: "inv st" and ok: "all_ok (content st)" and c: "timed c"
    and x: "x = None \<or> x = Some (sc_id c)" and w: "ScheduleNearbyWindow c = (ws, we)"
  obtains xs where "repo_FindOverlapping R st ws we x = Success xs"
    "FindConflictingSchedules c xs None = [] \<longleftrightarrow>
       (\<forall>j b. content st j = Some b \<and> j \<noteq> sc_id c \<longrightarrow>
          \<not> (sc_status b = kActive \<and> sc_start_time b \<noteq> None \<and> SchedulesConflict c b))"
proof -
  obtain xs where xs: "repo_FindOverlapping R st ws we x = Success xs"
    "set xs = {s \<in> ran (content st). overlap_candidate ws we x s}" using overlapping [OF inv] by blast
  have cand: "b \<in> set xs"
    if "content st j = Some b" "j \<noteq> sc_id c" "sc_status b = kActive" "sc_start_time b \<noteq> None" "SchedulesConflict c b"
    for j b
  proof -
    have "timed b" using ok that by (simp add: all_ok_def schedule_ok_def timed_iff)
    then have "in_window (ws, we) b" using window_complete [OF c] that(5) w by simp
    moreover have "sc_id b = j" using content_id [OF inv that(1)] by simp
    ultimately show ?thesis using that x by (auto simp: xs(2) overlap_candidate_def ran_def)
  qed
  have "FindConflictingSchedules c xs None = [] \<longleftrightarrow>
       (\<forall>b \<in> set xs. \<not> (sc_id b \<noteq> sc_id c \<and> sc_status b = kActive \<and> sc_start_time b \<noteq> None \<and> SchedulesConflict c b))"
    by (auto simp: FindConflictingSchedules_def filter_empty_conv)
  also have "\<dots> \<longleftrightarrow> (\<forall>j b. content st j = Some b \<and> j \<noteq> sc_id c \<longrightarrow>
          \<not> (sc_status b = kActive \<and> sc_start_time b \<noteq> None \<and> SchedulesConflict c b))"
    using cand content_id [OF inv] unfolding xs(2) ran_def by blast
  finally show thesis using that xs(1) by blast
qed

lemma record_mutation:
  assumes "inv st" "serves R Ops svc"
    and st': "st' = RecordScheduleMutation (operation_service svc) st et ty i label before"
  shows "content st' = content st" "inv st'"
    "log st' = log st \<or> (\<exists>e. log st' = log st @ [e] \<and> op_entity_type e = et \<and> op_type e = ty \<and>
       op_entity_id e = i \<and> op_label e = label \<and> op_before e = before)"
    "operation_service svc \<noteq> None \<Longrightarrow>
       status_ok (ValidateRecordOperationCommand \<lparr>ro_entity_type = et, ro_type = ty, ro_entity_id = i,
         ro_label = label, ro_before = before\<rparr>) \<Longrightarrow> log st' \<noteq> log st"
proof -
  let ?cmd = "\<lparr>ro_entity_type = et, ro_type = ty, ro_entity_id = i, ro_label = label, ro_before = before\<rparr>"
  let ?op = "\<lparr>op_id = 0, op_entity_type = et, op_type = ty, op_entity_id = i, op_operated_at = 0,
    op_label = label, op_before = before\<rparr>"
  obtain r st1 where i: "ops_InsertOperation Ops st ?op = (r, st1)" by fastforce
  obtain e' where e': "r = Success e'" "recorded_as ?op e'" "log st1 = log st @ [e']" "inv st1"
    using insert_operation [OF assms(1) i] by blast
  have fields: "op_entity_type e' = et" "op_type e' = ty" "op_entity_id e' = i" "op_label e' = label"
    "op_before e' = before"
    using e'(2) by (cases e'; simp add: recorded_as_def)+
  have frame: "content st1 = content st" using operation_frame [OF assms(1), of ?op] i by simp
  have eq: "st' = (if operation_service svc = None \<or> \<not> status_ok (ValidateRecordOperationCommand ?cmd) then st else st1)"
    using assms(2) i e'(1) by (auto simp: st' serves_def RecordScheduleMutation_def record_operation_def Let_def)
  show "content st' = content st" "inv st'" using eq frame e'(4) assms(1) by simp_all
  show "log st' = log st \<or> (\<exists>e. log st' = log st @ [e] \<and> op_entity_type e = et \<and> op_type e = ty \<and>
       op_entity_id e = i \<and> op_label e = label \<and> op_before e = before)" using eq e'(3) fields by auto
  show "log st' \<noteq> log st" if "operation_service svc \<noteq> None" "status_ok (ValidateRecordOperationCommand ?cmd)"
    using eq that e'(3) by simp
qed

lemma create_effect:
  assumes inv: "inv st" and svc: "serves R Ops svc" and ok: "all_ok (content st)"
    and run: "create_schedule svc st c = (r, st')"
  defines "s0 \<equiv> CreateFromCommand (c\<lparr>cs_event := TrimScheduleText (cs_event c)\<rparr>)"
  obtains (rejected) "\<not> command_ok (csr_result r)" "st' = st"
      "\<not> create_valid c \<or> (\<not> cs_ignore_conflict c \<and> \<not> clear_of (content st) 0 s0)"
  | (created) s where "csr_result r = Command_Success (Some s)" "create_valid c" "stored_as s0 s" "0 < sc_id s"
      "content st (sc_id s) = None" "content st' = (content st)(sc_id s \<mapsto> s)" "inv st'"
      "cs_ignore_conflict c \<or> clear_of (content st) 0 s0"
      "log st' = log st \<or> (\<exists>e. log st' = log st @ [e] \<and> op_entity_type e = Entity_kSchedule \<and>
         op_type e = Op_kCreate \<and> op_entity_id e = sc_id s \<and> op_label e = sc_event s \<and> op_before e = None)"
      "operation_service svc \<noteq> None \<Longrightarrow> log st' \<noteq> log st"
proof (cases "create_valid c")
  case False
  from create_schedule_invalid [OF this, of svc st] run
  have "\<not> command_ok (csr_result r)" "st' = st" by simp_all
  with False show thesis by (intro rejected) simp_all
next
  case valid: True
  have R: "repository svc = R" using svc by (simp add: serves_def)
  define ws we where "ws = fst (ScheduleNearbyWindow s0)" and "we = snd (ScheduleNearbyWindow s0)"
  then have w: "ScheduleNearbyWindow s0 = (ws, we)" by simp
  define cand where "cand = (if sc_start_time s0 \<noteq> None then repo_FindOverlapping R st ws we None else Success [])"
  define conf where "conf = (if sc_start_time s0 \<noteq> None then FindConflictingSchedules s0 (the (val cand)) None else [])"
  have sok: "schedule_ok s0" using valid by (simp add: create_valid_def s0_def)
  have id0: "sc_id s0 = 0" "sc_status s0 = kActive" "sc_event s0 \<noteq> []"
    using sok by (simp_all add: s0_def schedule_ok_def name_ok_def)
  have cand: "ok cand" "conf = [] \<longleftrightarrow> clear_of (content st) 0 s0"
  proof -
    show "ok cand" using overlapping [OF inv, of ws we None] by (auto simp: cand_def)
    show "conf = [] \<longleftrightarrow> clear_of (content st) 0 s0"
    proof (cases "sc_start_time s0 = None")
      case False
      then have "timed s0" using sok by (simp add: timed_iff schedule_ok_def)
      from overlap_conflicts [OF inv ok this disjI1 [OF refl] w] obtain xs
        where "repo_FindOverlapping R st ws we None = Success xs"
          "FindConflictingSchedules s0 xs None = [] \<longleftrightarrow> (\<forall>j b. content st j = Some b \<and> j \<noteq> sc_id s0 \<longrightarrow>
             \<not> (sc_status b = kActive \<and> sc_start_time b \<noteq> None \<and> SchedulesConflict s0 b))" .
      with False id0 show ?thesis by (simp add: conf_def cand_def clear_of_def clash_def)
    qed (simp add: conf_def clear_of_def clash_def)
  qed
  obtain ins st1 where ins: "repo_Insert R st s0 = (ins, st1)" by fastforce
  obtain s where s: "ins = Success s" "stored_as s0 s" "0 < sc_id s" "content st (sc_id s) = None"
      "content st1 = (content st)(sc_id s \<mapsto> s)" "inv st1"
    using insert_stores [OF inv id0(3) ins] by blast
  define st2 where "st2 = RecordScheduleMutation (operation_service svc) st1 Entity_kSchedule Op_kCreate
    (sc_id s) (sc_event s) None"
  note rm = record_mutation [OF s(6) svc st2_def]
  have log1: "log st1 = log st" using insert_frame [OF inv, of s0] ins by simp
  note res = create_schedule_valid [OF valid, of svc st, folded s0_def ws_def we_def, unfolded R,
      folded cand_def, folded conf_def, OF cand(1)]
  show thesis
  proof (cases "conf \<noteq> [] \<and> \<not> cs_ignore_conflict c")
    case True
    then have "\<not> command_ok (csr_result r)" "st' = st" using res(1) run by simp_all
    with True cand(2) show thesis by (intro rejected) simp_all
  next
    case False
    then have "csr_result r = Command_Success (Some s)" "st' = st2"
      using res(2) run s(1) ins by (simp_all add: st2_def)
    moreover have "status_ok (ValidateRecordOperationCommand \<lparr>ro_entity_type = Entity_kSchedule,
        ro_type = Op_kCreate, ro_entity_id = sc_id s, ro_label = sc_event s, ro_before = None\<rparr>)"
      using s(3) sok stored_as_fields(1) [OF s(2)]
      by (simp add: ValidateRecordOperationCommand_def Let_def schedule_ok_def name_ok_def
          TrimScheduleText_trimmed kMaximumLabelLength_def kMaximumEventLength_def)
    ultimately show thesis using s rm valid False cand(2) log1 by (intro created [of s]) auto
  qed
qed

lemma find_cases:
  assumes "inv st"
  obtains (present) s where "content st i = Some s" "repo_FindById R st i = Success s" "sc_id s = i" "0 < i"
  | (absent) "content st i = None" "\<not> ok (repo_FindById R st i)" "\<not> status_ok (status (repo_FindById R st i))"
proof (cases "content st i")
  case None
  with find_absent [OF assms None] show thesis by (intro absent) (auto simp: status_ok_def)
next
  case (Some s)
  with find_present [OF assms Some] content_id [OF assms Some] show thesis by (intro present) auto
qed

lemma snapshot_logged:
  assumes "0 < i" "name_ok label" "ty = Op_kUpdate \<or> ty = Op_kDelete"
  shows "status_ok (ValidateRecordOperationCommand \<lparr>ro_entity_type = Entity_kSchedule, ro_type = ty,
      ro_entity_id = i, ro_label = label, ro_before = Some before\<rparr>) \<longleftrightarrow> length before \<le> kMaximumSnapshotBytes"
  using assms by (auto simp: ValidateRecordOperationCommand_def Let_def name_ok_def TrimScheduleText_trimmed
      kMaximumLabelLength_def kMaximumEventLength_def)

lemma update_effect:
  assumes inv: "inv st" and svc: "serves R Ops svc" and ok: "all_ok (content st)"
    and run: "update_schedule svc st now c = (r, st')"
  obtains (rejected) "\<not> command_ok (usr_result r)" "st' = st"
      "\<not> (\<exists>s. update_applies c now (content st) s)"
  | (updated) s s' where "content st (us_schedule_id c) = Some s" "s' = (patched c s)\<lparr>sc_updated_at := now\<rparr>"
      "usr_result r = Command_Success (Some s')" "update_requested c" "update_valid c s"
      "content st' = (content st)(us_schedule_id c \<mapsto> s')" "inv st'"
      "us_ignore_conflict c \<or> clear_of (content st) (us_schedule_id c) s'"
      "log st' = log st \<or> (\<exists>e. log st' = log st @ [e] \<and> op_type e = Op_kUpdate \<and>
         op_entity_id e = us_schedule_id c \<and> op_before e = Some (SerializeScheduleSnapshot s))"
      "operation_service svc \<noteq> None \<Longrightarrow> length (SerializeScheduleSnapshot s) \<le> kMaximumSnapshotBytes \<Longrightarrow>
         log st' \<noteq> log st"
proof -
  have R: "repository svc = R" using svc by (simp add: serves_def)
  let ?i = "us_schedule_id c"
  show thesis
  proof (cases "us_schedule_id c \<le> 0 \<or> \<not> update_requested c \<or> content st ?i = None")
    case True
    from find_cases [OF inv, of ?i] True
    have "?i \<le> 0 \<or> \<not> update_requested c \<or> \<not> ok (repo_FindById R st ?i)"
      "status_ok (status (repo_FindById R st ?i)) \<longrightarrow> ok (repo_FindById R st ?i)"
      by (metis option.distinct(1) result_simps_basic(1))+
    from update_schedule_rejected [of c svc st now, unfolded R, OF this] run True
    show thesis by (intro rejected) (auto simp: update_applies_def)
  next
    case False
    then obtain s where s: "content st ?i = Some s" "repo_FindById R st ?i = Success s" "sc_id s = ?i"
      and req: "0 < ?i" "update_requested c"
      by (metis find_cases [OF inv, of ?i] not_le)
    define p where "p = patched c s"
    define s' where "s' = p\<lparr>sc_updated_at := now\<rparr>"
    define check where "check \<longleftrightarrow> sc_status p = kActive \<and> sc_start_time p \<noteq> None"
    define ws we where "ws = fst (ScheduleNearbyWindow p)" and "we = snd (ScheduleNearbyWindow p)"
    define cand where "cand = (if check then repo_FindOverlapping R st ws we (Some (sc_id p)) else Success [])"
    define conf where "conf = (if check then FindConflictingSchedules p (the (val cand)) None else [])"
    have pid: "sc_id p = ?i" "sc_id s' = ?i" using s(3) by (simp_all add: p_def s'_def)
    have cand_ok: "ok cand" using overlapping [OF inv, of ws we "Some (sc_id p)"] by (auto simp: cand_def)
    have clash_p: "clash p b = clash s' b" for b
      using SchedulesConflict_cong [of p s' b] by (simp add: clash_def s'_def)
    then have clear: "clear_of (content st) ?i s' = clear_of (content st) ?i p" by (simp add: clear_of_def)
    have free: "conf = [] \<longleftrightarrow> clear_of (content st) ?i s'" if "well_timed p"
    proof (cases check)
      case True
      then have "timed p" using that by (simp add: timed_iff check_def)
      have w: "ScheduleNearbyWindow p = (ws, we)" by (simp add: ws_def we_def)
      from overlap_conflicts [OF inv ok \<open>timed p\<close> disjI2 [OF refl] w] obtain xs
        where "repo_FindOverlapping R st ws we (Some (sc_id p)) = Success xs"
          "FindConflictingSchedules p xs None = [] \<longleftrightarrow> (\<forall>j b. content st j = Some b \<and> j \<noteq> sc_id p \<longrightarrow>
             \<not> (sc_status b = kActive \<and> sc_start_time b \<noteq> None \<and> SchedulesConflict p b))" .
      with True pid show ?thesis
        unfolding clear by (simp add: conf_def cand_def clear_of_def clash_def check_def)
    next
      case False
      then show ?thesis unfolding clear by (auto simp: conf_def clear_of_def clash_def check_def)
    qed
    note res = update_schedule_loaded [of c svc st s now, unfolded R, OF req s(2), folded p_def,
        folded check_def ws_def we_def, folded cand_def, folded conf_def s'_def, OF cand_ok]
    show thesis
    proof (cases "\<not> update_valid c s \<or> (conf \<noteq> [] \<and> \<not> us_ignore_conflict c)")
      case True
      from res(1) [OF this] run have "\<not> command_ok (usr_result r)" "st' = st" by simp_all
      moreover have "\<not> (\<exists>s. update_applies c now (content st) s)"
        using True s(1) free by (auto simp: update_applies_def update_valid_def s'_def p_def)
      ultimately show thesis by (rule rejected)
    next
      case False
      then have valid: "update_valid c s" "\<not> (conf \<noteq> [] \<and> \<not> us_ignore_conflict c)" by auto
      obtain w st1 where u: "repo_Update R st s' = (w, st1)" by fastforce
      have st1: "w = Status_Ok" "content st1 = (content st)(?i \<mapsto> s')" "inv st1" "log st1 = log st"
        using update_stores [OF inv _ u] s(1) pid update_frame [OF inv, of s'] u by auto
      define st2 where "st2 = RecordScheduleMutation (operation_service svc) st1 Entity_kSchedule Op_kUpdate
        (sc_id p) (sc_event p) (Some (SerializeScheduleSnapshot s))"
      note rm = record_mutation [OF st1(3) svc st2_def]
      have name: "name_ok (sc_event p)"
        using valid(1) s(1) ok by (auto simp: update_valid_def update_name_ok_def p_def patched_def all_ok_def
            schedule_ok_def split: option.splits)
      have "usr_result r = Command_Success (Some s')" "st' = st2"
        using res(2) [OF valid] u st1(1) run by (simp_all add: st2_def)
      moreover have "us_ignore_conflict c \<or> clear_of (content st) ?i s'"
        using valid free by (auto simp: update_valid_def p_def)
      ultimately show thesis
        using s req valid st1 rm pid snapshot_logged [OF _ name, of "sc_id p" Op_kUpdate]
        by (intro updated [of s s']) (auto simp: s'_def p_def)
    qed
  qed
qed

lemma cancel_effect:
  assumes inv: "inv st" and svc: "serves R Ops svc" and run: "cancel_schedule svc st i = (r, st')"
  obtains (rejected) "\<not> command_ok (xsr_result r)" "st' = st"
      "content st i = None \<or> (\<exists>s. content st i = Some s \<and> sc_status s = kCancelled \<and> code (cr_status (xsr_result r)) = kConflict)"
  | (cancelled) s t where "content st i = Some s" "sc_status s \<noteq> kCancelled" "xsr_result r = Command_Success True"
      "content st' = (content st)(i \<mapsto> s\<lparr>sc_status := kCancelled, sc_updated_at := t\<rparr>)" "inv st'"
      "log st' = log st \<or> (\<exists>e. log st' = log st @ [e] \<and> op_type e = Op_kDelete \<and>
         op_entity_id e = i \<and> op_before e = Some (SerializeScheduleSnapshot s))"
      "operation_service svc \<noteq> None \<Longrightarrow> name_ok (sc_event s) \<Longrightarrow>
         length (SerializeScheduleSnapshot s) \<le> kMaximumSnapshotBytes \<Longrightarrow> log st' \<noteq> log st"
proof -
  have R: "repository svc = R" using svc by (simp add: serves_def)
  from inv show thesis
  proof (cases rule: find_cases [where i = i])
    case absent
    then show thesis using run by (intro rejected) (auto simp: cancel_schedule_def R Let_def split: if_splits)
  next
    case (present s)
    obtain w st1 where d: "repo_Delete R st i = (w, st1)" by fastforce
    show thesis
    proof (cases "sc_status s = kCancelled")
      case True
      with delete_conflict [OF inv present(1)] d have "code w = kConflict" "st1 = st" by simp_all
      then show thesis using run present True d
        by (intro rejected) (auto simp: cancel_schedule_def R status_ok_def Let_def)
    next
      case False
      then obtain t where t: "w = Status_Ok" "inv st1"
          "content st1 = (content st)(i \<mapsto> s\<lparr>sc_status := kCancelled, sc_updated_at := t\<rparr>)"
        using delete_cancels [OF inv present(1) False d] by blast
      have log1: "log st1 = log st" using delete_frame [OF inv, of i] d by simp
      define st2 where "st2 = RecordScheduleMutation (operation_service svc) st1 Entity_kSchedule Op_kDelete
        i (sc_event s) (Some (SerializeScheduleSnapshot s))"
      note rm = record_mutation [OF t(2) svc st2_def]
      have "xsr_result r = Command_Success True" "st' = st2"
        using run present d t(1) by (auto simp: cancel_schedule_def R Let_def st2_def)
      then show thesis using present False t rm log1 snapshot_logged [of i "sc_event s" Op_kDelete]
        by (intro cancelled [of s t]) auto
    qed
  qed
qed

lemma complete_effect:
  assumes inv: "inv st" and svc: "serves R Ops svc" and run: "complete_schedule svc st now i = (w, st')"
  obtains (rejected) "\<not> status_ok w" "st' = st" "\<nexists>s. content st i = Some s \<and> sc_status s = kActive"
  | (completed) s where "content st i = Some s" "sc_status s = kActive" "w = Status_Ok"
      "content st' = (content st)(i \<mapsto> s\<lparr>sc_status := kCompleted, sc_updated_at := now\<rparr>)" "inv st'" "log st' = log st"
proof -
  have R: "repository svc = R" using svc by (simp add: serves_def)
  from inv show thesis
  proof (cases rule: find_cases [where i = i])
    case absent
    then show thesis using run by (intro rejected) (auto simp: complete_schedule_def R Let_def split: if_splits)
  next
    case (present s)
    let ?s = "s\<lparr>sc_status := kCompleted, sc_updated_at := now\<rparr>"
    obtain v st1 where u: "repo_Update R st ?s = (v, st1)" by fastforce
    show thesis
    proof (cases "sc_status s = kActive")
      case True
      have "v = Status_Ok \<and> content st1 = (content st)(i \<mapsto> ?s) \<and> inv st1"
        using update_stores [OF inv _ u] present by simp
      moreover have "log st1 = log st" using update_frame [OF inv, of ?s] u by simp
      moreover have "w = v" "st' = st1" using run present u True by (auto simp: complete_schedule_def R Let_def)
      ultimately show thesis using present True by (intro completed [of s]) auto
    next
      case False
      then show thesis using run present by (intro rejected) (auto simp: complete_schedule_def R Let_def)
    qed
  qed
qed

lemma step_keeps:
  assumes inv: "inv st" and svc: "serves R Ops svc" and ok: "all_ok (content st)"
    and step: "service_step svc careful st st'"
  shows "inv st' \<and> all_ok (content st') \<and>
    (careful \<and> conflict_free (content st) \<longrightarrow> conflict_free (content st')) \<and>
    (\<forall>i s. content st i = Some s \<longrightarrow> (\<exists>s'. content st' i = Some s' \<and> status_may (sc_status s) (sc_status s')))"
  using step
proof cases
  case (create c)
  obtain r st1 where run: "create_schedule svc st c = (r, st1)" by fastforce
  from inv svc ok run show ?thesis
  proof (cases rule: create_effect)
    case (created s)
    have "schedule_ok s" using created(2,3) by (simp add: stored_as_ok create_valid_def)
    moreover have "clear_of (content st) (sc_id s) s" if careful
      using created(8) create(2) that content_id [OF inv]
      unfolding clear_of_def stored_as_clash [OF created(3)] by (metis less_irrefl)
    ultimately show ?thesis
      using created create(1) run ok by (auto simp: all_ok_upd conflict_free_upd status_may_def)
  qed (use inv ok create run in \<open>auto simp: status_may_def\<close>)
next
  case (update u now)
  obtain r st1 where run: "update_schedule svc st now u = (r, st1)" by fastforce
  from inv svc ok run show ?thesis
  proof (cases rule: update_effect)
    case (updated s s')
    have "schedule_ok s'" using updated ok by (auto simp: all_ok_def intro: update_keeps_ok)
    then show ?thesis
      using updated update run ok by (auto simp: all_ok_upd conflict_free_upd status_may_def)
  qed (use inv ok update run in \<open>auto simp: status_may_def\<close>)
next
  case (cancel i)
  obtain r st1 where run: "cancel_schedule svc st i = (r, st1)" by fastforce
  from inv svc run show ?thesis
  proof (cases rule: cancel_effect)
    case (cancelled s t)
    have "schedule_ok s" using cancelled ok by (simp add: all_ok_def)
    then show ?thesis
      using cancelled cancel run ok
      by (auto simp: all_ok_upd status_change_ok status_may_def intro!: conflict_free_inactive)
  qed (use inv ok cancel run in \<open>auto simp: status_may_def\<close>)
next
  case (complete now i)
  obtain w st1 where run: "complete_schedule svc st now i = (w, st1)" by fastforce
  from inv svc run show ?thesis
  proof (cases rule: complete_effect)
    case (completed s)
    have "schedule_ok s" using completed ok by (simp add: all_ok_def)
    then show ?thesis
      using completed complete run ok
      by (auto simp: all_ok_upd status_change_ok status_may_def intro!: conflict_free_inactive)
  qed (use inv ok complete run in \<open>auto simp: status_may_def\<close>)
qed

lemma steps_keep:
  assumes "(service_step svc careful)\<^sup>*\<^sup>* st st'" "inv st" "serves R Ops svc" "all_ok (content st)"
  shows "inv st' \<and> all_ok (content st') \<and> (careful \<and> conflict_free (content st) \<longrightarrow> conflict_free (content st'))"
  using assms
proof (induction rule: rtranclp_induct)
  case (step y z)
  then show ?case using step_keeps [of y svc careful z] by blast
qed simp

end

section \<open>The service on the in-memory store\<close>

definition memory_service :: "MemoryStore ScheduleService" where
  "memory_service = \<lparr>repository = memory_schedules,
     operation_service = Some \<lparr>operation_repository = memory_operations\<rparr>\<rparr>"

lemma memory_serves: "serves memory_schedules memory_operations memory_service"
  by (simp add: serves_def memory_service_def)

lemma empty_store_content: "find_schedule (empty_store clock) = Map.empty"
  by (simp add: fun_eq_iff find_schedule_def empty_store_def)

lemma memory_service_reachable:
  assumes "(service_step memory_service careful)\<^sup>*\<^sup>* (empty_store clock) st"
  shows "store_inv st \<and> all_ok (find_schedule st) \<and> (careful \<longrightarrow> conflict_free (find_schedule st))"
  using memory_store.steps_keep [OF assms empty_store_inv memory_serves]
  by (simp add: empty_store_content all_ok_def conflict_free_def)

section \<open>Properties\<close>

text \<open>
  C1. However a caller that never asks to ignore conflicts mixes creating, updating, cancelling and
  completing, no two active schedules of the store ever share an instant.
\<close>

theorem no_conflicting_schedules:
  "(service_step memory_service True)\<^sup>*\<^sup>* (empty_store clock) st \<longrightarrow> conflict_free (find_schedule st)"
  using memory_service_reachable by blast

text \<open>Two commands for the same hour; the second one is refused.\<close>

definition sample_command :: CreateScheduleCommand where
  "sample_command = \<lparr>cs_event = '' run '', cs_start_time = Some 3600, cs_end_time = Some 7200,
     cs_location = None, cs_notes = None, cs_ignore_conflict = False\<rparr>"

definition sample_store :: MemoryStore where
  "sample_store = snd (create_schedule memory_service (empty_store (\<lambda>n. 100 + int n)) sample_command)"

lemma sample_store_reachable:
  "(service_step memory_service careful)\<^sup>*\<^sup>* (empty_store (\<lambda>n. 100 + int n)) sample_store"
  unfolding sample_store_def by (intro r_into_rtranclp service_step.create) (simp add: sample_command_def)

theorem no_conflicting_schedules_witness:
  "conflict_free (find_schedule sample_store) \<and> length (ms_schedules sample_store) = 1"
proof
  show "conflict_free (find_schedule sample_store)"
    using no_conflicting_schedules sample_store_reachable by blast
  show "length (ms_schedules sample_store) = 1" by code_simp
qed

text \<open>
  Every schedule that the service ever stores has a trimmed name of 1 to 100 characters, no end
  without a start, and an end after its start.
\<close>

theorem stored_schedules_valid:
  "(service_step memory_service careful)\<^sup>*\<^sup>* (empty_store clock) st \<longrightarrow> all_ok (find_schedule st)"
  using memory_service_reachable by blast

theorem stored_schedules_valid_witness: "all_ok (find_schedule sample_store)"
  using stored_schedules_valid sample_store_reachable by blast

text \<open>
  C32. Creating a schedule succeeds exactly when the command is valid and, unless conflicts are
  ignored, no active schedule shares an instant with it; it then adds exactly that schedule under a
  new identifier, and otherwise it changes nothing.
\<close>

theorem create_schedule_correct:
  "store_inv st \<and> all_ok (find_schedule st) \<and> create_schedule memory_service st c = (r, st') \<longrightarrow>
     (let s0 = CreateFromCommand (c\<lparr>cs_event := TrimScheduleText (cs_event c)\<rparr>)
      in if create_valid c \<and> (cs_ignore_conflict c \<or> clear_of (find_schedule st) 0 s0)
         then \<exists>s. csr_result r = Command_Success (Some s) \<and> stored_as s0 s \<and> 0 < sc_id s \<and>
                find_schedule st (sc_id s) = None \<and> find_schedule st' = (find_schedule st)(sc_id s \<mapsto> s)
         else \<not> command_ok (csr_result r) \<and> st' = st)"
proof (intro impI, elim conjE)
  assume a: "store_inv st" "all_ok (find_schedule st)" "create_schedule memory_service st c = (r, st')"
  from a(1) memory_serves a(2,3) show "let s0 = CreateFromCommand (c\<lparr>cs_event := TrimScheduleText (cs_event c)\<rparr>)
      in if create_valid c \<and> (cs_ignore_conflict c \<or> clear_of (find_schedule st) 0 s0)
         then \<exists>s. csr_result r = Command_Success (Some s) \<and> stored_as s0 s \<and> 0 < sc_id s \<and>
                find_schedule st (sc_id s) = None \<and> find_schedule st' = (find_schedule st)(sc_id s \<mapsto> s)
         else \<not> command_ok (csr_result r) \<and> st' = st"
  proof (cases rule: memory_store.create_effect)
    case (created s)
    then show ?thesis by (auto simp: Let_def)
  qed (auto simp: Let_def)
qed

theorem create_schedule_correct_witness:
  "\<not> command_ok (csr_result (fst (create_schedule memory_service sample_store sample_command))) \<and>
   snd (create_schedule memory_service sample_store sample_command) = sample_store"
proof -
  obtain r st' where run: "create_schedule memory_service sample_store sample_command = (r, st')" by fastforce
  have "\<not> clear_of (find_schedule sample_store) 0
      (CreateFromCommand (sample_command\<lparr>cs_event := TrimScheduleText (cs_event sample_command)\<rparr>))"
  proof -
    have "find_schedule sample_store 1 = Some (default_Schedule\<lparr>sc_id := 1, sc_event := ''run'',
        sc_start_time := Some 3600, sc_end_time := Some 7200, sc_created_at := 100, sc_updated_at := 100\<rparr>)"
      by code_simp
    then show ?thesis
      unfolding clear_of_def
      by (intro notI, elim allE [of _ 1] allE [of _ "default_Schedule\<lparr>sc_id := 1, sc_event := ''run'',
        sc_start_time := Some 3600, sc_end_time := Some 7200, sc_created_at := 100, sc_updated_at := 100\<rparr>"])
        (simp add: clash_def default_Schedule_def sample_command_def time_rule_defs)
  qed
  moreover have "store_inv sample_store" "all_ok (find_schedule sample_store)"
    using memory_service_reachable [OF sample_store_reachable [of True]] by simp_all
  moreover have "\<not> cs_ignore_conflict sample_command" by (simp add: sample_command_def)
  ultimately show ?thesis
    using create_schedule_correct [of sample_store sample_command r st'] run by (simp add: Let_def)
qed

text \<open>
  C33. Updating a schedule goes through exactly when it exists, some field is given, and the merged
  schedule is valid and (unless conflicts are ignored) clear of the other active ones; it then
  replaces exactly that schedule by the merged one, and otherwise it changes nothing.
\<close>

theorem update_schedule_correct:
  "store_inv st \<and> all_ok (find_schedule st) \<and> update_schedule memory_service st now c = (r, st') \<longrightarrow>
     (if \<exists>s. update_applies c now (find_schedule st) s
      then \<exists>s s'. update_applies c now (find_schedule st) s \<and> s' = (patched c s)\<lparr>sc_updated_at := now\<rparr> \<and>
             usr_result r = Command_Success (Some s') \<and>
             find_schedule st' = (find_schedule st)(us_schedule_id c \<mapsto> s')
      else \<not> command_ok (usr_result r) \<and> st' = st)"
proof (intro impI, elim conjE)
  assume a: "store_inv st" "all_ok (find_schedule st)" "update_schedule memory_service st now c = (r, st')"
  from a(1) memory_serves a(2,3) show "if \<exists>s. update_applies c now (find_schedule st) s
      then \<exists>s s'. update_applies c now (find_schedule st) s \<and> s' = (patched c s)\<lparr>sc_updated_at := now\<rparr> \<and>
             usr_result r = Command_Success (Some s') \<and>
             find_schedule st' = (find_schedule st)(us_schedule_id c \<mapsto> s')
      else \<not> command_ok (usr_result r) \<and> st' = st"
  proof (cases rule: memory_store.update_effect)
    case (updated s s')
    have "0 < us_schedule_id c" using memory.content_id [OF a(1) updated(1)] by simp
    with updated have "update_applies c now (find_schedule st) s" by (simp add: update_applies_def)
    with updated show ?thesis by auto
  qed auto
qed

definition sample_update :: UpdateScheduleCommand where
  "sample_update = \<lparr>us_schedule_id = 1, us_event = None, us_start_time = None, us_end_time = Some None,
     us_location = Some (Some ''park''), us_notes = None, us_ignore_conflict = False\<rparr>"

lemma sample_store_facts:
  "store_inv sample_store" "all_ok (find_schedule sample_store)"
  "find_schedule sample_store 1 = Some (default_Schedule\<lparr>sc_id := 1, sc_event := ''run'',
     sc_start_time := Some 3600, sc_end_time := Some 7200, sc_created_at := 100, sc_updated_at := 100\<rparr>)"
proof -
  show "store_inv sample_store" "all_ok (find_schedule sample_store)"
    using memory_service_reachable [OF sample_store_reachable [of True]] by simp_all
  show "find_schedule sample_store 1 = Some (default_Schedule\<lparr>sc_id := 1, sc_event := ''run'',
     sc_start_time := Some 3600, sc_end_time := Some 7200, sc_created_at := 100, sc_updated_at := 100\<rparr>)"
    by code_simp
qed

theorem update_schedule_correct_witness:
  "command_ok (usr_result (fst (update_schedule memory_service sample_store 999 sample_update))) \<and>
   (\<exists>s'. find_schedule (snd (update_schedule memory_service sample_store 999 sample_update))
           = (find_schedule sample_store)(1 \<mapsto> s'))"
proof -
  obtain r st' where run: "update_schedule memory_service sample_store 999 sample_update = (r, st')" by fastforce
  have ok: "command_ok (usr_result (fst (update_schedule memory_service sample_store 999 sample_update)))"
    by code_simp
  have id: "us_schedule_id sample_update = 1" by (simp add: sample_update_def)
  from update_schedule_correct [of sample_store 999 sample_update r st'] sample_store_facts run ok
  show ?thesis by (auto simp: id split: if_splits)
qed



text \<open>
  Cancelling a schedule that is not cancelled yet marks exactly it as cancelled and appends one
  record to the operation log, from which the schedule before the change can be read back, unless
  the snapshot exceeds the log's limit of 2048 bytes; cancelling it again is a conflict that changes
  nothing.
\<close>

theorem cancel_schedule_logged:
  "store_inv st \<and> all_ok (find_schedule st) \<and> cancel_schedule memory_service st i = (r, st') \<and>
   find_schedule st i = Some s \<longrightarrow>
     (if sc_status s = kCancelled then code (cr_status (xsr_result r)) = kConflict \<and> st' = st
      else xsr_result r = Command_Success True \<and>
        (\<exists>t. find_schedule st' = (find_schedule st)(i \<mapsto> s\<lparr>sc_status := kCancelled, sc_updated_at := t\<rparr>)) \<and>
        (length (SerializeScheduleSnapshot s) \<le> kMaximumSnapshotBytes \<longrightarrow>
           (\<exists>e. ms_operations st' = ms_operations st @ [e] \<and> op_type e = Op_kDelete \<and> op_entity_id e = i \<and>
              Option.bind (op_before e) read_snapshot = Some s)))"
proof (intro impI, elim conjE)
  assume a: "store_inv st" "all_ok (find_schedule st)" "cancel_schedule memory_service st i = (r, st')"
    "find_schedule st i = Some s"
  have name: "name_ok (sc_event s)" using a(2,4) by (simp add: all_ok_def schedule_ok_def)
  have svc: "operation_service memory_service \<noteq> None" by (simp add: memory_service_def)
  from a(1) memory_serves a(3) show "if sc_status s = kCancelled then code (cr_status (xsr_result r)) = kConflict \<and> st' = st
      else xsr_result r = Command_Success True \<and>
        (\<exists>t. find_schedule st' = (find_schedule st)(i \<mapsto> s\<lparr>sc_status := kCancelled, sc_updated_at := t\<rparr>)) \<and>
        (length (SerializeScheduleSnapshot s) \<le> kMaximumSnapshotBytes \<longrightarrow>
           (\<exists>e. ms_operations st' = ms_operations st @ [e] \<and> op_type e = Op_kDelete \<and> op_entity_id e = i \<and>
              Option.bind (op_before e) read_snapshot = Some s))"
  proof (cases rule: memory_store.cancel_effect)
    case (cancelled u t)
    then have u: "u = s" using a(4) by simp
    show ?thesis using cancelled a(4) name svc read_snapshot_serialized unfolding u by auto
  qed (use a(4) in auto)
qed

theorem cancel_schedule_logged_witness:
  "\<exists>e. ms_operations (snd (cancel_schedule memory_service sample_store 1)) = ms_operations sample_store @ [e] \<and>
       Option.bind (op_before e) read_snapshot = find_schedule sample_store 1"
proof -
  obtain r st' where run: "cancel_schedule memory_service sample_store 1 = (r, st')" by fastforce
  let ?s = "default_Schedule\<lparr>sc_id := 1, sc_event := ''run'',
     sc_start_time := Some 3600, sc_end_time := Some 7200, sc_created_at := 100, sc_updated_at := 100\<rparr>"
  have "length (SerializeScheduleSnapshot ?s) \<le> kMaximumSnapshotBytes" by code_simp
  moreover have "sc_status ?s \<noteq> kCancelled" by (simp add: default_Schedule_def)
  ultimately show ?thesis
    using cancel_schedule_logged [of sample_store 1 r st' ?s] sample_store_facts run by auto
qed

end
