(* ===== verification/Recurrence.thy ===== *)
theory Recurrence
  imports Schedule_Types
begin

unbundle bit_operations_syntax

text \<open>
  \<open>voicelife_schedule/src/rules/recurrence_planner.cc\<close>: the planner of recurring schedules. The
  four date searches are the code's; each is shown to meet one contract (locale \<open>date_search\<close>):
  what it returns is the first matching day on or after the target. \<open>NextOccurrence\<close> then returns
  the first occurrence from an instant on, and \<open>PlanOccurrences\<close> the occurrences of a range in
  order.
\<close>

section \<open>The code\<close>

definition kTimezoneOffsetSeconds :: int where
  "kTimezoneOffsetSeconds = 8 * 3600"

definition kMaxDateSearchSteps :: nat where
  "kMaxDateSearchSteps = 64"

definition kMaxPlanLimit :: int where
  "kMaxPlanLimit = 10"

definition UnixFromLocal :: "int \<Rightarrow> int \<Rightarrow> int \<Rightarrow> int \<Rightarrow> int \<Rightarrow> int \<Rightarrow> int" where
  "UnixFromLocal y m d h mi s =
     DaysFromCivil y m d * 86400 + h * 3600 + mi * 60 + s - kTimezoneOffsetSeconds"

definition LocalFromUnix :: "int \<Rightarrow> int \<times> int \<times> int \<times> int \<times> int \<times> int" where
  "LocalFromUnix unix =
     (let local = unix + kTimezoneOffsetSeconds;
          (y, m, d) = CivilFromDays (local sdiv 86400);
          tod = local smod 86400
      in (y, m, d, i32 (tod sdiv 3600), i32 ((tod smod 3600) sdiv 60), i32 (tod smod 60)))"

definition CeilDiv :: "int \<Rightarrow> int \<Rightarrow> int" where
  "CeilDiv dividend divisor = (dividend + divisor - 1) sdiv divisor"

definition DateFromDays :: "int \<Rightarrow> LocalDate" where
  "DateFromDays days = (case CivilFromDays days of (y, m, d) \<Rightarrow> \<lparr>year = y, month = m, day = d\<rparr>)"

definition date_days :: "LocalDate \<Rightarrow> int" where
  "date_days d = DaysFromCivil (year d) (month d) (day d)"

definition AddDaysChecked :: "LocalDate \<Rightarrow> int \<Rightarrow> LocalDate option" where
  "AddDaysChecked date days =
     (let day_number = date_days date
      in if days > 0 \<and> day_number > (2 ^ 63 - 1) - days then None
         else if days < 0 \<and> day_number < - (2 ^ 63) - days then None
         else Some (DateFromDays (day_number + days)))"

definition CompareDate :: "LocalDate \<Rightarrow> LocalDate \<Rightarrow> int" where
  "CompareDate left right =
     (if year left \<noteq> year right then (if year left < year right then - 1 else 1)
      else if month left \<noteq> month right then (if month left < month right then - 1 else 1)
      else if day left \<noteq> day right then (if day left < day right then - 1 else 1)
      else 0)"

definition OccurrenceAt :: "ScheduleRule \<Rightarrow> LocalDate \<Rightarrow> DateTime" where
  "OccurrenceAt rule date =
     UnixFromLocal (year date) (month date) (day date)
       (hour (ru_start_time rule)) (minute (ru_start_time rule)) (second (ru_start_time rule))"

text \<open>
  A counting loop whose body either goes on (\<open>None\<close>) or returns (\<open>Some r\<close>); after the last
  iteration the function returns its default.
\<close>

fun loop_return :: "('i \<Rightarrow> 'r option) \<Rightarrow> 'i list \<Rightarrow> 'r \<Rightarrow> 'r" where
  "loop_return body [] end = end"
| "loop_return body (i # is) end =
     (case body i of Some r \<Rightarrow> r | None \<Rightarrow> loop_return body is end)"

definition search_steps :: "int list" where
  "search_steps = [0..int kMaxDateSearchSteps - 1]"

definition NextDailyDate :: "ScheduleRule \<Rightarrow> LocalDate \<Rightarrow> LocalDate \<Rightarrow> LocalDate option" where
  "NextDailyDate rule anchor target =
     (let anchor_days = date_days anchor;
          target_days = date_days target;
          days_after_anchor = target_days - anchor_days;
          k = (if days_after_anchor \<le> 0 then 0 else CeilDiv days_after_anchor (ru_interval_val rule))
      in Some (DateFromDays (anchor_days + k * ru_interval_val rule)))"

definition weekly_day :: "uint8 \<Rightarrow> int \<Rightarrow> LocalDate \<Rightarrow> nat \<Rightarrow> LocalDate option" where
  "weekly_day weekdays week_monday target weekday =
     (if weekdays AND push_bit weekday 1 = 0 then None
      else (let date = DateFromDays (week_monday + int weekday)
            in if CompareDate date target \<ge> 0 then Some date else None))"

definition NextWeeklyDate :: "ScheduleRule \<Rightarrow> LocalDate \<Rightarrow> LocalDate \<Rightarrow> LocalDate option" where
  "NextWeeklyDate rule anchor target =
     (case ru_weekdays_mask rule of None \<Rightarrow> None
      | Some weekdays \<Rightarrow>
        (let anchor_days = date_days anchor;
             anchor_weekday = Weekday (year anchor) (month anchor) (day anchor);
             anchor_week_monday = anchor_days - anchor_weekday;
             target_days = date_days target;
             target_weekday = Weekday (year target) (month target) (day target);
             target_week_monday = target_days - target_weekday;
             week_diff = (if target_days \<ge> anchor_days
                          then (target_week_monday - anchor_week_monday) sdiv 7 else 0);
             k = (if target_days \<ge> anchor_days
                  then max 0 (CeilDiv week_diff (ru_interval_val rule)) else 0)
         in loop_return (\<lambda>attempt.
              let week_monday = anchor_week_monday + (k + attempt) * ru_interval_val rule * 7
              in loop_return (\<lambda>weekday. map_option (\<lambda>d. Some (Some d)) (weekly_day weekdays week_monday target weekday))
                   [0..<7] None)
            search_steps None))"

definition NextMonthlyDate :: "ScheduleRule \<Rightarrow> LocalDate \<Rightarrow> LocalDate \<Rightarrow> LocalDate option" where
  "NextMonthlyDate rule anchor target =
     (let anchor_index = year anchor * 12 + (month anchor - 1);
          target_index = year target * 12 + (month target - 1);
          months_after_anchor = target_index - anchor_index;
          k = (if months_after_anchor \<le> 0 then 0 else CeilDiv months_after_anchor (ru_interval_val rule))
      in loop_return (\<lambda>attempt.
           let month_index = anchor_index + (k + attempt) * ru_interval_val rule;
               y = i32 (month_index sdiv 12);
               m = i32 (month_index smod 12) + 1;
               candidate = (\<lambda>d. let date = \<lparr>year = y, month = m, day = d\<rparr>
                                in if CompareDate date target \<ge> 0 then Some (Some date) else None)
           in if ru_monthly_mode rule = Some kLastDay then candidate (DaysInMonth y m)
              else (case ru_day_of_month rule of
                      None \<Rightarrow> Some None
                    | Some d \<Rightarrow> if uint d > DaysInMonth y m then None else candidate (uint d)))
         search_steps None)"

definition NextYearlyDate :: "ScheduleRule \<Rightarrow> LocalDate \<Rightarrow> LocalDate \<Rightarrow> LocalDate option" where
  "NextYearlyDate rule anchor target =
     (case (ru_month_of_year rule, ru_day_of_month rule) of
        (Some month_of_year, Some day_of_month) \<Rightarrow>
          (let years_after_anchor = year target - year anchor;
               k = (if years_after_anchor \<le> 0 then 0 else CeilDiv years_after_anchor (ru_interval_val rule))
           in loop_return (\<lambda>attempt.
                let y = year anchor + i32 ((k + attempt) * ru_interval_val rule)
                in if uint day_of_month > DaysInMonth y (uint month_of_year) then None
                   else (let date = \<lparr>year = y, month = uint month_of_year, day = uint day_of_month\<rparr>
                         in if CompareDate date target \<ge> 0 then Some (Some date) else None))
              search_steps None)
      | _ \<Rightarrow> None)"

definition NextDateOnOrAfter :: "ScheduleRule \<Rightarrow> LocalDate \<Rightarrow> LocalDate \<Rightarrow> LocalDate option" where
  "NextDateOnOrAfter rule anchor target =
     (case ru_freq_type rule of
        kDaily \<Rightarrow> NextDailyDate rule anchor target
      | kWeekly \<Rightarrow> NextWeeklyDate rule anchor target
      | kMonthly \<Rightarrow> NextMonthlyDate rule anchor target
      | kYearly \<Rightarrow> NextYearlyDate rule anchor target)"

definition LocalDateFromUtc :: "DateTime \<Rightarrow> LocalDate" where
  "LocalDateFromUtc time =
     (case LocalFromUnix time of (y, m, d, _, _, _) \<Rightarrow> \<lparr>year = y, month = m, day = d\<rparr>)"

text \<open>The loop of \<open>NextOccurrence\<close>; its counter is the number of iterations that are left.\<close>

fun NextOccurrence_loop ::
    "nat \<Rightarrow> ScheduleRule \<Rightarrow> LocalDate \<Rightarrow> DateTime \<Rightarrow> LocalDate \<Rightarrow> DateTime option" where
  "NextOccurrence_loop 0 rule anchor from threshold = None"
| "NextOccurrence_loop (Suc n) rule anchor from threshold =
     (case NextDateOnOrAfter rule anchor threshold of None \<Rightarrow> None
      | Some date \<Rightarrow>
        if CompareDate date (ru_start_date rule) < 0
        then NextOccurrence_loop n rule anchor from (ru_start_date rule)
        else if (case ru_end_date rule of Some e \<Rightarrow> CompareDate date e > 0 | None \<Rightarrow> False) then None
        else (let occurrence = OccurrenceAt rule date
              in if occurrence < from
                 then (case AddDaysChecked date 1 of None \<Rightarrow> None
                       | Some next_day \<Rightarrow> NextOccurrence_loop n rule anchor from next_day)
                 else Some occurrence))"

definition NextOccurrence :: "ScheduleRule \<Rightarrow> DateTime \<Rightarrow> DateTime option" where
  "NextOccurrence rule from =
     (if ru_status rule \<noteq> kActive then None
      else (let anchor = ru_start_date rule;
                from_date = LocalDateFromUtc from;
                threshold = (if CompareDate anchor from_date > 0 then anchor else from_date)
            in NextOccurrence_loop kMaxDateSearchSteps rule anchor from threshold))"

fun PlanOccurrences_loop :: "nat \<Rightarrow> ScheduleRule \<Rightarrow> DateTime \<Rightarrow> DateTime \<Rightarrow> DateTime list" where
  "PlanOccurrences_loop 0 rule range_end cursor = []"
| "PlanOccurrences_loop (Suc n) rule range_end cursor =
     (case NextOccurrence rule cursor of None \<Rightarrow> []
      | Some next \<Rightarrow>
        if next \<ge> range_end then []
        else next # PlanOccurrences_loop n rule range_end (next + 1))"

definition PlanOccurrences ::
    "ScheduleRule \<Rightarrow> DateTime \<Rightarrow> DateTime \<Rightarrow> int \<Rightarrow> DateTime list" where
  "PlanOccurrences rule range_start range_end limit =
     (let capped_limit = min kMaxPlanLimit (max 0 limit)
      in if capped_limit = 0 then []
         else PlanOccurrences_loop (nat capped_limit) rule range_end range_start)"

section \<open>Dates as day numbers\<close>

abbreviation valid_local :: "LocalDate \<Rightarrow> bool" where
  "valid_local d \<equiv> valid_date (year d) (month d) (day d)"

text \<open>The dates the planner is given: valid, and of a year that leaves the 32-bit arithmetic room.\<close>

definition plan_date :: "LocalDate \<Rightarrow> bool" where
  "plan_date d \<longleftrightarrow> valid_local d \<and> 0 \<le> year d \<and> year d \<le> 1000000"

lemma DateFromDays_valid:
  assumes "civil_days n"
  shows "valid_local (DateFromDays n)" "date_days (DateFromDays n) = n"
  using days_roundtrip [OF assms]
  by (auto simp: DateFromDays_def date_days_def split: prod.splits)

lemma date_days_inject:
  assumes "valid_local a" "valid_local b"
  shows "date_days a = date_days b \<longleftrightarrow> a = b"
  using DaysFromCivil_eq_iff [OF assms] by (auto simp: date_days_def)

lemma DateFromDays_date_days: "valid_local d \<Longrightarrow> DateFromDays (date_days d) = d"
  by (simp add: DateFromDays_def date_days_def civil_roundtrip)

lemma CompareDate_iff:
  assumes "valid_local a" "valid_local b"
  shows "CompareDate a b \<ge> 0 \<longleftrightarrow> date_days b \<le> date_days a"
    and "CompareDate a b < 0 \<longleftrightarrow> date_days a < date_days b"
    and "CompareDate a b > 0 \<longleftrightarrow> date_days b < date_days a"
  using DaysFromCivil_less_iff [OF assms] DaysFromCivil_less_iff [OF assms(2,1)]
  by (auto simp: CompareDate_def date_days_def date_less_def not_less [symmetric])

lemma year_start_range:
  assumes "- 1 \<le> Y" "Y \<le> 1000000"
  shows "- 366 \<le> year_start Y" "year_start Y \<le> 366000000"
proof -
  have "year_start (- 1) + 365 * (Y - - 1) \<le> year_start Y"
    "year_start Y + 365 * (1000000 - Y) \<le> year_start 1000000"
    by (intro year_start_mono assms)+
  moreover have "year_start (- 1) = - 366" "year_start 1000000 \<le> 366000000"
    by (simp_all add: year_start_def)
  ultimately show "- 366 \<le> year_start Y" "year_start Y \<le> 366000000"
    using assms by simp_all
qed

lemma plan_date_days:
  assumes "plan_date d"
  shows "- 800000 \<le> date_days d" "date_days d \<le> 400000000" "civil_days (date_days d)"
proof -
  from assms have v: "valid_local d" by (simp add: plan_date_def)
  have Y: "- 1 \<le> march_year (year d) (month d)" "march_year (year d) (month d) \<le> 1000000"
    using assms by (auto simp: plan_date_def march_year_def)
  note march_day_bounds [OF v] year_start_range [OF Y]
  then show "- 800000 \<le> date_days d" "date_days d \<le> 400000000" "civil_days (date_days d)"
    by (simp_all add: date_days_def march_year_day_count [OF v] civil_days_def split: if_splits)
qed

lemma plan_dateD: "plan_date d \<Longrightarrow> valid_local d"
  by (simp add: plan_date_def)

lemma date_days_year_less:
  assumes "valid_local a" "valid_local b" "year a < year b"
  shows "date_days a < date_days b"
  using assms DaysFromCivil_less by (auto simp: date_days_def date_less_def)

lemma date_days_month_less:
  assumes "valid_local a" "valid_local b" "year a * 12 + month a < year b * 12 + month b"
  shows "date_days a < date_days b"
proof -
  have "1 \<le> month a" "month a \<le> 12" "1 \<le> month b" "month b \<le> 12"
    using assms(1,2) by (simp_all add: valid_date_def)
  with assms(3) have "date_less (year a, month a, day a) (year b, month b, day b)"
    by (auto simp: date_less_def)
  with assms(1,2) DaysFromCivil_less show ?thesis by (simp add: date_days_def)
qed

section \<open>Searching loops\<close>

lemma loop_return_upto:
  "(\<exists>a. l \<le> a \<and> a \<le> h \<and> body a = Some (loop_return body [l..h] e) \<and> (\<forall>b. l \<le> b \<and> b < a \<longrightarrow> body b = None)) \<or>
   (loop_return body [l..h] e = e \<and> (\<forall>a. l \<le> a \<and> a \<le> h \<longrightarrow> body a = None))"
proof (induction l h rule: upto.induct)
  case (1 l h)
  show ?case
  proof (cases "l \<le> h")
    case True
    show ?thesis
    proof (cases "body l")
      case None
      then have eq: "loop_return body [l..h] e = loop_return body [l + 1..h] e"
        using True by (simp add: upto_rec1)
      have None': "body b = None" if "l \<le> b" "\<not> l + 1 \<le> b" for b
        using that None by (cases "b = l") auto
      from 1 [OF True] None' eq show ?thesis by (smt (verit))
    qed (use True in \<open>auto simp: upto_rec1\<close>)
  qed auto
qed

lemma search_loop_cases:
  obtains (found) a where "0 \<le> a" "a < 64" "body a = Some (loop_return body search_steps e)"
      "\<And>b. 0 \<le> b \<Longrightarrow> b < a \<Longrightarrow> body b = None"
  | (exhausted) "loop_return body search_steps e = e" "\<And>a. 0 \<le> a \<Longrightarrow> a < 64 \<Longrightarrow> body a = None"
proof -
  have steps: "search_steps = [0..63]" by (simp add: search_steps_def kMaxDateSearchSteps_def)
  from loop_return_upto [of 0 63 body e] show thesis
    unfolding steps [symmetric] by (auto intro: found exhausted)
qed

lemma CeilDiv_least:
  assumes "0 \<le> a" "0 < b"
  shows "a \<le> CeilDiv a b * b" "CeilDiv a b * b < a + b" "0 \<le> CeilDiv a b"
    "0 \<le> j \<Longrightarrow> a \<le> j * b \<Longrightarrow> CeilDiv a b \<le> j"
proof -
  let ?q = "(a + b - 1) div b" and ?r = "(a + b - 1) mod b"
  have q: "CeilDiv a b = ?q" using assms by (simp add: CeilDiv_def sdiv_nonneg)
  have e: "?q * b + ?r = a + b - 1" by (rule div_mult_mod_eq)
  have r: "0 \<le> ?r" "?r < b" using assms by simp_all
  show "a \<le> CeilDiv a b * b" "CeilDiv a b * b < a + b" unfolding q using e r by linarith+
  show "0 \<le> CeilDiv a b" using assms by (simp add: q pos_imp_zdiv_nonneg_iff)
  assume "0 \<le> j" "a \<le> j * b"
  then have "?q * b < (j + 1) * b" unfolding distrib_right using e r by linarith
  then show "CeilDiv a b \<le> j" using assms(2) by (simp add: q)
qed

section \<open>Rules that pick one date of a period\<close>

text \<open>
  The monthly and the yearly search are one algorithm: a period (a month, a year) has at most one
  candidate date, and the loop visits every \<open>interval\<close>-th period from the first one that is not
  before the target's. The interface: \<open>cand r p\<close> is the candidate of period \<open>p\<close>, \<open>per d\<close> the
  period of a date, and when any visited period has a candidate, one of 33 consecutive ones has.
\<close>

definition period_body ::
    "(int \<Rightarrow> LocalDate option) \<Rightarrow> LocalDate \<Rightarrow> int \<Rightarrow> LocalDate option option" where
  "period_body cand target p =
     (case cand p of None \<Rightarrow> None
      | Some d \<Rightarrow> if CompareDate d target \<ge> 0 then Some (Some d) else None)"

definition period_search ::
    "(int \<Rightarrow> LocalDate option) \<Rightarrow> int \<Rightarrow> int \<Rightarrow> int \<Rightarrow> LocalDate \<Rightarrow> LocalDate option" where
  "period_search cand interval p q target =
     (let k = (if q - p \<le> 0 then 0 else CeilDiv (q - p) interval)
      in loop_return (\<lambda>attempt. period_body cand target (p + (k + attempt) * interval)) search_steps None)"

definition first_after :: "(LocalDate \<Rightarrow> bool) \<Rightarrow> LocalDate \<Rightarrow> LocalDate option \<Rightarrow> bool" where
  "first_after P target r \<longleftrightarrow>
     (case r of
        None \<Rightarrow> \<forall>d. valid_local d \<and> P d \<longrightarrow> date_days d < date_days target
      | Some d \<Rightarrow> valid_local d \<and> P d \<and> date_days target \<le> date_days d \<and>
          (\<forall>e. valid_local e \<and> P e \<and> date_days target \<le> date_days e \<longrightarrow> date_days d \<le> date_days e))"

locale periodic_candidates =
  fixes cand :: "ScheduleRule \<Rightarrow> int \<Rightarrow> LocalDate option"
    and per :: "LocalDate \<Rightarrow> int"
    and wf :: "ScheduleRule \<Rightarrow> bool"
    and top :: int
  assumes cand_valid: "wf r \<Longrightarrow> 0 \<le> p \<Longrightarrow> p \<le> top \<Longrightarrow> cand r p = Some d \<Longrightarrow> valid_local d"
    and cand_period: "wf r \<Longrightarrow> cand r p = Some d \<Longrightarrow> per d = p"
    and period_order: "valid_local d \<Longrightarrow> valid_local e \<Longrightarrow> per d < per e \<Longrightarrow> date_days d < date_days e"
    and recurs: "wf r \<Longrightarrow> 0 < i \<Longrightarrow> 0 \<le> j \<Longrightarrow> cand r (p + j * i) \<noteq> None \<Longrightarrow> 0 \<le> b \<Longrightarrow>
      \<exists>a. 0 \<le> a \<and> a < 33 \<and> cand r (p + (b + a) * i) \<noteq> None"
begin

lemma period_search_first:
  assumes wf: "wf r" and i: "0 < i" and p: "0 \<le> p" and target: "valid_local target" "per target = q"
    and room: "max 0 (q - p) + 65 * i + p \<le> top"
  shows "first_after (\<lambda>d. \<exists>j\<ge>0. cand r (p + j * i) = Some d) target (period_search (cand r) i p q target)"
proof -
  define k where "k = (if q - p \<le> 0 then 0 else CeilDiv (q - p) i)"
  define body where "body = (\<lambda>attempt. period_body (cand r) target (p + (k + attempt) * i))"
  have k: "0 \<le> k" "q \<le> p + k * i" "k * i < max 0 (q - p) + i"
    using CeilDiv_least [of "q - p" i] i by (auto simp: k_def)
  have k_least: "k \<le> j" if "0 \<le> j" "q \<le> p + j * i" for j
    using CeilDiv_least(4) [of "q - p" i j] i that by (auto simp: k_def)
  have top: "p + (k + a) * i \<le> top" "0 \<le> p + (k + a) * i" if "0 \<le> a" "a < 64" for a
  proof -
    have "a * i \<le> 64 * i" using that i by simp
    then show "p + (k + a) * i \<le> top" using k room unfolding distrib_right by linarith
    show "0 \<le> p + (k + a) * i" using k p that i by simp
  qed
  have later: "date_days target < date_days d"
    if "cand r (p + (k + a) * i) = Some d" "valid_local d" "0 < a" for a d
  proof (rule period_order [OF target(1) that(2)])
    have "0 < a * i" using that i by simp
    then show "per target < per d"
      using k cand_period [OF wf that(1)] target(2) unfolding distrib_right by linarith
  qed
  have reach: "k \<le> j" if "0 \<le> j" "cand r (p + j * i) = Some e" "valid_local e" "date_days target \<le> date_days e" for j e
  proof (rule k_least [OF that(1)])
    show "q \<le> p + j * i"
      using period_order [OF that(3) target(1)] cand_period [OF wf that(2)] target(2) that(4) by force
  qed
  have search: "period_search (cand r) i p q target = loop_return body search_steps None"
    by (simp add: period_search_def k_def body_def Let_def)
  show ?thesis unfolding search
  proof (cases rule: search_loop_cases [of body None])
    case (found a)
    then obtain d where d: "cand r (p + (k + a) * i) = Some d" "CompareDate d target \<ge> 0"
      and res: "loop_return body search_steps None = Some d"
      by (auto simp: body_def period_body_def split: option.splits if_splits)
    have v: "valid_local d" using cand_valid [OF wf _ _ d(1)] top found by simp
    have "date_days d \<le> date_days e"
      if e: "0 \<le> j" "cand r (p + j * i) = Some e" "valid_local e" "date_days target \<le> date_days e" for j e
    proof (rule ccontr)
      assume "\<not> date_days d \<le> date_days e"
      then have "per e \<le> per d" and ne: "e \<noteq> d" using period_order [OF v e(3)] by force+
      then have "j * i \<le> (k + a) * i" using cand_period [OF wf d(1)] cand_period [OF wf e(2)] by simp
      then have "j \<le> k + a" using i by simp
      moreover have "j \<noteq> k + a" using ne e(2) d(1) by auto
      ultimately have b: "0 \<le> j - k" "j - k < a" using reach [OF e] by simp_all
      with found(4) have "body (j - k) = None" by blast
      then show False
        using e target(1) by (simp add: body_def period_body_def CompareDate_iff)
    qed
    with v d k found show "first_after (\<lambda>d. \<exists>j\<ge>0. cand r (p + j * i) = Some d) target (loop_return body search_steps None)"
      using target(1) by (auto simp: res first_after_def CompareDate_iff intro!: exI [of _ "k + a"])
  next
    case exhausted
    have "False" if e: "0 \<le> j" "cand r (p + j * i) = Some e" for j e
    proof -
      obtain a where a: "0 \<le> a" "a < 33" "cand r (p + (k + 1 + a) * i) \<noteq> None"
        using recurs [OF wf i, of j p "k + 1"] e k by auto
      then obtain d where d: "cand r (p + (k + (1 + a)) * i) = Some d" by (auto simp: add.assoc)
      have v: "valid_local d" using cand_valid [OF wf _ _ d] top [of "1 + a"] a by simp
      have "body (1 + a) = None" using exhausted(2) a by simp
      with later [OF d v] a(1) d v target(1) show False
        by (simp add: body_def period_body_def CompareDate_iff)
    qed
    then show "first_after (\<lambda>d. \<exists>j\<ge>0. cand r (p + j * i) = Some d) target (loop_return body search_steps None)"
      unfolding exhausted first_after_def by auto
  qed
qed

end

subsection \<open>Months and years\<close>

definition month_index :: "LocalDate \<Rightarrow> int" where
  "month_index d = year d * 12 + (month d - 1)"

definition month_cand :: "ScheduleRule \<Rightarrow> int \<Rightarrow> LocalDate option" where
  "month_cand rule p =
     (let last = DaysInMonth (p div 12) (p mod 12 + 1);
          date = (\<lambda>d. Some \<lparr>year = p div 12, month = p mod 12 + 1, day = d\<rparr>)
      in if ru_monthly_mode rule = Some kLastDay then date last
         else (case ru_day_of_month rule of None \<Rightarrow> None
               | Some d \<Rightarrow> if uint d > last then None else date (uint d)))"

definition year_cand :: "ScheduleRule \<Rightarrow> int \<Rightarrow> LocalDate option" where
  "year_cand rule y =
     (case (ru_month_of_year rule, ru_day_of_month rule) of
        (Some m, Some d) \<Rightarrow> if uint d > DaysInMonth y (uint m) then None
                          else Some \<lparr>year = y, month = uint m, day = uint d\<rparr>
      | _ \<Rightarrow> None)"

text \<open>
  The rules that the rule service accepts (the fields their frequency uses are in range), up to an
  interval that keeps the arithmetic in range.
\<close>

definition plan_interval :: "ScheduleRule \<Rightarrow> bool" where
  "plan_interval r \<longleftrightarrow> 1 \<le> ru_interval_val r \<and> ru_interval_val r \<le> 1000000"

definition plan_month :: "ScheduleRule \<Rightarrow> bool" where
  "plan_month r \<longleftrightarrow> plan_interval r \<and>
     (ru_monthly_mode r = Some kLastDay \<or> (case ru_day_of_month r of None \<Rightarrow> True | Some d \<Rightarrow> 1 \<le> uint d))"

definition plan_year :: "ScheduleRule \<Rightarrow> bool" where
  "plan_year r \<longleftrightarrow> plan_interval r \<and>
     (case ru_day_of_month r of None \<Rightarrow> True | Some d \<Rightarrow> 1 \<le> uint d) \<and>
     (case ru_month_of_year r of None \<Rightarrow> True | Some m \<Rightarrow> 1 \<le> uint m \<and> uint m \<le> 12)"

definition plan_rule :: "ScheduleRule \<Rightarrow> bool" where
  "plan_rule r \<longleftrightarrow>
     (case ru_freq_type r of kDaily \<Rightarrow> plan_interval r | kWeekly \<Rightarrow> plan_interval r
      | kMonthly \<Rightarrow> plan_month r | kYearly \<Rightarrow> plan_year r)"

lemma plan_intervalD:
  assumes "plan_interval r \<or> plan_month r \<or> plan_year r"
  shows "0 < ru_interval_val r" "1 \<le> ru_interval_val r" "ru_interval_val r \<le> 1000000"
  using assms by (auto simp: plan_interval_def plan_month_def plan_year_def)

lemma IsLeapYear_16_25: "IsLeapYear y \<longleftrightarrow> 4 dvd y \<and> (\<not> 25 dvd y \<or> 16 dvd y)"
proof -
  have "coprime (4 :: int) 25" "coprime (16 :: int) 25" by code_simp+
  from this [THEN divides_mult [rotated 2], of y]
  have a: "4 dvd y \<Longrightarrow> 25 dvd y \<Longrightarrow> 100 dvd y" and b: "16 dvd y \<Longrightarrow> 25 dvd y \<Longrightarrow> 400 dvd y" by simp_all
  have c: "4 dvd y" "25 dvd y" if "100 dvd y"
    by (rule dvd_trans [OF _ that], simp)+
  have d: "16 dvd y" if "400 dvd y"
    by (rule dvd_trans [OF _ that]) simp
  have e: "100 dvd y" if "400 dvd y"
    by (rule dvd_trans [OF _ that]) simp
  from a b c d e show ?thesis unfolding IsLeapYear_iff by blast
qed

lemma same_residue:
  fixes p :: int
  assumes "0 < n"
  obtains a c where "0 \<le> a" "a < n" "p + J * i = p + (b + a) * i + n * c * i"
proof
  show "0 \<le> (J - b) mod n" "(J - b) mod n < n" using assms by simp_all
  have "(J - b) div n * n + (J - b) mod n = J - b" by simp
  then have "J = b + (J - b) mod n + n * ((J - b) div n)" by (simp add: mult.commute)
  then show "p + J * i = p + (b + (J - b) mod n) * i + n * ((J - b) div n) * i"
    by (metis add.assoc distrib_right)
qed

lemma leap_recurs:
  assumes "IsLeapYear (p + J * i)"
  shows "\<exists>a. 0 \<le> a \<and> a < 32 \<and> IsLeapYear (p + (b + a) * i)"
proof -
  obtain a c where a: "0 \<le> a" "a < 16" and J: "p + J * i = p + (b + a) * i + 16 * c * i"
    by (rule same_residue [of 16]) simp
  let ?y = "p + (b + a) * i"
  have y': "p + (b + (a + 16)) * i = ?y + 16 * i" by (simp add: algebra_simps)
  have leap: "IsLeapYear (?y + 16 * (c * i))" using assms J by (simp add: mult.assoc)
  have "IsLeapYear ?y \<or> IsLeapYear (?y + 16 * i)"
  proof (rule ccontr)
    assume not: "\<not> (IsLeapYear ?y \<or> IsLeapYear (?y + 16 * i))"
    have "16 dvd ?y \<longleftrightarrow> 16 dvd ?y + 16 * (c * i)" "4 dvd ?y \<longleftrightarrow> 4 dvd ?y + 16 * (c * i)"
      "4 dvd ?y + 16 * i \<longleftrightarrow> 4 dvd ?y"
      by (simp_all add: dvd_add_left_iff [OF dvd_mult2])
    with not leap have "25 dvd ?y" "25 dvd ?y + 16 * i" "\<not> 25 dvd ?y + 16 * (c * i)"
      unfolding IsLeapYear_16_25 by blast+
    then have "25 dvd 16 * i" by (simp add: dvd_add_right_iff)
    moreover have "coprime (25 :: int) 16" by code_simp
    ultimately have "25 dvd i" by (simp only: coprime_dvd_mult_right_iff)
    then have "25 dvd 16 * (c * i)" by simp
    with \<open>25 dvd ?y\<close> \<open>\<not> 25 dvd ?y + 16 * (c * i)\<close> show False by (simp add: dvd_add)
  qed
  then show ?thesis
  proof
    assume "IsLeapYear ?y"
    with a show ?thesis by (intro exI [of _ a]) simp
  next
    assume "IsLeapYear (?y + 16 * i)"
    then have "IsLeapYear (p + (b + (a + 16)) * i)" unfolding y' .
    with a show ?thesis by (intro exI [of _ "a + 16"]) simp
  qed
qed

lemma DaysInMonth_not_Feb: "m \<noteq> 2 \<Longrightarrow> DaysInMonth y m = DaysInMonth y' m"
  by (simp add: DaysInMonth_def)

lemma DaysInMonth_30: "1 \<le> m \<Longrightarrow> m \<le> 12 \<Longrightarrow> m \<noteq> 2 \<Longrightarrow> 30 \<le> DaysInMonth y m"
  by (erule (1) month_cases; simp add: DaysInMonth_simps)

lemma day_recurs:
  assumes "D \<le> DaysInMonth ((p + J * i) div 12) ((p + J * i) mod 12 + 1)"
  shows "\<exists>a. 0 \<le> a \<and> a < 33 \<and> D \<le> DaysInMonth ((p + (b + a) * i) div 12) ((p + (b + a) * i) mod 12 + 1)"
proof (cases "(p + J * i) mod 12 = 1")
  case False
  obtain a c where a: "0 \<le> a" "a < 12" and J: "p + J * i = p + (b + a) * i + 12 * c * i"
    by (rule same_residue [of 12]) simp
  have "(p + J * i) mod 12 = (p + (b + a) * i) mod 12" unfolding J by (simp add: mult.assoc)
  moreover from this False have "DaysInMonth ((p + J * i) div 12) ((p + (b + a) * i) mod 12 + 1)
      = DaysInMonth ((p + (b + a) * i) div 12) ((p + (b + a) * i) mod 12 + 1)"
    by (intro DaysInMonth_not_Feb) simp
  ultimately show ?thesis using a assms by (intro exI [of _ a]) simp
next
  case True
  show ?thesis
  proof (cases "12 dvd i")
    case i: True
    then obtain c where c: "i = 12 * c" ..
    have split: "p + j * i = p + 12 * (j * c)" for j by (simp add: c)
    have y: "(p + j * i) div 12 = p div 12 + j * c" "(p + j * i) mod 12 = p mod 12" for j
      by (simp_all add: split)
    have feb: "p mod 12 + 1 = 2" using True by (simp add: y)
    show ?thesis
    proof (cases "IsLeapYear (p div 12 + J * c)")
      case True
      from leap_recurs [OF this, of b] assms show ?thesis
        by (auto simp: y feb DaysInMonth_simps True)
    next
      case False
      with assms show ?thesis by (intro exI [of _ 0]) (simp add: y feb DaysInMonth_simps)
    qed
  next
    case False
    have "(p + (b + 0) * i) mod 12 \<noteq> 1 \<or> (p + (b + 1) * i) mod 12 \<noteq> 1"
    proof (rule ccontr)
      assume "\<not> ?thesis"
      then have "(p + (b + 1) * i) mod 12 = (p + (b + 0) * i) mod 12" by simp
      then have "12 dvd (p + (b + 1) * i) - (p + (b + 0) * i)" by (simp only: mod_eq_dvd_iff)
      then show False using False by (simp add: algebra_simps)
    qed
    then obtain a where a: "a = 0 \<or> a = 1" "(p + (b + a) * i) mod 12 \<noteq> 1" by blast
    have "D \<le> 29" using assms True by (simp add: DaysInMonth_simps split: if_splits)
    moreover have "30 \<le> DaysInMonth ((p + (b + a) * i) div 12) ((p + (b + a) * i) mod 12 + 1)"
    proof (rule DaysInMonth_30)
      show "1 \<le> (p + (b + a) * i) mod 12 + 1" by simp
      have "(p + (b + a) * i) mod 12 < 12" by simp
      then show "(p + (b + a) * i) mod 12 + 1 \<le> 12" by linarith
    qed (use a in simp)
    ultimately show ?thesis using a(1) by (intro exI [of _ a]) auto
  qed
qed

interpretation monthly: periodic_candidates month_cand month_index plan_month "20000000000"
proof
  fix r :: ScheduleRule and p d
  assume wf: "plan_month r" and d: "month_cand r p = Some d"
  have "0 \<le> p mod 12" "p mod 12 < 12" by simp_all
  then have m: "1 \<le> p mod 12 + 1" "p mod 12 + 1 \<le> 12" by linarith+
  show "month_index d = p"
    using d by (auto simp: month_cand_def month_index_def Let_def split: if_splits option.splits)
  assume "0 \<le> p" "p \<le> 20000000000"
  then have "- 2000000000 \<le> p div 12" "p div 12 \<le> 2000000000" by auto
  then have y: "civil_year (p div 12)" by (simp add: civil_year_def)
  have D: "1 \<le> DaysInMonth (p div 12) (p mod 12 + 1)"
    using DaysInMonth_bounds [OF m, of "p div 12"] by simp
  show "valid_local d"
  proof (cases "ru_monthly_mode r = Some kLastDay")
    case True
    with d y D m show ?thesis by (auto simp: month_cand_def valid_date_def Let_def)
  next
    case False
    with wf d y m show ?thesis
      by (auto simp: month_cand_def valid_date_def Let_def plan_month_def split: option.splits if_splits)
  qed
next
  fix d e
  assume "valid_local d" "valid_local e" "month_index d < month_index e"
  then show "date_days d < date_days e" by (intro date_days_month_less) (auto simp: month_index_def)
next
  fix r :: ScheduleRule and i j p b :: int
  assume c: "month_cand r (p + j * i) \<noteq> None"
  show "\<exists>a. 0 \<le> a \<and> a < 33 \<and> month_cand r (p + (b + a) * i) \<noteq> None"
  proof (cases "ru_monthly_mode r = Some kLastDay")
    case True
    then show ?thesis by (intro exI [of _ 0]) (simp add: month_cand_def Let_def)
  next
    case False
    with c obtain d where d: "ru_day_of_month r = Some d"
      "uint d \<le> DaysInMonth ((p + j * i) div 12) ((p + j * i) mod 12 + 1)"
      by (auto simp: month_cand_def Let_def split: if_splits option.splits)
    from day_recurs [OF d(2), of b] d(1) False show ?thesis
      by (auto simp: month_cand_def Let_def not_less)
  qed
qed

interpretation yearly: periodic_candidates year_cand year plan_year "2000000000"
proof
  fix r :: ScheduleRule and p d
  assume wf: "plan_year r" and d: "year_cand r p = Some d"
  show "year d = p" using d by (auto simp: year_cand_def split: if_splits option.splits)
  assume "0 \<le> p" "p \<le> 2000000000"
  with wf d show "valid_local d"
    by (auto simp: year_cand_def valid_date_def civil_year_def plan_year_def split: if_splits option.splits)
next
  fix d e
  assume "valid_local d" "valid_local e" "year d < year e"
  then show "date_days d < date_days e" by (rule date_days_year_less)
next
  fix r :: ScheduleRule and i j p b :: int
  assume c: "year_cand r (p + j * i) \<noteq> None"
  then obtain m d where md: "ru_month_of_year r = Some m" "ru_day_of_month r = Some d"
    "uint d \<le> DaysInMonth (p + j * i) (uint m)"
    by (auto simp: year_cand_def split: if_splits option.splits)
  have "\<exists>a. 0 \<le> a \<and> a < 33 \<and> uint d \<le> DaysInMonth (p + (b + a) * i) (uint m)"
  proof (cases "uint m = 2 \<and> IsLeapYear (p + j * i)")
    case True
    with leap_recurs [of p j i b] md(3) show ?thesis
      by (auto simp: DaysInMonth_simps)
  next
    case False
    then have "DaysInMonth (p + j * i) (uint m) \<le> DaysInMonth (p + (b + 0) * i) (uint m)"
      by (auto simp: DaysInMonth_def kDays_def)
    with md(3) show ?thesis by (intro exI [of _ 0]) auto
  qed
  with md show "\<exists>a. 0 \<le> a \<and> a < 33 \<and> year_cand r (p + (b + a) * i) \<noteq> None"
    by (auto simp: year_cand_def not_less)
qed

section \<open>The days of a rule\<close>

text \<open>What the four frequencies mean, stated on dates without any search.\<close>

definition monday :: "int \<Rightarrow> int" where
  "monday n = n - (n + 3) mod 7"

definition daily_match :: "ScheduleRule \<Rightarrow> LocalDate \<Rightarrow> LocalDate \<Rightarrow> bool" where
  "daily_match r anchor d \<longleftrightarrow>
     date_days anchor \<le> date_days d \<and> ru_interval_val r dvd date_days d - date_days anchor"

definition weekly_match :: "ScheduleRule \<Rightarrow> LocalDate \<Rightarrow> LocalDate \<Rightarrow> bool" where
  "weekly_match r anchor d \<longleftrightarrow>
     (let weeks = (monday (date_days d) - monday (date_days anchor)) div 7
      in 0 \<le> weeks \<and> ru_interval_val r dvd weeks \<and>
         (case ru_weekdays_mask r of None \<Rightarrow> False
          | Some w \<Rightarrow> bit w (nat (Weekday (year d) (month d) (day d)))))"

definition monthly_match :: "ScheduleRule \<Rightarrow> LocalDate \<Rightarrow> LocalDate \<Rightarrow> bool" where
  "monthly_match r anchor d \<longleftrightarrow>
     month_index anchor \<le> month_index d \<and> ru_interval_val r dvd month_index d - month_index anchor \<and>
     (if ru_monthly_mode r = Some kLastDay then day d = DaysInMonth (year d) (month d)
      else map_option uint (ru_day_of_month r) = Some (day d))"

definition yearly_match :: "ScheduleRule \<Rightarrow> LocalDate \<Rightarrow> LocalDate \<Rightarrow> bool" where
  "yearly_match r anchor d \<longleftrightarrow>
     year anchor \<le> year d \<and> ru_interval_val r dvd year d - year anchor \<and>
     map_option uint (ru_month_of_year r) = Some (month d) \<and>
     map_option uint (ru_day_of_month r) = Some (day d)"

definition rule_match :: "ScheduleRule \<Rightarrow> LocalDate \<Rightarrow> LocalDate \<Rightarrow> bool" where
  "rule_match r anchor d =
     (case ru_freq_type r of
        kDaily \<Rightarrow> daily_match r anchor d
      | kWeekly \<Rightarrow> weekly_match r anchor d
      | kMonthly \<Rightarrow> monthly_match r anchor d
      | kYearly \<Rightarrow> yearly_match r anchor d)"

text \<open>The contract of a search: it returns the first matching day that is not before the target.\<close>

locale date_search =
  fixes wf :: "ScheduleRule \<Rightarrow> bool"
    and search :: "ScheduleRule \<Rightarrow> LocalDate \<Rightarrow> LocalDate \<Rightarrow> LocalDate option"
    and matches :: "ScheduleRule \<Rightarrow> LocalDate \<Rightarrow> LocalDate \<Rightarrow> bool"
  assumes search_first:
    "wf r \<Longrightarrow> plan_date anchor \<Longrightarrow> plan_date target \<Longrightarrow>
       first_after (matches r anchor) target (search r anchor target)"
begin

lemma search_Some:
  assumes "wf r" "plan_date anchor" "plan_date target" "search r anchor target = Some d"
  shows "valid_local d" "matches r anchor d" "date_days target \<le> date_days d"
    and "valid_local e \<Longrightarrow> matches r anchor e \<Longrightarrow> date_days target \<le> date_days e \<Longrightarrow> date_days d \<le> date_days e"
  using search_first [OF assms(1-3)] assms(4) by (simp_all add: first_after_def)

lemma search_None:
  assumes "wf r" "plan_date anchor" "plan_date target" "search r anchor target = None"
    and "valid_local e" "matches r anchor e"
  shows "date_days e < date_days target"
  using search_first [OF assms(1-3)] assms(4-6) by (simp add: first_after_def)

lemma search_at_match:
  assumes "wf r" "plan_date anchor" "plan_date target" "matches r anchor target"
  shows "search r anchor target = Some target"
proof (cases "search r anchor target")
  case None
  from search_None [OF assms(1-3) None plan_dateD [OF assms(3)] assms(4)] show ?thesis by simp
next
  case (Some d)
  note d = search_Some [OF assms(1-3) Some]
  have "date_days d = date_days target"
    using d(3) d(4) [OF plan_dateD [OF assms(3)] assms(4)] by simp
  then show ?thesis using Some d(1) plan_dateD [OF assms(3)] by (simp add: date_days_inject)
qed

end

lemma first_after_cong:
  assumes "\<And>d. valid_local d \<Longrightarrow> P d = Q d"
  shows "first_after P t r = first_after Q t r"
  using assms by (auto simp: first_after_def split: option.splits)

lemma steps_dvd_iff:
  fixes a b i :: int
  assumes "0 < i"
  shows "(\<exists>j\<ge>0. b = a + j * i) \<longleftrightarrow> a \<le> b \<and> i dvd b - a"
proof
  assume "a \<le> b \<and> i dvd b - a"
  then obtain j where "b - a = i * j" "0 \<le> i * j" by (auto elim: dvdE)
  with assms show "\<exists>j\<ge>0. b = a + j * i"
    by (intro exI [of _ j]) (auto simp: zero_le_mult_iff mult.commute)
qed (use assms in auto)

lemma loop_return_cong:
  "(\<And>i. i \<in> set xs \<Longrightarrow> f i = g i) \<Longrightarrow> loop_return f xs e = loop_return g xs e"
  by (induction xs) (auto split: option.splits)

lemma loop_return_const: "loop_return (\<lambda>i. Some e) xs e = e" "loop_return (\<lambda>i. None) xs e = e"
  by (induction xs) auto

lemma set_search_steps: "set search_steps = {0..<64}"
  by (auto simp: search_steps_def kMaxDateSearchSteps_def)

interpretation daily_search: date_search plan_interval NextDailyDate daily_match
proof
  fix r anchor target
  assume r: "plan_interval r" and a: "plan_date anchor" and t: "plan_date target"
  let ?i = "ru_interval_val r" and ?a = "date_days anchor" and ?t = "date_days target"
  have i: "1 \<le> ?i" "?i \<le> 1000000" using plan_intervalD r by blast+
  define k where "k = (if ?t - ?a \<le> 0 then 0 else CeilDiv (?t - ?a) ?i)"
  define d where "d = DateFromDays (?a + k * ?i)"
  have k: "0 \<le> k" "?t \<le> ?a + k * ?i" "k * ?i < max 0 (?t - ?a) + ?i"
    using CeilDiv_least [of "?t - ?a" ?i] i by (auto simp: k_def)
  have "civil_days (?a + k * ?i)"
    using k i plan_date_days [OF a] plan_date_days [OF t] by (simp add: civil_days_def)
  then have v: "valid_local d" "date_days d = ?a + k * ?i"
    by (simp_all add: d_def DateFromDays_valid)
  have "date_days d \<le> date_days e" if e: "daily_match r anchor e" "?t \<le> date_days e" for e
  proof -
    from e(1) obtain j where j: "0 \<le> j" "date_days e = ?a + j * ?i"
      using i steps_dvd_iff [of ?i "date_days e" ?a] by (auto simp: daily_match_def)
    have "k \<le> j" using CeilDiv_least(4) [of "?t - ?a" ?i j] i j e(2) by (auto simp: k_def)
    then show ?thesis using v j i by simp
  qed
  moreover have "daily_match r anchor d" using v k i by (simp add: daily_match_def)
  moreover have "NextDailyDate r anchor target = Some d"
    by (simp add: NextDailyDate_def k_def d_def Let_def)
  ultimately show "first_after (daily_match r anchor) target (NextDailyDate r anchor target)"
    using v k by (simp add: first_after_def)
qed

lemma month_cand_iff:
  assumes "valid_local d"
  shows "month_cand r p = Some d \<longleftrightarrow> p = month_index d \<and>
    (if ru_monthly_mode r = Some kLastDay then day d = DaysInMonth (year d) (month d)
     else map_option uint (ru_day_of_month r) = Some (day d))"
proof -
  have m: "1 \<le> month d" "month d \<le> 12" "day d \<le> DaysInMonth (year d) (month d)"
    using assms by (simp_all add: valid_date_def)
  have p: "p = month_index d \<longleftrightarrow> p div 12 = year d \<and> p mod 12 + 1 = month d"
  proof
    assume "p div 12 = year d \<and> p mod 12 + 1 = month d"
    then show "p = month_index d" using div_mult_mod_eq [of p 12] unfolding month_index_def by linarith
  qed (use m in \<open>auto simp: month_index_def\<close>)
  show ?thesis
    using m unfolding p by (cases d) (auto simp: month_cand_def Let_def split: option.splits)
qed

lemma NextMonthlyDate_eq:
  assumes r: "plan_month r" and a: "plan_date anchor" and t: "plan_date target"
  shows "NextMonthlyDate r anchor target =
    period_search (month_cand r) (ru_interval_val r) (month_index anchor) (month_index target) target"
proof -
  let ?i = "ru_interval_val r" and ?p = "month_index anchor" and ?q = "month_index target"
  have i: "1 \<le> ?i" "?i \<le> 1000000" using plan_intervalD r by blast+
  have pq: "0 \<le> ?p" "?p \<le> 12000012" "0 \<le> ?q" "?q \<le> 12000012"
    using a t by (auto simp: plan_date_def month_index_def valid_date_def)
  define k where "k = (if ?q - ?p \<le> 0 then 0 else CeilDiv (?q - ?p) ?i)"
  have k: "0 \<le> k" "k * ?i < max 0 (?q - ?p) + ?i"
    using CeilDiv_least [of "?q - ?p" ?i] i by (auto simp: k_def)
  have idx: "0 \<le> ?p + (k + a) * ?i" "?p + (k + a) * ?i \<le> 100000000" if "0 \<le> a" "a < 64" for a
  proof -
    have "0 \<le> a * ?i" "a * ?i \<le> 64 * ?i" using that i by simp_all
    moreover have "0 \<le> k * ?i" using k(1) i by simp
    ultimately show "0 \<le> ?p + (k + a) * ?i" "?p + (k + a) * ?i \<le> 100000000"
      using k pq i unfolding distrib_right by linarith+
  qed
  have i32m: "i32 (n sdiv 12) = n div 12" "i32 (n smod 12) = n mod 12" if "0 \<le> n" "n \<le> 100000000" for n
    using that by (simp_all add: i32_id width_simps)
  show ?thesis
  proof (cases "ru_monthly_mode r \<noteq> Some kLastDay \<and> ru_day_of_month r = None")
    case True
    then show ?thesis
      by (simp add: NextMonthlyDate_def period_search_def loop_return_const period_body_def
          month_cand_def Let_def)
  next
    case False
    show ?thesis
      unfolding NextMonthlyDate_def period_search_def Let_def
        month_index_def [symmetric] k_def [symmetric]
      by (rule loop_return_cong)
        (use False idx i32m in \<open>auto simp: set_search_steps period_body_def month_cand_def Let_def\<close>)
  qed
qed

interpretation monthly_search: date_search plan_month NextMonthlyDate monthly_match
proof
  fix r anchor target
  assume r: "plan_month r" and a: "plan_date anchor" and t: "plan_date target"
  let ?i = "ru_interval_val r" and ?p = "month_index anchor"
  have i: "0 < ?i" "?i \<le> 1000000" using plan_intervalD r by blast+
  have "0 \<le> ?p" "?p \<le> 12000012" "0 \<le> month_index target" "month_index target \<le> 12000012"
    using a t by (auto simp: plan_date_def month_index_def valid_date_def)
  with i have "first_after (\<lambda>d. \<exists>j\<ge>0. month_cand r (?p + j * ?i) = Some d) target
      (NextMonthlyDate r anchor target)"
    unfolding NextMonthlyDate_eq [OF r a t]
    by (intro monthly.period_search_first r plan_dateD t) auto
  moreover have "(\<exists>j\<ge>0. month_cand r (?p + j * ?i) = Some d) = monthly_match r anchor d"
    if "valid_local d" for d
    using steps_dvd_iff [OF i(1), of "month_index d" ?p]
    by (auto simp: month_cand_iff [OF that] monthly_match_def)
  ultimately show "first_after (monthly_match r anchor) target (NextMonthlyDate r anchor target)"
    by (simp cong: first_after_cong)
qed

lemma year_cand_iff:
  assumes "valid_local d"
  shows "year_cand r p = Some d \<longleftrightarrow> p = year d \<and>
    map_option uint (ru_month_of_year r) = Some (month d) \<and> map_option uint (ru_day_of_month r) = Some (day d)"
  using assms by (cases d) (auto simp: year_cand_def valid_date_def split: option.splits)

lemma NextYearlyDate_eq:
  assumes r: "plan_year r" and a: "plan_date anchor" and t: "plan_date target"
  shows "NextYearlyDate r anchor target =
    period_search (year_cand r) (ru_interval_val r) (year anchor) (year target) target"
proof -
  let ?i = "ru_interval_val r" and ?p = "year anchor" and ?q = "year target"
  have i: "1 \<le> ?i" "?i \<le> 1000000" using plan_intervalD r by blast+
  have pq: "0 \<le> ?p" "?p \<le> 1000000" "0 \<le> ?q" "?q \<le> 1000000" using a t by (auto simp: plan_date_def)
  define k where "k = (if ?q - ?p \<le> 0 then 0 else CeilDiv (?q - ?p) ?i)"
  have k: "0 \<le> k" "k * ?i < max 0 (?q - ?p) + ?i"
    using CeilDiv_least [of "?q - ?p" ?i] i by (auto simp: k_def)
  have idx: "i32 ((k + a) * ?i) = (k + a) * ?i" if "0 \<le> a" "a < 64" for a
  proof (rule i32_id)
    have "0 \<le> a * ?i" "a * ?i \<le> 64 * ?i" using that i by simp_all
    moreover have "0 \<le> k * ?i" using k(1) i by simp
    ultimately show "- 2147483648 \<le> (k + a) * ?i" "(k + a) * ?i < 2147483648"
      using k pq i unfolding distrib_right by linarith+
  qed
  show ?thesis
  proof (cases "ru_month_of_year r = None \<or> ru_day_of_month r = None")
    case True
    then show ?thesis
      by (auto simp: NextYearlyDate_def period_search_def period_body_def year_cand_def loop_return_const
          Let_def split: option.splits)
  next
    case False
    then obtain m d where md: "ru_month_of_year r = Some m" "ru_day_of_month r = Some d" by auto
    show ?thesis
      unfolding NextYearlyDate_def period_search_def Let_def md option.case prod.case k_def [symmetric]
      by (rule loop_return_cong) (use md idx in \<open>auto simp: set_search_steps period_body_def year_cand_def\<close>)
  qed
qed

interpretation yearly_search: date_search plan_year NextYearlyDate yearly_match
proof
  fix r anchor target
  assume r: "plan_year r" and a: "plan_date anchor" and t: "plan_date target"
  let ?i = "ru_interval_val r" and ?p = "year anchor"
  have i: "0 < ?i" "?i \<le> 1000000" using plan_intervalD r by blast+
  have "0 \<le> ?p" "?p \<le> 1000000" "0 \<le> year target" "year target \<le> 1000000"
    using a t by (auto simp: plan_date_def)
  with i have "first_after (\<lambda>d. \<exists>j\<ge>0. year_cand r (?p + j * ?i) = Some d) target
      (NextYearlyDate r anchor target)"
    unfolding NextYearlyDate_eq [OF r a t]
    by (intro yearly.period_search_first r plan_dateD t) auto
  moreover have "(\<exists>j\<ge>0. year_cand r (?p + j * ?i) = Some d) = yearly_match r anchor d"
    if "valid_local d" for d
    using steps_dvd_iff [OF i(1), of "year d" ?p]
    by (auto simp: year_cand_iff [OF that] yearly_match_def)
  ultimately show "first_after (yearly_match r anchor) target (NextYearlyDate r anchor target)"
    by (simp cong: first_after_cong)
qed

lemma loop_return_find:
  "loop_return body xs e =
     (case List.find (\<lambda>i. body i \<noteq> None) xs of None \<Rightarrow> e | Some i \<Rightarrow> the (body i))"
  by (induction xs) (auto split: option.splits)

lemma monday_props:
  "monday n \<le> n" "n < monday n + 7" "(monday n + 3) mod 7 = 0" "n = monday n + (n + 3) mod 7"
proof -
  have "0 \<le> (n + 3) mod 7" "(n + 3) mod 7 < 7" by simp_all
  then show "monday n \<le> n" "n < monday n + 7" by (simp_all add: monday_def)
  show "(monday n + 3) mod 7 = 0" unfolding monday_def by presburger
  show "n = monday n + (n + 3) mod 7" by (simp add: monday_def)
qed

lemma monday_unique:
  assumes "(m + 3) mod 7 = 0" "0 \<le> w" "w < 7"
  shows "monday (m + w) = m" "(m + w + 3) mod 7 = w"
proof -
  have "(m + w + 3) mod 7 = ((m + 3) mod 7 + w) mod 7" by (simp add: mod_simps algebra_simps)
  with assms show w: "(m + w + 3) mod 7 = w" by simp
  then show "monday (m + w) = m" by (simp add: monday_def)
qed

lemma monday_mono: "a \<le> b \<Longrightarrow> monday a \<le> monday b"
  unfolding monday_def by presburger

lemma monday_week:
  assumes "monday a \<le> monday b"
  obtains c where "0 \<le> c" "monday b = monday a + 7 * c"
proof
  have "7 dvd monday b - monday a" unfolding monday_def by presburger
  then show "monday b = monday a + 7 * ((monday b - monday a) div 7)" by simp
  show "0 \<le> (monday b - monday a) div 7" using assms by simp
qed

lemma Weekday_date_days: "Weekday (year d) (month d) (day d) = (date_days d + 3) mod 7"
  by (simp add: Weekday_eq date_days_def)

text \<open>One week of the weekly search.\<close>

definition week_body :: "uint8 \<Rightarrow> LocalDate \<Rightarrow> int \<Rightarrow> LocalDate option option" where
  "week_body w target m =
     loop_return (\<lambda>weekday. map_option (\<lambda>d. Some (Some d)) (weekly_day w m target weekday)) [0..<7] None"

lemma weekly_day_eq:
  assumes "civil_days m" "civil_days (m + 6)" "wd < 7" "valid_local target"
  shows "weekly_day w m target wd =
    (if bit w wd \<and> date_days target \<le> m + int wd then Some (DateFromDays (m + int wd)) else None)"
proof -
  have "civil_days (m + int wd)" using assms(1-3) by (simp add: civil_days_def)
  note v = DateFromDays_valid [OF this]
  show ?thesis
    by (simp add: weekly_day_def Let_def bit_iff_and_push_bit_not_eq_0 CompareDate_iff [OF v(1) assms(4)] v(2))
qed

lemma week_body_cases:
  assumes m: "civil_days m" "civil_days (m + 6)" and t: "valid_local target"
  obtains (none) "week_body w target m = None"
      "\<And>wd. wd < 7 \<Longrightarrow> bit w wd \<Longrightarrow> m + int wd < date_days target"
  | (first) wd where "week_body w target m = Some (Some (DateFromDays (m + int wd)))" "wd < 7" "bit w wd"
      "date_days target \<le> m + int wd"
      "\<And>v. v < 7 \<Longrightarrow> bit w v \<Longrightarrow> date_days target \<le> m + int v \<Longrightarrow> wd \<le> v"
proof -
  let ?P = "\<lambda>wd. bit w wd \<and> date_days target \<le> m + int wd"
  have body: "week_body w target m =
      (case List.find (\<lambda>wd. weekly_day w m target wd \<noteq> None) [0..<7] of None \<Rightarrow> None
       | Some wd \<Rightarrow> Some (weekly_day w m target wd))"
    by (cases "List.find (\<lambda>wd. weekly_day w m target wd \<noteq> None) [0..<7]")
      (auto simp: week_body_def loop_return_find simp del: not_None_eq dest!: find_SomeD)
  have find: "List.find (\<lambda>wd. weekly_day w m target wd \<noteq> None) [0..<7] = List.find ?P [0..<7]"
    using weekly_day_eq [OF m _ t] by (intro find_cong) auto
  show thesis
  proof (cases "List.find ?P [0..<7]")
    case None
    then have "m + int wd < date_days target" if "wd < 7" "bit w wd" for wd
      using that by (auto simp: find_None_iff not_le)
    with body find None show thesis by (intro none) auto
  next
    case (Some wd)
    then have wd: "wd < 7" "?P wd" "\<And>v. v < wd \<Longrightarrow> \<not> ?P v"
      by (auto simp: find_Some_iff simp del: upt_Suc)
    then have "wd \<le> v" if "?P v" for v using that by (metis not_le)
    with body find Some wd weekly_day_eq [OF m _ t] show thesis by (intro first [of wd]) auto
  qed
qed

text \<open>The weekly search, with the number of periods it skips as a parameter.\<close>

definition week_search :: "uint8 \<Rightarrow> int \<Rightarrow> int \<Rightarrow> int \<Rightarrow> LocalDate \<Rightarrow> LocalDate option" where
  "week_search w m k i target =
     loop_return (\<lambda>attempt. week_body w target (m + (k + attempt) * i * 7)) search_steps None"

definition in_weeks :: "uint8 \<Rightarrow> int \<Rightarrow> int \<Rightarrow> LocalDate \<Rightarrow> bool" where
  "in_weeks w m i d \<longleftrightarrow>
     (\<exists>j\<ge>0. monday (date_days d) = m + j * i * 7) \<and> bit w (nat ((date_days d + 3) mod 7))"

lemma week_search_first:
  assumes m: "(m + 3) mod 7 = 0" and i: "0 < i" and t: "valid_local target" and k: "0 \<le> k"
    and reach: "date_days target < m + (k + 1) * i * 7"
    and skip: "\<And>j. 0 \<le> j \<Longrightarrow> date_days target < m + j * i * 7 + 7 \<Longrightarrow> k \<le> j"
    and room: "civil_days m" "civil_days (m + (k + 64) * i * 7)"
  shows "first_after (in_weeks w m i) target (week_search w m k i target)"
proof -
  define M where "M att = m + (k + att) * i * 7" for att
  have M: "(M att + 3) mod 7 = 0" for att
  proof -
    have "M att + 3 = m + 3 + (k + att) * i * 7" by (simp add: M_def)
    then show ?thesis using m by (simp only: mod_mult_self1)
  qed
  have mono: "M b \<le> M c" if "b \<le> c" for b c using that i by (simp add: M_def mult_right_mono)
  have range: "civil_days (M att)" "civil_days (M att + 6)" if "0 \<le> att" "att < 64" for att
  proof -
    have "m \<le> M att" using that k i by (simp add: M_def)
    moreover have "M att + 7 \<le> M (att + 1)" using i by (simp add: M_def algebra_simps)
    moreover have "M (att + 1) \<le> M 64" using that by (intro mono) simp
    ultimately show "civil_days (M att)" "civil_days (M att + 6)"
      using room by (simp_all add: civil_days_def flip: M_def)
  qed
  have search: "week_search w m k i target = loop_return (\<lambda>att. week_body w target (M att)) search_steps None"
    by (simp add: week_search_def M_def)
  have elem: "\<exists>att wd. 0 \<le> att \<and> wd < 7 \<and> bit w wd \<and> date_days e = M att + int wd"
    if e: "in_weeks w m i e" "date_days target \<le> date_days e" for e
  proof -
    from e(1) obtain j where j: "0 \<le> j" "monday (date_days e) = m + j * i * 7"
      and b: "bit w (nat ((date_days e + 3) mod 7))" by (auto simp: in_weeks_def)
    note p = monday_props [of "date_days e"]
    have "k \<le> j" using j e(2) p(2) by (intro skip) simp_all
    moreover have "(date_days e + 3) mod 7 < 7" "0 \<le> (date_days e + 3) mod 7" by simp_all
    ultimately show ?thesis using b j(2) p(4)
      by (intro exI [of _ "j - k"] exI [of _ "nat ((date_days e + 3) mod 7)"]) (simp add: M_def)
  qed
  have hit: "date_days d = M att + int wd \<Longrightarrow> in_weeks w m i d" if "0 \<le> att" "wd < 7" "bit w wd" for d att wd
    using monday_unique [OF M, of "int wd" att] that k
    by (auto simp: in_weeks_def M_def intro!: exI [of _ "k + att"])
  have next_week: "M b + 7 \<le> M c" if "b < c" for b c
  proof -
    have "M b + 7 \<le> M (b + 1)" using i by (simp add: M_def algebra_simps)
    also have "\<dots> \<le> M c" using that by (intro mono) simp
    finally show ?thesis .
  qed
  show ?thesis unfolding search
  proof (cases rule: search_loop_cases [of "\<lambda>att. week_body w target (M att)" None])
    case (found att)
    note rng = range [OF found(1,2)]
    from rng t show "first_after (in_weeks w m i) target
        (loop_return (\<lambda>att. week_body w target (M att)) search_steps None)"
    proof (cases rule: week_body_cases [where w = w])
      case (first wd)
      define d where "d = DateFromDays (M att + int wd)"
      have "civil_days (M att + int wd)" using rng first(2) by (simp add: civil_days_def)
      then have d: "valid_local d" "date_days d = M att + int wd" by (simp_all add: d_def DateFromDays_valid)
      have "date_days d \<le> date_days e" if e: "in_weeks w m i e" "date_days target \<le> date_days e" for e
      proof -
        obtain b v where b: "0 \<le> b" "v < 7" "bit w v" "date_days e = M b + int v"
          using elem [OF e] by blast
        have "\<not> b < att"
        proof
          assume "b < att"
          with found b(1) have n: "week_body w target (M b) = None" "b < 64" by simp_all
          from range [OF b(1) n(2)] t show False
            using n b e(2) by (cases rule: week_body_cases [where w = w]) (fastforce dest: leD, simp)
        qed
        then consider "b = att" | "att < b" by linarith
        then show ?thesis
        proof cases
          case 1
          with b e(2) first(5) [of v] d show ?thesis by simp
        next
          case 2
          with next_week [of att b] b d first(2) show ?thesis by simp
        qed
      qed
      moreover have "loop_return (\<lambda>att. week_body w target (M att)) search_steps None = Some d"
        using found(3) first(1) by (simp add: d_def)
      ultimately show ?thesis
        using d first hit [OF found(1) first(2,3) d(2)] by (simp add: first_after_def)
    qed (use found(3) in simp)
  next
    case exhausted
    have "False" if e: "in_weeks w m i e" "date_days target \<le> date_days e" for e
    proof -
      obtain wd where "wd < 7" "bit w wd" using elem [OF e] by blast
      have none: "week_body w target (M 1) = None" using exhausted(2) by simp
      have "civil_days (M 1)" "civil_days (M 1 + 6)" by (simp_all add: range)
      then show False using t
      proof (cases rule: week_body_cases [where w = w])
        case none
        with \<open>wd < 7\<close> \<open>bit w wd\<close> reach show False by (force simp: M_def)
      qed (use none in simp)
    qed
    then show "first_after (in_weeks w m i) target
        (loop_return (\<lambda>att. week_body w target (M att)) search_steps None)"
      unfolding exhausted first_after_def by force
  qed
qed

lemma weekly_match_iff:
  assumes "0 < ru_interval_val r"
  shows "weekly_match r anchor d =
    (case ru_weekdays_mask r of None \<Rightarrow> False
     | Some w \<Rightarrow> in_weeks w (monday (date_days anchor)) (ru_interval_val r) d)"
proof -
  let ?M = "monday (date_days anchor)" and ?n = "monday (date_days d)"
  have "7 dvd ?n - ?M" unfolding monday_def by presburger
  then obtain c where c: "?n - ?M = 7 * c" ..
  then have n: "?n = ?M + 7 * c" by simp
  have "(\<exists>j\<ge>0. ?n = ?M + j * ru_interval_val r * 7) \<longleftrightarrow> (\<exists>j\<ge>0. c = 0 + j * ru_interval_val r)"
    unfolding n by auto
  also have "\<dots> \<longleftrightarrow> 0 \<le> c \<and> ru_interval_val r dvd c - 0" by (rule steps_dvd_iff [OF assms])
  finally show ?thesis
    by (simp add: weekly_match_def in_weeks_def Let_def c Weekday_date_days split: option.splits)
qed

interpretation weekly_search: date_search plan_interval NextWeeklyDate weekly_match
proof
  fix r anchor target
  assume r: "plan_interval r" and a: "plan_date anchor" and t: "plan_date target"
  let ?i = "ru_interval_val r" and ?a = "date_days anchor" and ?t = "date_days target"
  let ?M = "monday ?a"
  have i: "0 < ?i" "?i \<le> 1000000" using plan_intervalD r by blast+
  have match: "weekly_match r anchor d = (case ru_weekdays_mask r of None \<Rightarrow> False | Some w \<Rightarrow> in_weeks w ?M ?i d)" for d
    by (rule weekly_match_iff [OF i(1)])
  show "first_after (weekly_match r anchor) target (NextWeeklyDate r anchor target)"
  proof (cases "ru_weekdays_mask r")
    case None
    then show ?thesis by (simp add: first_after_def NextWeeklyDate_def weekly_match_def Let_def)
  next
    case (Some w)
    define week_diff where "week_diff = (if ?a \<le> ?t then (monday ?t - ?M) sdiv 7 else 0)"
    define k where "k = (if ?a \<le> ?t then max 0 (CeilDiv week_diff ?i) else 0)"
    have search: "NextWeeklyDate r anchor target = week_search w ?M k ?i target"
      unfolding NextWeeklyDate_def Some option.case Let_def Weekday_date_days monday_def [symmetric]
        week_diff_def [symmetric] k_def [symmetric] week_body_def [symmetric] week_search_def
        date_days_def [symmetric] ..
    have diff: "0 \<le> week_diff" "?a \<le> ?t \<Longrightarrow> monday ?t = ?M + 7 * week_diff"
    proof -
      obtain c where "0 \<le> c" "monday ?t = ?M + 7 * c" if "?a \<le> ?t"
        using monday_week [OF monday_mono] by metis
      then show "0 \<le> week_diff" "?a \<le> ?t \<Longrightarrow> monday ?t = ?M + 7 * week_diff"
        by (auto simp: week_diff_def sdiv_nonneg)
    qed
    have k: "0 \<le> k" "?a \<le> ?t \<Longrightarrow> week_diff \<le> k * ?i" "k * ?i \<le> week_diff + ?i"
      using CeilDiv_least [OF diff(1) i(1)] i diff(1) by (auto simp: k_def)
    have k0: "0 \<le> k * ?i" using k(1) i by simp
    have "week_diff = 0" if "\<not> ?a \<le> ?t" using that by (simp add: week_diff_def)
    then have bound: "7 * week_diff \<le> 401000000"
      using diff(2) plan_date_days(1,2) [OF a] plan_date_days(1,2) [OF t] monday_props(1,2) [of ?a]
        monday_props(1,2) [of ?t] by linarith
    have "first_after (in_weeks w ?M ?i) target (week_search w ?M k ?i target)"
    proof (rule week_search_first [OF monday_props(3) i(1) plan_dateD [OF t] k(1)])
      show "?t < ?M + (k + 1) * ?i * 7"
        using k diff i monday_props(1,2) [of ?t] monday_props(1,2) [of ?a] k0
        unfolding distrib_right by (cases "?a \<le> ?t") linarith+
      show "k \<le> j" if "0 \<le> j" "?t < ?M + j * ?i * 7 + 7" for j
        using CeilDiv_least(4) [OF diff(1) i(1) that(1)] diff that monday_props(1) [of ?t]
        by (auto simp: k_def)
      show "civil_days ?M" "civil_days (?M + (k + 64) * ?i * 7)"
        unfolding civil_days_def distrib_right
        using k0 k(3) i bound plan_date_days(1,2) [OF a] monday_props(1,2) [of ?a] by linarith+
    qed
    then show ?thesis unfolding search using Some by (simp add: match [abs_def] cong: first_after_cong)
  qed
qed

interpretation next_date_search: date_search plan_rule NextDateOnOrAfter rule_match
proof
  fix r anchor target
  assume wf: "plan_rule r" and d: "plan_date anchor" "plan_date target"
  have "rule_match r anchor =
      (case ru_freq_type r of kDaily \<Rightarrow> daily_match r anchor | kWeekly \<Rightarrow> weekly_match r anchor
       | kMonthly \<Rightarrow> monthly_match r anchor | kYearly \<Rightarrow> yearly_match r anchor)"
    by (rule ext) (simp add: rule_match_def split: Frequency.split)
  then show "first_after (rule_match r anchor) target (NextDateOnOrAfter r anchor target)"
    using wf daily_search.search_first [OF _ d] weekly_search.search_first [OF _ d]
      monthly_search.search_first [OF _ d] yearly_search.search_first [OF _ d]
    by (cases "ru_freq_type r") (simp_all add: NextDateOnOrAfter_def plan_rule_def)
qed

section \<open>Occurrences\<close>

definition time_of_day :: "LocalTime \<Rightarrow> int" where
  "time_of_day t = hour t * 3600 + minute t * 60 + second t"

text \<open>A rule the planner is given: its dates in range, its start time a time of a day.\<close>

definition plan_series :: "ScheduleRule \<Rightarrow> bool" where
  "plan_series r \<longleftrightarrow> plan_rule r \<and> plan_date (ru_start_date r) \<and>
     (case ru_end_date r of None \<Rightarrow> True | Some e \<Rightarrow> valid_local e) \<and>
     0 \<le> time_of_day (ru_start_time r) \<and> time_of_day (ru_start_time r) < 86400"

text \<open>The instants from the local epoch to about the year 980000.\<close>

definition plan_instant :: "DateTime \<Rightarrow> bool" where
  "plan_instant t \<longleftrightarrow> - kTimezoneOffsetSeconds \<le> t \<and> t \<le> 31000000000000"

definition series_day :: "ScheduleRule \<Rightarrow> LocalDate \<Rightarrow> bool" where
  "series_day r d \<longleftrightarrow> valid_local d \<and> rule_match r (ru_start_date r) d \<and>
     date_days (ru_start_date r) \<le> date_days d \<and>
     (case ru_end_date r of None \<Rightarrow> True | Some e \<Rightarrow> date_days d \<le> date_days e)"

definition occurs :: "ScheduleRule \<Rightarrow> DateTime \<Rightarrow> bool" where
  "occurs r t \<longleftrightarrow> ru_status r = kActive \<and> (\<exists>d. series_day r d \<and> t = OccurrenceAt r d)"

definition first_instant :: "(DateTime \<Rightarrow> bool) \<Rightarrow> DateTime \<Rightarrow> DateTime option \<Rightarrow> bool" where
  "first_instant P from r \<longleftrightarrow>
     (case r of
        None \<Rightarrow> \<forall>t. P t \<longrightarrow> t < from
      | Some t \<Rightarrow> P t \<and> from \<le> t \<and> (\<forall>u. P u \<and> from \<le> u \<longrightarrow> t \<le> u))"

lemma OccurrenceAt_eq:
  "OccurrenceAt r d = date_days d * 86400 + time_of_day (ru_start_time r) - kTimezoneOffsetSeconds"
  by (simp add: OccurrenceAt_def UnixFromLocal_def date_days_def time_of_day_def)

definition from_day :: "DateTime \<Rightarrow> int" where
  "from_day t = (t + kTimezoneOffsetSeconds) div 86400"

lemma LocalDateFromUtc_eq: "plan_instant t \<Longrightarrow> LocalDateFromUtc t = DateFromDays (from_day t)"
  by (simp add: LocalDateFromUtc_def LocalFromUnix_def Let_def DateFromDays_def from_day_def
      plan_instant_def sdiv_nonneg split: prod.splits)

lemma plan_date_DateFromDays:
  assumes "0 \<le> n" "n \<le> 360000000"
  shows "plan_date (DateFromDays n)"
proof -
  have "civil_days n" using assms by (simp add: civil_days_def)
  note v = DateFromDays_valid [OF this]
  let ?first = "\<lparr>year = 0, month = 1, day = 1\<rparr>" and ?last = "\<lparr>year = 1000000, month = 1, day = 1\<rparr>"
  have b: "valid_local ?first" "valid_local ?last"
    by (simp_all add: valid_date_def civil_year_def DaysInMonth_simps)
  then have days: "date_days ?first < 0" "360000000 < date_days ?last"
    by (simp_all add: date_days_def march_year_day_count march_defs year_start_def)
  have "\<not> year (DateFromDays n) < 0" "\<not> 1000000 < year (DateFromDays n)"
    using date_days_year_less [OF v(1) b(1)] date_days_year_less [OF b(2) v(1)] days v(2) assms
    by auto
  with v show ?thesis by (simp add: plan_date_def)
qed

lemma from_day_bounds:
  assumes "plan_instant t"
  shows "0 \<le> from_day t" "from_day t < 359000000"
    "from_day t * 86400 \<le> t + kTimezoneOffsetSeconds" "t + kTimezoneOffsetSeconds < from_day t * 86400 + 86400"
  using assms by (auto simp: plan_instant_def from_day_def kTimezoneOffsetSeconds_def)

text \<open>A threshold that no occurrence from \<open>from\<close> on precedes.\<close>

definition sound_threshold :: "ScheduleRule \<Rightarrow> DateTime \<Rightarrow> LocalDate \<Rightarrow> bool" where
  "sound_threshold r from th \<longleftrightarrow> plan_date th \<and> date_days (ru_start_date r) \<le> date_days th \<and>
     (\<forall>d. series_day r d \<and> from \<le> OccurrenceAt r d \<longrightarrow> date_days th \<le> date_days d)"

lemma NextOccurrence_step:
  assumes r: "plan_series r" "ru_status r = kActive" and th: "sound_threshold r from th"
  obtains (finished) "first_instant (occurs r) from (NextOccurrence_loop (Suc n) r (ru_start_date r) from th)"
  | (advance) d where "valid_local d" "date_days th \<le> date_days d" "OccurrenceAt r d < from"
      "NextOccurrence_loop (Suc n) r (ru_start_date r) from th =
         (case AddDaysChecked d 1 of None \<Rightarrow> None
          | Some next_day \<Rightarrow> NextOccurrence_loop n r (ru_start_date r) from next_day)"
proof -
  let ?a = "ru_start_date r"
  have pr: "plan_rule r" "plan_date ?a" and pt: "plan_date th" and at: "date_days ?a \<le> date_days th"
    and sound: "\<And>d. series_day r d \<Longrightarrow> from \<le> OccurrenceAt r d \<Longrightarrow> date_days th \<le> date_days d"
    using r th by (auto simp: plan_series_def sound_threshold_def)
  show thesis
  proof (cases "NextDateOnOrAfter r ?a th")
    case None
    have "t < from" if "occurs r t" for t
      using that sound next_date_search.search_None [OF pr pt None]
      by (force simp: occurs_def series_day_def)
    then show thesis using None by (intro finished) (simp add: first_instant_def)
  next
    case (Some d)
    note d = next_date_search.search_Some [OF pr pt Some]
    have nlt: "\<not> CompareDate d ?a < 0"
      using d(1,3) at plan_dateD [OF pr(2)] by (simp add: CompareDate_iff)
    have least: "date_days d \<le> date_days e" if "series_day r e" "from \<le> OccurrenceAt r e" for e
      using d(4) sound [OF that] that(1) by (simp add: series_day_def)
    show thesis
    proof (cases "\<exists>e. ru_end_date r = Some e \<and> date_days e < date_days d")
      case True
      then have "\<not> from \<le> OccurrenceAt r e" if "series_day r e" for e
        using that least by (force simp: series_day_def)
      moreover from True r(1) d(1) have "NextOccurrence_loop (Suc n) r ?a from th = None"
        using Some nlt by (auto simp: plan_series_def CompareDate_iff)
      ultimately show thesis by (intro finished) (auto simp: first_instant_def occurs_def not_le)
    next
      case False
      then have day: "series_day r d"
        using d at by (auto simp: series_day_def not_less split: option.splits)
      have loop: "NextOccurrence_loop (Suc n) r ?a from th =
          (if OccurrenceAt r d < from then (case AddDaysChecked d 1 of None \<Rightarrow> None
             | Some next_day \<Rightarrow> NextOccurrence_loop n r ?a from next_day) else Some (OccurrenceAt r d))"
        using Some nlt False r(1) d(1)
        by (auto simp: Let_def plan_series_def CompareDate_iff split: option.splits)
      show thesis
      proof (cases "OccurrenceAt r d < from")
        case True
        with d(1,3) loop show thesis by (intro advance) simp_all
      next
        case not_before: False
        have "OccurrenceAt r d \<le> t" if "occurs r t" "from \<le> t" for t
          using that least by (auto simp: occurs_def OccurrenceAt_eq)
        then show thesis
          using not_before loop day r(2) by (intro finished) (auto simp: first_instant_def occurs_def)
      qed
    qed
  qed
qed

lemma next_day_threshold:
  assumes "plan_series r" "plan_instant from" "sound_threshold r from th"
    "valid_local d" "date_days th \<le> date_days d" "OccurrenceAt r d < from" "from_day from \<le> date_days th"
  shows "AddDaysChecked d 1 = Some (DateFromDays (from_day from + 1))"
    "sound_threshold r from (DateFromDays (from_day from + 1))"
proof -
  note b = from_day_bounds [OF assms(2)]
  have d: "date_days d = from_day from"
    using assms(1,5-7) b by (auto simp: OccurrenceAt_eq plan_series_def)
  show "AddDaysChecked d 1 = Some (DateFromDays (from_day from + 1))"
    using b by (simp add: AddDaysChecked_def Let_def d)
  have p: "plan_date (DateFromDays (from_day from + 1))" "civil_days (from_day from + 1)"
    using b by (simp_all add: plan_date_DateFromDays civil_days_def)
  have "from_day from + 1 \<le> date_days e" if "from \<le> OccurrenceAt r e" for e
    using that assms(6) d by (simp add: OccurrenceAt_eq)
  with p assms(3,5) d show "sound_threshold r from (DateFromDays (from_day from + 1))"
    by (simp add: sound_threshold_def DateFromDays_valid)
qed

lemma NextOccurrence_first:
  assumes r: "plan_series r" and f: "plan_instant from"
  shows "first_instant (occurs r) from (NextOccurrence r from)"
proof (cases "ru_status r = kActive")
  case active: True
  let ?a = "ru_start_date r"
  note b = from_day_bounds [OF f]
  define th where "th = (if CompareDate ?a (LocalDateFromUtc from) > 0 then ?a else LocalDateFromUtc from)"
  have pa: "plan_date ?a" using r by (simp add: plan_series_def)
  have pf: "plan_date (LocalDateFromUtc from)" "date_days (LocalDateFromUtc from) = from_day from"
    using b by (simp_all add: LocalDateFromUtc_eq [OF f] plan_date_DateFromDays DateFromDays_valid civil_days_def)
  have th: "plan_date th" "date_days th = max (date_days ?a) (from_day from)"
    using pa pf by (auto simp: th_def CompareDate_iff [OF plan_dateD plan_dateD])
  have "from_day from \<le> date_days d" if "from \<le> OccurrenceAt r d" for d
    using that b r by (auto simp: OccurrenceAt_eq plan_series_def)
  then have sound: "sound_threshold r from th"
    using th by (auto simp: sound_threshold_def series_day_def)
  have loop: "NextOccurrence r from = NextOccurrence_loop (Suc (Suc 62)) r ?a from th"
    using active by (simp add: NextOccurrence_def Let_def th_def kMaxDateSearchSteps_def eval_nat_numeral
        del: NextOccurrence_loop.simps)
  from r active sound show ?thesis
  proof (cases rule: NextOccurrence_step [where n = "Suc 62"])
    case (advance d)
    have "from_day from \<le> date_days th" by (simp add: th)
    note next_day = next_day_threshold [OF r f sound advance(1-3) this]
    let ?n = "DateFromDays (from_day from + 1)"
    have "first_instant (occurs r) from (NextOccurrence_loop (Suc 62) r ?a from ?n)"
    proof -
      from r active next_day(2) show ?thesis
      proof (cases rule: NextOccurrence_step [where n = 62])
        case (advance d)
        then have "from_day from + 1 \<le> date_days d"
          using b by (simp add: DateFromDays_valid civil_days_def)
        then have "from \<le> OccurrenceAt r d" using b r by (auto simp: OccurrenceAt_eq plan_series_def)
        with advance(3) show ?thesis by simp
      qed
    qed
    then show ?thesis using advance(4) next_day(1) loop by simp
  qed (simp add: loop)
qed (simp add: NextOccurrence_def first_instant_def occurs_def)

text \<open>The first \<open>n\<close> instants of \<open>P\<close> in a half-open range, in order.\<close>

definition first_instants :: "(DateTime \<Rightarrow> bool) \<Rightarrow> DateTime \<Rightarrow> DateTime \<Rightarrow> nat \<Rightarrow> DateTime list \<Rightarrow> bool" where
  "first_instants P a b n xs \<longleftrightarrow> sorted_wrt (<) xs \<and> length xs \<le> n \<and>
     (\<forall>t \<in> set xs. P t \<and> a \<le> t \<and> t < b) \<and>
     (\<forall>t. P t \<and> a \<le> t \<and> t < b \<and> t \<notin> set xs \<longrightarrow> length xs = n \<and> (\<forall>u \<in> set xs. u < t))"

lemma PlanOccurrences_loop_first:
  assumes "plan_series r" "b \<le> 31000000000000"
  shows "plan_instant a \<Longrightarrow> first_instants (occurs r) a b n (PlanOccurrences_loop n r b a)"
proof (induction n arbitrary: a)
  case 0
  then show ?case by (simp add: first_instants_def)
next
  case (Suc n)
  note first = NextOccurrence_first [OF assms(1) Suc.prems]
  show ?case
  proof (cases "NextOccurrence r a")
    case None
    with first show ?thesis by (auto simp: first_instant_def first_instants_def)
  next
    case (Some t)
    with first have t: "occurs r t" "a \<le> t" and least: "\<And>u. occurs r u \<Longrightarrow> a \<le> u \<Longrightarrow> t \<le> u"
      by (auto simp: first_instant_def)
    show ?thesis
    proof (cases "b \<le> t")
      case True
      with Some least show ?thesis by (fastforce simp: first_instants_def)
    next
      case False
      let ?xs = "PlanOccurrences_loop n r b (t + 1)"
      have "plan_instant (t + 1)" using Suc.prems t False assms(2) by (simp add: plan_instant_def)
      from Suc.IH [OF this] have IH: "first_instants (occurs r) (t + 1) b n ?xs" .
      then have "first_instants (occurs r) a b (Suc n) (t # ?xs)"
        using t False least by (fastforce simp: first_instants_def)
      with Some False show ?thesis by simp
    qed
  qed
qed

section \<open>Properties\<close>

text \<open>
  C4. \<open>NextOccurrence\<close> returns the first occurrence of the rule that is not before the given
  instant, and nothing exactly when the rule has no occurrence from that instant on: the sixty-four
  steps of its loops are enough for every accepted rule, short months and leap days included.
\<close>

theorem next_occurrence_is_first:
  "plan_series r \<and> plan_instant from \<longrightarrow> first_instant (occurs r) from (NextOccurrence r from)"
  using NextOccurrence_first by blast

text \<open>A rule for every fourth 29 February from 2096 on, at 09:30.\<close>

definition leap_rule :: ScheduleRule where
  "leap_rule = \<lparr>ru_id = 1, ru_event = ''e'', ru_location = None, ru_notes = None, ru_freq_type = kYearly,
     ru_interval_val = 4, ru_weekdays_mask = None, ru_day_of_month = Some 29, ru_month_of_year = Some 2,
     ru_monthly_mode = None, ru_start_time = \<lparr>hour = 9, minute = 30, second = 0\<rparr>, ru_end_time = None,
     ru_start_date = \<lparr>year = 2096, month = 2, day = 29\<rparr>, ru_end_date = None,
     ru_occurrence_count = None, ru_status = kActive, ru_created_at = 0, ru_updated_at = 0\<rparr>"

lemma leap_rule_series: "plan_series leap_rule"
  by (simp add: plan_series_def plan_rule_def plan_year_def plan_interval_def plan_date_def leap_rule_def valid_date_def civil_year_def
      DaysInMonth_simps IsLeapYear_iff time_of_day_def)

theorem next_occurrence_is_first_witness:
  "first_instant (occurs leap_rule) 4000000000 (NextOccurrence leap_rule 4000000000) \<and>
   NextOccurrence leap_rule 4000000000 = Some (DaysFromCivil 2104 2 29 * 86400 + 5400)"
proof -
  have "plan_instant 4000000000" by (simp add: plan_instant_def kTimezoneOffsetSeconds_def)
  moreover have "NextOccurrence leap_rule 4000000000 = Some (DaysFromCivil 2104 2 29 * 86400 + 5400)"
    by code_simp
  ultimately show ?thesis using leap_rule_series next_occurrence_is_first by blast
qed

text \<open>
  C36. \<open>PlanOccurrences\<close> lists the occurrences of a half-open range in strictly increasing order,
  the first ones when there are more than the limit, and never more than ten.
\<close>

theorem plan_occurrences_exact:
  "plan_series r \<and> plan_instant a \<and> b \<le> 31000000000000 \<longrightarrow>
     first_instants (occurs r) a b (nat (min 10 limit)) (PlanOccurrences r a b limit)"
proof (intro impI, elim conjE)
  assume "plan_series r" "plan_instant a" "b \<le> 31000000000000"
  moreover have "PlanOccurrences r a b limit = PlanOccurrences_loop (nat (min 10 limit)) r b a"
    by (cases "limit \<le> 0") (simp_all add: PlanOccurrences_def kMaxPlanLimit_def Let_def)
  ultimately show "first_instants (occurs r) a b (nat (min 10 limit)) (PlanOccurrences r a b limit)"
    by (simp add: PlanOccurrences_loop_first)
qed

theorem plan_occurrences_exact_witness:
  "first_instants (occurs leap_rule) 3000000000 5000000000 3 (PlanOccurrences leap_rule 3000000000 5000000000 3) \<and>
   length (PlanOccurrences leap_rule 3000000000 5000000000 3) = 3"
proof -
  have "plan_instant 3000000000" by (simp add: plan_instant_def kTimezoneOffsetSeconds_def)
  moreover have "length (PlanOccurrences leap_rule 3000000000 5000000000 3) = 3" by code_simp
  ultimately show ?thesis
    using leap_rule_series plan_occurrences_exact [of leap_rule 3000000000 5000000000 3] by simp
qed

text \<open>
  C35. The date search of every frequency returns the first date on or after the target that the
  rule's frequency, interval and day fields select, and nothing exactly when there is none.
\<close>

theorem date_search_complete:
  "plan_rule r \<and> plan_date anchor \<and> plan_date target \<longrightarrow>
     first_after (rule_match r anchor) target (NextDateOnOrAfter r anchor target)"
  using next_date_search.search_first by blast

theorem date_search_complete_witness:
  "let r = leap_rule\<lparr>ru_freq_type := kMonthly, ru_interval_val := 5, ru_day_of_month := Some 31\<rparr>;
       a = \<lparr>year = 2024, month = 1, day = 31\<rparr>; t = \<lparr>year = 2024, month = 2, day = 1\<rparr>
   in first_after (rule_match r a) t (NextDateOnOrAfter r a t)"
proof -
  let ?r = "leap_rule\<lparr>ru_freq_type := kMonthly, ru_interval_val := 5, ru_day_of_month := Some 31\<rparr>"
  let ?a = "\<lparr>year = 2024, month = 1, day = 31\<rparr>" and ?t = "\<lparr>year = 2024, month = 2, day = 1\<rparr>"
  have "plan_rule ?r" by (simp add: plan_rule_def plan_month_def plan_interval_def leap_rule_def)
  moreover have "plan_date ?a" "plan_date ?t"
    by (simp_all add: plan_date_def valid_date_def civil_year_def DaysInMonth_simps)
  ultimately have "first_after (rule_match ?r ?a) ?t (NextDateOnOrAfter ?r ?a ?t)"
    using date_search_complete by blast
  then show ?thesis unfolding Let_def .
qed

text \<open>
  The time-zone conversion loses nothing: the local date of the occurrence the planner computes
  for a day is that day.
\<close>

theorem occurrence_local_date:
  "plan_series r \<and> valid_local d \<and> 0 \<le> date_days d \<and> date_days d \<le> 350000000 \<longrightarrow>
     LocalDateFromUtc (OccurrenceAt r d) = d"
proof (intro impI, elim conjE)
  assume r: "plan_series r" and d: "valid_local d" "0 \<le> date_days d" "date_days d \<le> 350000000"
  have "plan_instant (OccurrenceAt r d)"
    using r d by (auto simp: plan_instant_def OccurrenceAt_eq plan_series_def kTimezoneOffsetSeconds_def)
  moreover have "from_day (OccurrenceAt r d) = date_days d"
    using r by (auto simp: from_day_def OccurrenceAt_eq plan_series_def)
  ultimately show "LocalDateFromUtc (OccurrenceAt r d) = d"
    using d(1) by (simp add: LocalDateFromUtc_eq DateFromDays_date_days)
qed

theorem occurrence_local_date_witness:
  "LocalDateFromUtc (OccurrenceAt leap_rule \<lparr>year = 2096, month = 2, day = 29\<rparr>)
     = \<lparr>year = 2096, month = 2, day = 29\<rparr>"
proof -
  let ?d = "\<lparr>year = 2096, month = 2, day = 29\<rparr>"
  have v: "valid_local ?d" by (simp add: valid_date_def civil_year_def DaysInMonth_simps IsLeapYear_iff)
  then have "date_days ?d = 46080"
    by (simp add: date_days_def march_year_day_count march_defs year_start_def)
  with v leap_rule_series occurrence_local_date [of leap_rule ?d] show ?thesis by simp
qed

end
