(* ===== verification/Rule_Service.thy ===== *)
theory Rule_Service
  imports Recurrence Repositories
begin

text \<open>
  \<open>voicelife_schedule/src/service/schedule_rule_service.cc\<close> with its helpers: recurring rules, their
  single-occurrence exceptions and the materialization of instances. Operations that read the system
  clock read it once; the reading is an argument.
  What it guarantees is proved in \<open>Rule_Correctness\<close>.
\<close>

section \<open>Validation\<close>

definition kMaximumRuleEventLength :: nat where
  "kMaximumRuleEventLength = 100"

definition kMaximumDayOfMonth :: int where
  "kMaximumDayOfMonth = 31"

definition kMaximumMonthOfYear :: int where
  "kMaximumMonthOfYear = 12"

definition CompareLocalDate :: "LocalDate \<Rightarrow> LocalDate \<Rightarrow> int" where
  "CompareLocalDate left right =
     (if year left \<noteq> year right then (if year left < year right then - 1 else 1)
      else if month left \<noteq> month right then (if month left < month right then - 1 else 1)
      else if day left \<noteq> day right then (if day left < day right then - 1 else 1)
      else 0)"

definition AtLocalDate :: "LocalDate \<Rightarrow> LocalTime \<Rightarrow> DateTime" where
  "AtLocalDate date time =
     (let days = DaysFromCivil (year date) (month date) (day date)
      in days * 86400 + LocalTimeToSeconds time - kTimezoneOffsetSeconds)"

definition clock_time :: "LocalTime \<Rightarrow> bool" where
  "clock_time t \<longleftrightarrow> \<not> (hour t < 0 \<or> hour t > 23 \<or> minute t < 0 \<or> minute t > 59 \<or> second t < 0 \<or> second t > 59)"

text \<open>The \<open>switch\<close> over the frequency; \<open>None\<close> stands for reaching the code after it.\<close>

definition ValidateRuleFrequency :: "ScheduleRule \<Rightarrow> Status option" where
  "ValidateRuleFrequency rule =
     (case ru_freq_type rule of
        kWeekly \<Rightarrow>
          if ru_weekdays_mask rule = None \<or> uint (the (ru_weekdays_mask rule)) < 1 \<or>
             uint (the (ru_weekdays_mask rule)) > 127
          then Some (Status_Error kInvalidArgument msg_weekly_mask) else None
      | kMonthly \<Rightarrow>
          if ru_monthly_mode rule = None then Some (Status_Error kInvalidArgument msg_monthly_mode)
          else if the (ru_monthly_mode rule) = kSpecificDay \<and> ru_day_of_month rule = None
            then Some (Status_Error kInvalidArgument msg_monthly_day_missing)
          else if the (ru_monthly_mode rule) = kSpecificDay \<and>
                  (uint (the (ru_day_of_month rule)) < 1 \<or> uint (the (ru_day_of_month rule)) > kMaximumDayOfMonth)
            then Some (Status_Error kInvalidArgument msg_monthly_day_range)
          else None
      | kYearly \<Rightarrow>
          if ru_month_of_year rule = None \<or> ru_day_of_month rule = None
            then Some (Status_Error kInvalidArgument msg_yearly_missing)
          else if uint (the (ru_month_of_year rule)) < 1 \<or> uint (the (ru_month_of_year rule)) > kMaximumMonthOfYear
            then Some (Status_Error kInvalidArgument msg_yearly_month_range)
          else if uint (the (ru_day_of_month rule)) < 1 \<or> uint (the (ru_day_of_month rule)) > kMaximumDayOfMonth
            then Some (Status_Error kInvalidArgument msg_yearly_day_range)
          else if uint (the (ru_day_of_month rule)) > DaysInMonth 2000 (uint (the (ru_month_of_year rule)))
            then Some (Status_Error kInvalidArgument msg_yearly_combination)
          else None
      | kDaily \<Rightarrow> None)"

definition ValidateRuleFields :: "ScheduleRule \<Rightarrow> Status" where
  "ValidateRuleFields rule =
     (if ru_event rule = [] then Status_Error kInvalidArgument msg_rule_event_empty
      else if length (ru_event rule) > kMaximumRuleEventLength
        then Status_Error kInvalidArgument msg_rule_event_too_long
      else if ru_interval_val rule < 1 then Status_Error kInvalidArgument msg_interval_positive
      else if ru_occurrence_count rule \<noteq> None then Status_Error kInvalidArgument msg_count_unsupported
      else (case ValidateRuleFrequency rule of
          Some st \<Rightarrow> st
        | None \<Rightarrow>
          if \<not> clock_time (ru_start_time rule) then Status_Error kInvalidArgument msg_start_clock
          else if ru_end_time rule \<noteq> None \<and>
                  LocalTimeToSeconds (the (ru_end_time rule)) \<le> LocalTimeToSeconds (ru_start_time rule)
            then Status_Error kInvalidArgument msg_end_after_start
          else if ru_end_time rule \<noteq> None \<and> \<not> clock_time (the (ru_end_time rule))
            then Status_Error kInvalidArgument msg_end_clock
          else Status_Ok))"

definition ValidateRuleDateRange :: "ScheduleRule \<Rightarrow> Status" where
  "ValidateRuleDateRange rule =
     (if ru_end_date rule \<noteq> None \<and> CompareLocalDate (the (ru_end_date rule)) (ru_start_date rule) < 0
        then Status_Error kInvalidArgument msg_end_date_order
      else Status_Ok)"

fun NextOccurrences :: "ScheduleRule \<Rightarrow> DateTime \<Rightarrow> nat \<Rightarrow> DateTime list" where
  "NextOccurrences rule cursor 0 = []"
| "NextOccurrences rule cursor (Suc n) =
     (case NextOccurrence rule cursor of None \<Rightarrow> []
      | Some next \<Rightarrow> next # NextOccurrences rule (next + 1) n)"

definition Rule_MatchesKeyword :: "ScheduleRule \<Rightarrow> string \<Rightarrow> bool" where
  "Rule_MatchesKeyword rule keyword =
     (if keyword = [] then True
      else if sublist keyword (ru_event rule) then True
      else if ru_location rule \<noteq> None \<and> sublist keyword (the (ru_location rule)) then True
      else if ru_notes rule \<noteq> None \<and> sublist keyword (the (ru_notes rule)) then True
      else False)"

fun Rule_MatchesStatus :: "ScheduleRule \<Rightarrow> ScheduleStatusFilter \<Rightarrow> bool" where
  "Rule_MatchesStatus rule Filter_kAll = True"
| "Rule_MatchesStatus rule Filter_kActive = (ru_status rule = kActive)"
| "Rule_MatchesStatus rule Filter_kCancelled = (ru_status rule = kCancelled)"
| "Rule_MatchesStatus rule Filter_kCompleted = (ru_status rule = kCompleted)"

section \<open>Patches and results\<close>

definition ApplyPatch :: "'a NullableUpdate \<Rightarrow> 'a option \<Rightarrow> 'a option" where
  "ApplyPatch patch target = (case patch of Some v \<Rightarrow> v | None \<Rightarrow> target)"

definition ApplyReplace :: "'a option \<Rightarrow> 'a \<Rightarrow> 'a" where
  "ApplyReplace replacement target = (case replacement of Some v \<Rightarrow> v | None \<Rightarrow> target)"

text \<open>A patch that clears \<open>start_date\<close> dereferences an empty optional (undefined behaviour).\<close>

definition ApplyScheduleRulePatch :: "UpdateScheduleRuleCommand \<Rightarrow> ScheduleRule \<Rightarrow> ScheduleRule" where
  "ApplyScheduleRulePatch c rule = rule\<lparr>
     ru_event := ApplyReplace (ur_event c) (ru_event rule),
     ru_location := ApplyPatch (ur_location c) (ru_location rule),
     ru_notes := ApplyPatch (ur_notes c) (ru_notes rule),
     ru_freq_type := ApplyReplace (ur_freq_type c) (ru_freq_type rule),
     ru_interval_val := ApplyReplace (ur_interval_val c) (ru_interval_val rule),
     ru_weekdays_mask := ApplyPatch (ur_weekdays_mask c) (ru_weekdays_mask rule),
     ru_day_of_month := ApplyPatch (ur_day_of_month c) (ru_day_of_month rule),
     ru_month_of_year := ApplyPatch (ur_month_of_year c) (ru_month_of_year rule),
     ru_monthly_mode := ApplyPatch (ur_monthly_mode c) (ru_monthly_mode rule),
     ru_start_time := ApplyReplace (ur_start_time c) (ru_start_time rule),
     ru_start_date := (case ur_start_date c of Some d \<Rightarrow> the d | None \<Rightarrow> ru_start_date rule),
     ru_end_time := ApplyPatch (ur_end_time c) (ru_end_time rule),
     ru_end_date := ApplyPatch (ur_end_date c) (ru_end_date rule),
     ru_occurrence_count := ApplyPatch (ur_occurrence_count c) (ru_occurrence_count rule)\<rparr>"

definition ApplyScheduleOccurrencePatch ::
    "UpdateScheduleOccurrenceCommand \<Rightarrow> ScheduleException \<Rightarrow> ScheduleException" where
  "ApplyScheduleOccurrencePatch c e = e\<lparr>
     ex_override_event := ApplyPatch (uo_event c) (ex_override_event e),
     ex_override_start_time := ApplyPatch (uo_start_time c) (ex_override_start_time e),
     ex_override_end_time := ApplyPatch (uo_end_time c) (ex_override_end_time e),
     ex_override_location := ApplyPatch (uo_location c) (ex_override_location e),
     ex_override_notes := ApplyPatch (uo_notes c) (ex_override_notes e)\<rparr>"

definition FailedCreateScheduleRuleResult :: "Status \<Rightarrow> Schedule list \<Rightarrow> CreateScheduleRuleResult" where
  "FailedCreateScheduleRuleResult st conflicts = \<lparr>crr_status = st, crr_rule = None, crr_schedules = [],
     crr_conflicts = conflicts, crr_error = message st\<rparr>"

definition FailedQueryScheduleRulesResult :: "Status \<Rightarrow> QueryScheduleRulesResult" where
  "FailedQueryScheduleRulesResult st = \<lparr>qrr_status = st, qrr_rules = [], qrr_total = 0, qrr_error = message st\<rparr>"

definition FailedUpdateScheduleRuleResult :: "Status \<Rightarrow> Schedule list \<Rightarrow> UpdateScheduleRuleResult" where
  "FailedUpdateScheduleRuleResult st conflicts = \<lparr>urr_status = st, urr_rule = None, urr_schedules = [],
     urr_conflicts = conflicts, urr_error = message st\<rparr>"

definition FailedCancelScheduleRuleResult :: "Status \<Rightarrow> int \<Rightarrow> CancelScheduleRuleResult" where
  "FailedCancelScheduleRuleResult st cancelled_count =
     \<lparr>xrr_status = st, xrr_rule = None, xrr_cancelled_count = cancelled_count, xrr_error = message st\<rparr>"

definition FailedUpdateScheduleOccurrenceResult :: "Status \<Rightarrow> UpdateScheduleOccurrenceResult" where
  "FailedUpdateScheduleOccurrenceResult st = \<lparr>uor_status = st, uor_schedule = None, uor_exception = None,
     uor_conflicts = [], uor_error = message st\<rparr>"

definition FailedSkipScheduleOccurrenceResult :: "Status \<Rightarrow> SkipScheduleOccurrenceResult" where
  "FailedSkipScheduleOccurrenceResult st =
     \<lparr>sor_status = st, sor_schedule = None, sor_exception = None, sor_error = message st\<rparr>"

definition FailedGenerateNextScheduleInstanceResult :: "Status \<Rightarrow> GenerateNextScheduleInstanceResult" where
  "FailedGenerateNextScheduleInstanceResult st = \<lparr>gnr_status = st, gnr_schedule = None, gnr_error = message st\<rparr>"

definition FindMaterializedScheduleOccurrence ::
    "'s ScheduleRepository \<Rightarrow> 's \<Rightarrow> ScheduleRuleId \<Rightarrow> DateTime \<Rightarrow> ScheduleId option \<Rightarrow> Schedule option Result" where
  "FindMaterializedScheduleOccurrence repo st rule_id original_start_time exception_schedule_id =
     (case exception_schedule_id of
        Some i \<Rightarrow>
          (let found = repo_FindById repo st i
           in if \<not> ok found
                then (if code (status found) = kNotFound then Success None
                      else Failure (code (status found)) (message (status found)))
              else Success (Some (the (val found))))
      | None \<Rightarrow>
          (let query = \<lparr>qs_schedule_id = None, qs_rule_id = Some rule_id, qs_keyword = None,
                 qs_start_from = Some original_start_time, qs_start_to = Some original_start_time,
                 qs_status = Filter_kAll, qs_limit = 1, qs_offset = 0\<rparr>;
               loaded = repo_Find repo st query
           in if \<not> ok loaded then Failure (code (status loaded)) (message (status loaded))
              else Success (if the (val loaded) = [] then None else Some (hd (the (val loaded))))))"

section \<open>The service\<close>

record 's ScheduleRuleService =
  rs_rules :: "'s ScheduleRuleRepository"
  rs_exceptions :: "'s ScheduleExceptionRepository"
  rs_schedules :: "'s ScheduleRepository"

record CancelScheduleRuleCommand =
  xr_rule_id :: ScheduleRuleId

record GenerateNextScheduleInstanceCommand =
  gn_rule_id :: ScheduleRuleId

definition kMaximumQueryOccurrences :: nat where
  "kMaximumQueryOccurrences = 256"

fun OccurrencesForQuery_loop :: "nat \<Rightarrow> ScheduleRule \<Rightarrow> DateTime \<Rightarrow> DateTime \<Rightarrow> DateTime list" where
  "OccurrencesForQuery_loop 0 rule until cursor = []"
| "OccurrencesForQuery_loop (Suc n) rule until cursor =
     (case NextOccurrence rule cursor of None \<Rightarrow> []
      | Some next \<Rightarrow> if next \<ge> until then [] else next # OccurrencesForQuery_loop n rule until (next + 1))"

definition OccurrencesForQuery ::
    "ScheduleRule \<Rightarrow> DateTime \<Rightarrow> QueryScheduleRulesCommand \<Rightarrow> DateTime list" where
  "OccurrencesForQuery rule now command =
     (let from = (case qr_occurrence_start command of Some t \<Rightarrow> t | None \<Rightarrow> now)
      in case qr_occurrence_end command of
           None \<Rightarrow> NextOccurrences rule from 3
         | Some until \<Rightarrow>
             if until \<le> from then []
             else OccurrencesForQuery_loop kMaximumQueryOccurrences rule until from)"

definition create_schedule_rule ::
    "'s ScheduleRuleService \<Rightarrow> 's \<Rightarrow> DateTime \<Rightarrow> CreateScheduleRuleCommand \<Rightarrow> CreateScheduleRuleResult \<times> 's" where
  "create_schedule_rule svc st now command =
     (let rule = CreateRuleFromCommand command;
          field_validation = ValidateRuleFields rule
      in if \<not> status_ok field_validation then (FailedCreateScheduleRuleResult field_validation [], st)
         else
           (let rule = rule\<lparr>ru_start_date := (case cr_start_date command of Some d \<Rightarrow> d | None \<Rightarrow> LocalDateFromUtc now)\<rparr>;
                search_from = (case cr_start_date command of
                    Some d \<Rightarrow> AtLocalDate d (ru_start_time rule) | None \<Rightarrow> now)
            in case NextOccurrence rule search_from of
                 None \<Rightarrow> (FailedCreateScheduleRuleResult (Status_Error kInvalidArgument msg_no_first_occurrence) [], st)
               | Some first_time \<Rightarrow>
                 (let rule = rule\<lparr>ru_start_date := LocalDateFromUtc first_time\<rparr>;
                      date_validation = ValidateRuleDateRange rule
                  in if \<not> status_ok date_validation then (FailedCreateScheduleRuleResult date_validation [], st)
                     else
                       (let first_instance = CreateOccurrence rule first_time;
                            (window_start, window_end) = ScheduleNearbyWindow first_instance;
                            candidates = repo_FindOverlapping (rs_schedules svc) st window_start window_end None
                        in if \<not> ok candidates
                             then (FailedCreateScheduleRuleResult (Status_Error (code (status candidates))
                                     (msg_load_failed_prefix @ message (status candidates))) [], st)
                           else
                             (let conflicts = FindConflictingSchedules first_instance (the (val candidates)) None
                              in if conflicts \<noteq> [] \<and> \<not> cr_ignore_conflict command
                                   then (FailedCreateScheduleRuleResult
                                           (Status_Error kConflict msg_first_instance_conflict) conflicts, st)
                                 else
                                   (let (created, st) =
                                          rules_CreateWithFirstInstance (rs_rules svc) st rule (Some first_instance)
                                    in if \<not> ok created
                                         then (FailedCreateScheduleRuleResult (status created) conflicts, st)
                                       else
                                         (\<lparr>crr_status = Status_Ok, crr_rule = val created,
                                           crr_schedules = [first_instance\<lparr>sc_rule_id := Some (ru_id (the (val created)))\<rparr>],
                                           crr_conflicts = conflicts, crr_error = []\<rparr>, st)))))))"

text \<open>The loop over the loaded rules: the views of the matching ones, or the first failing lookup.\<close>

fun query_schedule_rules_loop ::
    "'s ScheduleRuleService \<Rightarrow> 's \<Rightarrow> DateTime \<Rightarrow> QueryScheduleRulesCommand \<Rightarrow> ScheduleRule list
       \<Rightarrow> Status + ScheduleRuleView list" where
  "query_schedule_rules_loop svc st now command [] = Inr []"
| "query_schedule_rules_loop svc st now command (rule # rest) =
     (if qr_rule_id command \<noteq> None \<and> ru_id rule \<noteq> the (qr_rule_id command)
        then query_schedule_rules_loop svc st now command rest
      else if qr_keyword command \<noteq> None \<and> \<not> Rule_MatchesKeyword rule (the (qr_keyword command))
        then query_schedule_rules_loop svc st now command rest
      else if \<not> Rule_MatchesStatus rule (qr_status command)
        then query_schedule_rules_loop svc st now command rest
      else
        (let exceptions = exc_FindByRule (rs_exceptions svc) st (ru_id rule)
         in if \<not> ok exceptions then Inl (status exceptions)
            else
              (case query_schedule_rules_loop svc st now command rest of
                 Inl e \<Rightarrow> Inl e
               | Inr views \<Rightarrow>
                   Inr (\<lparr>rv_rule = rule, rv_exceptions = the (val exceptions),
                         rv_upcoming_occurrences = OccurrencesForQuery rule now command\<rparr> # views))))"

text \<open>
  The page. An offset below zero would make \<open>begin\<close> an index past the end of the vector (undefined
  behaviour); here it wraps to \<open>std::size_t\<close>, and \<open>drop\<close> gives the empty page.
\<close>

definition query_schedule_rules ::
    "'s ScheduleRuleService \<Rightarrow> 's \<Rightarrow> DateTime \<Rightarrow> QueryScheduleRulesCommand \<Rightarrow> QueryScheduleRulesResult" where
  "query_schedule_rules svc st now command =
     (let loaded = rules_FindAll (rs_rules svc) st
      in if \<not> ok loaded then FailedQueryScheduleRulesResult (status loaded)
         else
           (case query_schedule_rules_loop svc st now command (the (val loaded)) of
              Inl e \<Rightarrow> FailedQueryScheduleRulesResult e
            | Inr views \<Rightarrow>
              (let total = int (length views);
                   begin = (if qr_offset command \<ge> total then length views else size_of_int (qr_offset command));
                   count = min (size_of_int (qr_limit command)) (length views - begin)
               in \<lparr>qrr_status = Status_Ok, qrr_rules = take count (drop begin views), qrr_total = total,
                   qrr_error = []\<rparr>)))"

definition update_schedule_rule ::
    "'s ScheduleRuleService \<Rightarrow> 's \<Rightarrow> DateTime \<Rightarrow> UpdateScheduleRuleCommand \<Rightarrow> UpdateScheduleRuleResult \<times> 's" where
  "update_schedule_rule svc st now command =
     (if ur_rule_id command \<le> 0
        then (FailedUpdateScheduleRuleResult (Status_Error kInvalidArgument msg_rule_id_zero) [], st)
      else
        (let loaded = rules_FindById (rs_rules svc) st (ur_rule_id command)
         in if \<not> ok loaded then (FailedUpdateScheduleRuleResult (status loaded) [], st)
            else
              (let rule = ApplyScheduleRulePatch command (the (val loaded));
                   field_validation = ValidateRuleFields rule
               in if \<not> status_ok field_validation then (FailedUpdateScheduleRuleResult field_validation [], st)
                  else
                    (let search_from = (case ur_start_date command of
                           Some d \<Rightarrow> AtLocalDate (the d) (ru_start_time rule) | None \<Rightarrow> now)
                     in case NextOccurrence rule search_from of
                          None \<Rightarrow> (FailedUpdateScheduleRuleResult
                                     (Status_Error kInvalidArgument msg_no_first_occurrence) [], st)
                        | Some first_time \<Rightarrow>
                          (let rule = rule\<lparr>ru_start_date := LocalDateFromUtc first_time\<rparr>;
                               date_validation = ValidateRuleDateRange rule
                           in if \<not> status_ok date_validation
                                then (FailedUpdateScheduleRuleResult date_validation [], st)
                              else
                                (let rule = rule\<lparr>ru_updated_at := now\<rparr>;
                                     first_instance = CreateOccurrence rule first_time;
                                     (window_start, window_end) = ScheduleNearbyWindow first_instance;
                                     candidates = repo_FindOverlapping (rs_schedules svc) st window_start window_end None
                                 in if \<not> ok candidates
                                      then (FailedUpdateScheduleRuleResult (Status_Error (code (status candidates))
                                              (msg_load_failed_prefix @ message (status candidates))) [], st)
                                    else
                                      (let conflicts = FindConflictingSchedules first_instance (the (val candidates))
                                             (Some (ur_rule_id command))
                                       in if conflicts \<noteq> [] \<and> \<not> ur_ignore_conflict command
                                            then (FailedUpdateScheduleRuleResult
                                                    (Status_Error kConflict msg_next_instance_conflict) conflicts, st)
                                          else
                                            (let (updated, st) =
                                                   rules_UpdateAndRebuild (rs_rules svc) st rule (Some first_instance)
                                             in if \<not> ok updated
                                                  then (FailedUpdateScheduleRuleResult (status updated) [], st)
                                                else
                                                  (\<lparr>urr_status = Status_Ok, urr_rule = val updated,
                                                    urr_schedules = [first_instance\<lparr>sc_rule_id := Some (ru_id rule)\<rparr>],
                                                    urr_conflicts = conflicts, urr_error = []\<rparr>, st)))))))))"

definition cancel_schedule_rule ::
    "'s ScheduleRuleService \<Rightarrow> 's \<Rightarrow> CancelScheduleRuleCommand \<Rightarrow> CancelScheduleRuleResult \<times> 's" where
  "cancel_schedule_rule svc st command =
     (if xr_rule_id command \<le> 0
        then (FailedCancelScheduleRuleResult (Status_Error kInvalidArgument msg_rule_id_zero) 0, st)
      else
        (let (cancelled, cancelled_count, st) =
               rules_CancelRuleAndInstances (rs_rules svc) st (xr_rule_id command) 0
         in if \<not> status_ok cancelled then (FailedCancelScheduleRuleResult cancelled 0, st)
            else
              (let rule = rules_FindById (rs_rules svc) st (xr_rule_id command)
               in if \<not> ok rule then (FailedCancelScheduleRuleResult (status rule) cancelled_count, st)
                  else (\<lparr>xrr_status = Status_Ok, xrr_rule = val rule, xrr_cancelled_count = cancelled_count,
                         xrr_error = []\<rparr>, st))))"

definition update_schedule_occurrence ::
    "'s ScheduleRuleService \<Rightarrow> 's \<Rightarrow> UpdateScheduleOccurrenceCommand \<Rightarrow> UpdateScheduleOccurrenceResult \<times> 's" where
  "update_schedule_occurrence svc st command =
     (if uo_rule_id command \<le> 0
        then (FailedUpdateScheduleOccurrenceResult (Status_Error kInvalidArgument msg_rule_id_zero), st)
      else
        (let rule = rules_FindById (rs_rules svc) st (uo_rule_id command);
             has_update = (uo_event command \<noteq> None \<or> uo_start_time command \<noteq> None \<or>
               uo_end_time command \<noteq> None \<or> uo_location command \<noteq> None \<or> uo_notes command \<noteq> None)
         in if \<not> ok rule then (FailedUpdateScheduleOccurrenceResult (status rule), st)
            else if \<not> has_update
              then (FailedUpdateScheduleOccurrenceResult (Status_Error kInvalidArgument msg_nothing_to_update), st)
            else
              (let existing = exc_FindByRuleAndTime (rs_exceptions svc) st (uo_rule_id command)
                     (uo_original_start_time command)
               in if \<not> ok existing then (FailedUpdateScheduleOccurrenceResult (status existing), st)
                  else
                    (let exception = (case the (val existing) of Some e \<Rightarrow> e | None \<Rightarrow> default_ScheduleException);
                         exception = (if ex_rule_id exception = 0
                           then exception\<lparr>ex_rule_id := uo_rule_id command,
                                  ex_original_start_time := uo_original_start_time command, ex_type := kModify\<rparr>
                           else exception);
                         exception = ApplyScheduleOccurrencePatch command (exception\<lparr>ex_type := kModify\<rparr>);
                         materialized = FindMaterializedScheduleOccurrence (rs_schedules svc) st
                           (uo_rule_id command) (uo_original_start_time command) (ex_schedule_id exception)
                     in if \<not> ok materialized then (FailedUpdateScheduleOccurrenceResult (status materialized), st)
                        else if the (val materialized) \<noteq> None
                          then (FailedUpdateScheduleOccurrenceResult
                                  (Status_Error kConflict msg_occurrence_generated_update), st)
                        else
                          (let (upserted, st) = exc_Upsert (rs_exceptions svc) st exception
                           in if \<not> ok upserted then (FailedUpdateScheduleOccurrenceResult (status upserted), st)
                              else (\<lparr>uor_status = Status_Ok, uor_schedule = None, uor_exception = val upserted,
                                     uor_conflicts = [], uor_error = []\<rparr>, st))))))"

definition skip_schedule_occurrence ::
    "'s ScheduleRuleService \<Rightarrow> 's \<Rightarrow> SkipScheduleOccurrenceCommand \<Rightarrow> SkipScheduleOccurrenceResult \<times> 's" where
  "skip_schedule_occurrence svc st command =
     (if so_rule_id command \<le> 0
        then (FailedSkipScheduleOccurrenceResult (Status_Error kInvalidArgument msg_rule_id_zero), st)
      else
        (let existing = exc_FindByRuleAndTime (rs_exceptions svc) st (so_rule_id command)
               (so_original_start_time command)
         in if \<not> ok existing then (FailedSkipScheduleOccurrenceResult (status existing), st)
            else if the (val existing) \<noteq> None
              then (\<lparr>sor_status = Status_Ok, sor_schedule = None, sor_exception = the (val existing),
                     sor_error = []\<rparr>, st)
            else
              (let materialized = FindMaterializedScheduleOccurrence (rs_schedules svc) st
                     (so_rule_id command) (so_original_start_time command) None
               in if \<not> ok materialized then (FailedSkipScheduleOccurrenceResult (status materialized), st)
                  else if the (val materialized) \<noteq> None
                    then (FailedSkipScheduleOccurrenceResult
                            (Status_Error kConflict msg_occurrence_generated_skip), st)
                  else
                    (let exception = default_ScheduleException\<lparr>ex_rule_id := so_rule_id command,
                           ex_original_start_time := so_original_start_time command, ex_type := kSkip\<rparr>;
                         (upserted, st) = exc_Upsert (rs_exceptions svc) st exception
                     in if \<not> ok upserted then (FailedSkipScheduleOccurrenceResult (status upserted), st)
                        else (\<lparr>sor_status = Status_Ok, sor_schedule = None, sor_exception = val upserted,
                               sor_error = []\<rparr>, st)))))"

text \<open>The loop of \<open>generate_next_schedule_instance\<close>, by the attempts that are left.\<close>

fun generate_next_loop ::
    "nat \<Rightarrow> 's ScheduleRuleService \<Rightarrow> 's \<Rightarrow> ScheduleRuleId \<Rightarrow> ScheduleRule \<Rightarrow> DateTime
       \<Rightarrow> GenerateNextScheduleInstanceResult \<times> 's" where
  "generate_next_loop 0 svc st rule_id rule cursor =
     (FailedGenerateNextScheduleInstanceResult (Status_Error kInternal msg_generation_limit), st)"
| "generate_next_loop (Suc n) svc st rule_id rule cursor =
     (case NextOccurrence rule cursor of
        None \<Rightarrow> (\<lparr>gnr_status = Status_Ok, gnr_schedule = None, gnr_error = []\<rparr>, st)
      | Some next \<Rightarrow>
        (let existing = exc_FindByRuleAndTime (rs_exceptions svc) st rule_id next
         in if \<not> ok existing then (FailedGenerateNextScheduleInstanceResult (status existing), st)
            else
              (let maybe_exception = the (val existing);
                   materialized = FindMaterializedScheduleOccurrence (rs_schedules svc) st rule_id next None
               in if maybe_exception \<noteq> None \<and> ex_schedule_id (the maybe_exception) \<noteq> None
                    then generate_next_loop n svc st rule_id rule (next + 1)
                  else if maybe_exception \<noteq> None \<and> ex_type (the maybe_exception) = kSkip
                    then generate_next_loop n svc st rule_id rule (next + 1)
                  else if maybe_exception = None \<and> \<not> ok materialized
                    then (FailedGenerateNextScheduleInstanceResult (status materialized), st)
                  else if maybe_exception = None \<and> the (val materialized) \<noteq> None
                    then generate_next_loop n svc st rule_id rule (next + 1)
                  else
                    (let schedule = CreateOccurrence rule next;
                         schedule = (case maybe_exception of None \<Rightarrow> schedule | Some e \<Rightarrow> ApplyOverride schedule e);
                         schedule = schedule\<lparr>sc_rule_id := Some rule_id\<rparr>;
                         (inserted, st) = rules_CreateNextInstance (rs_rules svc) st schedule maybe_exception
                     in if \<not> ok inserted then (FailedGenerateNextScheduleInstanceResult (status inserted), st)
                        else (\<lparr>gnr_status = Status_Ok, gnr_schedule = val inserted, gnr_error = []\<rparr>, st)))))"

definition generate_next_schedule_instance ::
    "'s ScheduleRuleService \<Rightarrow> 's \<Rightarrow> DateTime \<Rightarrow> GenerateNextScheduleInstanceCommand
       \<Rightarrow> GenerateNextScheduleInstanceResult \<times> 's" where
  "generate_next_schedule_instance svc st now command =
     (if gn_rule_id command \<le> 0
        then (FailedGenerateNextScheduleInstanceResult (Status_Error kInvalidArgument msg_rule_id_zero), st)
      else
        (let rule = rules_FindById (rs_rules svc) st (gn_rule_id command)
         in if \<not> ok rule then (FailedGenerateNextScheduleInstanceResult (status rule), st)
            else generate_next_loop 1000 svc st (gn_rule_id command) (the (val rule)) now))"

end
