(* ===== verification/Rule_Store.thy ===== *)
theory Rule_Store
  imports Memory_Store
begin

text \<open>
  The contract between the rule service and the rule and exception repositories
  (\<open>schedule_rule_repository.h\<close>, \<open>schedule_exception_repository.h\<close>), and the proof that the in-memory
  store meets it. The store is seen as three maps: schedules by identifier, rules by identifier, and
  exceptions by rule and original start time.
\<close>

section \<open>The contract\<close>

text \<open>What a store may add to a rule or an exception: its identifier and its time stamps.\<close>

definition rule_stored_as :: "ScheduleRule \<Rightarrow> ScheduleRule \<Rightarrow> bool" where
  "rule_stored_as r r' \<longleftrightarrow> r' = r\<lparr>ru_id := ru_id r', ru_created_at := ru_created_at r', ru_updated_at := ru_updated_at r'\<rparr>"

definition exception_stored_as :: "ScheduleException \<Rightarrow> ScheduleException \<Rightarrow> bool" where
  "exception_stored_as e e' \<longleftrightarrow>
     e' = e\<lparr>ex_id := ex_id e', ex_created_at := ex_created_at e', ex_updated_at := ex_updated_at e'\<rparr>"

lemma exception_stored_as_fields:
  assumes "exception_stored_as e e'"
  shows "ex_schedule_id e' = ex_schedule_id e" "ex_type e' = ex_type e" "exception_key e' = exception_key e"
  using assms by (metis exception_stored_as_def exception_key_def ScheduleException.ext_inject
      ScheduleException.surjective ScheduleException.update_convs ScheduleException.select_convs)+

text \<open>The instances a rebuild removes: those of the rule that are still active and start after \<open>now\<close>.\<close>

definition future_instance :: "ScheduleRuleId \<Rightarrow> DateTime \<Rightarrow> Schedule \<Rightarrow> bool" where
  "future_instance i now s \<longleftrightarrow> sc_rule_id s = Some i \<and> sc_status s = kActive \<and>
     (case sc_start_time s of None \<Rightarrow> False | Some t \<Rightarrow> now < t)"

definition active_instance :: "ScheduleRuleId \<Rightarrow> Schedule \<Rightarrow> bool" where
  "active_instance i s \<longleftrightarrow> sc_rule_id s = Some i \<and> sc_status s = kActive"

definition cancelled_at :: "DateTime \<Rightarrow> Schedule \<Rightarrow> Schedule" where
  "cancelled_at t s = s\<lparr>sc_status := kCancelled, sc_updated_at := t\<rparr>"

definition drop_entries :: "('a \<Rightarrow> bool) \<Rightarrow> ('k \<Rightarrow> 'a option) \<Rightarrow> 'k \<Rightarrow> 'a option" where
  "drop_entries P m k = (case m k of None \<Rightarrow> None | Some x \<Rightarrow> if P x then None else Some x)"

locale rule_store =
  schedule_repository R inv content
  for R :: "'s ScheduleRepository" and inv :: "'s \<Rightarrow> bool" and content :: "'s \<Rightarrow> ScheduleId \<Rightarrow> Schedule option" +
  fixes Ru :: "'s ScheduleRuleRepository"
    and Ex :: "'s ScheduleExceptionRepository"
    and rules :: "'s \<Rightarrow> ScheduleRuleId \<Rightarrow> ScheduleRule option"
    and exceptions :: "'s \<Rightarrow> ScheduleRuleId \<times> DateTime \<Rightarrow> ScheduleException option"
  assumes rule_id: "inv st \<Longrightarrow> rules st i = Some r \<Longrightarrow> ru_id r = i \<and> 0 < i"
    and rule_present: "inv st \<Longrightarrow> rules st i = Some r \<Longrightarrow> rules_FindById Ru st i = Success r"
    and rule_absent: "inv st \<Longrightarrow> rules st i = None \<Longrightarrow>
      \<not> ok (rules_FindById Ru st i) \<and> code (status (rules_FindById Ru st i)) = kNotFound"
    and exception_find: "inv st \<Longrightarrow> exc_FindByRuleAndTime Ex st i t = Success (exceptions st (i, t))"
    and exception_at: "inv st \<Longrightarrow> exceptions st k = Some e \<Longrightarrow> exception_key e = k \<and> 0 < fst k"
    and exception_upsert: "inv st \<Longrightarrow> 0 < ex_rule_id e \<Longrightarrow> exc_Upsert Ex st e = (saved, st') \<Longrightarrow>
      \<exists>e'. saved = Success e' \<and> exception_stored_as e e' \<and> exceptions st' = (exceptions st)(exception_key e \<mapsto> e') \<and>
           content st' = content st \<and> rules st' = rules st \<and> inv st'"
    and create_first: "inv st \<Longrightarrow> ru_event r \<noteq> [] \<Longrightarrow> sc_event s \<noteq> [] \<Longrightarrow>
      rules_CreateWithFirstInstance Ru st r (Some s) = (y, st') \<Longrightarrow>
      \<exists>r' s'. y = Success r' \<and> rule_stored_as r r' \<and> rules st (ru_id r') = None \<and>
              rules st' = (rules st)(ru_id r' \<mapsto> r') \<and>
              stored_as (s\<lparr>sc_rule_id := Some (ru_id r')\<rparr>) s' \<and> content st (sc_id s') = None \<and>
              content st' = (content st)(sc_id s' \<mapsto> s') \<and> exceptions st' = exceptions st \<and> inv st'"
    and rebuild: "inv st \<Longrightarrow> ru_event r \<noteq> [] \<Longrightarrow> sc_event s \<noteq> [] \<Longrightarrow> rules st (ru_id r) \<noteq> None \<Longrightarrow>
      rules_UpdateAndRebuild Ru st r (Some s) = (y, st') \<Longrightarrow>
      \<exists>now s'. y = Success r \<and> rules st' = (rules st)(ru_id r \<mapsto> r) \<and>
              stored_as (s\<lparr>sc_rule_id := Some (ru_id r)\<rparr>) s' \<and> content st (sc_id s') = None \<and>
              content st' = (drop_entries (future_instance (ru_id r) now) (content st))(sc_id s' \<mapsto> s') \<and>
              exceptions st' =
                drop_entries (\<lambda>e. ex_rule_id e = ru_id r \<and> now < ex_original_start_time e) (exceptions st) \<and> inv st'"
    and cancel_rule: "inv st \<Longrightarrow> rules st i = Some r \<Longrightarrow> rules_CancelRuleAndInstances Ru st i n = (w, m, st') \<Longrightarrow>
      \<exists>t. w = Status_Ok \<and> m = int (card {s \<in> ran (content st). active_instance i s}) \<and>
          rules st' = (rules st)(i \<mapsto> r\<lparr>ru_status := kCancelled, ru_updated_at := t\<rparr>) \<and>
          content st' = (\<lambda>k. map_option (\<lambda>s. if active_instance i s then cancelled_at t s else s) (content st k)) \<and>
          exceptions st' = drop_entries (\<lambda>e. ex_rule_id e = i) (exceptions st) \<and> inv st'"
    and create_next: "inv st \<Longrightarrow> sc_event s \<noteq> [] \<Longrightarrow> sc_rule_id s = Some i \<Longrightarrow> 0 < i \<Longrightarrow>
      (case linked of None \<Rightarrow> True | Some e \<Rightarrow> 0 < ex_rule_id e) \<Longrightarrow>
      rules_CreateNextInstance Ru st s linked = (x, st') \<Longrightarrow>
      \<exists>s'. x = Success s' \<and> stored_as s s' \<and> content st (sc_id s') = None \<and>
           content st' = (content st)(sc_id s' \<mapsto> s') \<and> rules st' = rules st \<and> inv st' \<and>
           (case linked of
              None \<Rightarrow> exceptions st' = exceptions st
            | Some e \<Rightarrow> \<exists>e'. exception_stored_as (e\<lparr>ex_schedule_id := Some (sc_id s')\<rparr>) e' \<and>
                exceptions st' = (exceptions st)(exception_key e \<mapsto> e'))"

section \<open>The in-memory store meets the contract\<close>

definition exception_map :: "MemoryStore \<Rightarrow> ScheduleRuleId \<times> DateTime \<Rightarrow> ScheduleException option" where
  "exception_map st k = List.find (\<lambda>e. exception_key e = k) (ms_exceptions st)"

lemma find_filter_key:
  assumes "distinct (map k xs)"
  shows "List.find (\<lambda>x. k x = i) (filter (\<lambda>x. \<not> P x) xs) = drop_entries P (\<lambda>i. List.find (\<lambda>x. k x = i) xs) i"
  using assms
proof (induction xs)
  case (Cons x xs)
  have "k x = i \<Longrightarrow> List.find (\<lambda>x. k x = i) xs = None" using Cons.prems by (auto simp: find_None_iff rev_image_eqI)
  then show ?case using Cons by (auto simp: drop_entries_def)
qed (simp add: drop_entries_def)

lemma find_map_key:
  assumes "\<And>x. k (f x) = k x"
  shows "List.find (\<lambda>x. k x = i) (map f xs) = map_option f (List.find (\<lambda>x. k x = i) xs)"
  by (induction xs) (auto simp: assms)

lemma find_rule_put:
  assumes "find_rule st (ru_id r) \<noteq> None"
  shows "find_rule (put_rule r st) = (find_rule st)(ru_id r \<mapsto> r)"
proof
  fix i
  show "find_rule (put_rule r st) i = ((find_rule st)(ru_id r \<mapsto> r)) i"
    using assms by (auto simp: find_rule_def put_rule_def find_update_first intro!: find_update_first_other)
qed

lemma find_rule_insert:
  assumes "store_inv st" "ru_event r \<noteq> []" "MemRule_InsertRuleLocked st r = (x, st')"
  shows "\<exists>r'. x = Success r' \<and> rule_stored_as r r' \<and> find_rule st (ru_id r') = None \<and>
     find_rule st' = (find_rule st)(ru_id r' \<mapsto> r') \<and> ms_schedules st' = ms_schedules st \<and>
     ms_exceptions st' = ms_exceptions st \<and> store_inv st'"
  using assms(3)
proof (cases rule: MemRule_InsertRuleLocked_cases)
  case (stored r')
  have k: "keyed ru_id (ms_next_rule_id st) (ms_rules st)" using assms(1) by (simp add: store_inv_def)
  have fresh: "find_rule st (ru_id r') = None" using keyed_fresh [OF k] stored by (simp add: find_rule_def)
  then have "find_rule st' = (find_rule st)(ru_id r' \<mapsto> r')"
    by (auto simp: fun_eq_iff find_rule_def stored(6) find_append split: option.splits)
  with fresh stored store_inv_InsertRuleLocked [OF assms(1,3)] show ?thesis
    by (auto simp: rule_stored_as_def)
qed (use assms(2) in simp)

lemma find_congs:
  "ms_schedules st' = ms_schedules st \<Longrightarrow> find_schedule st' = find_schedule st"
  "ms_rules st' = ms_rules st \<Longrightarrow> find_rule st' = find_rule st"
  "ms_exceptions st' = ms_exceptions st \<Longrightarrow> exception_map st' = exception_map st"
  by (auto simp: find_schedule_def find_rule_def exception_map_def)

lemma find_filters:
  assumes "store_inv st"
  shows "ms_schedules st' = filter (\<lambda>s. \<not> P s) (ms_schedules st) \<Longrightarrow> find_schedule st' = drop_entries P (find_schedule st)"
    and "ms_exceptions st' = filter (\<lambda>e. \<not> Q e) (ms_exceptions st) \<Longrightarrow> exception_map st' = drop_entries Q (exception_map st)"
proof -
  have d: "distinct (map sc_id (ms_schedules st))" "distinct (map exception_key (ms_exceptions st))"
    using assms by (simp_all add: store_inv_def keyed_def)
  have e: "find_schedule st = (\<lambda>i. List.find (\<lambda>x. sc_id x = i) (ms_schedules st))"
    "exception_map st = (\<lambda>k. List.find (\<lambda>x. exception_key x = k) (ms_exceptions st))" for st
    by (simp_all add: fun_eq_iff find_schedule_def exception_map_def)
  show "find_schedule st' = drop_entries P (find_schedule st)"
    if "ms_schedules st' = filter (\<lambda>s. \<not> P s) (ms_schedules st)"
    unfolding e that find_filter_key [OF d(1)] ..
  show "exception_map st' = drop_entries Q (exception_map st)"
    if "ms_exceptions st' = filter (\<lambda>e. \<not> Q e) (ms_exceptions st)"
    unfolding e that find_filter_key [OF d(2)] ..
qed

lemma exception_map_upsert:
  assumes "store_inv st" "0 < ex_rule_id e" "MemRule_UpsertExceptionLocked st e = (x, st')"
  shows "\<exists>e'. x = Success e' \<and> exception_stored_as e e' \<and> exception_map st' = (exception_map st)(exception_key e \<mapsto> e') \<and>
           find_schedule st' = find_schedule st \<and> find_rule st' = find_rule st \<and> store_inv st'"
  using assms(1,3)
proof (cases rule: MemRule_UpsertExceptionLocked_cases)
  case (stored e')
  have "exception_map st' = (exception_map st)(exception_key e \<mapsto> e')"
    using stored(8) by (auto simp: exception_map_def)
  with stored find_congs show ?thesis unfolding exception_stored_as_def by blast
qed (use assms(2) in simp)

lemma create_first_law:
  assumes "store_inv st" "ru_event r \<noteq> []" "sc_event s \<noteq> []"
    "MemRule_CreateWithFirstInstance st r (Some s) = (y, st')"
  shows "\<exists>r' s'. y = Success r' \<and> rule_stored_as r r' \<and> find_rule st (ru_id r') = None \<and>
     find_rule st' = (find_rule st)(ru_id r' \<mapsto> r') \<and>
     stored_as (s\<lparr>sc_rule_id := Some (ru_id r')\<rparr>) s' \<and> find_schedule st (sc_id s') = None \<and>
     find_schedule st' = (find_schedule st)(sc_id s' \<mapsto> s') \<and> exception_map st' = exception_map st \<and> store_inv st'"
proof -
  obtain created st1 where c: "MemRule_InsertRuleLocked st r = (created, st1)" by fastforce
  obtain r' where r': "created = Success r'" "rule_stored_as r r'" "find_rule st (ru_id r') = None"
    "find_rule st1 = (find_rule st)(ru_id r' \<mapsto> r')" "ms_schedules st1 = ms_schedules st"
    "ms_exceptions st1 = ms_exceptions st" "store_inv st1"
    using find_rule_insert [OF assms(1,2) c] by blast
  let ?s = "s\<lparr>sc_rule_id := Some (ru_id r')\<rparr>"
  obtain inserted st2 where i: "Mem_InsertScheduleLocked st1 ?s = (inserted, st2)" by fastforce
  have "sc_event ?s \<noteq> []" using assms(3) by simp
  from find_schedule_insert [OF r'(7) i this] obtain s' where s': "inserted = Success s'" "stored_as ?s s'"
    "find_schedule st1 (sc_id s') = None" "find_schedule st2 = (find_schedule st1)(sc_id s' \<mapsto> s')" "store_inv st2"
    "ms_rules st2 = ms_rules st1" "ms_exceptions st2 = ms_exceptions st1" by blast
  have "y = Success r'" "st' = st2"
    using assms(2-4) by (auto simp: MemRule_CreateWithFirstInstance_def first_event_empty_def c i r'(1) s'(1) Let_def)
  with r' s' find_congs show ?thesis by (metis (no_types))
qed

lemma rebuild_law:
  assumes "store_inv st" "ru_event r \<noteq> []" "sc_event s \<noteq> []" "find_rule st (ru_id r) \<noteq> None"
    "MemRule_UpdateAndRebuild st r (Some s) = (y, st')"
  shows "\<exists>now s'. y = Success r \<and> find_rule st' = (find_rule st)(ru_id r \<mapsto> r) \<and>
     stored_as (s\<lparr>sc_rule_id := Some (ru_id r)\<rparr>) s' \<and> find_schedule st (sc_id s') = None \<and>
     find_schedule st' = (drop_entries (future_instance (ru_id r) now) (find_schedule st))(sc_id s' \<mapsto> s') \<and>
     exception_map st' = drop_entries (\<lambda>e. ex_rule_id e = ru_id r \<and> now < ex_original_start_time e) (exception_map st) \<and>
     store_inv st'"
proof -
  let ?now = "fst (Mem_Now (put_rule r st))" and ?st = "snd (Mem_Now (put_rule r st))"
  let ?s = "s\<lparr>sc_rule_id := Some (ru_id r)\<rparr>"
  define st1 where "st1 = ?st\<lparr>ms_schedules := filter (\<lambda>s. \<not> future_instance (ru_id r) ?now s) (ms_schedules ?st),
    ms_exceptions := filter (\<lambda>e. \<not> (ex_rule_id e = ru_id r \<and> ?now < ex_original_start_time e)) (ms_exceptions ?st)\<rparr>"
  have inv1: "store_inv st1"
    unfolding st1_def using store_inv_put_rule [OF assms(1)] by (intro store_inv_purge) simp
  have [simp]: "ms_schedules (put_rule r st) = ms_schedules st" "ms_exceptions (put_rule r st) = ms_exceptions st"
    "ms_next_schedule_id st1 = ms_next_schedule_id st"
    by (simp_all add: put_rule_def st1_def Mem_Now_def)
  have rules1: "find_rule st1 = (find_rule st)(ru_id r \<mapsto> r)"
    unfolding find_rule_put [OF assms(4), symmetric] by (rule find_congs) (simp add: st1_def)
  have sched1: "find_schedule st1 = drop_entries (future_instance (ru_id r) ?now) (find_schedule st)"
    and exc1: "exception_map st1 =
      drop_entries (\<lambda>e. ex_rule_id e = ru_id r \<and> ?now < ex_original_start_time e) (exception_map st)"
    by (rule find_filters [OF assms(1)], simp add: st1_def)+
  have future: "(\<lambda>s. \<not> (sc_rule_id s = Some (ru_id r) \<and> sc_status s = kActive \<and> sc_start_time s \<noteq> None \<and>
      the (sc_start_time s) > t)) = (\<lambda>s. \<not> future_instance (ru_id r) t s)" for t
    by (auto simp: future_instance_def fun_eq_iff split: option.splits)
  obtain inserted st2 where i: "Mem_InsertScheduleLocked st1 ?s = (inserted, st2)" by fastforce
  have ev: "sc_event ?s \<noteq> []" using assms(3) by simp
  from i ev obtain s0 where "inserted = Success s0" "sc_id s0 = ms_next_schedule_id st"
    by (rule Mem_InsertScheduleLocked_cases) simp
  with find_schedule_insert [OF inv1 i ev] obtain s' where s': "inserted = Success s'" "stored_as ?s s'"
    "find_schedule st2 = (find_schedule st1)(sc_id s' \<mapsto> s')" "store_inv st2"
    "ms_rules st2 = ms_rules st1" "ms_exceptions st2 = ms_exceptions st1" "sc_id s' = ms_next_schedule_id st"
    by (metis Success_eq_iff)
  have "y = Success r" "st' = st2"
    using assms(2-5) i s' rules1 find_congs(2) [OF s'(5)]
    unfolding MemRule_UpdateAndRebuild_def future
    by (auto simp: first_event_empty_def Let_def case_prod_beta st1_def split: if_splits)
  moreover have "find_schedule st (sc_id s') = None"
    unfolding find_schedule_def s'(7) using assms(1) by (intro keyed_fresh) (auto simp: store_inv_def)
  ultimately show ?thesis
    using s'(2-4) sched1 exc1 rules1 find_congs(2) [OF s'(5)] find_congs(3) [OF s'(6)]
    by (intro exI [of _ ?now] exI [of _ s']) simp
qed

lemma count_matching:
  assumes "store_inv st"
  shows "length (filter P (ms_schedules st)) = card {s \<in> ran (find_schedule st). P s}"
proof -
  have "distinct (ms_schedules st)" using assms by (auto simp: store_inv_def keyed_def distinct_map)
  then have "length (filter P (ms_schedules st)) = card (set (filter P (ms_schedules st)))"
    by (metis distinct_card distinct_filter)
  also have "set (filter P (ms_schedules st)) = {s \<in> ran (find_schedule st). P s}"
    by (auto simp: ran_find_schedule [OF assms])
  finally show ?thesis .
qed

lemma cancel_law:
  assumes "store_inv st" "find_rule st i = Some r" "MemRule_CancelRuleAndInstances st i n = (w, m, st')"
  shows "\<exists>t. w = Status_Ok \<and> m = int (card {s \<in> ran (find_schedule st). active_instance i s}) \<and>
     find_rule st' = (find_rule st)(i \<mapsto> r\<lparr>ru_status := kCancelled, ru_updated_at := t\<rparr>) \<and>
     find_schedule st' = (\<lambda>k. map_option (\<lambda>s. if active_instance i s then cancelled_at t s else s) (find_schedule st k)) \<and>
     exception_map st' = drop_entries (\<lambda>e. ex_rule_id e = i) (exception_map st) \<and> store_inv st'"
proof -
  define t where "t = fst (Mem_Now st)"
  let ?st = "snd (Mem_Now st)" and ?r = "r\<lparr>ru_status := kCancelled, ru_updated_at := t\<rparr>"
  let ?f = "\<lambda>s. if active_instance i s then cancelled_at t s else s"
  have id: "ru_id ?r = i" using assms(2) by (auto simp: find_rule_def dest: find_SomeD)
  have res: "w = Status_Ok" "m = int (length (filter (active_instance i) (ms_schedules st)))"
    "st' = (put_rule ?r ?st)\<lparr>ms_schedules := map ?f (ms_schedules st),
       ms_exceptions := filter (\<lambda>e. \<not> ex_rule_id e = i) (ms_exceptions st)\<rparr>"
    using assms(2,3)
    by (auto simp: MemRule_CancelRuleAndInstances_def Let_def case_prod_beta put_rule_def active_instance_def [abs_def]
        cancelled_at_def t_def)
  have "find_rule st' = find_rule (put_rule ?r ?st)" by (rule find_congs) (simp add: res)
  moreover have "find_rule (put_rule ?r ?st) = (find_rule st)(i \<mapsto> ?r)"
    using find_rule_put [of ?st ?r] find_congs(2) [of ?st st] assms(2) id by simp
  moreover have "sc_id (?f s) = sc_id s" for s by (simp add: cancelled_at_def)
  then have "find_schedule st' = (\<lambda>k. map_option ?f (find_schedule st k))"
    using find_map_key [of sc_id ?f] by (simp add: fun_eq_iff find_schedule_def res)
  moreover have "exception_map st' = drop_entries (\<lambda>e. ex_rule_id e = i) (exception_map st)"
    by (rule find_filters [OF assms(1)]) (simp add: res)
  moreover have "store_inv st'" using store_inv_cancel_rule [OF assms(1), of i n] assms(3) by simp
  ultimately show ?thesis using res count_matching [OF assms(1)] by auto
qed

lemma create_next_law:
  assumes "store_inv st" "sc_event s \<noteq> []" "sc_rule_id s = Some i" "0 < i"
    "case linked of None \<Rightarrow> True | Some e \<Rightarrow> 0 < ex_rule_id e" "MemRule_CreateNextInstance st s linked = (x, st')"
  shows "\<exists>s'. x = Success s' \<and> stored_as s s' \<and> find_schedule st (sc_id s') = None \<and>
     find_schedule st' = (find_schedule st)(sc_id s' \<mapsto> s') \<and> find_rule st' = find_rule st \<and> store_inv st' \<and>
     (case linked of
        None \<Rightarrow> exception_map st' = exception_map st
      | Some e \<Rightarrow> \<exists>e'. exception_stored_as (e\<lparr>ex_schedule_id := Some (sc_id s')\<rparr>) e' \<and>
          exception_map st' = (exception_map st)(exception_key e \<mapsto> e'))"
proof -
  obtain inserted st1 where i: "Mem_InsertScheduleLocked st s = (inserted, st1)" by fastforce
  from find_schedule_insert [OF assms(1) i assms(2)] obtain s' where s': "inserted = Success s'" "stored_as s s'"
    "find_schedule st (sc_id s') = None" "find_schedule st1 = (find_schedule st)(sc_id s' \<mapsto> s')" "store_inv st1"
    "ms_rules st1 = ms_rules st" "ms_exceptions st1 = ms_exceptions st" by blast
  show ?thesis
  proof (cases linked)
    case None
    with assms(2-4,6) i s' have "x = Success s'" "st' = st1" by (auto simp: MemRule_CreateNextInstance_def)
    with None s'(2-5) find_congs(2) [OF s'(6)] find_congs(3) [OF s'(7)] show ?thesis by simp
  next
    case (Some e)
    let ?e = "e\<lparr>ex_schedule_id := Some (sc_id s')\<rparr>"
    obtain saved st2 where u: "MemRule_UpsertExceptionLocked st1 ?e = (saved, st2)" by fastforce
    have "0 < ex_rule_id ?e" using assms(5) Some by simp
    from exception_map_upsert [OF s'(5) this u] obtain e' where e': "saved = Success e'" "exception_stored_as ?e e'"
      "exception_map st2 = (exception_map st1)(exception_key ?e \<mapsto> e')" "find_schedule st2 = find_schedule st1"
      "find_rule st2 = find_rule st1" "store_inv st2" by blast
    have "x = Success s'" "st' = st2"
      using assms(2-4,6) i s'(1) u e'(1) Some by (auto simp: MemRule_CreateNextInstance_def Let_def)
    moreover have "exception_key ?e = exception_key e" by (simp add: exception_key_def)
    moreover have "find_rule st1 = find_rule st" "exception_map st1 = exception_map st"
      by (intro find_congs s')+
    ultimately show ?thesis using Some s'(2-4) e'(2-6) by auto
  qed
qed

interpretation memory_rule_store: rule_store memory_schedules store_inv find_schedule memory_rules memory_exceptions
  find_rule exception_map
proof
  fix st i r
  assume inv: "store_inv st"
  {
    assume r: "find_rule st i = Some r"
    then show "ru_id r = i \<and> 0 < i"
      using inv keyed_pos [of ru_id "ms_next_rule_id st" "ms_rules st" r]
      by (auto simp: store_inv_def find_rule_def dest!: find_SomeD)
    show "rules_FindById memory_rules st i = Success r" using r by (simp add: memory_methods MemRule_FindById_def)
    show "\<exists>t. w = Status_Ok \<and> m = int (card {s \<in> ran (find_schedule st). active_instance i s}) \<and>
        find_rule st' = (find_rule st)(i \<mapsto> r\<lparr>ru_status := kCancelled, ru_updated_at := t\<rparr>) \<and>
        find_schedule st' = (\<lambda>k. map_option (\<lambda>s. if active_instance i s then cancelled_at t s else s) (find_schedule st k)) \<and>
        exception_map st' = drop_entries (\<lambda>e. ex_rule_id e = i) (exception_map st) \<and> store_inv st'"
      if "rules_CancelRuleAndInstances memory_rules st i n = (w, m, st')" for n w m st'
      using cancel_law [OF inv r] that by (simp add: memory_methods)
  }
  show "\<not> ok (rules_FindById memory_rules st i) \<and> code (status (rules_FindById memory_rules st i)) = kNotFound"
    if "find_rule st i = None" using that by (simp add: memory_methods MemRule_FindById_def)
  show "exc_FindByRuleAndTime memory_exceptions st i t = Success (exception_map st (i, t))" for t
    by (simp add: memory_methods MemRule_FindByRuleAndTime_def exception_map_def exception_key_def)
  show "exception_key e = k \<and> 0 < fst k" if "exception_map st k = Some e" for k e
    using that inv by (auto simp: exception_map_def store_inv_def exception_key_def dest!: find_SomeD)
next
  fix st e saved st'
  assume "store_inv st" "0 < ex_rule_id e" "exc_Upsert memory_exceptions st e = (saved, st')"
  then show "\<exists>e'. saved = Success e' \<and> exception_stored_as e e' \<and> exception_map st' = (exception_map st)(exception_key e \<mapsto> e') \<and>
      find_schedule st' = find_schedule st \<and> find_rule st' = find_rule st \<and> store_inv st'"
    using exception_map_upsert by (simp add: memory_methods MemRule_Upsert_def)
qed (simp only: memory_methods ScheduleRuleRepository.simps, rule create_first_law rebuild_law create_next_law; assumption)+

end
