(* ===== verification/Rule_Correctness.thy ===== *)
theory Rule_Correctness
  imports Rule_Service Rule_Store Schedule_Service
begin

text \<open>
  Correctness of the rule service. The validation accepts only rules the planner is correct for;
  creating a rule anchors it at its first occurrence and keeps exactly the occurrences from there on;
  generating the next instance materializes the first occurrence that is neither skipped nor
  materialized, and closes it; cancelling a rule cancels exactly its active instances. The lemmas are
  proved once over the contract \<open>rule_store\<close>; the properties state them of the in-memory store.
\<close>

section \<open>Generating the next instance\<close>

text \<open>
  An occurrence of rule \<open>i\<close> is open when it may still be materialized: its exception, if it has one,
  neither skips it nor links an instance, and without an exception no instance of the rule starts at
  its time.
\<close>

definition materialized :: "(ScheduleId \<Rightarrow> Schedule option) \<Rightarrow> ScheduleRuleId \<Rightarrow> DateTime \<Rightarrow> bool" where
  "materialized content i t \<longleftrightarrow> (\<exists>s \<in> ran content. sc_rule_id s = Some i \<and> sc_start_time s = Some t)"

definition open_occurrence ::
    "(ScheduleId \<Rightarrow> Schedule option) \<Rightarrow> (ScheduleRuleId \<times> DateTime \<Rightarrow> ScheduleException option)
       \<Rightarrow> ScheduleRuleId \<Rightarrow> DateTime \<Rightarrow> bool" where
  "open_occurrence content exceptions i t =
     (case exceptions (i, t) of
        Some e \<Rightarrow> ex_schedule_id e = None \<and> ex_type e \<noteq> kSkip
      | None \<Rightarrow> \<not> materialized content i t)"

definition occurrence_instance ::
    "ScheduleRule \<Rightarrow> ScheduleRuleId \<Rightarrow> DateTime \<Rightarrow> ScheduleException option \<Rightarrow> Schedule" where
  "occurrence_instance r i t x =
     (case x of None \<Rightarrow> CreateOccurrence r t | Some e \<Rightarrow> ApplyOverride (CreateOccurrence r t) e)\<lparr>sc_rule_id := Some i\<rparr>"

lemma occurrence_instance_event:
  "ru_event r \<noteq> [] \<Longrightarrow> (\<And>e. x = Some e \<Longrightarrow> ex_override_event e \<noteq> Some []) \<Longrightarrow> sc_event (occurrence_instance r i t x) \<noteq> []"
  by (auto simp: occurrence_instance_def ApplyOverride_def split: option.splits)

lemma first_instant_skip:
  assumes "first_instant P c (Some t)" "\<not> Q t" "first_instant (\<lambda>t. P t \<and> Q t) (t + 1) x"
  shows "first_instant (\<lambda>t. P t \<and> Q t) c x"
proof -
  have "t < u" if "P u" "Q u" "c \<le> u" for u
    using assms(1,2) that by (cases "t = u") (auto simp: first_instant_def order_less_le)
  moreover have "c \<le> t" using assms(1) by (simp add: first_instant_def)
  ultimately show ?thesis using assms(3) by (cases x) (force simp: first_instant_def)+
qed

lemma first_instant_hit:
  assumes "first_instant P c (Some t)" "Q t"
  shows "first_instant (\<lambda>t. P t \<and> Q t) c (Some t)"
  using assms by (auto simp: first_instant_def)

context rule_store
begin

abbreviation service :: "'s ScheduleRuleService" where
  "service \<equiv> \<lparr>rs_rules = Ru, rs_exceptions = Ex, rs_schedules = R\<rparr>"

abbreviation is_open :: "'s \<Rightarrow> ScheduleRuleId \<Rightarrow> DateTime \<Rightarrow> bool" where
  "is_open st \<equiv> open_occurrence (content st) (exceptions st)"

lemma find_materialized:
  assumes "inv st"
  shows "\<exists>m. FindMaterializedScheduleOccurrence R st i t None = Success m \<and>
    (m = None \<longleftrightarrow> \<not> materialized (content st) i t)"
proof -
  let ?q = "\<lparr>qs_schedule_id = None, qs_rule_id = Some i, qs_keyword = None, qs_start_from = Some t,
    qs_start_to = Some t, qs_status = Filter_kAll, qs_limit = 1, qs_offset = 0\<rparr>"
  obtain xs where xs: "set xs = {s \<in> ran (content st). MatchesScheduleQuery s ?q}"
    "repo_Find R st ?q = Success (page 0 1 xs)" using query [OF assms, of ?q] by auto
  have "MatchesScheduleQuery s ?q \<longleftrightarrow> sc_rule_id s = Some i \<and> sc_start_time s = Some t" for s
    by (auto simp: MatchesScheduleQuery_def)
  then have "xs = [] \<longleftrightarrow> \<not> materialized (content st) i t"
    using xs(1) unfolding materialized_def set_empty [symmetric] by auto
  moreover have "page 0 1 xs = [] \<longleftrightarrow> xs = []" by (simp add: page_nonneg)
  ultimately show ?thesis using xs(2) by (simp add: FindMaterializedScheduleOccurrence_def Let_def)
qed

lemma generate_closed:
  assumes inv: "inv st" and t: "NextOccurrence r c = Some t" and closed: "\<not> is_open st i t"
  shows "generate_next_loop (Suc n) service st i r c = generate_next_loop n service st i r (t + 1)"
proof -
  obtain m where m: "FindMaterializedScheduleOccurrence R st i t None = Success m"
    "m = None \<longleftrightarrow> \<not> materialized (content st) i t" using find_materialized [OF inv] by blast
  from closed t m show ?thesis
    by (cases "exceptions st (i, t)") (auto simp: exception_find [OF inv] open_occurrence_def Let_def)
qed

lemma generate_open:
  assumes inv: "inv st" and t: "NextOccurrence r c = Some t" and "is_open st i t"
    and c: "rules_CreateNextInstance Ru st (occurrence_instance r i t (exceptions st (i, t))) (exceptions st (i, t)) =
      (Success s', st')"
  shows "generate_next_loop (Suc n) service st i r c =
    (\<lparr>gnr_status = Status_Ok, gnr_schedule = Some s', gnr_error = []\<rparr>, st')"
proof -
  obtain m where m: "FindMaterializedScheduleOccurrence R st i t None = Success m"
    "m = None \<longleftrightarrow> \<not> materialized (content st) i t" using find_materialized [OF inv] by blast
  from assms(3) t m c show ?thesis
    by (cases "exceptions st (i, t)")
      (simp_all add: exception_find [OF inv] open_occurrence_def occurrence_instance_def)
qed

lemma generate_loop:
  assumes inv: "inv st" and i: "0 < i" and r: "plan_series r" "ru_event r \<noteq> []"
    and named: "\<forall>t e. exceptions st (i, t) = Some e \<longrightarrow> ex_override_event e \<noteq> Some []"
    and horizon: "\<forall>t. \<not> is_open st i t \<longrightarrow> t < 31000000000000"
  shows "plan_instant c \<Longrightarrow> generate_next_loop n service st i r c = (res, st') \<Longrightarrow>
    (\<exists>t s'. first_instant (\<lambda>t. occurs r t \<and> is_open st i t) c (Some t) \<and>
       res = \<lparr>gnr_status = Status_Ok, gnr_schedule = Some s', gnr_error = []\<rparr> \<and>
       rules_CreateNextInstance Ru st (occurrence_instance r i t (exceptions st (i, t))) (exceptions st (i, t)) =
         (Success s', st')) \<or>
    (first_instant (\<lambda>t. occurs r t \<and> is_open st i t) c None \<and> st' = st \<and>
       res = \<lparr>gnr_status = Status_Ok, gnr_schedule = None, gnr_error = []\<rparr>) \<or>
    (\<exists>ts. length ts = n \<and> distinct ts \<and> (\<forall>t \<in> set ts. c \<le> t \<and> occurs r t \<and> \<not> is_open st i t) \<and> st' = st \<and>
       code (gnr_status res) = kInternal)"
proof (induction n arbitrary: c)
  case 0
  then show ?case by (auto simp: FailedGenerateNextScheduleInstanceResult_def)
next
  case (Suc n)
  note first = NextOccurrence_first [OF r(1) Suc.prems(1)]
  show ?case
  proof (cases "NextOccurrence r c")
    case None
    with first have "first_instant (\<lambda>t. occurs r t \<and> is_open st i t) c None" by (auto simp: first_instant_def)
    with None Suc.prems(2) show ?thesis by auto
  next
    case (Some t)
    with first have t: "first_instant (occurs r) c (Some t)" by simp
    let ?x = "exceptions st (i, t)"
    show ?thesis
    proof (cases "is_open st i t")
      case False
      then have loop: "generate_next_loop n service st i r (t + 1) = (res, st')"
        using Suc.prems(2) generate_closed [OF inv Some False] by simp
      have "plan_instant (t + 1)"
        using horizon False t Suc.prems(1) by (auto simp: plan_instant_def first_instant_def)
      from Suc.IH [OF this loop] show ?thesis
      proof (elim disjE exE conjE)
        fix ts
        assume ts: "length ts = n" "distinct ts" "\<forall>u \<in> set ts. t + 1 \<le> u \<and> occurs r u \<and> \<not> is_open st i u" "st' = st"
          "code (gnr_status res) = kInternal"
        then have "length (t # ts) = Suc n \<and> distinct (t # ts) \<and>
            (\<forall>u \<in> set (t # ts). c \<le> u \<and> occurs r u \<and> \<not> is_open st i u)"
          using t False by (force simp: first_instant_def)
        with ts show ?thesis by blast
      qed (use first_instant_skip [where Q = "is_open st i", OF t False] in blast)+
    next
      case True
      obtain created st1 where c: "rules_CreateNextInstance Ru st (occurrence_instance r i t ?x) ?x = (created, st1)"
        by fastforce
      have "case ?x of None \<Rightarrow> True | Some e \<Rightarrow> 0 < ex_rule_id e"
        using exception_at [OF inv] by (auto simp: exception_key_def split: option.split)
      moreover have "sc_event (occurrence_instance r i t ?x) \<noteq> []" using occurrence_instance_event r(2) named by blast
      ultimately obtain s' where s': "created = Success s'"
        using create_next [OF inv _ _ i _ c] by (auto simp: occurrence_instance_def)
      from generate_open [OF inv Some True c [unfolded s']]
      show ?thesis using Suc.prems(2) c s' first_instant_hit [where Q = "is_open st i", OF t True] by auto
    qed
  qed
qed

end

section \<open>Validation and anchoring\<close>

lemma frequency_error: "ValidateRuleFrequency r = Some st \<Longrightarrow> \<not> status_ok st"
  by (cases "ru_freq_type r") (auto simp: ValidateRuleFrequency_def split: if_splits)

lemma frequency_plannable:
  assumes "ValidateRuleFrequency r = None" "1 \<le> ru_interval_val r" "ru_interval_val r \<le> 1000000"
  shows "plan_rule r"
proof (cases "ru_freq_type r")
  case kMonthly
  then show ?thesis using assms
    by (cases "ru_monthly_mode r"; cases "the (ru_monthly_mode r)")
      (auto simp: ValidateRuleFrequency_def plan_rule_def plan_interval_def plan_month_def
        split: if_splits option.splits)
next
  case kYearly
  then show ?thesis using assms
    by (auto simp: ValidateRuleFrequency_def plan_rule_def plan_interval_def plan_year_def kMaximumMonthOfYear_def
        split: if_splits)
qed (use assms in \<open>simp_all add: plan_rule_def plan_interval_def\<close>)

lemma accepted_rule_plannable:
  assumes "status_ok (ValidateRuleFields r)" "ru_interval_val r \<le> 1000000"
  shows "plan_rule r" "0 \<le> time_of_day (ru_start_time r)" "time_of_day (ru_start_time r) < 86400" "ru_event r \<noteq> []"
proof -
  have ok: "ru_event r \<noteq> []" "1 \<le> ru_interval_val r" "ValidateRuleFrequency r = None" "clock_time (ru_start_time r)"
    using assms(1) frequency_error [of r] by (auto simp: ValidateRuleFields_def split: if_splits option.splits)
  then show "ru_event r \<noteq> []" "0 \<le> time_of_day (ru_start_time r)" "time_of_day (ru_start_time r) < 86400"
    by (auto simp: clock_time_def time_of_day_def)
  show "plan_rule r" using ok assms(2) by (intro frequency_plannable)
qed

lemma local_date_of_occurrence:
  assumes "plan_series r" "valid_local d" "plan_instant (OccurrenceAt r d)"
  shows "LocalDateFromUtc (OccurrenceAt r d) = d"
proof -
  have "from_day (OccurrenceAt r d) = date_days d"
    using assms(1) by (auto simp: from_day_def OccurrenceAt_eq plan_series_def)
  with assms show ?thesis by (simp add: LocalDateFromUtc_eq DateFromDays_date_days)
qed

lemma dvd_shift: "(k::int) dvd b - a \<Longrightarrow> k dvd c - b \<longleftrightarrow> k dvd c - a"
  using dvd_add_left_iff [of k "b - a" "c - b"] by simp

lemma monday_diff_div: "(monday c - monday a) div 7 = (c + 3) div 7 - (a + 3) div 7"
proof -
  have "monday n = 7 * ((n + 3) div 7) - 3" for n
    using mult_div_mod_eq [of 7 "n + 3"] unfolding monday_def by linarith
  then have "monday c - monday a = 7 * ((c + 3) div 7 - (a + 3) div 7)" by simp
  then show ?thesis by simp
qed

lemma rule_match_shift:
  assumes "valid_local b" "valid_local c" "date_days b \<le> date_days c" "rule_match r a b"
  shows "rule_match r b c \<longleftrightarrow> rule_match r a c"
proof (cases "ru_freq_type r")
  case kDaily
  with assms show ?thesis by (auto simp: rule_match_def daily_match_def dvd_shift)
next
  case kWeekly
  moreover have "(date_days b + 3) div 7 \<le> (date_days c + 3) div 7" using assms(3) by (simp add: zdiv_mono1)
  ultimately show ?thesis
    using assms(4) by (auto simp: rule_match_def weekly_match_def Let_def monday_diff_div dvd_shift)
next
  case kMonthly
  have "month_index b \<le> month_index c"
    using date_days_month_less [OF assms(2,1)] assms(3) by (force simp: month_index_def)
  with kMonthly assms(4) show ?thesis by (auto simp: rule_match_def monthly_match_def dvd_shift)
next
  case kYearly
  have "year b \<le> year c" using date_days_year_less [OF assms(2,1)] assms(3) by force
  with kYearly assms(4) show ?thesis by (auto simp: rule_match_def yearly_match_def dvd_shift)
qed

text \<open>A rule anchored at one of its occurrences has exactly its occurrences from there on.\<close>

lemma reanchored_occurrences:
  assumes r: "plan_series r" and t: "occurs r t" "plan_instant t"
  shows "occurs (r\<lparr>ru_start_date := LocalDateFromUtc t\<rparr>) u \<longleftrightarrow> occurs r u \<and> t \<le> u"
proof -
  obtain d where d: "series_day r d" "t = OccurrenceAt r d" using t(1) by (auto simp: occurs_def)
  then have v: "valid_local d" by (simp add: series_day_def)
  let ?r = "r\<lparr>ru_start_date := LocalDateFromUtc t\<rparr>"
  have anchor: "ru_start_date ?r = d" using local_date_of_occurrence [OF r v] d t(2) by simp
  have at: "OccurrenceAt ?r e = OccurrenceAt r e" for e by (simp add: OccurrenceAt_eq)
  have match: "rule_match ?r a e = rule_match r a e" for a e
    by (cases "ru_freq_type r")
      (simp_all add: rule_match_def daily_match_def weekly_match_def monthly_match_def yearly_match_def)
  have le: "OccurrenceAt r d \<le> OccurrenceAt r e \<longleftrightarrow> date_days d \<le> date_days e" for e by (simp add: OccurrenceAt_eq)
  have "series_day ?r e \<longleftrightarrow> series_day r e \<and> date_days d \<le> date_days e" for e
    using d(1) rule_match_shift [OF v, of e r "ru_start_date r"]
    unfolding series_day_def anchor match by (auto split: option.splits)
  then have "(\<exists>e. series_day ?r e \<and> u = OccurrenceAt r e) \<longleftrightarrow> (\<exists>e. series_day r e \<and> u = OccurrenceAt r e) \<and> t \<le> u"
    using le d(2) by metis
  then show ?thesis unfolding occurs_def at by simp
qed

section \<open>Creating and changing rules\<close>

text \<open>The rule a command asks for, before it is anchored, and the instant its search starts from.\<close>

definition requested_rule :: "CreateScheduleRuleCommand \<Rightarrow> DateTime \<Rightarrow> ScheduleRule" where
  "requested_rule c now = (CreateRuleFromCommand c)
     \<lparr>ru_start_date := (case cr_start_date c of Some d \<Rightarrow> d | None \<Rightarrow> LocalDateFromUtc now)\<rparr>"

definition requested_from :: "CreateScheduleRuleCommand \<Rightarrow> DateTime \<Rightarrow> DateTime" where
  "requested_from c now = (case cr_start_date c of Some d \<Rightarrow> AtLocalDate d (cr_start_time c) | None \<Rightarrow> now)"

definition anchored :: "ScheduleRule \<Rightarrow> DateTime \<Rightarrow> ScheduleRule" where
  "anchored r t = r\<lparr>ru_start_date := LocalDateFromUtc t\<rparr>"

text \<open>An active, timed schedule, of another rule than the one ignored, that conflicts with \<open>s\<close>.\<close>

definition blocks :: "ScheduleRuleId option \<Rightarrow> Schedule \<Rightarrow> Schedule \<Rightarrow> bool" where
  "blocks ignored s b \<longleftrightarrow> sc_status b = kActive \<and> sc_start_time b \<noteq> None \<and>
     (ignored = None \<or> sc_rule_id b \<noteq> ignored) \<and> SchedulesConflict s b"

definition all_timed :: "(ScheduleId \<Rightarrow> Schedule option) \<Rightarrow> bool" where
  "all_timed m \<longleftrightarrow> (\<forall>s \<in> ran m. sc_start_time s \<noteq> None \<longrightarrow> timed s)"

lemma ValidateRuleFields_start_date [simp]:
  "ValidateRuleFields (r\<lparr>ru_start_date := d\<rparr>) = ValidateRuleFields r"
proof -
  have "ValidateRuleFrequency (r\<lparr>ru_start_date := d\<rparr>) = ValidateRuleFrequency r"
    by (cases "ru_freq_type r") (simp_all add: ValidateRuleFrequency_def)
  then show ?thesis by (simp add: ValidateRuleFields_def)
qed

lemma accepted_instance_timed:
  assumes "status_ok (ValidateRuleFields r)"
  shows "timed (CreateOccurrence r t)"
proof -
  have "LocalTimeToSeconds (ru_start_time r) < LocalTimeToSeconds e" if "ru_end_time r = Some e" for e
    using assms that frequency_error [of r] by (auto simp: ValidateRuleFields_def split: if_splits option.splits)
  then show ?thesis by (auto simp: timed_def CreateOccurrence_def split: option.splits)
qed

context rule_store
begin

lemma overlap_blocks:
  assumes inv: "inv st" and all: "all_timed (content st)" and c: "timed c" "sc_id c = 0"
    and w: "ScheduleNearbyWindow c = (ws, we)"
  obtains xs where "repo_FindOverlapping R st ws we None = Success xs"
    "FindConflictingSchedules c xs ignored = [] \<longleftrightarrow> (\<forall>b \<in> ran (content st). \<not> blocks ignored c b)"
proof -
  obtain xs where xs: "repo_FindOverlapping R st ws we None = Success xs"
    "set xs = {s \<in> ran (content st). overlap_candidate ws we None s}" using overlapping [OF inv] by blast
  have "b \<in> set xs \<and> sc_id b \<noteq> 0" if b: "b \<in> ran (content st)" "blocks ignored c b" for b
  proof -
    obtain j where "content st j = Some b" using b(1) by (auto simp: ran_def)
    with content_id [OF inv] have "sc_id b \<noteq> 0" by fastforce
    moreover have "timed b" using all b by (auto simp: all_timed_def blocks_def)
    then have "in_window (ws, we) b" using window_complete [OF c(1)] b(2) w by (simp add: blocks_def)
    ultimately show ?thesis using b by (auto simp: xs(2) overlap_candidate_def blocks_def)
  qed
  moreover have "FindConflictingSchedules c xs ignored = [] \<longleftrightarrow>
      (\<forall>b \<in> set xs. sc_id b \<noteq> 0 \<longrightarrow> \<not> blocks ignored c b)"
    by (auto simp: FindConflictingSchedules_def filter_empty_conv blocks_def c(2))
  ultimately show thesis using that [OF xs(1)] xs(2) by blast
qed

lemma create_rule_effect:
  assumes inv: "inv st" and all: "all_timed (content st)"
    and run: "create_schedule_rule service st now c = (res, st')"
  defines "r0 \<equiv> requested_rule c now"
  obtains (rejected) "\<not> status_ok (crr_status res)" "st' = st"
  | (created) t r' s' where "status_ok (crr_status res)" "crr_rule res = Some r'"
      "status_ok (ValidateRuleFields (CreateRuleFromCommand c))" "NextOccurrence r0 (requested_from c now) = Some t"
      "status_ok (ValidateRuleDateRange (anchored r0 t))"
      "cr_ignore_conflict c \<or> (\<forall>b \<in> ran (content st). \<not> blocks None (CreateOccurrence (anchored r0 t) t) b)"
      "rule_stored_as (anchored r0 t) r'" "rules st (ru_id r') = None" "rules st' = (rules st)(ru_id r' \<mapsto> r')"
      "stored_as ((CreateOccurrence (anchored r0 t) t)\<lparr>sc_rule_id := Some (ru_id r')\<rparr>) s'"
      "content st (sc_id s') = None" "content st' = (content st)(sc_id s' \<mapsto> s')" "exceptions st' = exceptions st" "inv st'"
proof -
  note defs = create_schedule_rule_def Let_def FailedCreateScheduleRuleResult_def
  let ?r = "CreateRuleFromCommand c"
  have start: "ru_start_time (r\<lparr>ru_start_date := d\<rparr>) = ru_start_time r" for r :: ScheduleRule and d by simp
  have search: "(case cr_start_date c of None \<Rightarrow> now | Some d \<Rightarrow> AtLocalDate d (ru_start_time r0)) = requested_from c now"
    by (simp add: requested_from_def r0_def requested_rule_def CreateRuleFromCommand_def cong: option.case_cong)
  have r0: "?r\<lparr>ru_start_date := case cr_start_date c of None \<Rightarrow> LocalDateFromUtc now | Some d \<Rightarrow> d\<rparr> = r0"
    by (simp add: r0_def requested_rule_def)
  show thesis
  proof (cases "status_ok (ValidateRuleFields ?r)")
    case valid: True
    show thesis
    proof (cases "NextOccurrence r0 (requested_from c now)")
      case None
      with run valid show thesis by (intro rejected) (auto simp: defs r0 search)
    next
      case (Some t)
      let ?a = "anchored r0 t"
      let ?s = "CreateOccurrence ?a t"
      show thesis
      proof (cases "status_ok (ValidateRuleDateRange ?a)")
        case range: True
        obtain ws we where w: "ScheduleNearbyWindow ?s = (ws, we)" by fastforce
        have "timed ?s" using valid by (intro accepted_instance_timed) (simp add: anchored_def r0_def requested_rule_def)
        from overlap_blocks [OF inv all this _ w] obtain xs where xs: "repo_FindOverlapping R st ws we None = Success xs"
          "FindConflictingSchedules ?s xs None = [] \<longleftrightarrow> (\<forall>b \<in> ran (content st). \<not> blocks None ?s b)" by auto
        obtain y st1 where create: "rules_CreateWithFirstInstance Ru st ?a (Some ?s) = (y, st1)" by fastforce
        have "ru_event ?a \<noteq> []" "sc_event ?s \<noteq> []"
          using valid by (auto simp: ValidateRuleFields_def anchored_def r0_def requested_rule_def split: if_splits)
        from create_first [OF inv this create] obtain r' s' where y: "y = Success r'" "rule_stored_as ?a r'"
          "rules st (ru_id r') = None" "rules st1 = (rules st)(ru_id r' \<mapsto> r')"
          "stored_as (?s\<lparr>sc_rule_id := Some (ru_id r')\<rparr>) s'" "content st (sc_id s') = None"
          "content st1 = (content st)(sc_id s' \<mapsto> s')" "exceptions st1 = exceptions st" "inv st1" by blast
        note run' = run [unfolded create_schedule_rule_def Let_def, simplified r0 search, folded anchored_def]
        show thesis
        proof (cases "cr_ignore_conflict c \<or> FindConflictingSchedules ?s xs None = []")
          case True
          with run' valid Some range w xs(1) create y(1)
          have "st' = st1" "status_ok (crr_status res)" "crr_rule res = Some r'"
            by (auto simp: FailedCreateScheduleRuleResult_def split: if_splits)
          with True y valid Some range xs(2) show thesis by (intro created) auto
        next
          case False
          with run' valid Some range w xs(1) show thesis
            by (intro rejected) (auto simp: FailedCreateScheduleRuleResult_def)
        qed
      next
        case False
        with run valid Some show thesis by (intro rejected) (auto simp: defs r0 search anchored_def)
      qed
    qed
  next
    case False
    with run show thesis by (intro rejected) (auto simp: defs)
  qed
qed

lemma cancel_rule_effect:
  assumes inv: "inv st" and i: "rules st i = Some r"
    and run: "cancel_schedule_rule service st \<lparr>xr_rule_id = i\<rparr> = (res, st')"
  obtains t where "inv st'" "res = \<lparr>xrr_status = Status_Ok, xrr_rule = Some (r\<lparr>ru_status := kCancelled, ru_updated_at := t\<rparr>),
      xrr_cancelled_count = int (card {s \<in> ran (content st). active_instance i s}), xrr_error = []\<rparr>"
    "rules st' = (rules st)(i \<mapsto> r\<lparr>ru_status := kCancelled, ru_updated_at := t\<rparr>)"
    "content st' = (\<lambda>k. map_option (\<lambda>s. if active_instance i s then cancelled_at t s else s) (content st k))"
    "exceptions st' = drop_entries (\<lambda>e. ex_rule_id e = i) (exceptions st)"
proof -
  obtain w m st1 where c: "rules_CancelRuleAndInstances Ru st i 0 = (w, m, st1)" by (metis prod_cases3)
  from cancel_rule [OF inv i c] obtain t where t: "w = Status_Ok"
    "m = int (card {s \<in> ran (content st). active_instance i s})"
    "rules st1 = (rules st)(i \<mapsto> r\<lparr>ru_status := kCancelled, ru_updated_at := t\<rparr>)"
    "content st1 = (\<lambda>k. map_option (\<lambda>s. if active_instance i s then cancelled_at t s else s) (content st k))"
    "exceptions st1 = drop_entries (\<lambda>e. ex_rule_id e = i) (exceptions st)" "inv st1" by blast
  have "rules_FindById Ru st1 i = Success (r\<lparr>ru_status := kCancelled, ru_updated_at := t\<rparr>)"
    using rule_present [OF t(6)] t(3) by simp
  with run c t rule_id [OF inv i] show thesis by (intro that) (auto simp: cancel_schedule_rule_def)
qed

lemma skip_effect:
  assumes inv: "inv st" and i: "0 < i" and none: "exceptions st (i, t) = None"
    and run: "skip_schedule_occurrence service st \<lparr>so_rule_id = i, so_original_start_time = t\<rparr> = (res, st')"
  obtains (generated) "materialized (content st) i t" "code (sor_status res) = kConflict" "st' = st"
  | (skipped) e where "\<not> materialized (content st) i t" "sor_status res = Status_Ok" "sor_exception res = Some e"
      "ex_type e = kSkip" "exceptions st' = (exceptions st)((i, t) \<mapsto> e)" "content st' = content st"
      "rules st' = rules st" "inv st'"
proof -
  obtain m where m: "FindMaterializedScheduleOccurrence R st i t None = Success m"
    "m = None \<longleftrightarrow> \<not> materialized (content st) i t" using find_materialized [OF inv] by blast
  let ?e = "default_ScheduleException\<lparr>ex_rule_id := i, ex_original_start_time := t, ex_type := kSkip\<rparr>"
  have "\<not> i \<le> 0" using i by simp
  note eval = this skip_schedule_occurrence_def Let_def exception_find [OF inv] none m(1)
  show thesis
  proof (cases "materialized (content st) i t")
    case True
    with run m(2) show thesis by (intro generated) (auto simp: eval FailedSkipScheduleOccurrenceResult_def)
  next
    case False
    obtain saved st1 where u: "exc_Upsert Ex st ?e = (saved, st1)" by fastforce
    from exception_upsert [OF inv _ u] i obtain e where e: "saved = Success e" "exception_stored_as ?e e"
      "exceptions st1 = (exceptions st)(exception_key ?e \<mapsto> e)" "content st1 = content st" "rules st1 = rules st" "inv st1"
      by auto
    have "sor_status res = Status_Ok" "sor_exception res = Some e" "st' = st1"
      using run m(2) False u e(1) by (auto simp: eval)
    with False e exception_stored_as_fields [OF e(2)] show thesis
      by (intro skipped [of e]) (simp_all add: exception_key_def)
  qed
qed

end

section \<open>The service on the in-memory store\<close>

definition memory_rule_service :: "MemoryStore ScheduleRuleService" where
  "memory_rule_service = \<lparr>rs_rules = memory_rules, rs_exceptions = memory_exceptions, rs_schedules = memory_schedules\<rparr>"

text \<open>Every time the store holds is before \<open>h\<close>.\<close>

definition stored_before :: "DateTime \<Rightarrow> MemoryStore \<Rightarrow> bool" where
  "stored_before h st \<longleftrightarrow> (\<forall>e \<in> set (ms_exceptions st). ex_original_start_time e < h) \<and>
     (\<forall>s \<in> set (ms_schedules st). case sc_start_time s of None \<Rightarrow> True | Some t \<Rightarrow> t < h)"

abbreviation mem_open :: "MemoryStore \<Rightarrow> ScheduleRuleId \<Rightarrow> DateTime \<Rightarrow> bool" where
  "mem_open st \<equiv> open_occurrence (find_schedule st) (exception_map st)"

lemma closed_times:
  assumes "store_inv st"
  shows "{t. \<not> mem_open st i t} \<subseteq>
    set (map ex_original_start_time (ms_exceptions st)) \<union> set (map (the \<circ> sc_start_time) (ms_schedules st))"
proof
  fix t
  assume "t \<in> {t. \<not> mem_open st i t}"
  then have "(\<exists>e. exception_map st (i, t) = Some e) \<or> materialized (find_schedule st) i t"
    by (auto simp: open_occurrence_def split: option.splits)
  then show "t \<in> set (map ex_original_start_time (ms_exceptions st)) \<union> set (map (the \<circ> sc_start_time) (ms_schedules st))"
    by (force simp: exception_map_def materialized_def exception_key_def ran_find_schedule [OF assms] dest: find_SomeD)
qed

lemma closed_before:
  assumes "store_inv st" "stored_before h st" "\<not> mem_open st i t"
  shows "t < h"
proof -
  from assms(3) consider e where "exception_map st (i, t) = Some e" | "materialized (find_schedule st) i t"
    by (auto simp: open_occurrence_def split: option.splits)
  then show ?thesis
    using assms(2)
    by cases (force simp: exception_map_def materialized_def exception_key_def stored_before_def
        ran_find_schedule [OF assms(1)] dest: find_SomeD)+
qed

lemma closed_few:
  assumes "store_inv st" "distinct ts" "\<forall>t \<in> set ts. \<not> mem_open st i t"
  shows "length ts \<le> length (ms_exceptions st) + length (ms_schedules st)"
proof -
  let ?A = "set (map ex_original_start_time (ms_exceptions st))"
  let ?B = "set (map (the \<circ> sc_start_time) (ms_schedules st))"
  have "length ts = card (set ts)" using assms(2) by (simp add: distinct_card)
  also have "set ts \<subseteq> ?A \<union> ?B" using assms(3) closed_times [OF assms(1), of i] by auto
  then have "card (set ts) \<le> card (?A \<union> ?B)" by (intro card_mono) auto
  also have "\<dots> \<le> card ?A + card ?B" by (rule card_Un_le)
  also have "\<dots> \<le> length (ms_exceptions st) + length (ms_schedules st)"
    using card_length [of "map ex_original_start_time (ms_exceptions st)"]
      card_length [of "map (the \<circ> sc_start_time) (ms_schedules st)"] by simp
  finally show ?thesis .
qed

lemma occurs_stored:
  assumes "rule_stored_as r r'"
  shows "occurs r' = occurs r"
proof -
  have "rule_match (r\<lparr>ru_id := a, ru_created_at := b, ru_updated_at := c\<rparr>) = rule_match r" for a b c
    by (cases "ru_freq_type r")
      (simp_all add: fun_eq_iff rule_match_def daily_match_def weekly_match_def monthly_match_def yearly_match_def)
  then have "occurs (r\<lparr>ru_id := a, ru_created_at := b, ru_updated_at := c\<rparr>) = occurs r" for a b c
    by (simp add: fun_eq_iff occurs_def series_day_def OccurrenceAt_eq)
  with assms show ?thesis unfolding rule_stored_as_def by metis
qed

definition plannable_command :: "CreateScheduleRuleCommand \<Rightarrow> bool" where
  "plannable_command c \<longleftrightarrow> cr_interval_val c \<le> 1000000 \<and>
     (case cr_start_date c of None \<Rightarrow> True
      | Some d \<Rightarrow> plan_date d \<and> 0 \<le> date_days d \<and> date_days d \<le> 350000000) \<and>
     (case cr_end_date c of None \<Rightarrow> True | Some e \<Rightarrow> valid_local e)"

lemma requested_plan:
  assumes "plannable_command c" "plan_instant now" "status_ok (ValidateRuleFields (CreateRuleFromCommand c))"
  shows "plan_series (requested_rule c now)" "plan_instant (requested_from c now)"
proof -
  let ?r = "requested_rule c now"
  have a: "status_ok (ValidateRuleFields ?r)" using assms(3) by (simp add: requested_rule_def)
  have b: "ru_interval_val ?r \<le> 1000000"
    using assms(1) by (simp add: requested_rule_def plannable_command_def CreateRuleFromCommand_def)
  note v = accepted_rule_plannable [OF a b]
  have "plan_date (LocalDateFromUtc now)"
    using from_day_bounds [OF assms(2)] by (simp add: LocalDateFromUtc_eq assms(2) plan_date_DateFromDays)
  with v assms(1) show "plan_series ?r"
    by (auto simp: plan_series_def requested_rule_def plannable_command_def CreateRuleFromCommand_def split: option.splits)
  have "LocalTimeToSeconds (cr_start_time c) = time_of_day (ru_start_time ?r)"
    by (simp add: LocalTimeToSeconds_def time_of_day_def requested_rule_def CreateRuleFromCommand_def)
  with v assms(1,2) show "plan_instant (requested_from c now)"
    by (auto simp: requested_from_def plannable_command_def AtLocalDate_def plan_instant_def date_days_def
        kTimezoneOffsetSeconds_def split: option.splits)
qed

lemma OccurrencesForQuery_loop_eq: "OccurrencesForQuery_loop n r b a = PlanOccurrences_loop n r b a"
  by (induction n arbitrary: a) (auto split: option.splits)

definition selected_by :: "QueryScheduleRulesCommand \<Rightarrow> ScheduleRule \<Rightarrow> bool" where
  "selected_by c r \<longleftrightarrow> (case qr_rule_id c of None \<Rightarrow> True | Some i \<Rightarrow> ru_id r = i) \<and>
     (case qr_keyword c of None \<Rightarrow> True | Some k \<Rightarrow> Rule_MatchesKeyword r k) \<and> Rule_MatchesStatus r (qr_status c)"

lemma query_loop_memory:
  "query_schedule_rules_loop memory_rule_service st now c rs =
     Inr (map (\<lambda>r. \<lparr>rv_rule = r, rv_exceptions = filter (\<lambda>e. ex_rule_id e = ru_id r) (ms_exceptions st),
       rv_upcoming_occurrences = OccurrencesForQuery r now c\<rparr>) (filter (selected_by c) rs))"
  by (induction rs) (auto simp: selected_by_def memory_rule_service_def memory_methods MemRule_FindByRule_def Let_def
      split: option.splits)

text \<open>A rule for every second day at 09:30 from 1 January 2030 on, created on the empty store.\<close>

definition sample_rule_command :: CreateScheduleRuleCommand where
  "sample_rule_command = \<lparr>cr_event = ''run'', cr_freq_type = kDaily, cr_start_time = \<lparr>hour = 9, minute = 30, second = 0\<rparr>,
     cr_start_date = Some \<lparr>year = 2030, month = 1, day = 1\<rparr>, cr_end_time = None, cr_location = None, cr_notes = None,
     cr_interval_val = 2, cr_weekdays_mask = None, cr_day_of_month = None, cr_month_of_year = None,
     cr_monthly_mode = None, cr_end_date = None, cr_occurrence_count = None, cr_ignore_conflict = False\<rparr>"

definition sample_rule_store :: MemoryStore where
  "sample_rule_store =
     snd (create_schedule_rule memory_rule_service (empty_store (\<lambda>n. 1000 + int n)) 1000 sample_rule_command)"

definition sample_rule :: ScheduleRule where
  "sample_rule = \<lparr>ru_id = 1, ru_event = ''run'', ru_location = None, ru_notes = None, ru_freq_type = kDaily,
     ru_interval_val = 2, ru_weekdays_mask = None, ru_day_of_month = None, ru_month_of_year = None,
     ru_monthly_mode = None, ru_start_time = \<lparr>hour = 9, minute = 30, second = 0\<rparr>, ru_end_time = None,
     ru_start_date = \<lparr>year = 2030, month = 1, day = 1\<rparr>, ru_end_date = None, ru_occurrence_count = None,
     ru_status = kActive, ru_created_at = 1000, ru_updated_at = 1000\<rparr>"

lemma sample_rule_facts:
  "store_inv sample_rule_store" "find_rule sample_rule_store 1 = Some sample_rule" "ms_exceptions sample_rule_store = []"
  "map sc_start_time (ms_schedules sample_rule_store) = [Some 1893461400]" "ms_rules sample_rule_store = [sample_rule]"
  "map sc_rule_id (ms_schedules sample_rule_store) = [Some 1]"
  by code_simp+

lemma sample_rule_series: "plan_series sample_rule"
  by (simp add: plan_series_def plan_rule_def plan_interval_def plan_date_def sample_rule_def valid_date_def
      civil_year_def DaysInMonth_simps time_of_day_def)

section \<open>Properties\<close>

text \<open>
  C34. Creating a rule either changes nothing or stores it under a fresh identifier together with
  one instance: at the first occurrence of the requested rule from the requested date (or now) on.
  The stored rule is anchored there and has exactly the requested occurrences from it on. Unless
  conflicts are ignored, the instance conflicts with no active schedule.
\<close>

theorem rule_creation_correct:
  assumes "store_inv st" "all_timed (find_schedule st)" "plannable_command c" "plan_instant now"
    and "create_schedule_rule memory_rule_service st now c = (res, st')"
  shows "if status_ok (crr_status res) then
      \<exists>r t s. crr_rule res = Some r \<and> find_rule st (ru_id r) = None \<and> find_rule st' = (find_rule st)(ru_id r \<mapsto> r) \<and>
        first_instant (occurs (requested_rule c now)) (requested_from c now) (Some t) \<and>
        (plan_instant t \<longrightarrow> (\<forall>u. occurs r u \<longleftrightarrow> occurs (requested_rule c now) u \<and> t \<le> u)) \<and>
        sc_start_time s = Some t \<and> sc_rule_id s = Some (ru_id r) \<and> sc_event s = cr_event c \<and>
        find_schedule st (sc_id s) = None \<and> find_schedule st' = (find_schedule st)(sc_id s \<mapsto> s) \<and>
        (cr_ignore_conflict c \<or> (\<forall>b \<in> ran (find_schedule st). \<not> blocks None s b))
    else st' = st"
  using assms(1,2) assms(5) [unfolded memory_rule_service_def]
proof (cases rule: memory_rule_store.create_rule_effect)
  case (created t r s)
  note plan = requested_plan [OF assms(3,4) created(3)]
  have first: "first_instant (occurs (requested_rule c now)) (requested_from c now) (Some t)"
    using NextOccurrence_first [OF plan] created(4) by simp
  have occ: "occurs r u \<longleftrightarrow> occurs (requested_rule c now) u \<and> t \<le> u" if "plan_instant t" for u
    using reanchored_occurrences [OF plan(1) _ that] first
    by (simp add: occurs_stored [OF created(7)] anchored_def first_instant_def)
  note s = stored_as_fields [OF created(10)]
  have "blocks None s b = blocks None (CreateOccurrence (anchored (requested_rule c now) t) t) b" for b
    using SchedulesConflict_cong [of s "CreateOccurrence (anchored (requested_rule c now) t) t" b] s by (simp add: blocks_def)
  with created first occ s show ?thesis
    by (auto simp: anchored_def requested_rule_def CreateRuleFromCommand_def intro!: exI [of _ r] exI [of _ t] exI [of _ s])
qed simp

lemma sample_command_plannable: "plannable_command sample_rule_command" "plan_instant 1000"
proof -
  have v: "valid_date 2030 1 1" by (simp add: valid_date_def civil_year_def DaysInMonth_simps)
  then have "date_days \<lparr>year = 2030, month = 1, day = 1\<rparr> = 21915"
    by (simp add: date_days_def march_year_day_count march_defs year_start_def)
  with v show "plannable_command sample_rule_command"
    by (simp add: plannable_command_def sample_rule_command_def plan_date_def)
  show "plan_instant 1000" by (simp add: plan_instant_def kTimezoneOffsetSeconds_def)
qed

theorem rule_creation_correct_witness:
  "\<exists>r t s. find_rule sample_rule_store = [ru_id r \<mapsto> r] \<and> find_schedule sample_rule_store = [sc_id s \<mapsto> s] \<and>
     first_instant (occurs (requested_rule sample_rule_command 1000)) (requested_from sample_rule_command 1000) (Some t) \<and>
     sc_start_time s = Some t"
proof -
  let ?st = "empty_store (\<lambda>n. 1000 + int n)"
  obtain res where run: "create_schedule_rule memory_rule_service ?st 1000 sample_rule_command = (res, sample_rule_store)"
    by (metis prod.collapse sample_rule_store_def)
  have "status_ok (crr_status (fst (create_schedule_rule memory_rule_service ?st 1000 sample_rule_command)))" by code_simp
  then have "status_ok (crr_status res)" by (simp add: run)
  moreover have "find_rule ?st = Map.empty" by (simp add: fun_eq_iff find_rule_def empty_store_def)
  moreover have "all_timed (find_schedule ?st)" by (simp add: all_timed_def empty_store_content)
  ultimately show ?thesis
    using rule_creation_correct [OF empty_store_inv _ sample_command_plannable run] empty_store_content [of "\<lambda>n. 1000 + int n"]
    by (auto split: if_splits)
qed



text \<open>
  Skipping an occurrence that has no exception yet either reports a conflict, because its
  instance exists, and changes nothing, or closes this occurrence and no other, so that no later
  generation materializes it.
\<close>

theorem skipped_occurrence_closed:
  assumes "store_inv st" "0 < i" "exception_map st (i, t) = None"
    and "skip_schedule_occurrence memory_rule_service st \<lparr>so_rule_id = i, so_original_start_time = t\<rparr> = (res, st')"
  shows "if materialized (find_schedule st) i t then code (sor_status res) = kConflict \<and> st' = st
    else sor_status res = Status_Ok \<and> find_schedule st' = find_schedule st \<and> find_rule st' = find_rule st \<and>
      (\<forall>j u. mem_open st' j u \<longleftrightarrow> mem_open st j u \<and> (j, u) \<noteq> (i, t))"
  using assms(1-3) assms(4) [unfolded memory_rule_service_def]
proof (cases rule: memory_rule_store.skip_effect)
  case (skipped e)
  then show ?thesis by (auto simp: open_occurrence_def)
qed simp

theorem skipped_occurrence_closed_witness:
  "let (res, st') = skip_schedule_occurrence memory_rule_service sample_rule_store \<lparr>so_rule_id = 1, so_original_start_time = 1893634200\<rparr>
   in sor_status res = Status_Ok \<and> \<not> mem_open st' 1 1893634200"
proof -
  obtain res st' where run: "skip_schedule_occurrence memory_rule_service sample_rule_store
      \<lparr>so_rule_id = 1, so_original_start_time = 1893634200\<rparr> = (res, st')" by fastforce
  have "exception_map sample_rule_store (1, 1893634200) = None" by (simp add: exception_map_def sample_rule_facts(3))
  moreover have "\<not> materialized (find_schedule sample_rule_store) 1 1893634200"
    using sample_rule_facts(4) unfolding materialized_def ran_find_schedule [OF sample_rule_facts(1)] by auto
  ultimately have "sor_status res = Status_Ok \<and> \<not> mem_open st' 1 1893634200"
    using skipped_occurrence_closed [OF sample_rule_facts(1) zero_less_one _ run] by metis
  then show ?thesis by (simp add: run)
qed

text \<open>
  Cancelling a rule cancels every active instance of it and nothing else, counts them, removes
  the exceptions of the rule alone, and leaves the rule with no occurrence to generate.
\<close>

theorem rule_cancellation:
  assumes "store_inv st" "find_rule st i = Some r"
    and "cancel_schedule_rule memory_rule_service st \<lparr>xr_rule_id = i\<rparr> = (res, st')"
  shows "xrr_status res = Status_Ok \<and> xrr_cancelled_count res = int (card {s \<in> ran (find_schedule st). active_instance i s}) \<and>
    (\<exists>t. find_schedule st' = (\<lambda>k. map_option (\<lambda>s. if active_instance i s then cancelled_at t s else s) (find_schedule st k))) \<and>
    (\<forall>j u. exception_map st' (j, u) = (if j = i then None else exception_map st (j, u))) \<and>
    (\<exists>r'. xrr_rule res = Some r' \<and> find_rule st' = (find_rule st)(i \<mapsto> r') \<and> (\<forall>u. \<not> occurs r' u))"
  using assms(1,2) assms(3) [unfolded memory_rule_service_def]
proof (cases rule: memory_rule_store.cancel_rule_effect)
  case (1 t)
  have "exception_map st' (j, u) = (if j = i then None else exception_map st (j, u))" for j u
    unfolding 1(5) drop_entries_def
    using memory_rule_store.exception_at [OF assms(1), of "(j, u)"] by (auto simp: exception_key_def split: option.split)
  with 1 show ?thesis by (auto simp: occurs_def)
qed

theorem rule_cancellation_witness:
  "let (res, st') = cancel_schedule_rule memory_rule_service sample_rule_store \<lparr>xr_rule_id = 1\<rparr>
   in xrr_status res = Status_Ok \<and> (\<exists>r. find_rule st' = (find_rule sample_rule_store)(1 \<mapsto> r) \<and> (\<forall>u. \<not> occurs r u))"
proof -
  obtain res st' where run: "cancel_schedule_rule memory_rule_service sample_rule_store \<lparr>xr_rule_id = 1\<rparr> = (res, st')"
    by fastforce
  from rule_cancellation [OF sample_rule_facts(1,2) this] run show ?thesis by auto
qed

text \<open>
  A query over a window of time returns the requested page of the rules it selects, in the
  order they are stored, each with its exceptions and with its occurrences in the window: all of
  them, or the first 256.
\<close>

theorem rule_query_correct:
  assumes "\<forall>r \<in> set (ms_rules st). plan_series r" "plan_instant a" "a < b" "b \<le> 31000000000000"
    and "qr_occurrence_start c = Some a" "qr_occurrence_end c = Some b"
    and "0 \<le> qr_offset c" "qr_offset c < 2 ^ 32" "0 \<le> qr_limit c" "qr_limit c < 2 ^ 32"
  shows "\<exists>vs. qrr_status (query_schedule_rules memory_rule_service st now c) = Status_Ok \<and>
    qrr_rules (query_schedule_rules memory_rule_service st now c) = take (nat (qr_limit c)) (drop (nat (qr_offset c)) vs) \<and>
    qrr_total (query_schedule_rules memory_rule_service st now c) = int (length vs) \<and>
    map rv_rule vs = filter (selected_by c) (ms_rules st) \<and>
    (\<forall>v \<in> set vs. rv_exceptions v = filter (\<lambda>e. ex_rule_id e = ru_id (rv_rule v)) (ms_exceptions st) \<and>
       first_instants (occurs (rv_rule v)) a b 256 (rv_upcoming_occurrences v))"
proof -
  let ?view = "\<lambda>r. \<lparr>rv_rule = r, rv_exceptions = filter (\<lambda>e. ex_rule_id e = ru_id r) (ms_exceptions st),
    rv_upcoming_occurrences = OccurrencesForQuery r now c\<rparr>"
  let ?vs = "map ?view (filter (selected_by c) (ms_rules st))"
  have "first_instants (occurs r) a b 256 (OccurrencesForQuery r now c)" if "r \<in> set (ms_rules st)" for r
    using PlanOccurrences_loop_first [of r b a 256] assms that
    by (simp add: OccurrencesForQuery_def OccurrencesForQuery_loop_eq kMaximumQueryOccurrences_def)
  moreover have "query_schedule_rules memory_rule_service st now c =
      \<lparr>qrr_status = Status_Ok, qrr_rules = take (nat (qr_limit c)) (drop (nat (qr_offset c)) ?vs),
       qrr_total = int (length ?vs), qrr_error = []\<rparr>"
    unfolding query_schedule_rules_def
    by (simp add: query_loop_memory Let_def memory_rule_service_def [symmetric])
      (use assms(7-10) in \<open>auto simp: size_of_int_nonneg min_def memory_rule_service_def memory_methods MemRule_FindAll_def\<close>)
  ultimately show ?thesis by (intro exI [of _ ?vs]) (auto simp: comp_def)
qed

theorem rule_query_correct_witness:
  "\<exists>vs. qrr_rules (query_schedule_rules memory_rule_service sample_rule_store 0
       \<lparr>qr_rule_id = None, qr_keyword = Some ''un'', qr_status = Filter_kActive, qr_occurrence_start = Some 1893600000,
        qr_occurrence_end = Some 1894000000, qr_limit = 10, qr_offset = 0\<rparr>) = take 10 (drop 0 vs) \<and>
     map rv_rule vs = [sample_rule] \<and>
     (\<forall>v \<in> set vs. first_instants (occurs (rv_rule v)) 1893600000 1894000000 256 (rv_upcoming_occurrences v))"
proof -
  let ?c = "\<lparr>qr_rule_id = None, qr_keyword = Some ''un'', qr_status = Filter_kActive, qr_occurrence_start = Some 1893600000,
        qr_occurrence_end = Some 1894000000, qr_limit = 10, qr_offset = 0\<rparr>"
  have rules: "\<forall>r \<in> set (ms_rules sample_rule_store). plan_series r"
    by (simp add: sample_rule_facts(5) sample_rule_series)
  have a: "plan_instant 1893600000" by (simp add: plan_instant_def kTimezoneOffsetSeconds_def)
  have "filter (selected_by ?c) [sample_rule] = [sample_rule]" by code_simp
  with rule_query_correct [OF rules a, of 1894000000 ?c 0] show ?thesis by (auto simp: sample_rule_facts(5))
qed

text \<open>
  An instance that has been moved to another time no longer counts as the instance of its
  occurrence: the next generation materializes the occurrence a second time.
\<close>

theorem moved_instance_generated_again:
  "let st = snd (update_schedule memory_service sample_rule_store 1000 \<lparr>us_schedule_id = 1, us_event = None,
         us_start_time = Some (Some 1893465000), us_end_time = None, us_location = None, us_notes = None,
         us_ignore_conflict = False\<rparr>);
       (res, st') = generate_next_schedule_instance memory_rule_service st 1000 \<lparr>gn_rule_id = 1\<rparr>
   in map sc_start_time (ms_schedules st') = [Some 1893465000, Some 1893461400] \<and>
      map sc_rule_id (ms_schedules st') = [Some 1, Some 1]"
  by code_simp

end
