(* ===== verification/Reminder_Tasks.thy ===== *)
theory Reminder_Tasks
  imports Schedule_Types Messages
begin

text \<open>
  Reminder task records: \<open>schedule_reminder_task_repository.h\<close> and its in-memory implementation
  \<open>memory_schedule_reminder_task_repository.cc\<close>. The repository admits only valid records, one per
  attempt of a chain, one per timing task and one per user operation; the contract
  \<open>reminder_task_repository\<close> states what the reminder service relies on.
\<close>

section \<open>Records\<close>

datatype ScheduleReminderBusinessStatus =
  kScheduled | kWaitingAcknowledgement | kAcknowledged | kExhausted | Business_kCancelled | kSnoozed

datatype ScheduleReminderActionKind = kAcknowledge | kSnooze

datatype ScheduleReminderTimerStatus = kPending | kTriggered | Timer_kCancelled | Timer_kCompleted | kFailed

record ScheduleReminderTask =
  rk_id :: int
  rk_schedule_id :: ScheduleId
  rk_event :: string
  rk_chain_id :: int
  rk_attempt :: int
  rk_timing_task_id :: "string option"
  rk_trigger_at :: DateTime
  rk_business_status :: ScheduleReminderBusinessStatus
  rk_timer_status :: ScheduleReminderTimerStatus
  rk_triggered_at :: "DateTime option"
  rk_action_operation_id :: "string option"
  rk_action_kind :: "ScheduleReminderActionKind option"
  rk_action_occurred_at :: "DateTime option"
  rk_action_next_trigger_at :: "DateTime option"
  rk_created_at :: DateTime
  rk_updated_at :: DateTime

record 's ScheduleReminderTaskRepository =
  tasks_Insert :: "'s \<Rightarrow> ScheduleReminderTask \<Rightarrow> ScheduleReminderTask Result \<times> 's"
  tasks_Update :: "'s \<Rightarrow> ScheduleReminderTask \<Rightarrow> Status \<times> 's"
  tasks_FindById :: "'s \<Rightarrow> int \<Rightarrow> ScheduleReminderTask Result"
  tasks_FindByTimingTaskId :: "'s \<Rightarrow> string \<Rightarrow> ScheduleReminderTask Result"
  tasks_FindBySchedule :: "'s \<Rightarrow> ScheduleId \<Rightarrow> ScheduleReminderTask list Result"
  tasks_FindAll :: "'s \<Rightarrow> ScheduleReminderTask list Result"
  tasks_FindTriggered :: "'s \<Rightarrow> DateTime \<Rightarrow> DateTime \<Rightarrow> ScheduleReminderTask list Result"

section \<open>The in-memory repository\<close>

record MemoryReminderTasks =
  mr_tasks :: "ScheduleReminderTask list"
  mr_next_id :: int
  mr_clock :: "nat \<Rightarrow> DateTime"
  mr_clock_reads :: nat

definition empty_reminders :: "(nat \<Rightarrow> DateTime) \<Rightarrow> MemoryReminderTasks" where
  "empty_reminders clock = \<lparr>mr_tasks = [], mr_next_id = 1, mr_clock = clock, mr_clock_reads = 0\<rparr>"

definition ValidAction :: "ScheduleReminderTask \<Rightarrow> bool" where
  "ValidAction task =
     (if rk_action_operation_id task = None
        then rk_action_kind task = None \<and> rk_action_occurred_at task = None \<and> rk_action_next_trigger_at task = None
      else if the (rk_action_operation_id task) = [] \<or> rk_action_kind task = None \<or> rk_action_occurred_at task = None
        then False
      else if the (rk_action_kind task) = kAcknowledge
        then rk_business_status task = kAcknowledged \<and> rk_action_next_trigger_at task = None
      else the (rk_action_kind task) = kSnooze \<and> rk_business_status task = kSnoozed \<and>
           rk_action_next_trigger_at task \<noteq> None)"

text \<open>The numeric range checks of the two enumerations hold for every enumerator.\<close>

definition Valid :: "ScheduleReminderTask \<Rightarrow> bool" where
  "Valid task \<longleftrightarrow> rk_schedule_id task > 0 \<and> rk_chain_id task > 0 \<and> rk_attempt task > 0 \<and> rk_attempt task \<le> 3 \<and>
     rk_trigger_at task \<noteq> 0 \<and> ValidAction task"

definition MemTask_Insert ::
    "MemoryReminderTasks \<Rightarrow> ScheduleReminderTask \<Rightarrow> ScheduleReminderTask Result \<times> MemoryReminderTasks" where
  "MemTask_Insert st task =
     (if \<not> Valid task then (Failure kInvalidArgument msg_task_fields_invalid, st)
      else if \<exists>v \<in> set (mr_tasks st). rk_chain_id v = rk_chain_id task \<and> rk_attempt v = rk_attempt task
        then (Failure kAlreadyExists msg_chain_attempt_exists, st)
      else if rk_timing_task_id task \<noteq> None \<and> (\<exists>v \<in> set (mr_tasks st). rk_timing_task_id v = rk_timing_task_id task)
        then (Failure kAlreadyExists msg_timing_id_exists, st)
      else if rk_action_operation_id task \<noteq> None \<and>
              (\<exists>v \<in> set (mr_tasks st). rk_action_operation_id v = rk_action_operation_id task)
        then (Failure kAlreadyExists msg_action_operation_exists, st)
      else
        (let stored = task\<lparr>rk_id := mr_next_id st\<rparr>;
             st = st\<lparr>mr_next_id := mr_next_id st + 1\<rparr>;
             now = mr_clock st (mr_clock_reads st);
             st = st\<lparr>mr_clock_reads := Suc (mr_clock_reads st)\<rparr>;
             stored = (if rk_created_at stored = 0 then stored\<lparr>rk_created_at := now\<rparr> else stored);
             stored = (if rk_updated_at stored = 0 then stored\<lparr>rk_updated_at := rk_created_at stored\<rparr> else stored)
         in (Success stored, st\<lparr>mr_tasks := mr_tasks st @ [stored]\<rparr>)))"

definition MemTask_Update :: "MemoryReminderTasks \<Rightarrow> ScheduleReminderTask \<Rightarrow> Status \<times> MemoryReminderTasks" where
  "MemTask_Update st task =
     (if List.find (\<lambda>v. rk_id v = rk_id task) (mr_tasks st) = None then (Status_Error kNotFound msg_task_missing, st)
      else if \<not> Valid task then (Status_Error kInvalidArgument msg_task_fields_invalid, st)
      else if \<exists>v \<in> set (mr_tasks st). rk_id v \<noteq> rk_id task \<and> rk_chain_id v = rk_chain_id task \<and> rk_attempt v = rk_attempt task
        then (Status_Error kAlreadyExists msg_chain_attempt_exists, st)
      else if rk_timing_task_id task \<noteq> None \<and>
              (\<exists>v \<in> set (mr_tasks st). rk_id v \<noteq> rk_id task \<and> rk_timing_task_id v = rk_timing_task_id task)
        then (Status_Error kAlreadyExists msg_timing_id_exists, st)
      else if rk_action_operation_id task \<noteq> None \<and>
              (\<exists>v \<in> set (mr_tasks st). rk_id v \<noteq> rk_id task \<and> rk_action_operation_id v = rk_action_operation_id task)
        then (Status_Error kAlreadyExists msg_action_operation_exists, st)
      else (Status_Ok, st\<lparr>mr_tasks := update_first (\<lambda>v. rk_id v = rk_id task) (\<lambda>_. task) (mr_tasks st)\<rparr>))"

definition MemTask_FindById :: "MemoryReminderTasks \<Rightarrow> int \<Rightarrow> ScheduleReminderTask Result" where
  "MemTask_FindById st i =
     (case List.find (\<lambda>v. rk_id v = i) (mr_tasks st) of
        None \<Rightarrow> Failure kNotFound msg_task_missing
      | Some found \<Rightarrow> Success found)"

definition MemTask_FindByTimingTaskId :: "MemoryReminderTasks \<Rightarrow> string \<Rightarrow> ScheduleReminderTask Result" where
  "MemTask_FindByTimingTaskId st timing_task_id =
     (case List.find (\<lambda>v. rk_timing_task_id v \<noteq> None \<and> the (rk_timing_task_id v) = timing_task_id) (mr_tasks st) of
        None \<Rightarrow> Failure kNotFound msg_task_missing
      | Some found \<Rightarrow> Success found)"

definition MemTask_FindBySchedule :: "MemoryReminderTasks \<Rightarrow> ScheduleId \<Rightarrow> ScheduleReminderTask list Result" where
  "MemTask_FindBySchedule st schedule_id = Success (filter (\<lambda>task. rk_schedule_id task = schedule_id) (mr_tasks st))"

definition MemTask_FindAll :: "MemoryReminderTasks \<Rightarrow> ScheduleReminderTask list Result" where
  "MemTask_FindAll st = Success (mr_tasks st)"

definition MemTask_FindTriggered ::
    "MemoryReminderTasks \<Rightarrow> DateTime \<Rightarrow> DateTime \<Rightarrow> ScheduleReminderTask list Result" where
  "MemTask_FindTriggered st from to =
     Success (filter (\<lambda>task. rk_triggered_at task \<noteq> None \<and> the (rk_triggered_at task) \<ge> from \<and>
       the (rk_triggered_at task) \<le> to \<and> rk_timer_status task = kTriggered \<and>
       (rk_business_status task = kWaitingAcknowledgement \<or> rk_business_status task = kExhausted)) (mr_tasks st))"

definition memory_reminder_tasks :: "MemoryReminderTasks ScheduleReminderTaskRepository" where
  "memory_reminder_tasks = \<lparr>tasks_Insert = MemTask_Insert, tasks_Update = MemTask_Update, tasks_FindById = MemTask_FindById,
     tasks_FindByTimingTaskId = MemTask_FindByTimingTaskId, tasks_FindBySchedule = MemTask_FindBySchedule,
     tasks_FindAll = MemTask_FindAll, tasks_FindTriggered = MemTask_FindTriggered\<rparr>"

section \<open>The contract\<close>

text \<open>
  A well-formed collection of records: identifiers, attempts of a chain, timing tasks and user
  operations are unique, and every record is valid.
\<close>

definition unique_option :: "('a \<Rightarrow> 'b option) \<Rightarrow> 'a list \<Rightarrow> bool" where
  "unique_option f xs \<longleftrightarrow> (\<forall>x \<in> set xs. \<forall>y \<in> set xs. f x \<noteq> None \<and> f x = f y \<longrightarrow> x = y)"

definition tasks_ok :: "ScheduleReminderTask list \<Rightarrow> bool" where
  "tasks_ok ts \<longleftrightarrow> distinct (map rk_id ts) \<and> (\<forall>t \<in> set ts. Valid t) \<and>
     unique_option (\<lambda>t. Some (rk_chain_id t, rk_attempt t)) ts \<and> unique_option rk_timing_task_id ts \<and>
     unique_option rk_action_operation_id ts"

definition task_stored_as :: "ScheduleReminderTask \<Rightarrow> ScheduleReminderTask \<Rightarrow> bool" where
  "task_stored_as t t' \<longleftrightarrow> t' = t\<lparr>rk_id := rk_id t', rk_created_at := rk_created_at t', rk_updated_at := rk_updated_at t'\<rparr>"

definition replace_task :: "ScheduleReminderTask \<Rightarrow> ScheduleReminderTask list \<Rightarrow> ScheduleReminderTask list" where
  "replace_task t ts = map (\<lambda>v. if rk_id v = rk_id t then t else v) ts"

locale reminder_task_repository =
  fixes T :: "'s ScheduleReminderTaskRepository"
    and tinv :: "'s \<Rightarrow> bool"
    and tasks :: "'s \<Rightarrow> ScheduleReminderTask list"
  assumes tasks_wf: "tinv st \<Longrightarrow> tasks_ok (tasks st)"
    and insert_task_result: "tinv st \<Longrightarrow> tasks_Insert T st t = (x, st') \<Longrightarrow>
      tinv st' \<and> (\<not> ok x \<and> tasks st' = tasks st \<or>
        (\<exists>t'. x = Success t' \<and> task_stored_as t t' \<and> tasks st' = tasks st @ [t']))"
    and update_task_result: "tinv st \<Longrightarrow> tasks_Update T st t = (w, st') \<Longrightarrow>
      tinv st' \<and> (\<not> status_ok w \<and> tasks st' = tasks st \<or>
        w = Status_Ok \<and> rk_id t \<in> rk_id ` set (tasks st) \<and> tasks st' = replace_task t (tasks st))"
    and find_task: "tinv st \<Longrightarrow> (\<exists>t \<in> set (tasks st). rk_id t = i \<and> tasks_FindById T st i = Success t) \<or>
      (i \<notin> rk_id ` set (tasks st) \<and> \<not> ok (tasks_FindById T st i))"
    and find_by_timing: "tinv st \<Longrightarrow> (\<exists>t \<in> set (tasks st). rk_timing_task_id t = Some k \<and> tasks_FindByTimingTaskId T st k = Success t) \<or>
      (Some k \<notin> rk_timing_task_id ` set (tasks st) \<and> \<not> ok (tasks_FindByTimingTaskId T st k))"
    and find_by_schedule: "tinv st \<Longrightarrow> tasks_FindBySchedule T st j = Success (filter (\<lambda>t. rk_schedule_id t = j) (tasks st))"
    and find_all_tasks: "tinv st \<Longrightarrow> tasks_FindAll T st = Success (tasks st)"
    and find_triggered: "tinv st \<Longrightarrow> \<exists>ts. tasks_FindTriggered T st a b = Success ts \<and> set ts \<subseteq> set (tasks st)"

section \<open>The in-memory repository meets the contract\<close>

definition reminders_inv :: "MemoryReminderTasks \<Rightarrow> bool" where
  "reminders_inv st \<longleftrightarrow> tasks_ok (mr_tasks st) \<and> (\<forall>t \<in> set (mr_tasks st). rk_id t < mr_next_id st)"

lemma empty_reminders_inv: "reminders_inv (empty_reminders clock)"
  by (simp add: reminders_inv_def empty_reminders_def tasks_ok_def unique_option_def)

lemma unique_option_append:
  assumes "unique_option f xs" "f x \<noteq> None \<Longrightarrow> \<forall>y \<in> set xs. f y \<noteq> f x"
  shows "unique_option f (xs @ [x])"
  using assms unfolding unique_option_def by (auto; metis)

lemma Valid_stamps [simp]: "Valid (t\<lparr>rk_id := i, rk_created_at := c, rk_updated_at := u\<rparr>) = Valid t"
  by (simp add: Valid_def ValidAction_def)

lemma unique_option_replace:
  assumes "unique_option f xs" "f t \<noteq> None \<Longrightarrow> \<forall>y \<in> set xs. rk_id y \<noteq> rk_id t \<longrightarrow> f y \<noteq> f t"
  shows "unique_option f (replace_task t xs)"
  using assms unfolding unique_option_def replace_task_def by (auto split: if_splits) metis+

lemma update_first_replace:
  assumes "distinct (map rk_id ts)"
  shows "update_first (\<lambda>v. rk_id v = rk_id t) (\<lambda>_. t) ts = replace_task t ts"
  using assms
proof (induction ts)
  case (Cons a ts)
  have "replace_task t ts = ts" if "rk_id a = rk_id t" using Cons.prems that by (auto simp: replace_task_def rev_image_eqI intro!: map_idI)
  with Cons show ?case by (auto simp: replace_task_def)
qed (simp add: replace_task_def)

lemma map_id_replace: "map rk_id (replace_task t ts) = map rk_id ts"
  by (induction ts) (auto simp: replace_task_def)

lemma guard_passed:
  "(if c then (Status_Error e m, st) else r) = (w, st') \<Longrightarrow> status_ok w \<Longrightarrow> e \<noteq> kNone \<Longrightarrow> \<not> c \<and> r = (w, st')"
  by (auto split: if_splits)

lemma MemTask_Insert_cases:
  assumes "reminders_inv st" "MemTask_Insert st t = (x, st')"
  shows "reminders_inv st' \<and> (\<not> ok x \<and> mr_tasks st' = mr_tasks st \<or>
    (\<exists>t'. x = Success t' \<and> task_stored_as t t' \<and> mr_tasks st' = mr_tasks st @ [t']))"
proof (cases "ok x")
  case True
  define c where "c = (if rk_created_at t = 0 then mr_clock st (mr_clock_reads st) else rk_created_at t)"
  define u where "u = (if rk_updated_at t = 0 then c else rk_updated_at t)"
  let ?t = "t\<lparr>rk_id := mr_next_id st, rk_created_at := c, rk_updated_at := u\<rparr>"
  have guards: "Valid t" "\<not> (\<exists>v \<in> set (mr_tasks st). rk_chain_id v = rk_chain_id t \<and> rk_attempt v = rk_attempt t)"
    "rk_timing_task_id t \<noteq> None \<Longrightarrow> \<forall>v \<in> set (mr_tasks st). rk_timing_task_id v \<noteq> rk_timing_task_id t"
    "rk_action_operation_id t \<noteq> None \<Longrightarrow> \<forall>v \<in> set (mr_tasks st). rk_action_operation_id v \<noteq> rk_action_operation_id t"
    using assms(2) True by (auto simp: MemTask_Insert_def split: if_splits)
  have res: "x = Success ?t \<and> st' = st\<lparr>mr_next_id := mr_next_id st + 1, mr_clock_reads := Suc (mr_clock_reads st),
      mr_tasks := mr_tasks st @ [?t]\<rparr>"
    using assms(2) True
    by (cases t) (auto simp: MemTask_Insert_def Let_def c_def u_def split: if_splits)
  have "Valid ?t" using guards(1) by simp
  moreover have "unique_option (\<lambda>t. Some (rk_chain_id t, rk_attempt t)) (mr_tasks st @ [?t])"
    "unique_option rk_timing_task_id (mr_tasks st @ [?t])" "unique_option rk_action_operation_id (mr_tasks st @ [?t])"
    using assms(1) guards(2-4) by (auto simp: reminders_inv_def tasks_ok_def intro!: unique_option_append)
  ultimately have "reminders_inv st'"
    using assms(1) res by (force simp: reminders_inv_def tasks_ok_def)
  with res show ?thesis by (auto simp: task_stored_as_def)
next
  case False
  with assms have "st' = st" by (auto simp: MemTask_Insert_def Let_def split: if_splits)
  with False assms(1) show ?thesis by simp
qed

lemma MemTask_Update_cases:
  assumes "reminders_inv st" "MemTask_Update st t = (w, st')"
  shows "reminders_inv st' \<and> (\<not> status_ok w \<and> mr_tasks st' = mr_tasks st \<or>
    w = Status_Ok \<and> rk_id t \<in> rk_id ` set (mr_tasks st) \<and> mr_tasks st' = replace_task t (mr_tasks st))"
proof (cases "status_ok w")
  case True
  have d: "distinct (map rk_id (mr_tasks st))" using assms(1) by (simp add: reminders_inv_def tasks_ok_def)
  let ?taken = "\<lambda>f. \<exists>v \<in> set (mr_tasks st). rk_id v \<noteq> rk_id t \<and> f v"
  have ne: "kNotFound \<noteq> kNone" "kInvalidArgument \<noteq> kNone" "kAlreadyExists \<noteq> kNone" by simp_all
  note g1 = guard_passed [OF assms(2) [unfolded MemTask_Update_def update_first_replace [OF d]] True ne(1)]
  note g2 = guard_passed [OF g1 [THEN conjunct2] True ne(2)]
  note g3 = guard_passed [OF g2 [THEN conjunct2] True ne(3)]
  note g4 = guard_passed [OF g3 [THEN conjunct2] True ne(3)]
  note g5 = guard_passed [OF g4 [THEN conjunct2] True ne(3)]
  have found: "rk_id t \<in> rk_id ` set (mr_tasks st)" using g1 [THEN conjunct1] unfolding find_None_iff by (metis imageI)
  have valid: "Valid t" using g2 by blast
  have chain: "\<not> ?taken (\<lambda>v. rk_chain_id v = rk_chain_id t \<and> rk_attempt v = rk_attempt t)"
    and timing: "rk_timing_task_id t \<noteq> None \<Longrightarrow> \<not> ?taken (\<lambda>v. rk_timing_task_id v = rk_timing_task_id t)"
    and operation: "rk_action_operation_id t \<noteq> None \<Longrightarrow> \<not> ?taken (\<lambda>v. rk_action_operation_id v = rk_action_operation_id t)"
    using g3 g4 g5 by blast+
  have res: "w = Status_Ok" "st' = st\<lparr>mr_tasks := replace_task t (mr_tasks st)\<rparr>" using g5 by simp_all
  have "unique_option (\<lambda>t. Some (rk_chain_id t, rk_attempt t)) (replace_task t (mr_tasks st))"
    "unique_option rk_timing_task_id (replace_task t (mr_tasks st))"
    "unique_option rk_action_operation_id (replace_task t (mr_tasks st))"
    using assms(1) chain timing operation by (auto simp: reminders_inv_def tasks_ok_def intro!: unique_option_replace)
  moreover have "set (replace_task t (mr_tasks st)) \<subseteq> insert t (set (mr_tasks st))" by (auto simp: replace_task_def)
  ultimately have "reminders_inv st'"
    using assms(1) valid found d res unfolding reminders_inv_def tasks_ok_def by (auto simp: map_id_replace)
  with res found show ?thesis by auto
next
  case False
  with assms have "st' = st" by (auto simp: MemTask_Update_def split: if_splits)
  with False assms(1) show ?thesis by simp
qed

lemmas memory_task_methods = memory_reminder_tasks_def MemTask_FindById_def MemTask_FindByTimingTaskId_def
  MemTask_FindBySchedule_def MemTask_FindAll_def MemTask_FindTriggered_def

interpretation memory_reminders: reminder_task_repository memory_reminder_tasks reminders_inv mr_tasks
proof
  fix st i k j a b
  assume "reminders_inv st"
  then show "tasks_ok (mr_tasks st)" by (simp add: reminders_inv_def)
  show "(\<exists>t \<in> set (mr_tasks st). rk_id t = i \<and> tasks_FindById memory_reminder_tasks st i = Success t) \<or>
      (i \<notin> rk_id ` set (mr_tasks st) \<and> \<not> ok (tasks_FindById memory_reminder_tasks st i))"
    by (auto simp: memory_task_methods find_None_iff dest: find_SomeD split: option.split)
  show "(\<exists>t \<in> set (mr_tasks st). rk_timing_task_id t = Some k \<and> tasks_FindByTimingTaskId memory_reminder_tasks st k = Success t) \<or>
      (Some k \<notin> rk_timing_task_id ` set (mr_tasks st) \<and> \<not> ok (tasks_FindByTimingTaskId memory_reminder_tasks st k))"
  proof (cases "List.find (\<lambda>v. rk_timing_task_id v \<noteq> None \<and> the (rk_timing_task_id v) = k) (mr_tasks st)")
    case None
    then have "tasks_FindByTimingTaskId memory_reminder_tasks st k = Failure kNotFound msg_task_missing"
      by (simp add: memory_task_methods)
    moreover have "Some k \<notin> rk_timing_task_id ` set (mr_tasks st)" 
      using None unfolding find_None_iff by (metis imageE option.distinct(1) option.sel)
    ultimately show ?thesis by simp
  next
    case (Some t)
    then have "tasks_FindByTimingTaskId memory_reminder_tasks st k = Success t" by (simp add: memory_task_methods)
    with find_SomeD [OF Some] show ?thesis by auto
  qed
  show "tasks_FindBySchedule memory_reminder_tasks st j = Success (filter (\<lambda>t. rk_schedule_id t = j) (mr_tasks st))"
    "tasks_FindAll memory_reminder_tasks st = Success (mr_tasks st)"
    "\<exists>ts. tasks_FindTriggered memory_reminder_tasks st a b = Success ts \<and> set ts \<subseteq> set (mr_tasks st)"
    by (simp_all add: memory_task_methods)
next
  fix st t x st'
  assume "reminders_inv st" "tasks_Insert memory_reminder_tasks st t = (x, st')"
  then show "reminders_inv st' \<and> (\<not> ok x \<and> mr_tasks st' = mr_tasks st \<or>
      (\<exists>t'. x = Success t' \<and> task_stored_as t t' \<and> mr_tasks st' = mr_tasks st @ [t']))"
    using MemTask_Insert_cases by (simp add: memory_reminder_tasks_def)
next
  fix st t w st'
  assume "reminders_inv st" "tasks_Update memory_reminder_tasks st t = (w, st')"
  then show "reminders_inv st' \<and> (\<not> status_ok w \<and> mr_tasks st' = mr_tasks st \<or>
      w = Status_Ok \<and> rk_id t \<in> rk_id ` set (mr_tasks st) \<and> mr_tasks st' = replace_task t (mr_tasks st))"
    using MemTask_Update_cases by (simp add: memory_reminder_tasks_def)
qed

end
