(* ===== verification/Timing.thy ===== *)
theory Timing
  imports Contracts "HOL-Library.List_Lexorder" "HOL-Library.Char_ord"
begin

text \<open>
  \<open>voicelife_timing\<close>: the one-shot task runner of \<open>timing_task.cc\<close> and the runtime of
  \<open>timing_runtime.cc\<close> that arms a single timer for it. Callbacks are code of other components: a
  callback is a value of a type the caller chooses, and the function that runs it is an argument. A
  task callback may change the runner and the rest of the program, a result callback the rest of the
  program. \<open>std::list\<close> iterators are node numbers, so the index from identifiers to iterators is kept
  as the code keeps it.

  Proved here: the invariant of the runner over every sequence of calls (the queue is ordered, the
  index agrees with it, no task identifier is used twice), and that a batch runs the due tasks in
  order, each at most once.
\<close>

section \<open>Tasks and commands\<close>

type_synonym TaskId = string
type_synonym TriggerAt = int

definition TaskId_Create :: "string \<Rightarrow> TaskId option" where
  "TaskId_Create value = (if value = [] then None else Some value)"

datatype RegisterTaskResult = kRegistered | kDuplicate

datatype CancelTaskResult = Cancel_kCancelled | Cancel_kNotFound

datatype TaskStatus = Task_kPending | Task_kExecuting | Task_kCompleted | Task_kCancelled

record Task =
  ta_id :: TaskId
  ta_trigger_at :: TriggerAt
  ta_status :: TaskStatus
  ta_created_at :: TriggerAt
  ta_updated_at :: TriggerAt

record ('c, 'r) RegisterTaskCommand =
  rt_task_id :: TaskId
  rt_trigger_at :: TriggerAt
  rt_callback :: 'c
  rt_on_result :: "'r option"

record 'x CancelTaskCommand =
  ct_task_id :: TaskId
  ct_on_result :: "'x option"

datatype CommandAcceptance = kAccepted | Acceptance_kUnavailable

record RunDueTasksResult =
  processed_count :: nat
  skipped_count :: nat
  next_wake_at :: "TriggerAt option"

definition CanTransition :: "TaskStatus \<Rightarrow> TaskStatus \<Rightarrow> bool" where
  "CanTransition from to =
     (if from = Task_kPending then to = Task_kExecuting \<or> to = Task_kCancelled
      else from = Task_kExecuting \<and> to = Task_kCompleted)"

section \<open>The runner\<close>

record 'c PendingTask =
  pt_task :: Task
  pt_callback :: 'c

datatype ('c, 'r, 'x) PendingCommand =
  Pending_Register "('c, 'r) RegisterTaskCommand" | Pending_Cancel "'x CancelTaskCommand"

type_synonym node = nat

text \<open>
  \<open>in_callback\<close> is \<open>active_callback_runner == this\<close> on the thread that runs the runner;
  \<open>next_node\<close> numbers the list nodes.
\<close>

record ('c, 'r, 'x) InMemoryTimingTaskRunner =
  commands :: "('c, 'r, 'x) PendingCommand list"
  used_task_ids :: "TaskId list"
  pending_tasks :: "(node \<times> 'c PendingTask) list"
  pending_tasks_by_id :: "TaskId \<Rightarrow> node option"
  terminal_tasks :: "Task list"
  processing_commands :: bool
  callback_applied_at :: "TriggerAt option"
  in_callback :: bool
  next_node :: node

text \<open>A runner with the rest of the program, and the function that runs task callbacks on them.\<close>

type_synonym ('c, 'r, 'x, 'w) timed = "('c, 'r, 'x) InMemoryTimingTaskRunner \<times> 'w"
type_synonym ('c, 'r, 'x, 'w) task_caller = "'c \<Rightarrow> TaskId \<Rightarrow> TriggerAt \<Rightarrow> ('c, 'r, 'x, 'w) timed \<Rightarrow> ('c, 'r, 'x, 'w) timed"

definition initial_runner :: "('c, 'r, 'x) InMemoryTimingTaskRunner" where
  "initial_runner = \<lparr>commands = [], used_task_ids = [], pending_tasks = [], pending_tasks_by_id = (\<lambda>_. None),
     terminal_tasks = [], processing_commands = False, callback_applied_at = None, in_callback = False, next_node = 0\<rparr>"

definition task_less :: "Task \<Rightarrow> Task \<Rightarrow> bool" where
  "task_less lhs rhs =
     (if ta_trigger_at lhs \<noteq> ta_trigger_at rhs then ta_trigger_at lhs < ta_trigger_at rhs else ta_id lhs < ta_id rhs)"

text \<open>\<open>std::lower_bound\<close> and \<open>list::insert\<close>: the new node goes before the first one that is not less.\<close>

definition insert_task :: "node \<times> 'c PendingTask \<Rightarrow> (node \<times> 'c PendingTask) list \<Rightarrow> (node \<times> 'c PendingTask) list" where
  "insert_task x xs =
     takeWhile (\<lambda>y. task_less (pt_task (snd y)) (pt_task (snd x))) xs @ x #
     dropWhile (\<lambda>y. task_less (pt_task (snd y)) (pt_task (snd x))) xs"

definition erase_node :: "node \<Rightarrow> (node \<times> 'c PendingTask) list \<Rightarrow> (node \<times> 'c PendingTask) list" where
  "erase_node n xs = filter (\<lambda>x. fst x \<noteq> n) xs"

definition node_task :: "node \<Rightarrow> (node \<times> 'c PendingTask) list \<Rightarrow> 'c PendingTask" where
  "node_task n xs = snd (the (List.find (\<lambda>x. fst x = n) xs))"

definition report :: "('r \<Rightarrow> 'v \<Rightarrow> 'w \<Rightarrow> 'w) \<Rightarrow> 'r option \<Rightarrow> 'v \<Rightarrow> 'w \<Rightarrow> 'w" where
  "report on_result callback result w = (case callback of None \<Rightarrow> w | Some f \<Rightarrow> on_result f result w)"

definition ApplyRegisterTask ::
    "('r \<Rightarrow> RegisterTaskResult \<Rightarrow> 'w \<Rightarrow> 'w) \<Rightarrow> ('c, 'r) RegisterTaskCommand \<Rightarrow> TriggerAt
       \<Rightarrow> ('c, 'r, 'x, 'w) timed \<Rightarrow> ('c, 'r, 'x, 'w) timed" where
  "ApplyRegisterTask registered command applied_at s =
     (let (runner, w) = s
      in if rt_task_id command \<in> set (used_task_ids runner)
           then (runner, report registered (rt_on_result command) kDuplicate w)
         else
           (let pending_task = \<lparr>pt_task = \<lparr>ta_id = rt_task_id command, ta_trigger_at = rt_trigger_at command,
                    ta_status = Task_kPending, ta_created_at = applied_at, ta_updated_at = applied_at\<rparr>,
                  pt_callback = rt_callback command\<rparr>;
                inserted_task = next_node runner;
                runner = runner\<lparr>pending_tasks := insert_task (inserted_task, pending_task) (pending_tasks runner),
                  pending_tasks_by_id := (pending_tasks_by_id runner)(rt_task_id command \<mapsto> inserted_task),
                  used_task_ids := used_task_ids runner @ [rt_task_id command],
                  next_node := inserted_task + 1\<rparr>
            in (runner, report registered (rt_on_result command) kRegistered w)))"

definition ApplyCancelTask ::
    "('x \<Rightarrow> CancelTaskResult \<Rightarrow> 'w \<Rightarrow> 'w) \<Rightarrow> 'x CancelTaskCommand \<Rightarrow> TriggerAt
       \<Rightarrow> ('c, 'r, 'x, 'w) timed \<Rightarrow> ('c, 'r, 'x, 'w) timed" where
  "ApplyCancelTask cancelled command applied_at s =
     (let (runner, w) = s
      in case pending_tasks_by_id runner (ct_task_id command) of
           Some n \<Rightarrow>
             (let task = (pt_task (node_task n (pending_tasks runner)))
                    \<lparr>ta_status := Task_kCancelled, ta_updated_at := applied_at\<rparr>;
                  runner = runner\<lparr>pending_tasks := erase_node n (pending_tasks runner),
                    pending_tasks_by_id := (pending_tasks_by_id runner)(ct_task_id command := None),
                    terminal_tasks := terminal_tasks runner @ [task]\<rparr>
              in (runner, report cancelled (ct_on_result command) Cancel_kCancelled w))
         | None \<Rightarrow> (runner, report cancelled (ct_on_result command) Cancel_kNotFound w))"

definition Runner_RegisterTask ::
    "('r \<Rightarrow> RegisterTaskResult \<Rightarrow> 'w \<Rightarrow> 'w) \<Rightarrow> ('c, 'r) RegisterTaskCommand
       \<Rightarrow> ('c, 'r, 'x, 'w) timed
       \<Rightarrow> CommandAcceptance \<times> ('c, 'r, 'x, 'w) timed" where
  "Runner_RegisterTask registered command s =
     (if in_callback (fst s)
        then (kAccepted, ApplyRegisterTask registered command (the (callback_applied_at (fst s))) s)
      else (kAccepted, (fst s)\<lparr>commands := commands (fst s) @ [Pending_Register command]\<rparr>, snd s))"

definition Runner_CancelTask ::
    "('x \<Rightarrow> CancelTaskResult \<Rightarrow> 'w \<Rightarrow> 'w) \<Rightarrow> 'x CancelTaskCommand
       \<Rightarrow> ('c, 'r, 'x, 'w) timed
       \<Rightarrow> CommandAcceptance \<times> ('c, 'r, 'x, 'w) timed" where
  "Runner_CancelTask cancelled command s =
     (if in_callback (fst s)
        then (kAccepted, ApplyCancelTask cancelled command (the (callback_applied_at (fst s))) s)
      else (kAccepted, (fst s)\<lparr>commands := commands (fst s) @ [Pending_Cancel command]\<rparr>, snd s))"

text \<open>The command loop: it takes the number of commands the queue had when the call began.\<close>

fun process_commands ::
    "('r \<Rightarrow> RegisterTaskResult \<Rightarrow> 'w \<Rightarrow> 'w) \<Rightarrow> ('x \<Rightarrow> CancelTaskResult \<Rightarrow> 'w \<Rightarrow> 'w) \<Rightarrow> nat \<Rightarrow> TriggerAt
       \<Rightarrow> ('c, 'r, 'x, 'w) timed \<Rightarrow> ('c, 'r, 'x, 'w) timed" where
  "process_commands registered cancelled 0 applied_at s = s"
| "process_commands registered cancelled (Suc n) applied_at s =
     (let pending_command = hd (commands (fst s));
          s = ((fst s)\<lparr>commands := tl (commands (fst s))\<rparr>, snd s)
      in case pending_command of
           Pending_Cancel cancel \<Rightarrow>
             process_commands registered cancelled n applied_at (ApplyCancelTask cancelled cancel applied_at s)
         | Pending_Register register \<Rightarrow>
             process_commands registered cancelled n applied_at (ApplyRegisterTask registered register applied_at s))"

definition ProcessPendingCommands ::
    "('r \<Rightarrow> RegisterTaskResult \<Rightarrow> 'w \<Rightarrow> 'w) \<Rightarrow> ('x \<Rightarrow> CancelTaskResult \<Rightarrow> 'w \<Rightarrow> 'w) \<Rightarrow> TriggerAt
       \<Rightarrow> ('c, 'r, 'x, 'w) timed \<Rightarrow> nat \<times> ('c, 'r, 'x, 'w) timed" where
  "ProcessPendingCommands registered cancelled applied_at s =
     (if processing_commands (fst s) then (0, s)
      else
        (let s = ((fst s)\<lparr>processing_commands := True\<rparr>, snd s);
             processed = length (commands (fst s));
             s = process_commands registered cancelled processed applied_at s
         in (processed, (fst s)\<lparr>processing_commands := False\<rparr>, snd s)))"

definition NextWakeAt :: "('c, 'r, 'x) InMemoryTimingTaskRunner \<Rightarrow> TriggerAt option" where
  "NextWakeAt runner =
     (if pending_tasks runner = [] then None else Some (ta_trigger_at (pt_task (snd (hd (pending_tasks runner))))))"

definition IsInCallbackContext :: "('c, 'r, 'x) InMemoryTimingTaskRunner \<Rightarrow> bool" where
  "IsInCallbackContext runner = in_callback runner"

text \<open>One due task: taken out of the queue, run with the callback context set, recorded as completed.\<close>

definition run_task ::
    "('c, 'r, 'x, 'w) task_caller
       \<Rightarrow> TriggerAt \<Rightarrow> bool \<Rightarrow> TaskId \<Rightarrow> node
       \<Rightarrow> ('c, 'r, 'x, 'w) timed \<Rightarrow> ('c, 'r, 'x, 'w) timed" where
  "run_task call now previous due_task_id n s =
     (let (runner, w) = s;
          executing = node_task n (pending_tasks runner);
          runner = runner\<lparr>pending_tasks := erase_node n (pending_tasks runner),
            pending_tasks_by_id := (pending_tasks_by_id runner)(due_task_id := None),
            callback_applied_at := Some now, in_callback := True\<rparr>;
          (runner, w) = call (pt_callback executing) (ta_id (pt_task executing)) (ta_trigger_at (pt_task executing)) (runner, w);
          runner = runner\<lparr>in_callback := previous, callback_applied_at := None\<rparr>
      in (runner\<lparr>terminal_tasks := terminal_tasks runner @
            [(pt_task executing)\<lparr>ta_status := Task_kCompleted, ta_updated_at := now\<rparr>]\<rparr>, w))"

fun run_due ::
    "('c, 'r, 'x, 'w) task_caller
       \<Rightarrow> TriggerAt \<Rightarrow> bool \<Rightarrow> TaskId list \<Rightarrow> nat \<Rightarrow> nat \<Rightarrow> ('c, 'r, 'x, 'w) timed
       \<Rightarrow> nat \<times> nat \<times> ('c, 'r, 'x, 'w) timed" where
  "run_due call now previous [] processed skipped s = (processed, skipped, s)"
| "run_due call now previous (due_task_id # rest) processed skipped s =
     (case pending_tasks_by_id (fst s) due_task_id of
        None \<Rightarrow> run_due call now previous rest processed (skipped + 1) s
      | Some n \<Rightarrow> run_due call now previous rest (processed + 1) skipped (run_task call now previous due_task_id n s))"

definition due_task_ids :: "TriggerAt \<Rightarrow> ('c, 'r, 'x) InMemoryTimingTaskRunner \<Rightarrow> TaskId list" where
  "due_task_ids now runner =
     map (\<lambda>x. ta_id (pt_task (snd x)))
       (takeWhile (\<lambda>x. \<not> now < ta_trigger_at (pt_task (snd x))) (pending_tasks runner))"

definition RunDueTasks ::
    "('c, 'r, 'x, 'w) task_caller
       \<Rightarrow> ('r \<Rightarrow> RegisterTaskResult \<Rightarrow> 'w \<Rightarrow> 'w) \<Rightarrow> ('x \<Rightarrow> CancelTaskResult \<Rightarrow> 'w \<Rightarrow> 'w) \<Rightarrow> TriggerAt
       \<Rightarrow> ('c, 'r, 'x, 'w) timed \<Rightarrow> RunDueTasksResult \<times> ('c, 'r, 'x, 'w) timed" where
  "RunDueTasks call registered cancelled now s =
     (let s = snd (ProcessPendingCommands registered cancelled now s);
          due = due_task_ids now (fst s);
          previous = in_callback (fst s);
          (processed, skipped, s) = run_due call now previous due 0 0 s;
          runner = (fst s)\<lparr>callback_applied_at := None, in_callback := previous\<rparr>
      in (\<lparr>processed_count = processed, skipped_count = skipped, next_wake_at = NextWakeAt runner\<rparr>, runner, snd s))"

section \<open>The runtime\<close>

text \<open>The ports, over the state \<open>'w\<close> of the rest of the program.\<close>

record 'w TimingPorts =
  clock_Now :: "'w \<Rightarrow> TriggerAt \<times> 'w"
  timer_ArmAfter :: "'w \<Rightarrow> int \<Rightarrow> Status \<times> 'w"
  timer_Disarm :: "'w \<Rightarrow> Status \<times> 'w"
  wake_Notify :: "'w \<Rightarrow> 'w"

definition Runtime_RegisterTask ::
    "'w TimingPorts \<Rightarrow> ('r \<Rightarrow> RegisterTaskResult \<Rightarrow> 'w \<Rightarrow> 'w) \<Rightarrow> ('c, 'r) RegisterTaskCommand
       \<Rightarrow> ('c, 'r, 'x, 'w) timed
       \<Rightarrow> CommandAcceptance \<times> ('c, 'r, 'x, 'w) timed" where
  "Runtime_RegisterTask ports registered command s =
     (let callback_internal = IsInCallbackContext (fst s);
          (acceptance, s) = Runner_RegisterTask registered command s
      in (acceptance, fst s, if callback_internal then snd s else wake_Notify ports (snd s)))"

definition Runtime_CancelTask ::
    "'w TimingPorts \<Rightarrow> ('x \<Rightarrow> CancelTaskResult \<Rightarrow> 'w \<Rightarrow> 'w) \<Rightarrow> 'x CancelTaskCommand
       \<Rightarrow> ('c, 'r, 'x, 'w) timed
       \<Rightarrow> CommandAcceptance \<times> ('c, 'r, 'x, 'w) timed" where
  "Runtime_CancelTask ports cancelled command s =
     (let callback_internal = IsInCallbackContext (fst s);
          (acceptance, s) = Runner_CancelTask cancelled command s
      in (acceptance, fst s, if callback_internal then snd s else wake_Notify ports (snd s)))"

definition ProcessWake ::
    "'w TimingPorts
       \<Rightarrow> ('c, 'r, 'x, 'w) task_caller
       \<Rightarrow> ('r \<Rightarrow> RegisterTaskResult \<Rightarrow> 'w \<Rightarrow> 'w) \<Rightarrow> ('x \<Rightarrow> CancelTaskResult \<Rightarrow> 'w \<Rightarrow> 'w)
       \<Rightarrow> ('c, 'r, 'x, 'w) timed \<Rightarrow> Status \<times> ('c, 'r, 'x, 'w) timed" where
  "ProcessWake ports call registered cancelled s =
     (let (now, w) = clock_Now ports (snd s);
          (result, runner, w) = RunDueTasks call registered cancelled now (fst s, w)
      in case next_wake_at result of
           None \<Rightarrow> (let (st, w) = timer_Disarm ports w in (st, runner, w))
         | Some wake_at \<Rightarrow>
             (let (arm_now, w) = clock_Now ports w;
                  (st, w) = timer_ArmAfter ports w (max 0 (wake_at - arm_now))
              in (st, runner, w)))"

section \<open>The invariant\<close>

definition queue :: "('c, 'r, 'x) InMemoryTimingTaskRunner \<Rightarrow> Task list" where
  "queue r = map (\<lambda>x. pt_task (snd x)) (pending_tasks r)"

text \<open>
  With the tasks \<open>executing\<close> taken out of the queue: the queue is strictly ordered by trigger time and
  identifier, the index is exactly the queue's, and every identifier ever used is that of one task,
  which is executing, queued as pending, or terminal.
\<close>

definition runner_inv :: "TaskId list \<Rightarrow> ('c, 'r, 'x) InMemoryTimingTaskRunner \<Rightarrow> bool" where
  "runner_inv executing r \<longleftrightarrow>
     sorted_wrt task_less (queue r) \<and>
     distinct (map fst (pending_tasks r)) \<and> (\<forall>x \<in> set (pending_tasks r). fst x < next_node r) \<and>
     (\<forall>i n. pending_tasks_by_id r i = Some n \<longleftrightarrow> (\<exists>p. (n, p) \<in> set (pending_tasks r) \<and> ta_id (pt_task p) = i)) \<and>
     distinct (executing @ map ta_id (queue r) @ map ta_id (terminal_tasks r)) \<and>
     set (used_task_ids r) = set (executing @ map ta_id (queue r) @ map ta_id (terminal_tasks r)) \<and>
     distinct (used_task_ids r) \<and>
     (\<forall>t \<in> set (queue r). ta_status t = Task_kPending) \<and>
     (\<forall>t \<in> set (terminal_tasks r). ta_status t = Task_kCompleted \<or> ta_status t = Task_kCancelled)"

lemmas runner_invD = runner_inv_def [THEN iffD1, rule_format]

lemma initial_runner_inv: "runner_inv [] initial_runner"
  by (simp add: runner_inv_def initial_runner_def queue_def)

lemma task_less_linear:
  "\<not> task_less t t" "task_less a b \<Longrightarrow> task_less b c \<Longrightarrow> task_less a c"
  "ta_id a \<noteq> ta_id b \<Longrightarrow> task_less a b \<or> task_less b a"
  by (auto simp: task_less_def split: if_splits)

lemma set_insert_task: "set (insert_task x xs) = insert x (set xs)"
proof -
  have "set (insert_task x xs) = insert x (set (takeWhile (\<lambda>y. task_less (pt_task (snd y)) (pt_task (snd x))) xs @
      dropWhile (\<lambda>y. task_less (pt_task (snd y)) (pt_task (snd x))) xs))"
    unfolding insert_task_def set_append by simp
  then show ?thesis unfolding takeWhile_dropWhile_id .
qed

lemma mset_insert_task: "mset (insert_task x xs) = add_mset x (mset xs)"
proof -
  have "mset (insert_task x xs) = add_mset x (mset (takeWhile (\<lambda>y. task_less (pt_task (snd y)) (pt_task (snd x))) xs @
      dropWhile (\<lambda>y. task_less (pt_task (snd y)) (pt_task (snd x))) xs))"
    unfolding insert_task_def mset_append by simp
  then show ?thesis unfolding takeWhile_dropWhile_id .
qed

lemma sorted_insert_task:
  assumes "sorted_wrt task_less (map (\<lambda>x. pt_task (snd x)) xs)"
    "\<forall>y \<in> set xs. ta_id (pt_task (snd y)) \<noteq> ta_id (pt_task (snd x))"
  shows "sorted_wrt task_less (map (\<lambda>x. pt_task (snd x)) (insert_task x xs))"
  using assms
proof (induction xs)
  case (Cons a xs)
  let ?t = "\<lambda>x. pt_task (snd x)"
  show ?case
  proof (cases "task_less (?t a) (?t x)")
    case True
    then have e: "insert_task x (a # xs) = a # insert_task x xs" by (simp add: insert_task_def)
    have "sorted_wrt task_less (map ?t (insert_task x xs))" using Cons by simp
    moreover have "\<forall>y \<in> set (insert_task x xs). task_less (?t a) (?t y)"
      using Cons.prems(1) True by (simp add: set_insert_task)
    ultimately show ?thesis by (simp add: e)
  next
    case False
    then have e: "insert_task x (a # xs) = x # a # xs" by (simp add: insert_task_def)
    have "task_less (?t x) (?t a)" using False Cons.prems(2) task_less_linear(3) by auto
    then have "\<forall>y \<in> set (a # xs). task_less (?t x) (?t y)" using Cons.prems(1) task_less_linear(2) by auto
    with Cons.prems(1) show ?thesis by (simp add: e)
  qed
qed (simp add: insert_task_def)

lemma node_task_in:
  assumes "distinct (map fst xs)" "(n, p) \<in> set xs"
  shows "node_task n xs = p"
proof -
  have "List.find (\<lambda>x. fst x = n) xs = Some (n, p)" using find_key_unique [of fst xs "(n, p)"] assms by simp
  then show ?thesis by (simp add: node_task_def)
qed

lemma erase_split:
  assumes "distinct (map fst xs)" "(n, p) \<in> set xs"
  obtains as bs where "xs = as @ (n, p) # bs" "erase_node n xs = as @ bs"
proof -
  from assms(2) obtain as bs where xs: "xs = as @ (n, p) # bs" by (meson split_list)
  with assms(1) have "\<forall>x \<in> set as. fst x \<noteq> n" "\<forall>x \<in> set bs. fst x \<noteq> n" by force+
  then have "erase_node n xs = as @ bs" by (simp add: erase_node_def xs)
  with xs show thesis by (rule that)
qed

text \<open>Taking a task out of the queue, to run or to cancel it.\<close>

lemma runner_inv_take:
  assumes inv: "runner_inv ex r" and n: "pending_tasks_by_id r i = Some n"
  defines "p \<equiv> node_task n (pending_tasks r)"
  defines "r' \<equiv> r\<lparr>pending_tasks := erase_node n (pending_tasks r), pending_tasks_by_id := (pending_tasks_by_id r)(i := None)\<rparr>"
  shows "ta_id (pt_task p) = i" "(n, p) \<in> set (pending_tasks r)" "runner_inv (i # ex) r'"
    "set (queue r') = set (queue r) - {pt_task p}" "pt_task p \<in> set (queue r)"
proof -
  obtain q where q: "(n, q) \<in> set (pending_tasks r)" "ta_id (pt_task q) = i"
    using inv n by (auto simp: runner_inv_def)
  have d: "distinct (map fst (pending_tasks r))" using inv by (simp add: runner_inv_def)
  have pq: "p = q" using node_task_in [OF d q(1)] by (simp add: p_def)
  with q show "ta_id (pt_task p) = i" and mem: "(n, p) \<in> set (pending_tasks r)" by simp_all
  then show "pt_task p \<in> set (queue r)" by (force simp: queue_def)
  obtain as bs where split: "pending_tasks r = as @ (n, p) # bs" "erase_node n (pending_tasks r) = as @ bs"
    using erase_split [OF d mem] .
  have ids: "distinct (map ta_id (queue r))" using inv by (simp add: runner_inv_def)
  have q': "queue r' = map (\<lambda>x. pt_task (snd x)) as @ map (\<lambda>x. pt_task (snd x)) bs"
    and q0: "queue r = map (\<lambda>x. pt_task (snd x)) as @ pt_task p # map (\<lambda>x. pt_task (snd x)) bs"
    by (simp add: queue_def r'_def split(2)) (simp add: queue_def split(1))
  have "distinct (queue r)" using ids by (simp add: distinct_map)
  then show "set (queue r') = set (queue r) - {pt_task p}" unfolding q' q0 by auto
  have by_id: "pending_tasks_by_id r' j = Some m \<longleftrightarrow> (\<exists>p. (m, p) \<in> set (as @ bs) \<and> ta_id (pt_task p) = j)" for j m
  proof -
    have "pending_tasks_by_id r j = Some m \<longleftrightarrow> (\<exists>p'. (m, p') \<in> set (pending_tasks r) \<and> ta_id (pt_task p') = j)"
      using inv unfolding runner_inv_def by blast
    moreover have "ta_id (pt_task p') \<noteq> i" if "(m, p') \<in> set (as @ bs)" for m p'
    proof -
      have "i \<notin> ta_id ` set (queue r')"
        using ids \<open>ta_id (pt_task p) = i\<close> unfolding q' q0 map_append list.map distinct_append by auto
      moreover have "pt_task p' \<in> set (queue r')" using that by (force simp: q')
      ultimately show ?thesis by blast
    qed
    ultimately show ?thesis using \<open>ta_id (pt_task p) = i\<close> by (auto simp: r'_def split(1))
  qed
  have fields: "pending_tasks r' = as @ bs" "next_node r' = next_node r" "terminal_tasks r' = terminal_tasks r"
    "used_task_ids r' = used_task_ids r" by (simp_all add: r'_def split(2))
  note I = inv [unfolded runner_inv_def q0 split(1)]
  show "runner_inv (i # ex) r'"
    unfolding runner_inv_def fields q'
  proof (intro conjI allI)
    show "sorted_wrt task_less (map (\<lambda>x. pt_task (snd x)) as @ map (\<lambda>x. pt_task (snd x)) bs)"
      using I by (simp add: sorted_wrt_append)
    show "distinct ((i # ex) @ map ta_id (map (\<lambda>x. pt_task (snd x)) as @ map (\<lambda>x. pt_task (snd x)) bs) @
        map ta_id (terminal_tasks r))"
      using I \<open>ta_id (pt_task p) = i\<close> by auto
    show "set (used_task_ids r) = set ((i # ex) @ map ta_id (map (\<lambda>x. pt_task (snd x)) as @
        map (\<lambda>x. pt_task (snd x)) bs) @ map ta_id (terminal_tasks r))"
      using I \<open>ta_id (pt_task p) = i\<close> by auto
  qed (use I by_id in auto)
qed

lemma by_id_None:
  assumes inv: "runner_inv ex r" and none: "pending_tasks_by_id r i = None"
  shows "i \<notin> ta_id ` set (queue r)"
proof
  assume "i \<in> ta_id ` set (queue r)"
  then obtain n p where "(n, p) \<in> set (pending_tasks r)" "ta_id (pt_task p) = i" by (auto simp: queue_def)
  then have "pending_tasks_by_id r i = Some n" using inv unfolding runner_inv_def by blast
  with none show False by simp
qed

lemma runner_inv_flags [simp]:
  "runner_inv ex (r\<lparr>commands := c\<rparr>) = runner_inv ex r"
  "runner_inv ex (r\<lparr>processing_commands := b\<rparr>) = runner_inv ex r"
  "runner_inv ex (r\<lparr>callback_applied_at := a\<rparr>) = runner_inv ex r"
  "runner_inv ex (r\<lparr>in_callback := b\<rparr>) = runner_inv ex r"
  "queue (r\<lparr>commands := c\<rparr>) = queue r" "queue (r\<lparr>processing_commands := b\<rparr>) = queue r"
  "queue (r\<lparr>callback_applied_at := a\<rparr>) = queue r" "queue (r\<lparr>in_callback := b\<rparr>) = queue r"
  "queue (r\<lparr>terminal_tasks := ts\<rparr>) = queue r"
  by (simp_all add: runner_inv_def queue_def)

lemma runner_inv_finish:
  assumes "runner_inv (i # ex) r" "ta_id t = i" "ta_status t = Task_kCompleted \<or> ta_status t = Task_kCancelled"
  shows "runner_inv ex (r\<lparr>terminal_tasks := terminal_tasks r @ [t]\<rparr>)"
  using assms unfolding runner_inv_def by (auto simp: queue_def)

lemma runner_inv_register:
  assumes inv: "runner_inv ex r" and new: "i \<notin> set (used_task_ids r)"
    and p: "ta_id (pt_task p) = i" "ta_status (pt_task p) = Task_kPending"
  shows "runner_inv ex (r\<lparr>pending_tasks := insert_task (next_node r, p) (pending_tasks r),
      pending_tasks_by_id := (pending_tasks_by_id r)(i \<mapsto> next_node r), used_task_ids := used_task_ids r @ [i],
      next_node := next_node r + 1\<rparr>)" (is "runner_inv ex ?r")
proof -
  note I = inv [unfolded runner_inv_def]
  have fields: "pending_tasks ?r = insert_task (next_node r, p) (pending_tasks r)" "terminal_tasks ?r = terminal_tasks r"
    "used_task_ids ?r = used_task_ids r @ [i]" "next_node ?r = next_node r + 1" by simp_all
  have q: "mset (queue ?r) = add_mset (pt_task p) (mset (queue r))"
    unfolding queue_def fields by (simp add: mset_insert_task)
  then have qs: "set (queue ?r) = insert (pt_task p) (set (queue r))" by (metis set_mset_add_mset_insert set_mset_mset)
  have ids: "mset (map ta_id (queue ?r)) = add_mset i (mset (map ta_id (queue r)))" using q p by simp
  then have all: "mset (ex @ map ta_id (queue ?r) @ map ta_id (terminal_tasks r)) =
      mset (i # ex @ map ta_id (queue r) @ map ta_id (terminal_tasks r))" by simp
  have unused: "i \<notin> set (ex @ map ta_id (queue r) @ map ta_id (terminal_tasks r))" using I new by blast
  have other: "pending_tasks_by_id r i = None"
  proof (rule ccontr)
    assume "pending_tasks_by_id r i \<noteq> None"
    then obtain n q where "(n, q) \<in> set (pending_tasks r)" "ta_id (pt_task q) = i" using I by auto
    then have "i \<in> set (map ta_id (queue r))" by (force simp: queue_def)
    with unused show False by simp
  qed
  show ?thesis
    unfolding runner_inv_def fields
  proof (intro conjI allI)
    have fresh: "\<forall>y \<in> set (pending_tasks r). ta_id (pt_task (snd y)) \<noteq> i" using unused by (force simp: queue_def)
    then show "sorted_wrt task_less (queue ?r)"
      using I p by (auto simp: queue_def intro!: sorted_insert_task)
    have "mset (map fst (insert_task (next_node r, p) (pending_tasks r))) = mset (map fst ((next_node r, p) # pending_tasks r))"
      by (simp add: mset_insert_task)
    then have "distinct (map fst (insert_task (next_node r, p) (pending_tasks r))) \<longleftrightarrow>
        distinct (map fst ((next_node r, p) # pending_tasks r))" by (rule mset_eq_imp_distinct_iff)
    then show "distinct (map fst (insert_task (next_node r, p) (pending_tasks r)))" using I by auto
    show "distinct (ex @ map ta_id (queue ?r) @ map ta_id (terminal_tasks r))"
      using I unused unfolding mset_eq_imp_distinct_iff [OF all] by simp
    show "set (used_task_ids r @ [i]) = set (ex @ map ta_id (queue ?r) @ map ta_id (terminal_tasks r))"
      using I unfolding mset_eq_setD [OF all] by auto
    show "\<And>j n. pending_tasks_by_id ?r j = Some n \<longleftrightarrow>
        (\<exists>q. (n, q) \<in> set (insert_task (next_node r, p) (pending_tasks r)) \<and> ta_id (pt_task q) = j)"
      using I p other fresh by (auto simp: set_insert_task)
    show "\<forall>t \<in> set (queue ?r). ta_status t = Task_kPending" unfolding qs using I p by simp
  qed (use I p new in \<open>auto simp: set_insert_task\<close>)
qed

text \<open>
  What happens to a runner while callbacks run: terminal tasks are only added, by cancellation;
  identifiers stay used; a queued task with a used identifier was queued before; the callback context
  is kept.
\<close>

definition grows :: "('c, 'r, 'x) InMemoryTimingTaskRunner \<Rightarrow> ('c, 'r, 'x) InMemoryTimingTaskRunner \<Rightarrow> bool" where
  "grows r r' \<longleftrightarrow>
     (\<exists>ts. terminal_tasks r' = terminal_tasks r @ ts \<and> (\<forall>t \<in> set ts. ta_status t = Task_kCancelled)) \<and>
     set (used_task_ids r) \<subseteq> set (used_task_ids r') \<and>
     (\<forall>t \<in> set (queue r'). ta_id t \<in> set (used_task_ids r) \<longrightarrow> t \<in> set (queue r)) \<and>
     in_callback r' = in_callback r \<and> callback_applied_at r' = callback_applied_at r"

lemma grows_refl [simp]: "grows r r"
  by (simp add: grows_def)

lemma grows_trans [trans]: "grows a b \<Longrightarrow> grows b c \<Longrightarrow> grows a c"
  unfolding grows_def by (elim conjE exE) (intro conjI; auto)

lemma ApplyRegisterTask_keeps:
  assumes "runner_inv ex (fst s)"
  shows "runner_inv ex (fst (ApplyRegisterTask g c t s))" "grows (fst s) (fst (ApplyRegisterTask g c t s))"
proof -
  obtain r w where s: "s = (r, w)" by fastforce
  show "runner_inv ex (fst (ApplyRegisterTask g c t s))"
    using runner_inv_register [of ex r] assms by (auto simp: ApplyRegisterTask_def s Let_def)
  show "grows (fst s) (fst (ApplyRegisterTask g c t s))"
    by (auto simp: ApplyRegisterTask_def s Let_def grows_def queue_def set_insert_task)
qed

lemma ApplyCancelTask_keeps:
  assumes "runner_inv ex (fst s)"
  shows "runner_inv ex (fst (ApplyCancelTask g c t s))" "grows (fst s) (fst (ApplyCancelTask g c t s))"
proof -
  obtain r w where s: "s = (r, w)" by fastforce
  have inv: "runner_inv ex r" using assms s by simp
  have "runner_inv ex (fst (ApplyCancelTask g c t s)) \<and> grows r (fst (ApplyCancelTask g c t s))"
  proof (cases "pending_tasks_by_id r (ct_task_id c)")
    case (Some n)
    note take = runner_inv_take [OF inv Some]
    let ?t = "(pt_task (node_task n (pending_tasks r)))\<lparr>ta_status := Task_kCancelled, ta_updated_at := t\<rparr>"
    from runner_inv_finish [OF take(3), of ?t] take(1)
    have "runner_inv ex (fst (ApplyCancelTask g c t s))" by (simp add: ApplyCancelTask_def s Some)
    moreover have "grows r (fst (ApplyCancelTask g c t s))"
      using take(4) by (auto simp: ApplyCancelTask_def s Some grows_def queue_def)
    ultimately show ?thesis ..
  qed (simp add: ApplyCancelTask_def s inv)
  then show "runner_inv ex (fst (ApplyCancelTask g c t s))" "grows (fst s) (fst (ApplyCancelTask g c t s))"
    by (simp_all add: s)
qed

lemma grows_commands [simp]: "grows r (r'\<lparr>commands := c\<rparr>) = grows r r'" "grows (r\<lparr>commands := c\<rparr>) r' = grows r r'"
  by (simp_all add: grows_def)

section \<open>Callbacks and batches\<close>

text \<open>What a task callback can do to the runner: use its two public entries, and change the rest of the program.\<close>

inductive timing_call ::
    "('r \<Rightarrow> RegisterTaskResult \<Rightarrow> 'w \<Rightarrow> 'w) \<Rightarrow> ('x \<Rightarrow> CancelTaskResult \<Rightarrow> 'w \<Rightarrow> 'w)
       \<Rightarrow> ('c, 'r, 'x, 'w) timed \<Rightarrow> ('c, 'r, 'x, 'w) timed \<Rightarrow> bool"
  for registered cancelled where
  elsewhere: "timing_call registered cancelled (r, w) (r, w')"
| register: "timing_call registered cancelled s (snd (Runner_RegisterTask registered command s))"
| cancel: "timing_call registered cancelled s (snd (Runner_CancelTask cancelled command s))"

locale task_callbacks =
  fixes registered :: "'r \<Rightarrow> RegisterTaskResult \<Rightarrow> 'w \<Rightarrow> 'w"
    and cancelled :: "'x \<Rightarrow> CancelTaskResult \<Rightarrow> 'w \<Rightarrow> 'w"
    and call :: "('c, 'r, 'x, 'w) task_caller"
  assumes call_uses_interface: "(timing_call registered cancelled)\<^sup>*\<^sup>* s (call c i t s)"

definition cancelled_in :: "('c, 'r, 'x) InMemoryTimingTaskRunner \<Rightarrow> TaskId \<Rightarrow> bool" where
  "cancelled_in r i \<longleftrightarrow> (\<exists>t \<in> set (terminal_tasks r). ta_id t = i \<and> ta_status t = Task_kCancelled)"

definition completed :: "('c, 'r, 'x) InMemoryTimingTaskRunner \<Rightarrow> Task list" where
  "completed r = filter (\<lambda>t. ta_status t = Task_kCompleted) (terminal_tasks r)"

lemma grows_facts:
  assumes "grows r r'"
  shows "completed r' = completed r" "cancelled_in r i \<Longrightarrow> cancelled_in r' i"
  using assms by (auto simp: grows_def completed_def cancelled_in_def filter_empty_conv)

lemma timing_call_keeps:
  assumes "timing_call g h s s'" "runner_inv ex (fst s)"
  shows "runner_inv ex (fst s') \<and> grows (fst s) (fst s')"
  using assms
  by cases (auto simp: Runner_RegisterTask_def Runner_CancelTask_def ApplyRegisterTask_keeps ApplyCancelTask_keeps)

lemma timing_calls_keep:
  assumes "(timing_call g h)\<^sup>*\<^sup>* s s'" "runner_inv ex (fst s)"
  shows "runner_inv ex (fst s') \<and> grows (fst s) (fst s')"
  using assms
proof (induction rule: rtranclp_induct)
  case (step s' s'')
  with timing_call_keeps grows_trans show ?case by metis
qed simp

lemma process_commands_keeps:
  assumes "runner_inv ex (fst s)"
  shows "runner_inv ex (fst (process_commands g h n t s)) \<and> grows (fst s) (fst (process_commands g h n t s))"
  using assms
proof (induction n arbitrary: s)
  case (Suc n)
  let ?s = "((fst s)\<lparr>commands := tl (commands (fst s))\<rparr>, snd s)"
  have s: "runner_inv ex (fst ?s)" using Suc.prems by simp
  show ?case
  proof (cases "hd (commands (fst s))")
    case (Pending_Register c)
    note first = ApplyRegisterTask_keeps [OF s, of g c t]
    from Suc.IH [OF first(1)] first(2) grows_trans Pending_Register show ?thesis by fastforce
  next
    case (Pending_Cancel c)
    note first = ApplyCancelTask_keeps [OF s, of h c t]
    from Suc.IH [OF first(1)] first(2) grows_trans Pending_Cancel show ?thesis by fastforce
  qed
qed simp

lemma ProcessPendingCommands_keeps:
  assumes "runner_inv ex (fst s)"
  shows "runner_inv ex (fst (snd (ProcessPendingCommands g h t s))) \<and> grows (fst s) (fst (snd (ProcessPendingCommands g h t s)))"
proof (cases "processing_commands (fst s)")
  case False
  let ?s = "((fst s)\<lparr>processing_commands := True\<rparr>, snd s)"
  have "runner_inv ex (fst ?s)" using assms by simp
  from process_commands_keeps [OF this, of g h "length (commands (fst s))" t] False show ?thesis
    by (simp add: ProcessPendingCommands_def Let_def grows_def)
qed (simp add: assms ProcessPendingCommands_def)

lemma takeWhile_due:
  assumes "sorted_wrt task_less (map (\<lambda>x. pt_task (snd x)) xs)"
  shows "map (\<lambda>x. pt_task (snd x)) (takeWhile (\<lambda>x. \<not> now < ta_trigger_at (pt_task (snd x))) xs) =
    filter (\<lambda>t. ta_trigger_at t \<le> now) (map (\<lambda>x. pt_task (snd x)) xs)"
  using assms
proof (induction xs)
  case (Cons x xs)
  show ?case
  proof (cases "now < ta_trigger_at (pt_task (snd x))")
    case True
    then have "now < ta_trigger_at (pt_task (snd y))" if "y \<in> set xs" for y
      using Cons.prems that by (fastforce simp: task_less_def split: if_splits)
    then have "filter (\<lambda>t. ta_trigger_at t \<le> now) (map (\<lambda>x. pt_task (snd x)) xs) = []"
      by (auto simp: filter_empty_conv not_le)
    with True show ?thesis by simp
  qed (use Cons in auto)
qed simp

lemma due_task_ids_eq:
  "runner_inv ex r \<Longrightarrow> due_task_ids now r = map ta_id (filter (\<lambda>t. ta_trigger_at t \<le> now) (queue r))"
  using takeWhile_due [of "pending_tasks r" now, symmetric]
  by (simp add: due_task_ids_def queue_def runner_inv_def comp_def)

text \<open>The head of the queue has the earliest trigger time.\<close>

lemma NextWakeAt_Min:
  assumes "runner_inv ex r"
  shows "NextWakeAt r = (if queue r = [] then None else Some (Min (ta_trigger_at ` set (queue r))))"
proof (cases "queue r")
  case (Cons t ts)
  then obtain x xs where x: "pending_tasks r = x # xs" "pt_task (snd x) = t" by (auto simp: queue_def)
  have "sorted_wrt task_less (t # ts)" using assms unfolding runner_inv_def Cons by blast
  then have "\<forall>u \<in> set (queue r). ta_trigger_at t \<le> ta_trigger_at u"
    by (auto simp: Cons task_less_def split: if_splits)
  then have "Min (ta_trigger_at ` set (queue r)) = ta_trigger_at t" using Cons by (intro Min_eqI) auto
  with x Cons show ?thesis by (simp add: NextWakeAt_def)
qed (simp add: NextWakeAt_def queue_def)

context task_callbacks
begin

lemma run_task_keeps:
  fixes now :: TriggerAt and previous :: bool
  assumes inv: "runner_inv ex (fst s)" and n: "pending_tasks_by_id (fst s) i = Some n"
  defines "p \<equiv> pt_task (node_task n (pending_tasks (fst s)))"
  defines "s' \<equiv> run_task call now previous i n s"
  defines "done \<equiv> p\<lparr>ta_status := Task_kCompleted, ta_updated_at := now\<rparr>"
  shows "runner_inv ex (fst s')" "completed (fst s') = completed (fst s) @ [done]" "ta_id p = i" "p \<in> set (queue (fst s))"
    "cancelled_in (fst s) j \<Longrightarrow> cancelled_in (fst s') j" "\<not> cancelled_in (fst s') i"
    "set (used_task_ids (fst s)) \<subseteq> set (used_task_ids (fst s'))" "in_callback (fst s') = previous"
    "\<forall>t \<in> set (queue (fst s')). ta_id t \<in> set (used_task_ids (fst s)) \<longrightarrow> t \<in> set (queue (fst s)) \<and> ta_id t \<noteq> i"
proof -
  obtain r w where s: "s = (r, w)" by fastforce
  let ?q = "node_task n (pending_tasks r)"
  let ?r1 = "r\<lparr>pending_tasks := erase_node n (pending_tasks r), pending_tasks_by_id := (pending_tasks_by_id r)(i := None)\<rparr>"
  let ?r2 = "?r1\<lparr>callback_applied_at := Some now, in_callback := True\<rparr>"
  obtain r3 w3 where c: "call (pt_callback ?q) (ta_id (pt_task ?q)) (ta_trigger_at (pt_task ?q)) (?r2, w) = (r3, w3)" by fastforce
  have s': "s' = (r3\<lparr>in_callback := previous, callback_applied_at := None, terminal_tasks := terminal_tasks r3 @ [done]\<rparr>, w3)"
    by (simp add: s'_def run_task_def s c done_def p_def)
  note take = runner_inv_take [OF inv n, unfolded s fst_conv]
  show id: "ta_id p = i" and "p \<in> set (queue (fst s))" using take by (simp_all add: p_def s)
  have "runner_inv (i # ex) ?r2" using take(3) by simp
  with timing_calls_keep [OF call_uses_interface, of "i # ex" "(?r2, w)"] c
  have keep: "runner_inv (i # ex) r3" and grow: "grows ?r2 r3" by (metis fst_conv)+
  have "runner_inv (i # ex) (r3\<lparr>in_callback := previous, callback_applied_at := None\<rparr>)" using keep by simp
  from runner_inv_finish [OF this, of "done"] id show inv': "runner_inv ex (fst s')" by (simp add: s' done_def)
  have "completed r3 = completed r" using grows_facts(1) [OF grow] by (simp add: completed_def)
  then show "completed (fst s') = completed (fst s) @ [done]" by (simp add: s' s completed_def done_def)
  show "cancelled_in (fst s') j" if "cancelled_in (fst s) j"
    using grows_facts(2) [OF grow, of j] that by (auto simp: s' s cancelled_in_def)
  have "done \<in> set (terminal_tasks (fst s'))" "ta_id done = i" "ta_status done = Task_kCompleted"
    using id by (simp_all add: s' done_def)
  moreover have "distinct (map ta_id (terminal_tasks (fst s')))" using inv' by (simp add: runner_inv_def)
  ultimately show "\<not> cancelled_in (fst s') i"
    unfolding cancelled_in_def by (metis TaskStatus.distinct(11) distinct_map inj_on_eq_iff)
  show "set (used_task_ids (fst s)) \<subseteq> set (used_task_ids (fst s'))" using grow by (auto simp: grows_def s s')
  show "in_callback (fst s') = previous" by (simp add: s')
  have "i \<notin> set (map ta_id (queue r3))" using keep by (simp add: runner_inv_def)
  moreover have "queue (fst s') = queue r3" by (simp add: s' queue_def)
  moreover have "t \<in> set (queue r3) \<Longrightarrow> ta_id t \<in> set (used_task_ids r) \<Longrightarrow> t \<in> set (queue ?r1)" for t
    using grow by (auto simp: grows_def queue_def)
  ultimately show "\<forall>t \<in> set (queue (fst s')). ta_id t \<in> set (used_task_ids (fst s)) \<longrightarrow>
      t \<in> set (queue (fst s)) \<and> ta_id t \<noteq> i"
    using take(4) by (auto simp: s)
qed

text \<open>
  A batch: the due tasks that no callback cancelled before their turn run, in the order of the
  batch, and the others are skipped.
\<close>

lemma run_due_batch:
  assumes "runner_inv [] (fst s)" "distinct ids" "set ids \<subseteq> set (used_task_ids (fst s))"
    "set ids \<inter> ta_id ` set (completed (fst s)) = {}" "run_due call now previous ids a b s = (a', b', s')"
  shows "runner_inv [] (fst s') \<and>
    (\<exists>ran. completed (fst s') = completed (fst s) @ map (\<lambda>t. t\<lparr>ta_status := Task_kCompleted, ta_updated_at := now\<rparr>) ran \<and>
       map ta_id ran = filter (\<lambda>i. \<not> cancelled_in (fst s') i) ids \<and> set ran \<subseteq> set (queue (fst s)) \<and>
       a' = a + length ran \<and> b' + length ran = b + length ids) \<and>
    (\<forall>i. cancelled_in (fst s) i \<longrightarrow> cancelled_in (fst s') i) \<and>
    (\<forall>i \<in> ta_id ` set (completed (fst s)). \<not> cancelled_in (fst s) i \<longrightarrow> \<not> cancelled_in (fst s') i) \<and>
    (\<forall>t \<in> set (queue (fst s')). ta_id t \<in> set (used_task_ids (fst s)) \<longrightarrow> t \<in> set (queue (fst s)) \<and> ta_id t \<notin> set ids)"
  using assms
proof (induction ids arbitrary: a b s)
  case Nil
  then show ?case by auto
next
  case (Cons i ids)
  let ?r = "fst s" and ?r' = "fst s'"
  have inv: "runner_inv [] ?r" using Cons.prems(1) .
  show ?case
  proof (cases "pending_tasks_by_id ?r i")
    case None
    then have run: "run_due call now previous ids a (b + 1) s = (a', b', s')" using Cons.prems(5) by simp
    have gone: "i \<notin> ta_id ` set (queue ?r)" using by_id_None [OF inv None] .
    then have "i \<in> ta_id ` set (terminal_tasks ?r)" using inv Cons.prems(3) by (auto simp: runner_inv_def)
    then obtain t where t: "t \<in> set (terminal_tasks ?r)" "ta_id t = i" by auto
    have "ta_status t \<noteq> Task_kCompleted" using Cons.prems(4) t by (auto simp: completed_def)
    with t inv have "cancelled_in ?r i" by (auto simp: cancelled_in_def runner_inv_def)
    with Cons.IH [OF inv _ _ _ run] Cons.prems(2-4) gone show ?thesis by auto
  next
    case (Some n)
    let ?s = "run_task call now previous i n s"
    define t where "t = pt_task (node_task n (pending_tasks ?r))"
    note step = run_task_keeps [OF inv Some, folded t_def]
    have run: "run_due call now previous ids (a + 1) b ?s = (a', b', s')" using Cons.prems(5) Some by simp
    have "set ids \<inter> ta_id ` set (completed (fst ?s)) = {}"
      using Cons.prems(2,4) step(3) unfolding step(2) by auto
    moreover have "set ids \<subseteq> set (used_task_ids (fst ?s))" using Cons.prems(3) step(7) by auto
    ultimately obtain ran where IH: "runner_inv [] ?r'"
      "completed ?r' = completed (fst ?s) @ map (\<lambda>t. t\<lparr>ta_status := Task_kCompleted, ta_updated_at := now\<rparr>) ran"
      "map ta_id ran = filter (\<lambda>i. \<not> cancelled_in ?r' i) ids" "set ran \<subseteq> set (queue (fst ?s))"
      "a' = a + 1 + length ran" "b' + length ran = b + length ids"
      "\<forall>i. cancelled_in (fst ?s) i \<longrightarrow> cancelled_in ?r' i"
      "\<forall>i \<in> ta_id ` set (completed (fst ?s)). \<not> cancelled_in (fst ?s) i \<longrightarrow> \<not> cancelled_in ?r' i"
      "\<forall>t \<in> set (queue ?r'). ta_id t \<in> set (used_task_ids (fst ?s)) \<longrightarrow> t \<in> set (queue (fst ?s)) \<and> ta_id t \<notin> set ids"
      using Cons.IH [OF step(1) _ _ _ run] Cons.prems(2) by auto
    have "\<not> cancelled_in ?r' i" using IH(8) step(2,3,6) by auto
    then have ids: "map ta_id (t # ran) = filter (\<lambda>i. \<not> cancelled_in ?r' i) (i # ids)" using IH(3) step(3) by simp
    have "set ran \<subseteq> set (queue ?r)"
    proof
      fix u
      assume u: "u \<in> set ran"
      then have "ta_id u \<in> set ids" using IH(3) by (metis (no_types) filter_is_subset image_eqI list.set_map subsetD)
      then show "u \<in> set (queue ?r)" using step(9) [of now previous] IH(4) u Cons.prems(3) by auto
    qed
    then have "set (t # ran) \<subseteq> set (queue ?r)" using step(4) by simp
    moreover have "\<forall>j \<in> ta_id ` set (completed ?r). \<not> cancelled_in ?r j \<longrightarrow> \<not> cancelled_in ?r' j"
    proof (intro ballI impI)
      fix j
      assume j: "j \<in> ta_id ` set (completed ?r)"
      then obtain u where "u \<in> set (completed (fst ?s))" "ta_id u = j" by (auto simp: step(2))
      then have "u \<in> set (terminal_tasks (fst ?s))" "ta_status u = Task_kCompleted" "ta_id u = j"
        by (auto simp: completed_def)
      moreover have "distinct (map ta_id (terminal_tasks (fst ?s)))" using step(1) by (simp add: runner_inv_def)
      ultimately have "\<not> cancelled_in (fst ?s) j"
        unfolding cancelled_in_def by (metis TaskStatus.distinct(11) distinct_map inj_on_eq_iff)
      then show "\<not> cancelled_in ?r' j" using IH(8) j by (auto simp: step(2))
    qed
    moreover have "\<forall>u \<in> set (queue ?r'). ta_id u \<in> set (used_task_ids ?r) \<longrightarrow> u \<in> set (queue ?r) \<and> ta_id u \<notin> set (i # ids)"
      using IH(9) step(7) [of now previous] step(9) [of now previous] by auto
    ultimately show ?thesis
      using IH(1,2,5-7) ids step(2,5) by (intro conjI exI [of _ "t # ran"]) auto
  qed
qed

text \<open>The whole batch, over the state \<open>s1\<close> the queued commands leave.\<close>

lemma RunDueTasks_batch:
  fixes now :: TriggerAt
  assumes inv: "runner_inv [] (fst s)" and run: "RunDueTasks call registered cancelled now s = (res, s')"
  defines "s1 \<equiv> snd (ProcessPendingCommands registered cancelled now s)"
  defines "due \<equiv> filter (\<lambda>t. ta_trigger_at t \<le> now) (queue (fst s1))"
  shows "runner_inv [] (fst s')" "in_callback (fst s') = in_callback (fst s)"
    "\<exists>ran. completed (fst s') = completed (fst s) @ map (\<lambda>t. t\<lparr>ta_status := Task_kCompleted, ta_updated_at := now\<rparr>) ran \<and>
       map ta_id ran = filter (\<lambda>i. \<not> cancelled_in (fst s') i) (map ta_id due) \<and> set ran \<subseteq> set due \<and>
       processed_count res = length ran \<and> skipped_count res + length ran = length due"
    "next_wake_at res = (if queue (fst s') = [] then None else Some (Min (ta_trigger_at ` set (queue (fst s')))))"
    "\<forall>t \<in> set (queue (fst s')). ta_id t \<in> set (used_task_ids (fst s1)) \<longrightarrow> t \<in> set (queue (fst s1)) \<and> now < ta_trigger_at t"
proof -
  let ?r1 = "fst s1"
  have inv1: "runner_inv [] ?r1" and grow: "grows (fst s) ?r1"
    using ProcessPendingCommands_keeps [OF inv, of registered cancelled now] by (simp_all add: s1_def)
  have ids: "due_task_ids now ?r1 = map ta_id due" using due_task_ids_eq [OF inv1] by (simp add: due_def)
  obtain a b s2 where d: "run_due call now (in_callback ?r1) (map ta_id due) 0 0 s1 = (a, b, s2)" by (metis prod_cases3)
  have s': "s' = ((fst s2)\<lparr>callback_applied_at := None, in_callback := in_callback ?r1\<rparr>, snd s2)"
    and res: "processed_count res = a" "skipped_count res = b" "next_wake_at res = NextWakeAt (fst s')"
    using run by (auto simp: RunDueTasks_def Let_def s1_def [symmetric] ids d)
  have "distinct (map ta_id due)" "set (map ta_id due) \<subseteq> set (used_task_ids ?r1)"
    using inv1 by (auto simp: due_def runner_inv_def distinct_map_filter)
  moreover have "set (map ta_id due) \<inter> ta_id ` set (completed ?r1) = {}"
    using inv1 by (fastforce simp: due_def completed_def runner_inv_def)
  moreover have same: "queue (fst s') = queue (fst s2)" "completed (fst s') = completed (fst s2)"
    "cancelled_in (fst s') = cancelled_in (fst s2)" "runner_inv [] (fst s') = runner_inv [] (fst s2)"
    by (simp_all add: s' queue_def completed_def cancelled_in_def fun_eq_iff)
  ultimately have batch: "runner_inv [] (fst s')"
    "\<exists>ran. completed (fst s') = completed ?r1 @ map (\<lambda>t. t\<lparr>ta_status := Task_kCompleted, ta_updated_at := now\<rparr>) ran \<and>
       map ta_id ran = filter (\<lambda>i. \<not> cancelled_in (fst s') i) (map ta_id due) \<and> set ran \<subseteq> set (queue ?r1) \<and>
       a = length ran \<and> b + length ran = length due"
    "\<forall>t \<in> set (queue (fst s')). ta_id t \<in> set (used_task_ids ?r1) \<longrightarrow> t \<in> set (queue ?r1) \<and> ta_id t \<notin> set (map ta_id due)"
    using run_due_batch [OF inv1 _ _ _ d] by auto
  show "runner_inv [] (fst s')" using batch(1) .
  show "in_callback (fst s') = in_callback (fst s)" using grow by (simp add: s' grows_def)
  show "next_wake_at res = (if queue (fst s') = [] then None else Some (Min (ta_trigger_at ` set (queue (fst s')))))"
    using NextWakeAt_Min [OF batch(1)] res(3) by simp
  show "\<forall>t \<in> set (queue (fst s')). ta_id t \<in> set (used_task_ids ?r1) \<longrightarrow> t \<in> set (queue ?r1) \<and> now < ta_trigger_at t"
    using batch(3) by (force simp: due_def)
  have "distinct (map ta_id (queue ?r1))" using inv1 by (simp add: runner_inv_def)
  then have "t \<in> set due" if "t \<in> set (queue ?r1)" "ta_id t \<in> set (map ta_id due)" for t
    using that by (auto simp: due_def distinct_map dest: inj_onD)
  moreover have "map ta_id ran = filter P (map ta_id due) \<Longrightarrow> t \<in> set ran \<Longrightarrow> ta_id t \<in> set (map ta_id due)" for ran P t
    by (metis (no_types) filter_is_subset image_eqI list.set_map subsetD)
  ultimately show "\<exists>ran. completed (fst s') = completed (fst s) @ map (\<lambda>t. t\<lparr>ta_status := Task_kCompleted, ta_updated_at := now\<rparr>) ran \<and>
       map ta_id ran = filter (\<lambda>i. \<not> cancelled_in (fst s') i) (map ta_id due) \<and> set ran \<subseteq> set due \<and>
       processed_count res = length ran \<and> skipped_count res + length ran = length due"
    using batch(2) grows_facts(1) [OF grow] res by (metis subsetD subsetI)
qed

end

section \<open>The runner as a machine\<close>

inductive runner_step ::
    "('r \<Rightarrow> RegisterTaskResult \<Rightarrow> 'w \<Rightarrow> 'w) \<Rightarrow> ('x \<Rightarrow> CancelTaskResult \<Rightarrow> 'w \<Rightarrow> 'w) \<Rightarrow> ('c, 'r, 'x, 'w) task_caller
       \<Rightarrow> ('c, 'r, 'x, 'w) timed \<Rightarrow> ('c, 'r, 'x, 'w) timed \<Rightarrow> bool"
  for registered cancelled call where
  interface: "timing_call registered cancelled s s' \<Longrightarrow> runner_step registered cancelled call s s'"
| commands: "runner_step registered cancelled call s (snd (ProcessPendingCommands registered cancelled now s))"
| batch: "runner_step registered cancelled call s (snd (RunDueTasks call registered cancelled now s))"

lemma runner_step_keeps:
  assumes "task_callbacks g h call" "runner_step g h call s s'" "runner_inv [] (fst s)"
  shows "runner_inv [] (fst s')"
  using assms(2,3)
proof cases
  case interface
  with assms(3) timing_call_keeps show ?thesis by blast
next
  case (commands now)
  with assms(3) ProcessPendingCommands_keeps show ?thesis by blast
next
  case (batch now)
  with assms(1,3) task_callbacks.RunDueTasks_batch(1) [where s = s and s' = s' and now = now] show ?thesis
    by (metis prod.collapse)
qed

lemma runner_steps_keep:
  assumes "\<forall>s c i t. (timing_call g h)\<^sup>*\<^sup>* s (call c i t s)" "(runner_step g h call)\<^sup>*\<^sup>* (initial_runner, w) s"
  shows "runner_inv [] (fst s)"
  using assms(2)
proof (induction rule: rtranclp_induct)
  case (step s s')
  with runner_step_keeps [of g h call s s'] assms(1) show ?case by (simp add: task_callbacks_def)
qed (simp add: initial_runner_inv)

section \<open>Properties\<close>

text \<open>
  C14. Whatever is registered, cancelled and run, by the program and by callbacks, in any order: the
  queue stays ordered by trigger time and identifier, the index from identifiers to list nodes stays
  exact, and every identifier ever used belongs to exactly one task, which is queued and pending, or
  terminal and completed or cancelled.
\<close>

theorem timing_runner_invariant:
  "(\<forall>s c i t. (timing_call g h)\<^sup>*\<^sup>* s (call c i t s)) \<and> (runner_step g h call)\<^sup>*\<^sup>* (initial_runner, w) s \<longrightarrow>
     runner_inv [] (fst s)"
  by (intro impI, elim conjE, rule runner_steps_keep)

text \<open>A callback that registers its own successor, ten time units later; results are not observed.\<close>

definition unobserved :: "unit \<Rightarrow> 'v \<Rightarrow> unit \<Rightarrow> unit" where
  "unobserved f v w = w"

definition sample_register :: "TaskId \<Rightarrow> TriggerAt \<Rightarrow> (unit, unit, unit, unit) timed \<Rightarrow> (unit, unit, unit, unit) timed" where
  "sample_register i t s = snd (Runner_RegisterTask unobserved
     \<lparr>rt_task_id = i, rt_trigger_at = t, rt_callback = (), rt_on_result = None\<rparr> s)"

definition sample_call :: "(unit, unit, unit, unit) task_caller" where
  "sample_call c i t s = sample_register (i @ ''x'') (t + 10) s"

definition sample_timed :: "(unit, unit, unit, unit) timed" where
  "sample_timed = sample_register ''b'' 5 (sample_register ''a'' 5 (sample_register ''c'' 3 (initial_runner, ())))"

lemma sample_register_call: "timing_call unobserved unobserved s (sample_register i t s)"
  unfolding sample_register_def by (rule timing_call.register)

lemma sample_call_interface: "\<forall>s c i t. (timing_call unobserved unobserved)\<^sup>*\<^sup>* s (sample_call c i t s)"
  unfolding sample_call_def using sample_register_call by blast

lemma sample_timed_reachable: "(runner_step unobserved unobserved sample_call)\<^sup>*\<^sup>* (initial_runner, ()) sample_timed"
proof -
  have step: "runner_step unobserved unobserved sample_call s (sample_register i t s)" for s i t
    by (intro runner_step.interface sample_register_call)
  show ?thesis
    unfolding sample_timed_def using step by (meson rtranclp.rtrancl_refl rtranclp.rtrancl_into_rtrancl)
qed

theorem timing_runner_invariant_witness: "runner_inv [] (fst sample_timed)"
  using timing_runner_invariant [THEN mp, OF conjI, OF sample_call_interface sample_timed_reachable] .



text \<open>
  After a wake-up the timer is armed for the earliest task still queued, with a delay that is
  never negative, and it is disarmed exactly when the queue is empty.
\<close>

theorem timer_follows_queue:
  assumes "\<forall>s c i t. (timing_call g h)\<^sup>*\<^sup>* s (call c i t s)" "runner_inv [] (fst s)"
    and "ProcessWake ports call g h s = (st, r', w')"
  shows "runner_inv [] r' \<and>
    (if queue r' = [] then \<exists>w. timer_Disarm ports w = (st, w')
     else \<exists>w now w1. clock_Now ports w = (now, w1) \<and>
       timer_ArmAfter ports w1 (max 0 (Min (ta_trigger_at ` set (queue r')) - now)) = (st, w'))"
proof -
  have call: "task_callbacks g h call" using assms(1) by (simp add: task_callbacks_def)
  obtain now w where now: "clock_Now ports (snd s) = (now, w)" by fastforce
  obtain res r1 w1 where run: "RunDueTasks call g h now (fst s, w) = (res, r1, w1)" by (metis prod_cases3)
  note batch = task_callbacks.RunDueTasks_batch [OF call _ run, unfolded fst_conv, OF assms(2)]
  have r': "r' = r1" using assms(3) now run by (auto simp: ProcessWake_def split: option.splits prod.splits)
  show ?thesis
    using assms(3) now run batch(1,4) unfolding r'
    by (auto simp: ProcessWake_def split: option.splits prod.splits if_splits)
qed

text \<open>A clock that stands at 5 and a timer that accepts a delay of 8 alone.\<close>

definition sample_ports :: "unit TimingPorts" where
  "sample_ports = \<lparr>clock_Now = (\<lambda>w. (5, w)), timer_ArmAfter = (\<lambda>w d. (if d = 8 then Status_Ok else Status_Error kInternal [], w)),
     timer_Disarm = (\<lambda>w. (Status_Error kInternal [], w)), wake_Notify = (\<lambda>w. w)\<rparr>"

theorem timer_follows_queue_witness:
  "let (st, r', w') = ProcessWake sample_ports sample_call unobserved unobserved sample_timed
   in runner_inv [] r' \<and> queue r' \<noteq> [] \<and>
      timer_ArmAfter sample_ports () (max 0 (Min (ta_trigger_at ` set (queue r')) - 5)) = (st, w')"
proof -
  let ?run = "ProcessWake sample_ports sample_call unobserved unobserved sample_timed"
  obtain st r' w' where run: "?run = (st, r', w')" by (metis prod_cases3)
  have inv: "runner_inv [] (fst sample_timed)"
    by (rule runner_steps_keep [OF sample_call_interface sample_timed_reachable])
  have "queue (fst (snd ?run)) \<noteq> []" by code_simp
  then have "queue r' \<noteq> []" by (simp add: run)
  with timer_follows_queue [OF sample_call_interface inv run]
  have "runner_inv [] r' \<and> queue r' \<noteq> [] \<and>
      timer_ArmAfter sample_ports () (max 0 (Min (ta_trigger_at ` set (queue r')) - 5)) = (st, w')"
    by (auto simp: sample_ports_def)
  then show ?thesis by (simp add: run)
qed

end
