(* ===== verification/Effects.thy ===== *)
theory Effects
  imports VL_Prelude "HOL-Library.State_Monad"
begin

text \<open>
  Imperative code as values of the library's state monad: reading and changing the state, loops over
  a vector with accumulators and with an early return, and a weakest-precondition calculus in which
  the components state and prove what their methods do.
\<close>

section \<open>Primitive effects and loops\<close>

definition gets :: "('s \<Rightarrow> 'a) \<Rightarrow> ('s, 'a) state" where
  "gets f = State (\<lambda>s. (f s, s))"

definition modify :: "('s \<Rightarrow> 's) \<Rightarrow> ('s, unit) state" where
  "modify f = State (\<lambda>s. ((), f s))"

text \<open>\<open>for (x : xs) acc = body(x, acc)\<close>.\<close>

fun for_each :: "'x list \<Rightarrow> 'a \<Rightarrow> ('x \<Rightarrow> 'a \<Rightarrow> ('s, 'a) state) \<Rightarrow> ('s, 'a) state" where
  "for_each [] acc body = State_Monad.return acc"
| "for_each (x # xs) acc body = do { acc \<leftarrow> body x acc; for_each xs acc body }"

text \<open>A loop whose body may return from the enclosing function: \<open>Some r\<close> is \<open>return r\<close>.\<close>

fun for_return :: "'x list \<Rightarrow> ('x \<Rightarrow> ('s, 'r option) state) \<Rightarrow> ('s, 'r option) state" where
  "for_return [] body = State_Monad.return None"
| "for_return (x # xs) body = do {
     r \<leftarrow> body x;
     (case r of Some y \<Rightarrow> State_Monad.return (Some y) | None \<Rightarrow> for_return xs body)
   }"

section \<open>Weakest preconditions\<close>

definition wp :: "('s, 'a) state \<Rightarrow> ('a \<Rightarrow> 's \<Rightarrow> bool) \<Rightarrow> 's \<Rightarrow> bool" where
  "wp m Q s \<longleftrightarrow> (case run_state m s of (x, s') \<Rightarrow> Q x s')"

named_theorems wp_simps \<open>weakest preconditions of the primitive effects\<close>

lemma wp_return [wp_simps]: "wp (State_Monad.return x) Q = Q x"
  by (simp add: wp_def fun_eq_iff)

lemma wp_bind [wp_simps]: "wp (State_Monad.bind m f) Q = wp m (\<lambda>x. wp (f x) Q)"
  by (simp add: wp_def fun_eq_iff split: prod.split)

lemma wp_gets [wp_simps]: "wp (gets g) Q = (\<lambda>s. Q (g s) s)"
  by (simp add: wp_def gets_def fun_eq_iff)

lemma wp_modify [wp_simps]: "wp (modify h) Q = (\<lambda>s. Q () (h s))"
  by (simp add: wp_def modify_def fun_eq_iff)

lemma wp_State [wp_simps]: "wp (State k) Q = (\<lambda>s. case k s of (x, s') \<Rightarrow> Q x s')"
  by (simp add: wp_def fun_eq_iff)

lemma wp_run: "wp m Q s \<Longrightarrow> run_state m s = (x, s') \<Longrightarrow> Q x s'"
  by (simp add: wp_def)

lemma wp_runI: "(\<And>x s'. run_state m s = (x, s') \<Longrightarrow> Q x s') \<Longrightarrow> wp m Q s"
  by (simp add: wp_def split: prod.split)

lemma wp_conseq: "wp m Q s \<Longrightarrow> (\<And>x s'. Q x s' \<Longrightarrow> Q' x s') \<Longrightarrow> wp m Q' s"
  by (auto simp: wp_def)

lemma wp_conjI: "wp m Q s \<Longrightarrow> wp m Q' s \<Longrightarrow> wp m (\<lambda>x s'. Q x s' \<and> Q' x s') s"
  by (auto simp: wp_def)

lemma wp_value: "(\<And>x. P x) \<Longrightarrow> wp m (\<lambda>x _. P x) s"
  by (simp add: wp_def split: prod.split)

lemma wp_if [wp_simps]: "wp (if b then m else n) Q = (if b then wp m Q else wp n Q)"
  by simp

lemma wp_case_option [wp_simps]:
  "wp (case v of None \<Rightarrow> m | Some x \<Rightarrow> f x) Q = (case v of None \<Rightarrow> wp m Q | Some x \<Rightarrow> wp (f x) Q)"
  by (simp split: option.split)

lemma wp_ifI: "(b \<Longrightarrow> wp m Q s) \<Longrightarrow> (\<not> b \<Longrightarrow> wp n Q s) \<Longrightarrow> wp (if b then m else n) Q s"
  by simp

lemma wp_caseI:
  "(v = None \<Longrightarrow> wp m Q s) \<Longrightarrow> (\<And>x. v = Some x \<Longrightarrow> wp (f x) Q s) \<Longrightarrow> wp (case v of None \<Rightarrow> m | Some x \<Rightarrow> f x) Q s"
  by (cases v) simp_all

lemma wp_returnI: "Q x s \<Longrightarrow> wp (State_Monad.return x) Q s"
  by (simp add: wp_return)

lemma wp_getsI: "Q (g s) s \<Longrightarrow> wp (gets g) Q s"
  by (simp add: wp_gets)

lemma wp_bindI: "wp m (\<lambda>x. wp (f x) Q) s \<Longrightarrow> wp (State_Monad.bind m f) Q s"
  by (simp add: wp_bind)

lemma case_applied [wp_simps]:
  "(if b then f else g) s = (if b then f s else g s)"
  "(case v of None \<Rightarrow> h | Some x \<Rightarrow> k x) s = (case v of None \<Rightarrow> h s | Some x \<Rightarrow> k x s)"
  by (simp_all split: option.split)

text \<open>Loops keep an invariant that their bodies keep; it may depend on the elements still to come.\<close>

lemma wp_for_each:
  assumes "I xs acc s"
    and "\<And>x ys acc s. I (x # ys) acc s \<Longrightarrow> wp (body x acc) (\<lambda>acc' s'. I ys acc' s') s"
    and "\<And>acc s. I [] acc s \<Longrightarrow> Q acc s"
  shows "wp (for_each xs acc body) Q s"
  using assms(1)
proof (induction xs arbitrary: acc s)
  case (Cons x xs)
  have "wp (body x acc) (\<lambda>acc. wp (for_each xs acc body) Q) s"
    by (rule wp_conseq [OF assms(2) [OF Cons.prems]]) (rule Cons.IH)
  then show ?case by (simp add: wp_simps)
qed (simp add: wp_simps assms(3))

lemma wp_for_return:
  assumes "I xs s"
    and "\<And>x ys s. I (x # ys) s \<Longrightarrow> wp (body x) (\<lambda>r s'. case r of None \<Rightarrow> I ys s' | Some y \<Rightarrow> Q (Some y) s') s"
    and "\<And>s. I [] s \<Longrightarrow> Q None s"
  shows "wp (for_return xs body) Q s"
  using assms(1)
proof (induction xs arbitrary: s)
  case (Cons x xs)
  have "wp (body x) (\<lambda>r. wp (case r of Some y \<Rightarrow> State_Monad.return (Some y) | None \<Rightarrow> for_return xs body) Q) s"
    by (rule wp_conseq [OF assms(2) [OF Cons.prems]]) (auto simp: wp_simps Cons.IH split: option.splits)
  then show ?case by (simp add: wp_simps)
qed (simp add: wp_simps assms(3))

section \<open>Effects within a relation\<close>

text \<open>
  A computation stays within a preorder on states; sequencing, branching and looping do if their
  parts do.
\<close>

lemma io_bind:
  assumes "transp R" "state_io_rel R m" "\<And>x. state_io_rel R (f x)"
  shows "state_io_rel R (State_Monad.bind m f)"
  using assms unfolding state_io_rel_def transp_def by (auto split: prod.split) (metis snd_conv)

lemma io_return: "reflp R \<Longrightarrow> state_io_rel R (State_Monad.return x)"
  by (simp add: state_io_rel_def reflpD)

lemma io_gets: "reflp R \<Longrightarrow> state_io_rel R (gets g)"
  by (simp add: state_io_rel_def gets_def reflpD)

lemma io_if: "state_io_rel R m \<Longrightarrow> state_io_rel R n \<Longrightarrow> state_io_rel R (if b then m else n)"
  by simp

lemma io_case_option:
  "state_io_rel R m \<Longrightarrow> (\<And>x. state_io_rel R (f x)) \<Longrightarrow> state_io_rel R (case v of None \<Rightarrow> m | Some x \<Rightarrow> f x)"
  by (simp split: option.split)

lemma io_for_each:
  assumes "reflp R" "transp R" "\<And>x acc. state_io_rel R (body x acc)"
  shows "state_io_rel R (for_each xs acc body)"
proof (induction xs arbitrary: acc)
  case (Cons x xs)
  show ?case unfolding for_each.simps by (rule io_bind [OF assms(2,3) Cons.IH])
qed (simp add: io_return assms(1))

lemma io_for_return:
  assumes "reflp R" "transp R" "\<And>x. state_io_rel R (body x)"
  shows "state_io_rel R (for_return xs body)"
proof (induction xs)
  case (Cons x xs)
  show ?case unfolding for_return.simps
    by (rule io_bind [OF assms(2,3)]) (auto intro: Cons.IH io_return assms(1) split: option.split)
qed (simp add: io_return assms(1))

end
