(* ===== verification/Reminder_Service.thy ===== *)
theory Reminder_Service
  imports Reminder_Tasks Rule_Service Schedule_Service Timing Effects "HOL-Library.AList"
begin

text \<open>
  \<open>ScheduleReminderService\<close> (\<open>schedule_reminder_service.cc\<close>): one reminder chain per timed schedule,
  at most three attempts ten minutes apart, driven by one-shot timing tasks.

  The state is the timing service's, of any type, and a \<open>World\<close>: the stores behind the two
  repository references, the fields of the service and the environment (clocks, speech,
  notification). The methods are monadic programs over it. The two lambdas handed to the timing
  service are values of \<open>ReminderCallback\<close> and \<open>ReminderResultCallback\<close>, which \<open>run_callback\<close> and
  \<open>run_result\<close> execute. Calls run one at a time, so \<open>mutex_\<close> and \<open>action_mutex_\<close> have no counterpart.
  Arguments that read the clock twice are read from left to right.
\<close>

section \<open>State and collaborators\<close>

record RetryState =
  retry_task_id :: string
  retry_failure_count :: int

record ReminderState =
  sr_running :: bool
  sr_sequence :: int
  sr_chain_sequence :: int
  sr_generation_retries :: "(ScheduleRuleId \<times> RetryState) list"

definition initial_reminder_state :: ReminderState where
  "initial_reminder_state = \<lparr>sr_running = False, sr_sequence = 0, sr_chain_sequence = 0, sr_generation_retries = []\<rparr>"

record ('s, 'm, 'e) World =
  wd_schedules :: 's
  wd_reminders :: 'm
  wd_service :: ReminderState
  wd_env :: 'e

datatype ReminderCallback = Reminder_fired int | Retry_fired ScheduleRuleId string

datatype ReminderResultCallback = Reminder_registered int | Retry_registered ScheduleRuleId string

text \<open>The timing service: its state \<open>'t\<close>, and \<open>'w\<close> for the rest of the program.\<close>

record ('t, 'w) TimingTaskService =
  timing_RegisterTask :: "(ReminderResultCallback \<Rightarrow> RegisterTaskResult \<Rightarrow> 'w \<Rightarrow> 'w)
    \<Rightarrow> (ReminderCallback, ReminderResultCallback) RegisterTaskCommand \<Rightarrow> 't \<times> 'w \<Rightarrow> CommandAcceptance \<times> 't \<times> 'w"
  timing_CancelTask :: "unit CancelTaskCommand \<Rightarrow> 't \<times> 'w \<Rightarrow> CommandAcceptance \<times> 't \<times> 'w"

text \<open>
  \<open>rm_system_clock\<close> is \<open>system_clock::now()\<close> in microseconds; the two orders are the iteration orders
  of the unordered containers.
\<close>

record ('t, 's, 'm, 'e) ScheduleReminderService =
  rm_repository :: "'s ScheduleRepository"
  rm_reminder_repository :: "'m ScheduleReminderTaskRepository"
  rm_schedule_service :: "'s ScheduleService"
  rm_rule_service :: "'s ScheduleRuleService"
  rm_timing_service :: "('t, ('s, 'm, 'e) World) TimingTaskService"
  rm_speech :: "string \<Rightarrow> 'e \<Rightarrow> Status \<times> 'e"
  rm_notification :: "(Schedule \<Rightarrow> ScheduleReminderTask \<Rightarrow> 'e \<Rightarrow> Status \<times> 'e) option"
  rm_now_provider :: "'e \<Rightarrow> DateTime \<times> 'e"
  rm_system_clock :: "'e \<Rightarrow> int \<times> 'e"
  rm_schedule_order :: "ScheduleId list \<Rightarrow> ScheduleId list"
  rm_retry_order :: "(ScheduleRuleId \<times> RetryState) list \<Rightarrow> (ScheduleRuleId \<times> RetryState) list"

record ReminderActionCommand =
  ra_operation_id :: string
  ra_reminder_trigger_id :: string
  ra_action :: ScheduleReminderActionKind
  ra_snooze_minutes :: "int option"

record ReminderActionResult =
  rr_affected_count :: int
  rr_events :: "string list"
  rr_operation_id :: string
  rr_reminder_trigger_id :: string
  rr_action :: ScheduleReminderActionKind
  rr_occurred_at :: DateTime
  rr_next_trigger_at :: "DateTime option"
  rr_replayed :: bool

type_synonym ('t, 's, 'm, 'e, 'a) action = "('t \<times> ('s, 'm, 'e) World, 'a) state"

section \<open>Calls to the collaborators\<close>

definition on_schedules :: "('s \<Rightarrow> 'a \<times> 's) \<Rightarrow> ('t, 's, 'm, 'e, 'a) action" where
  "on_schedules f = State (\<lambda>(t, w). let (x, s) = f (wd_schedules w) in (x, t, w\<lparr>wd_schedules := s\<rparr>))"

definition on_reminders :: "('m \<Rightarrow> 'a \<times> 'm) \<Rightarrow> ('t, 's, 'm, 'e, 'a) action" where
  "on_reminders f = State (\<lambda>(t, w). let (x, m) = f (wd_reminders w) in (x, t, w\<lparr>wd_reminders := m\<rparr>))"

definition on_env :: "('e \<Rightarrow> 'a \<times> 'e) \<Rightarrow> ('t, 's, 'm, 'e, 'a) action" where
  "on_env f = State (\<lambda>(t, w). let (x, e) = f (wd_env w) in (x, t, w\<lparr>wd_env := e\<rparr>))"

definition get_fields :: "(ReminderState \<Rightarrow> 'a) \<Rightarrow> ('t, 's, 'm, 'e, 'a) action" where
  "get_fields f = gets (\<lambda>(t, w). f (wd_service w))"

definition set_fields :: "(ReminderState \<Rightarrow> ReminderState) \<Rightarrow> ('t, 's, 'm, 'e, unit) action" where
  "set_fields f = modify (\<lambda>(t, w). (t, w\<lparr>wd_service := f (wd_service w)\<rparr>))"

definition from_schedules :: "('s \<Rightarrow> 'a) \<Rightarrow> ('t, 's, 'm, 'e, 'a) action" where
  "from_schedules f = gets (\<lambda>(t, w). f (wd_schedules w))"

definition from_reminders :: "('m \<Rightarrow> 'a) \<Rightarrow> ('t, 's, 'm, 'e, 'a) action" where
  "from_reminders f = gets (\<lambda>(t, w). f (wd_reminders w))"

definition Now :: "('t, 's, 'm, 'e) ScheduleReminderService \<Rightarrow> ('u, 's, 'm, 'e, DateTime) action" where
  "Now svc = on_env (rm_now_provider svc)"

definition system_micros :: "('t, 's, 'm, 'e) ScheduleReminderService \<Rightarrow> ('u, 's, 'm, 'e, int) action" where
  "system_micros svc = on_env (rm_system_clock svc)"

definition SystemNow :: "('t, 's, 'm, 'e) ScheduleReminderService \<Rightarrow> ('u, 's, 'm, 'e, DateTime) action" where
  "SystemNow svc = do { t \<leftarrow> system_micros svc; State_Monad.return (t sdiv 1000000) }"

definition update_reminder ::
    "('t, 's, 'm, 'e) ScheduleReminderService \<Rightarrow> ScheduleReminderTask \<Rightarrow> ('u, 's, 'm, 'e, Status) action" where
  "update_reminder svc task = on_reminders (\<lambda>m. tasks_Update (rm_reminder_repository svc) m task)"

definition find_schedule_by_id ::
    "('t, 's, 'm, 'e) ScheduleReminderService \<Rightarrow> ScheduleId \<Rightarrow> ('u, 's, 'm, 'e, Schedule Result) action" where
  "find_schedule_by_id svc i = from_schedules (\<lambda>s. repo_FindById (rm_repository svc) s i)"

definition find_schedules ::
    "('t, 's, 'm, 'e) ScheduleReminderService \<Rightarrow> ('u, 's, 'm, 'e, Schedule list Result) action" where
  "find_schedules svc = from_schedules (repo_FindAll (rm_repository svc))"

definition find_reminders ::
    "('t, 's, 'm, 'e) ScheduleReminderService \<Rightarrow> ('u, 's, 'm, 'e, ScheduleReminderTask list Result) action" where
  "find_reminders svc = from_reminders (tasks_FindAll (rm_reminder_repository svc))"

definition cancel_timing_task ::
    "('t, 's, 'm, 'e) ScheduleReminderService \<Rightarrow> TaskId \<Rightarrow> ('t, 's, 'm, 'e, CommandAcceptance) action" where
  "cancel_timing_task svc i =
     State (timing_CancelTask (rm_timing_service svc) \<lparr>ct_task_id = i, ct_on_result = None\<rparr>)"

section \<open>Constants and small functions\<close>

definition kMaximumAttempts :: int where
  "kMaximumAttempts = 3"

definition kFollowUpDelay :: int where
  "kFollowUpDelay = 10 * 60"

definition kRecentWindow :: int where
  "kRecentWindow = 10 * 60"

definition kFinalSnoozeReminderNotice :: string where
  "kFinalSnoozeReminderNotice = utf8 [36825, 26159, 26368, 21518, 19968, 27425, 25552, 37266, 65307, 20043, 21518, 19981, 20877, 21019, 24314, 26032, 30340, 25512, 36831, 25552, 37266, 12290]"

definition ToTriggerAt :: "DateTime \<Rightarrow> TriggerAt" where
  "ToTriggerAt value = value * 1000000"

definition RetryDelay :: "int \<Rightarrow> int" where
  "RetryDelay failures = (if failures \<le> 1 then 60 else if failures = 2 then 5 * 60 else 15 * 60)"

definition Pending :: "ScheduleReminderTask \<Rightarrow> bool" where
  "Pending task \<longleftrightarrow> rk_timer_status task = kPending"

definition int64_max :: int where
  "int64_max = 9223372036854775807"

definition IsRunning :: "('t, 's, 'm, 'e) ScheduleReminderService \<Rightarrow> ('u, 's, 'm, 'e, bool) action" where
  "IsRunning svc = get_fields sr_running"

definition AllocateChainId :: "('t, 's, 'm, 'e) ScheduleReminderService \<Rightarrow> ('u, 's, 'm, 'e, int) action" where
  "AllocateChainId svc = do {
     set_fields (\<lambda>f. f\<lparr>sr_chain_sequence := (if sr_chain_sequence f = int64_max then 1 else sr_chain_sequence f + 1)\<rparr>);
     get_fields sr_chain_sequence
   }"

definition AllocateTaskId ::
    "('t, 's, 'm, 'e) ScheduleReminderService \<Rightarrow> string \<Rightarrow> ('u, 's, 'm, 'e, string) action" where
  "AllocateTaskId svc task_prefix = do {
     set_fields (\<lambda>f. f\<lparr>sr_sequence := (if sr_sequence f = int64_max then 1 else sr_sequence f + 1)\<rparr>);
     n \<leftarrow> get_fields sr_sequence;
     State_Monad.return (task_prefix @ ''-'' @ to_string n)
   }"

text \<open>\<open>if (!status.ok() && first_failure.ok()) first_failure = status\<close>.\<close>

definition keep_first :: "Status \<Rightarrow> Status \<Rightarrow> Status" where
  "keep_first first_failure st = (if \<not> status_ok st \<and> status_ok first_failure then st else first_failure)"

section \<open>Registering and firing\<close>

text \<open>The result callback of a reminder registration, and that of a generation retry.\<close>

definition on_reminder_registered ::
    "('t, 's, 'm, 'e) ScheduleReminderService \<Rightarrow> int \<Rightarrow> RegisterTaskResult \<Rightarrow> ('u, 's, 'm, 'e, unit) action" where
  "on_reminder_registered svc reminder_task_id result =
     (if result \<noteq> kDuplicate then State_Monad.return ()
      else do {
        loaded \<leftarrow> from_reminders (\<lambda>m. tasks_FindById (rm_reminder_repository svc) m reminder_task_id);
        if ok loaded \<and> rk_timer_status (the (val loaded)) = kPending then do {
          now \<leftarrow> Now svc;
          _ \<leftarrow> update_reminder svc ((the (val loaded))\<lparr>rk_timer_status := kFailed, rk_updated_at := now\<rparr>);
          State_Monad.return ()
        } else State_Monad.return ()
      })"

definition on_retry_registered ::
    "('t, 's, 'm, 'e) ScheduleReminderService \<Rightarrow> ScheduleRuleId \<Rightarrow> string \<Rightarrow> RegisterTaskResult
       \<Rightarrow> ('u, 's, 'm, 'e, unit) action" where
  "on_retry_registered svc rule_id value result =
     (if result \<noteq> kDuplicate then State_Monad.return ()
      else do {
        retries \<leftarrow> get_fields sr_generation_retries;
        (case map_of retries rule_id of
           None \<Rightarrow> State_Monad.return ()
         | Some found \<Rightarrow>
             if retry_task_id found = value
               then set_fields (\<lambda>f. f\<lparr>sr_generation_retries := AList.delete rule_id (sr_generation_retries f)\<rparr>)
             else State_Monad.return ())
      })"

definition run_result ::
    "('t, 's, 'm, 'e) ScheduleReminderService \<Rightarrow> ReminderResultCallback \<Rightarrow> RegisterTaskResult
       \<Rightarrow> ('s, 'm, 'e) World \<Rightarrow> ('s, 'm, 'e) World" where
  "run_result svc callback result w =
     snd (snd (run_state
       (case callback of
          Reminder_registered i \<Rightarrow> on_reminder_registered svc i result
        | Retry_registered rule_id value \<Rightarrow> on_retry_registered svc rule_id value result) ((), w)))"

definition RegisterPersistedTask ::
    "('t, 's, 'm, 'e) ScheduleReminderService \<Rightarrow> ScheduleReminderTask \<Rightarrow> ('t, 's, 'm, 'e, Status) action" where
  "RegisterPersistedTask svc task =
     (case rk_timing_task_id task of
        None \<Rightarrow> State_Monad.return (Status_Error kInternal msg_task_id_missing)
      | Some timing_task_id \<Rightarrow>
        (case TaskId_Create timing_task_id of
           None \<Rightarrow> State_Monad.return (Status_Error kInternal msg_task_id_invalid)
         | Some i \<Rightarrow> do {
             accepted \<leftarrow> State (timing_RegisterTask (rm_timing_service svc) (run_result svc)
               \<lparr>rt_task_id = i, rt_trigger_at = ToTriggerAt (rk_trigger_at task),
                rt_callback = Reminder_fired (rk_id task), rt_on_result = Some (Reminder_registered (rk_id task))\<rparr>);
             State_Monad.return (if accepted = kAccepted then Status_Ok else Status_Error kUnavailable msg_register_rejected)
           }))"

definition RegisterReminder ::
    "('t, 's, 'm, 'e) ScheduleReminderService \<Rightarrow> ScheduleId \<Rightarrow> int \<Rightarrow> int \<Rightarrow> DateTime
       \<Rightarrow> ('t, 's, 'm, 'e, Status) action" where
  "RegisterReminder svc schedule_id chain_id attempt trigger_at = do {
     loaded \<leftarrow> find_schedule_by_id svc schedule_id;
     if \<not> ok loaded then State_Monad.return (status loaded)
     else do {
       now \<leftarrow> Now svc;
       timing_task_id \<leftarrow> AllocateTaskId svc ''schedule-reminder'';
       let task = \<lparr>rk_id = 0, rk_schedule_id = schedule_id, rk_event = sc_event (the (val loaded)), rk_chain_id = chain_id,
         rk_attempt = attempt, rk_timing_task_id = Some timing_task_id, rk_trigger_at = trigger_at,
         rk_business_status = kScheduled, rk_timer_status = kPending, rk_triggered_at = None,
         rk_action_operation_id = None, rk_action_kind = None, rk_action_occurred_at = None,
         rk_action_next_trigger_at = None, rk_created_at = now, rk_updated_at = now\<rparr>;
       inserted \<leftarrow> on_reminders (\<lambda>m. tasks_Insert (rm_reminder_repository svc) m task);
       if \<not> ok inserted then State_Monad.return (status inserted)
       else do {
         registered \<leftarrow> RegisterPersistedTask svc (the (val inserted));
         if \<not> status_ok registered then do {
           now \<leftarrow> Now svc;
           _ \<leftarrow> update_reminder svc ((the (val inserted))\<lparr>rk_timer_status := kFailed, rk_updated_at := now\<rparr>);
           State_Monad.return registered
         } else State_Monad.return registered
       }
     }
   }"

text \<open>
  \<open>except_task_id\<close> is absent in every call. A task whose cancellation the timing service rejects is
  skipped.
\<close>

definition CancelPendingTasks ::
    "('t, 's, 'm, 'e) ScheduleReminderService \<Rightarrow> ScheduleId \<Rightarrow> int option \<Rightarrow> ('t, 's, 'm, 'e, Status) action" where
  "CancelPendingTasks svc schedule_id except_task_id = do {
     tasks \<leftarrow> from_reminders (\<lambda>m. tasks_FindBySchedule (rm_reminder_repository svc) m schedule_id);
     if \<not> ok tasks then State_Monad.return (status tasks)
     else for_each (the (val tasks)) Status_Ok (\<lambda>task first_failure.
       if \<not> Pending task \<or> Some (rk_id task) = except_task_id then State_Monad.return first_failure
       else do {
         accepted \<leftarrow> (case rk_timing_task_id task of
             None \<Rightarrow> State_Monad.return kAccepted
           | Some timing_task_id \<Rightarrow>
               (case TaskId_Create timing_task_id of
                  None \<Rightarrow> State_Monad.return kAccepted
                | Some i \<Rightarrow> cancel_timing_task svc i));
         if accepted = Acceptance_kUnavailable
           then State_Monad.return (keep_first first_failure (Status_Error kUnavailable msg_cancel_rejected))
         else do {
           now \<leftarrow> Now svc;
           updated \<leftarrow> update_reminder svc (task\<lparr>rk_timer_status := Timer_kCancelled,
             rk_business_status := Business_kCancelled, rk_updated_at := now\<rparr>);
           State_Monad.return (keep_first first_failure updated)
         }
       })
   }"

definition SynchronizeSchedule ::
    "('t, 's, 'm, 'e) ScheduleReminderService \<Rightarrow> ScheduleId \<Rightarrow> ('t, 's, 'm, 'e, Status) action" where
  "SynchronizeSchedule svc schedule_id = do {
     running \<leftarrow> IsRunning svc;
     if \<not> running then State_Monad.return (Status_Error kUnavailable msg_not_started)
     else do {
       loaded \<leftarrow> find_schedule_by_id svc schedule_id;
       if \<not> ok loaded then State_Monad.return (status loaded)
       else do {
         cancelled \<leftarrow> CancelPendingTasks svc schedule_id None;
         if \<not> status_ok cancelled then State_Monad.return cancelled
         else (case sc_start_time (the (val loaded)) of
             None \<Rightarrow> State_Monad.return Status_Ok
           | Some start_time \<Rightarrow>
               if sc_status (the (val loaded)) \<noteq> kActive then State_Monad.return Status_Ok
               else do {
                 now \<leftarrow> Now svc;
                 if start_time \<le> now then State_Monad.return Status_Ok
                 else do {
                   chain_id \<leftarrow> AllocateChainId svc;
                   RegisterReminder svc schedule_id chain_id 1 start_time
                 }
               })
       }
     }
   }"

definition ScheduleGenerationRetry ::
    "('t, 's, 'm, 'e) ScheduleReminderService \<Rightarrow> ScheduleRuleId \<Rightarrow> int \<Rightarrow> ('t, 's, 'm, 'e, Status) action" where
  "ScheduleGenerationRetry svc rule_id failures = do {
     value \<leftarrow> AllocateTaskId svc ''schedule-rule-retry'';
     (case TaskId_Create value of
        None \<Rightarrow> State_Monad.return (Status_Error kInternal msg_retry_id_failed)
      | Some i \<Rightarrow> do {
          set_fields (\<lambda>f. f\<lparr>sr_generation_retries := AList.update rule_id
            \<lparr>retry_task_id = value, retry_failure_count = failures\<rparr> (sr_generation_retries f)\<rparr>);
          now \<leftarrow> Now svc;
          accepted \<leftarrow> State (timing_RegisterTask (rm_timing_service svc) (run_result svc)
            \<lparr>rt_task_id = i, rt_trigger_at = ToTriggerAt (now + RetryDelay failures),
             rt_callback = Retry_fired rule_id value, rt_on_result = Some (Retry_registered rule_id value)\<rparr>);
          if accepted = kAccepted then State_Monad.return Status_Ok
          else do {
            set_fields (\<lambda>f. f\<lparr>sr_generation_retries := AList.delete rule_id (sr_generation_retries f)\<rparr>);
            State_Monad.return (Status_Error kUnavailable msg_retry_register_rejected)
          }
        })
   }"

text \<open>The rule service reads the system clock itself.\<close>

definition GenerateNextInstance ::
    "('t, 's, 'm, 'e) ScheduleReminderService \<Rightarrow> ScheduleRuleId \<Rightarrow> int \<Rightarrow> ('t, 's, 'm, 'e, unit) action" where
  "GenerateNextInstance svc rule_id prior_failure_count = do {
     running \<leftarrow> IsRunning svc;
     if \<not> running then State_Monad.return ()
     else do {
       now \<leftarrow> SystemNow svc;
       result \<leftarrow> on_schedules (\<lambda>s. generate_next_schedule_instance (rm_rule_service svc) s now \<lparr>gn_rule_id = rule_id\<rparr>);
       if \<not> status_ok (gnr_status result) then do {
         _ \<leftarrow> ScheduleGenerationRetry svc rule_id (prior_failure_count + 1);
         State_Monad.return ()
       } else do {
         set_fields (\<lambda>f. f\<lparr>sr_generation_retries := AList.delete rule_id (sr_generation_retries f)\<rparr>);
         (case gnr_schedule result of
            None \<Rightarrow> State_Monad.return ()
          | Some schedule \<Rightarrow> do { _ \<leftarrow> SynchronizeSchedule svc (sc_id schedule); State_Monad.return () })
       }
     }
   }"

text \<open>The part of \<open>HandleReminder\<close> after the record is stored: the next attempt, speech, notification, the next instance.\<close>

definition announce_reminder ::
    "('t, 's, 'm, 'e) ScheduleReminderService \<Rightarrow> Schedule \<Rightarrow> ScheduleReminderTask \<Rightarrow> ('t, 's, 'm, 'e, unit) action" where
  "announce_reminder svc schedule task = do {
     follow_up_status \<leftarrow>
       (if rk_attempt task < kMaximumAttempts then do {
          now \<leftarrow> Now svc;
          RegisterReminder svc (rk_schedule_id task) (rk_chain_id task) (rk_attempt task + 1) (now + kFollowUpDelay)
        } else State_Monad.return Status_Ok);
     let spoken = msg_speech_prefix @ sc_event schedule @ msg_speech_suffix @
       (if rk_attempt task \<ge> kMaximumAttempts then '' '' @ kFinalSnoozeReminderNotice else []);
     _ \<leftarrow> on_env (rm_speech svc spoken);
     (case rm_notification svc of
        None \<Rightarrow> State_Monad.return ()
      | Some send \<Rightarrow>
          if status_ok follow_up_status then do { _ \<leftarrow> on_env (send schedule task); State_Monad.return () }
          else State_Monad.return ());
     (case sc_rule_id schedule of
        None \<Rightarrow> State_Monad.return ()
      | Some rule_id \<Rightarrow>
          if rk_attempt task = 1 then GenerateNextInstance svc rule_id 0 else State_Monad.return ())
   }"

definition HandleReminder ::
    "('t, 's, 'm, 'e) ScheduleReminderService \<Rightarrow> int \<Rightarrow> string \<Rightarrow> ('t, 's, 'm, 'e, unit) action" where
  "HandleReminder svc reminder_task_id timing_task_id = do {
     running \<leftarrow> IsRunning svc;
     if \<not> running then State_Monad.return ()
     else do {
       loaded_task \<leftarrow> from_reminders (\<lambda>m. tasks_FindById (rm_reminder_repository svc) m reminder_task_id);
       if \<not> ok loaded_task \<or> \<not> Pending (the (val loaded_task)) \<or> rk_timing_task_id (the (val loaded_task)) = None \<or>
          the (rk_timing_task_id (the (val loaded_task))) \<noteq> timing_task_id
         then State_Monad.return ()
       else do {
         loaded_schedule \<leftarrow> find_schedule_by_id svc (rk_schedule_id (the (val loaded_task)));
         if \<not> ok loaded_schedule \<or> sc_status (the (val loaded_schedule)) \<noteq> kActive then State_Monad.return ()
         else do {
           triggered_at \<leftarrow> Now svc;
           updated_at \<leftarrow> Now svc;
           let schedule = the (val loaded_schedule);
           let task = (the (val loaded_task))\<lparr>rk_timer_status := kTriggered,
             rk_business_status := (if rk_attempt (the (val loaded_task)) \<ge> kMaximumAttempts then kExhausted
               else kWaitingAcknowledgement),
             rk_triggered_at := Some triggered_at, rk_updated_at := updated_at\<rparr>;
           updated \<leftarrow> update_reminder svc task;
           if \<not> status_ok updated then State_Monad.return ()
           else announce_reminder svc schedule task
         }
       }
     }
   }"

definition on_retry_fired ::
    "('t, 's, 'm, 'e) ScheduleReminderService \<Rightarrow> ScheduleRuleId \<Rightarrow> string \<Rightarrow> TaskId \<Rightarrow> ('t, 's, 'm, 'e, unit) action" where
  "on_retry_fired svc rule_id value fired =
     (if fired \<noteq> value then State_Monad.return ()
      else do {
        retries \<leftarrow> get_fields sr_generation_retries;
        (case map_of retries rule_id of
           None \<Rightarrow> State_Monad.return ()
         | Some found \<Rightarrow>
             if retry_task_id found \<noteq> value then State_Monad.return ()
             else do {
               set_fields (\<lambda>f. f\<lparr>sr_generation_retries := AList.delete rule_id (sr_generation_retries f)\<rparr>);
               GenerateNextInstance svc rule_id (retry_failure_count found)
             })
      })"

definition run_callback ::
    "('t, 's, 'm, 'e) ScheduleReminderService \<Rightarrow> ReminderCallback \<Rightarrow> TaskId \<Rightarrow> TriggerAt
       \<Rightarrow> 't \<times> ('s, 'm, 'e) World \<Rightarrow> 't \<times> ('s, 'm, 'e) World" where
  "run_callback svc callback fired trigger_at s =
     snd (run_state
       (case callback of
          Reminder_fired reminder_task_id \<Rightarrow> HandleReminder svc reminder_task_id fired
        | Retry_fired rule_id value \<Rightarrow> on_retry_fired svc rule_id value fired) s)"

section \<open>The public operations\<close>

definition Start :: "('t, 's, 'm, 'e) ScheduleReminderService \<Rightarrow> ('t, 's, 'm, 'e, Status) action" where
  "Start svc = do {
     reminders \<leftarrow> find_reminders svc;
     if \<not> ok reminders then State_Monad.return (status reminders)
     else do {
       running \<leftarrow> IsRunning svc;
       if running then State_Monad.return Status_Ok
       else do {
         micros \<leftarrow> system_micros svc;
         set_fields (\<lambda>f. f\<lparr>sr_running := True, sr_sequence := micros,
           sr_chain_sequence := fold (\<lambda>task. max (rk_chain_id task)) (the (val reminders)) (sr_chain_sequence f)\<rparr>);
         let schedules_with_tasks = map rk_schedule_id (the (val reminders));
         first_failure \<leftarrow> for_each (the (val reminders)) Status_Ok (\<lambda>task first_failure.
           if rk_timer_status task \<noteq> kPending then State_Monad.return first_failure
           else do {
             schedule \<leftarrow> find_schedule_by_id svc (rk_schedule_id task);
             if \<not> ok schedule \<or> sc_status (the (val schedule)) \<noteq> kActive then do {
               now \<leftarrow> Now svc;
               _ \<leftarrow> update_reminder svc (task\<lparr>rk_timer_status := Timer_kCancelled,
                 rk_business_status := Business_kCancelled, rk_updated_at := now\<rparr>);
               State_Monad.return first_failure
             } else do {
               now \<leftarrow> Now svc;
               if rk_trigger_at task \<le> now then do {
                 HandleReminder svc (rk_id task) (case rk_timing_task_id task of None \<Rightarrow> [] | Some i \<Rightarrow> i);
                 State_Monad.return first_failure
               } else do {
                 restored \<leftarrow> RegisterPersistedTask svc task;
                 State_Monad.return (keep_first first_failure restored)
               }
             }
           });
         schedules \<leftarrow> find_schedules svc;
         if \<not> ok schedules then State_Monad.return (status schedules)
         else for_each (the (val schedules)) first_failure (\<lambda>schedule first_failure.
           case sc_start_time schedule of
             None \<Rightarrow> State_Monad.return first_failure
           | Some start_time \<Rightarrow>
               if sc_status schedule \<noteq> kActive then State_Monad.return first_failure
               else do {
                 now \<leftarrow> Now svc;
                 if start_time \<le> now \<or> sc_id schedule \<in> set schedules_with_tasks then State_Monad.return first_failure
                 else do {
                   chain_id \<leftarrow> AllocateChainId svc;
                   st \<leftarrow> RegisterReminder svc (sc_id schedule) chain_id 1 start_time;
                   State_Monad.return (keep_first first_failure st)
                 }
               })
       }
     }
   }"

definition Stop :: "('t, 's, 'm, 'e) ScheduleReminderService \<Rightarrow> ('t, 's, 'm, 'e, unit) action" where
  "Stop svc = do {
     all_tasks \<leftarrow> find_reminders svc;
     let ids = (if ok all_tasks
       then map (\<lambda>task. the (rk_timing_task_id task))
              (filter (\<lambda>task. Pending task \<and> rk_timing_task_id task \<noteq> None) (the (val all_tasks)))
       else []);
     running \<leftarrow> IsRunning svc;
     if \<not> running then State_Monad.return ()
     else do {
       retries \<leftarrow> get_fields sr_generation_retries;
       set_fields (\<lambda>f. f\<lparr>sr_running := False, sr_generation_retries := []\<rparr>);
       for_each (ids @ map (\<lambda>(rule, retry). retry_task_id retry) (rm_retry_order svc retries)) () (\<lambda>i _.
         case TaskId_Create i of
           None \<Rightarrow> State_Monad.return ()
         | Some task_id \<Rightarrow> do { _ \<leftarrow> cancel_timing_task svc task_id; State_Monad.return () })
     }
   }"

definition CancelScheduleReminder ::
    "('t, 's, 'm, 'e) ScheduleReminderService \<Rightarrow> ScheduleId \<Rightarrow> ('t, 's, 'm, 'e, Status) action" where
  "CancelScheduleReminder svc schedule_id = do {
     loaded \<leftarrow> find_schedule_by_id svc schedule_id;
     if \<not> ok loaded then State_Monad.return (status loaded) else CancelPendingTasks svc schedule_id None
   }"

definition SuspendRuleReminders ::
    "('t, 's, 'm, 'e) ScheduleReminderService \<Rightarrow> ScheduleRuleId \<Rightarrow> ('t, 's, 'm, 'e, Status) action" where
  "SuspendRuleReminders svc rule_id =
     (if rule_id \<le> 0 then State_Monad.return (Status_Error kInvalidArgument msg_rule_id_zero)
      else do {
        schedules \<leftarrow> find_schedules svc;
        if \<not> ok schedules then State_Monad.return (status schedules)
        else do {
          first_failure \<leftarrow> for_each (the (val schedules)) Status_Ok (\<lambda>schedule first_failure.
            if sc_rule_id schedule \<noteq> Some rule_id then State_Monad.return first_failure
            else do {
              st \<leftarrow> CancelPendingTasks svc (sc_id schedule) None;
              State_Monad.return (keep_first first_failure st)
            });
          retries \<leftarrow> get_fields sr_generation_retries;
          (case map_of retries rule_id of
             None \<Rightarrow> State_Monad.return first_failure
           | Some found \<Rightarrow> do {
               set_fields (\<lambda>f. f\<lparr>sr_generation_retries := AList.delete rule_id (sr_generation_retries f)\<rparr>);
               (case TaskId_Create (retry_task_id found) of
                  None \<Rightarrow> State_Monad.return first_failure
                | Some i \<Rightarrow> do {
                    accepted \<leftarrow> cancel_timing_task svc i;
                    State_Monad.return
                      (if accepted = Acceptance_kUnavailable
                         then keep_first first_failure (Status_Error kUnavailable msg_retry_cancel_rejected)
                       else first_failure)
                  })
             })
        }
      })"

definition SynchronizeRule ::
    "('t, 's, 'm, 'e) ScheduleReminderService \<Rightarrow> ScheduleRuleId \<Rightarrow> ('t, 's, 'm, 'e, Status) action" where
  "SynchronizeRule svc rule_id =
     (if rule_id \<le> 0 then State_Monad.return (Status_Error kInvalidArgument msg_rule_id_zero)
      else do {
        schedules \<leftarrow> find_schedules svc;
        if \<not> ok schedules then State_Monad.return (status schedules)
        else for_each (the (val schedules)) Status_Ok (\<lambda>schedule first_failure.
          if sc_rule_id schedule \<noteq> Some rule_id \<or> sc_status schedule \<noteq> kActive then State_Monad.return first_failure
          else do {
            st \<leftarrow> SynchronizeSchedule svc (sc_id schedule);
            State_Monad.return (keep_first first_failure st)
          })
      })"

section \<open>User actions\<close>

definition actionable :: "ScheduleReminderTask \<Rightarrow> bool" where
  "actionable task \<longleftrightarrow> rk_business_status task = kWaitingAcknowledgement \<or> rk_business_status task = kExhausted"

definition find_recent ::
    "('t, 's, 'm, 'e) ScheduleReminderService \<Rightarrow> ('t, 's, 'm, 'e, ScheduleReminderTask list Result) action" where
  "find_recent svc = do {
     from \<leftarrow> Now svc;
     to \<leftarrow> Now svc;
     from_reminders (\<lambda>m. tasks_FindTriggered (rm_reminder_repository svc) m (from - kRecentWindow) to)
   }"

text \<open>\<open>kScheduled\<close>, \<open>kWaitingAcknowledgement\<close> and \<open>kExhausted\<close> become \<open>kAcknowledged\<close>.\<close>

definition acknowledge_business :: "ScheduleReminderTask \<Rightarrow> ScheduleReminderTask" where
  "acknowledge_business task =
     (if rk_business_status task = kScheduled \<or> rk_business_status task = kWaitingAcknowledgement \<or>
         rk_business_status task = kExhausted
        then task\<lparr>rk_business_status := kAcknowledged\<rparr> else task)"

text \<open>The sets the first loop collects, with the reported event names in order.\<close>

definition collect_recent ::
    "('t, 's, 'm, 'e) ScheduleReminderService \<Rightarrow> ScheduleReminderTask list
       \<Rightarrow> ('t, 's, 'm, 'e, int list \<times> ScheduleId list \<times> string list) action" where
  "collect_recent svc recent =
     for_each recent ([], [], []) (\<lambda>task (chains, schedules, events).
       if \<not> actionable task then State_Monad.return (chains, schedules, events)
       else do {
         event \<leftarrow>
           (if rk_event task = [] then do {
              loaded \<leftarrow> find_schedule_by_id svc (rk_schedule_id task);
              State_Monad.return (if ok loaded then sc_event (the (val loaded)) else [])
            } else State_Monad.return (rk_event task));
         State_Monad.return (List.insert (rk_chain_id task) chains, List.insert (rk_schedule_id task) schedules,
           if event \<noteq> [] \<and> event \<notin> set events then events @ [event] else events)
       })"

definition AcknowledgeRecentReminders ::
    "('t, 's, 'm, 'e) ScheduleReminderService \<Rightarrow> ('t, 's, 'm, 'e, ReminderActionResult Result) action" where
  "AcknowledgeRecentReminders svc = do {
     recent \<leftarrow> find_recent svc;
     if \<not> ok recent then State_Monad.return (Failure (code (status recent)) (message (status recent)))
     else do {
       (chains, schedules, events) \<leftarrow> collect_recent svc (the (val recent));
       if chains = [] then State_Monad.return (Failure kNotFound msg_no_recent_reminder)
       else do {
         all_tasks \<leftarrow> find_reminders svc;
         if \<not> ok all_tasks then State_Monad.return (Failure (code (status all_tasks)) (message (status all_tasks)))
         else do {
           failed \<leftarrow> for_return (the (val all_tasks)) (\<lambda>task.
             if rk_chain_id task \<notin> set chains then State_Monad.return None
             else do {
               accepted \<leftarrow>
                 (if Pending task \<and> rk_timing_task_id task \<noteq> None
                    then (case TaskId_Create (the (rk_timing_task_id task)) of
                            None \<Rightarrow> State_Monad.return kAccepted
                          | Some i \<Rightarrow> cancel_timing_task svc i)
                  else State_Monad.return kAccepted);
               if accepted = Acceptance_kUnavailable
                 then State_Monad.return (Some (Failure kUnavailable msg_followup_cancel_rejected))
               else do {
                 let task = (if Pending task \<and> rk_timing_task_id task \<noteq> None
                   then task\<lparr>rk_timer_status := Timer_kCancelled\<rparr> else task);
                 now \<leftarrow> Now svc;
                 st \<leftarrow> update_reminder svc ((acknowledge_business task)\<lparr>rk_updated_at := now\<rparr>);
                 State_Monad.return (if \<not> status_ok st then Some (Failure (code st) (message st)) else None)
               }
             });
           (case failed of
              Some r \<Rightarrow> State_Monad.return r
            | None \<Rightarrow> do {
                failed \<leftarrow> for_return (rm_schedule_order svc schedules) (\<lambda>i. do {
                  loaded \<leftarrow> find_schedule_by_id svc i;
                  if ok loaded \<and> sc_status (the (val loaded)) = kActive then do {
                    now \<leftarrow> SystemNow svc;
                    st \<leftarrow> on_schedules (\<lambda>s. complete_schedule (rm_schedule_service svc) s now i);
                    State_Monad.return (if \<not> status_ok st then Some (Failure (code st) (message st)) else None)
                  } else State_Monad.return None
                });
                (case failed of
                   Some r \<Rightarrow> State_Monad.return r
                 | None \<Rightarrow> State_Monad.return (Success \<lparr>rr_affected_count = int (length chains), rr_events = events,
                     rr_operation_id = [], rr_reminder_trigger_id = [], rr_action = kAcknowledge, rr_occurred_at = 0,
                     rr_next_trigger_at = None, rr_replayed = False\<rparr>))
              })
         }
       }
     }
   }"

definition SnoozeRecentReminders ::
    "('t, 's, 'm, 'e) ScheduleReminderService \<Rightarrow> ('t, 's, 'm, 'e, ReminderActionResult Result) action" where
  "SnoozeRecentReminders svc = do {
     recent \<leftarrow> find_recent svc;
     if \<not> ok recent then State_Monad.return (Failure (code (status recent)) (message (status recent)))
     else do {
       all_tasks \<leftarrow> find_reminders svc;
       if \<not> ok all_tasks then State_Monad.return (Failure (code (status all_tasks)) (message (status all_tasks)))
       else (let chains = fold (\<lambda>triggered chains.
                 if \<not> actionable triggered then chains
                 else if \<exists>task \<in> set (the (val all_tasks)). rk_chain_id task = rk_chain_id triggered \<and>
                        rk_timer_status task = kPending \<and> rk_business_status task = kScheduled
                   then List.insert (rk_chain_id triggered) chains else chains) (the (val recent)) []
             in State_Monad.return
                  (if chains = [] then Failure kNotFound msg_no_delayable_reminder
                   else Success \<lparr>rr_affected_count = int (length chains), rr_events = [], rr_operation_id = [],
                     rr_reminder_trigger_id = [], rr_action = kSnooze, rr_occurred_at = 0,
                     rr_next_trigger_at = None, rr_replayed = False\<rparr>))
     }
   }"

definition action_result ::
    "ReminderActionCommand \<Rightarrow> DateTime \<Rightarrow> DateTime option \<Rightarrow> ReminderActionResult" where
  "action_result command occurred_at next_trigger_at =
     \<lparr>rr_affected_count = 1, rr_events = [], rr_operation_id = ra_operation_id command,
      rr_reminder_trigger_id = ra_reminder_trigger_id command, rr_action = ra_action command,
      rr_occurred_at = occurred_at, rr_next_trigger_at = next_trigger_at, rr_replayed = False\<rparr>"

text \<open>The replay of an action that the record already holds.\<close>

definition replay_action ::
    "ReminderActionCommand \<Rightarrow> ScheduleReminderTask \<Rightarrow> ReminderActionResult Result" where
  "replay_action command target =
     (if rk_action_kind target \<noteq> Some (ra_action command) \<or> rk_action_occurred_at target = None
        then Failure kAlreadyExists msg_action_taken
      else Success \<lparr>rr_affected_count = 1, rr_events = [], rr_operation_id = the (rk_action_operation_id target),
        rr_reminder_trigger_id = ra_reminder_trigger_id command, rr_action = the (rk_action_kind target),
        rr_occurred_at = the (rk_action_occurred_at target), rr_next_trigger_at = rk_action_next_trigger_at target,
        rr_replayed = True\<rparr>)"

definition snooze_target ::
    "('t, 's, 'm, 'e) ScheduleReminderService \<Rightarrow> ReminderActionCommand \<Rightarrow> ScheduleReminderTask
       \<Rightarrow> ScheduleReminderTask list \<Rightarrow> DateTime \<Rightarrow> ('t, 's, 'm, 'e, ReminderActionResult Result) action" where
  "snooze_target svc command target schedule_tasks occurred_at =
     (case List.find (\<lambda>task. rk_chain_id task = rk_chain_id target \<and> rk_attempt task > rk_attempt target \<and>
             rk_business_status task = kScheduled \<and> rk_timer_status task = kPending) schedule_tasks of
        None \<Rightarrow> State_Monad.return (Failure kNotFound msg_no_followup_time)
      | Some follow_up \<Rightarrow> do {
          updated \<leftarrow> update_reminder svc (target\<lparr>rk_business_status := kSnoozed,
            rk_action_operation_id := Some (ra_operation_id command), rk_action_kind := Some (ra_action command),
            rk_action_occurred_at := Some occurred_at, rk_action_next_trigger_at := Some (rk_trigger_at follow_up),
            rk_updated_at := occurred_at\<rparr>);
          State_Monad.return
            (if \<not> status_ok updated then Failure (code updated) (message updated)
             else Success (action_result command occurred_at (Some (rk_trigger_at follow_up))))
        })"

text \<open>Completing the schedule of the acknowledged reminder, then recording the action.\<close>

definition complete_target ::
    "('t, 's, 'm, 'e) ScheduleReminderService \<Rightarrow> ReminderActionCommand \<Rightarrow> ScheduleReminderTask
       \<Rightarrow> DateTime \<Rightarrow> ('t, 's, 'm, 'e, ReminderActionResult Result) action" where
  "complete_target svc command target occurred_at = do {
     schedule \<leftarrow> find_schedule_by_id svc (rk_schedule_id target);
     if \<not> ok schedule then State_Monad.return (Failure (code (status schedule)) (message (status schedule)))
     else do {
       completed \<leftarrow>
         (if sc_status (the (val schedule)) = kActive then do {
            now \<leftarrow> SystemNow svc;
            on_schedules (\<lambda>s. complete_schedule (rm_schedule_service svc) s now (rk_schedule_id target))
          } else State_Monad.return
              (if sc_status (the (val schedule)) \<noteq> kCompleted
                 then Status_Error kAlreadyExists msg_schedule_not_completable else Status_Ok));
       if \<not> status_ok completed then State_Monad.return (Failure (code completed) (message completed))
       else do {
         updated \<leftarrow> update_reminder svc (target\<lparr>rk_business_status := kAcknowledged,
           rk_action_operation_id := Some (ra_operation_id command), rk_action_kind := Some (ra_action command),
           rk_action_occurred_at := Some occurred_at, rk_action_next_trigger_at := None, rk_updated_at := occurred_at\<rparr>);
         State_Monad.return
           (if \<not> status_ok updated then Failure (code updated) (message updated)
            else Success (action_result command occurred_at None))
       }
     }
   }"

definition acknowledge_target ::
    "('t, 's, 'm, 'e) ScheduleReminderService \<Rightarrow> ReminderActionCommand \<Rightarrow> ScheduleReminderTask
       \<Rightarrow> ScheduleReminderTask list \<Rightarrow> DateTime \<Rightarrow> ('t, 's, 'm, 'e, ReminderActionResult Result) action" where
  "acknowledge_target svc command target schedule_tasks occurred_at = do {
     failed \<leftarrow> for_return schedule_tasks (\<lambda>task.
       if rk_chain_id task \<noteq> rk_chain_id target \<or> \<not> Pending task \<or> rk_timing_task_id task = None
         then State_Monad.return None
       else (case TaskId_Create (the (rk_timing_task_id task)) of
               None \<Rightarrow> State_Monad.return None
             | Some i \<Rightarrow> do {
                 accepted \<leftarrow> cancel_timing_task svc i;
                 State_Monad.return (if accepted = Acceptance_kUnavailable
                   then Some (Failure kUnavailable msg_followup_cancel_rejected) else None)
               }));
     (case failed of
        Some r \<Rightarrow> State_Monad.return r
      | None \<Rightarrow> do {
          failed \<leftarrow> for_return schedule_tasks (\<lambda>task.
            if rk_chain_id task \<noteq> rk_chain_id target \<or> rk_id task = rk_id target then State_Monad.return None
            else do {
              let task = (if Pending task then task\<lparr>rk_timer_status := Timer_kCancelled\<rparr> else task);
              updated \<leftarrow> update_reminder svc ((acknowledge_business task)\<lparr>rk_updated_at := occurred_at\<rparr>);
              State_Monad.return (if \<not> status_ok updated then Some (Failure (code updated) (message updated)) else None)
            });
          (case failed of
             Some r \<Rightarrow> State_Monad.return r
           | None \<Rightarrow> complete_target svc command target occurred_at)
        })
   }"

definition ExecuteReminderAction ::
    "('t, 's, 'm, 'e) ScheduleReminderService \<Rightarrow> ReminderActionCommand
       \<Rightarrow> ('t, 's, 'm, 'e, ReminderActionResult Result) action" where
  "ExecuteReminderAction svc command =
     (if ra_operation_id command = [] \<or> ra_reminder_trigger_id command = []
        then State_Monad.return (Failure kInvalidArgument msg_action_id_empty)
      else if ra_action command \<noteq> kAcknowledge \<and> ra_action command \<noteq> kSnooze
        then State_Monad.return (Failure kInvalidArgument msg_action_type_invalid)
      else
        (let acknowledge = (ra_action command = kAcknowledge)
         in if (acknowledge \<and> ra_snooze_minutes command \<noteq> None) \<or>
               (\<not> acknowledge \<and> ra_snooze_minutes command \<noteq> Some (kFollowUpDelay div 60))
              then State_Monad.return (Failure kInvalidArgument msg_action_args_invalid)
            else do {
              target_result \<leftarrow> from_reminders (\<lambda>m. tasks_FindByTimingTaskId (rm_reminder_repository svc) m
                (ra_reminder_trigger_id command));
              if \<not> ok target_result
                then State_Monad.return (Failure (code (status target_result)) (message (status target_result)))
              else do {
                let target = the (val target_result);
                if rk_action_operation_id target \<noteq> None then State_Monad.return (replay_action command target)
                else if \<not> actionable target then State_Monad.return (Failure kAlreadyExists msg_action_terminal)
                else do {
                  all_tasks \<leftarrow> find_reminders svc;
                  if \<not> ok all_tasks
                    then State_Monad.return (Failure (code (status all_tasks)) (message (status all_tasks)))
                  else if \<exists>task \<in> set (the (val all_tasks)). rk_action_operation_id task = Some (ra_operation_id command)
                    then State_Monad.return (Failure kAlreadyExists msg_operation_id_used)
                  else do {
                    schedule_tasks \<leftarrow> from_reminders (\<lambda>m. tasks_FindBySchedule (rm_reminder_repository svc) m
                      (rk_schedule_id target));
                    if \<not> ok schedule_tasks
                      then State_Monad.return (Failure (code (status schedule_tasks)) (message (status schedule_tasks)))
                    else do {
                      occurred_at \<leftarrow> Now svc;
                      if \<not> acknowledge then snooze_target svc command target (the (val schedule_tasks)) occurred_at
                      else acknowledge_target svc command target (the (val schedule_tasks)) occurred_at
                    }
                  }
                }
              }
            }))"

definition ExecuteRecentReminderActions ::
    "('t, 's, 'm, 'e) ScheduleReminderService \<Rightarrow> ScheduleReminderActionKind
       \<Rightarrow> ('t, 's, 'm, 'e, ReminderActionResult list Result) action" where
  "ExecuteRecentReminderActions svc action = do {
     recent \<leftarrow> find_recent svc;
     if \<not> ok recent then State_Monad.return (Failure (code (status recent)) (message (status recent)))
     else do {
       (results, first_failure) \<leftarrow> for_each (the (val recent)) ([], Status_Ok) (\<lambda>task (results, first_failure).
         if \<not> actionable task \<or> rk_timing_task_id task = None then State_Monad.return (results, first_failure)
         else do {
           operation_id \<leftarrow> AllocateTaskId svc ''voice-action'';
           result \<leftarrow> ExecuteReminderAction svc \<lparr>ra_operation_id = operation_id,
             ra_reminder_trigger_id = the (rk_timing_task_id task), ra_action = action,
             ra_snooze_minutes = (if action = kSnooze then Some 10 else None)\<rparr>;
           if ok result then do {
             events \<leftarrow>
               (if action = kAcknowledge then do {
                  schedule \<leftarrow> find_schedule_by_id svc (rk_schedule_id task);
                  State_Monad.return (if ok schedule \<and> sc_event (the (val schedule)) \<noteq> []
                    then rr_events (the (val result)) @ [sc_event (the (val schedule))] else rr_events (the (val result)))
                } else State_Monad.return (rr_events (the (val result))));
             State_Monad.return (results @ [(the (val result))\<lparr>rr_events := events\<rparr>], first_failure)
           } else State_Monad.return (results, if status_ok first_failure then status result else first_failure)
         });
       State_Monad.return
         (if \<not> status_ok first_failure then Failure (code first_failure) (message first_failure)
          else if results = [] then Failure kNotFound msg_no_actionable_reminder
          else Success results)
     }
   }"

definition ListPersistedVoiceActionResults ::
    "('t, 's, 'm, 'e) ScheduleReminderService \<Rightarrow> ('t, 's, 'm, 'e, ReminderActionResult list Result) action" where
  "ListPersistedVoiceActionResults svc = do {
     all_tasks \<leftarrow> find_reminders svc;
     State_Monad.return
       (if \<not> ok all_tasks then Failure (code (status all_tasks)) (message (status all_tasks))
        else Success (map (\<lambda>task. \<lparr>rr_affected_count = 1, rr_events = [],
            rr_operation_id = the (rk_action_operation_id task), rr_reminder_trigger_id = the (rk_timing_task_id task),
            rr_action = the (rk_action_kind task), rr_occurred_at = the (rk_action_occurred_at task),
            rr_next_trigger_at = rk_action_next_trigger_at task, rr_replayed = True\<rparr>)
          (filter (\<lambda>task. rk_action_operation_id task \<noteq> None \<and>
              Sublist.prefix ''voice-action-'' (the (rk_action_operation_id task)) \<and>
              rk_action_kind task \<noteq> None \<and> rk_action_occurred_at task \<noteq> None \<and> rk_timing_task_id task \<noteq> None)
            (the (val all_tasks)))))
   }"

end
