(* ===== verification/Reminder_Chains.thy ===== *)
theory Reminder_Chains
  imports Reminder_Service
begin

text \<open>
  How the reminder records evolve under \<open>ScheduleReminderService\<close>, for every store that meets the
  contract of \<open>Reminder_Tasks\<close> and every timing service that only runs the result callbacks it was
  given: records are never dropped or re-armed, a recorded user action is never lost, and a chain
  grows by one attempt at a time, only after the previous attempt has left the timer.
\<close>

section \<open>Chains\<close>

definition chain_ok :: "ScheduleReminderTask list \<Rightarrow> bool" where
  "chain_ok ts \<longleftrightarrow> (\<forall>t \<in> set ts. rk_attempt t > 1 \<longrightarrow>
     (\<exists>p \<in> set ts. rk_chain_id p = rk_chain_id t \<and> rk_schedule_id p = rk_schedule_id t \<and>
        rk_attempt p = rk_attempt t - 1 \<and> \<not> Pending p))"

text \<open>What a record keeps: under the service's own steps (\<open>quiet\<close>) and under user actions (\<open>keeps\<close>).\<close>

definition same_reminder :: "ScheduleReminderTask \<Rightarrow> ScheduleReminderTask \<Rightarrow> bool" where
  "same_reminder t t' \<longleftrightarrow> rk_id t' = rk_id t \<and> rk_schedule_id t' = rk_schedule_id t \<and> rk_event t' = rk_event t \<and>
     rk_chain_id t' = rk_chain_id t \<and> rk_attempt t' = rk_attempt t \<and> rk_timing_task_id t' = rk_timing_task_id t \<and>
     rk_trigger_at t' = rk_trigger_at t \<and> (Pending t' \<longrightarrow> Pending t)"

definition same_action :: "ScheduleReminderTask \<Rightarrow> ScheduleReminderTask \<Rightarrow> bool" where
  "same_action t t' \<longleftrightarrow> rk_action_operation_id t' = rk_action_operation_id t \<and> rk_action_kind t' = rk_action_kind t \<and>
     rk_action_occurred_at t' = rk_action_occurred_at t \<and> rk_action_next_trigger_at t' = rk_action_next_trigger_at t"

definition quiet :: "ScheduleReminderTask \<Rightarrow> ScheduleReminderTask \<Rightarrow> bool" where
  "quiet t t' \<longleftrightarrow> same_reminder t t' \<and> same_action t t'"

definition keeps :: "ScheduleReminderTask \<Rightarrow> ScheduleReminderTask \<Rightarrow> bool" where
  "keeps t t' \<longleftrightarrow> same_reminder t t' \<and> (rk_action_operation_id t \<noteq> None \<longrightarrow> same_action t t')"

definition evolves ::
    "(ScheduleReminderTask \<Rightarrow> ScheduleReminderTask \<Rightarrow> bool) \<Rightarrow> ScheduleReminderTask list \<Rightarrow> ScheduleReminderTask list \<Rightarrow> bool" where
  "evolves P ts ts' \<longleftrightarrow> (\<exists>us new. ts' = us @ new \<and> list_all2 P ts us)"

lemma same_reminder_preorder: "reflp same_reminder" "transp same_reminder"
  by (auto simp: same_reminder_def reflp_def transp_def)

lemma same_action_preorder: "reflp same_action" "transp same_action"
  by (auto simp: same_action_def reflp_def transp_def)

lemma quiet_preorder: "reflp quiet" "transp quiet"
  using same_reminder_preorder same_action_preorder unfolding quiet_def reflp_def transp_def by blast+

lemma keeps_preorder: "reflp keeps" "transp keeps"
proof -
  show "reflp keeps" using same_reminder_preorder same_action_preorder by (simp add: keeps_def reflp_def)
  show "transp keeps"
  proof (rule transpI)
    fix a b c
    assume k: "keeps a b" "keeps b c"
    then have "same_reminder a c" using transpD [OF same_reminder_preorder(2)] unfolding keeps_def by blast
    moreover have "same_action a c" if "rk_action_operation_id a \<noteq> None"
      using that k transpD [OF same_action_preorder(2)] unfolding keeps_def same_action_def by metis
    ultimately show "keeps a c" by (simp add: keeps_def)
  qed
qed

lemma quiet_keeps: "quiet t t' \<Longrightarrow> keeps t t'"
  by (simp add: quiet_def keeps_def)

lemma evolves_mono: "evolves P ts ts' \<Longrightarrow> (\<And>t t'. P t t' \<Longrightarrow> Q t t') \<Longrightarrow> evolves Q ts ts'"
  unfolding evolves_def using list_all2_mono by metis

lemma evolves_refl: "reflp P \<Longrightarrow> evolves P ts ts"
  unfolding evolves_def by (rule exI [of _ ts], rule exI [of _ "[]"]) (simp add: list_all2_same reflpD)

lemma evolves_trans:
  assumes P: "transp P" and e: "evolves P a b" "evolves P b c"
  shows "evolves P a c"
proof -
  from e(1) obtain us new where b: "b = us @ new" "list_all2 P a us" by (auto simp: evolves_def)
  from e(2) obtain vs new' where c: "c = vs @ new'" "list_all2 P b vs" by (auto simp: evolves_def)
  from c(2) b(1) obtain vs1 vs2 where vs: "vs = vs1 @ vs2" "list_all2 P us vs1" by (auto simp: list_all2_append1)
  have "list_all2 P a vs1" using list_all2_trans [OF _ b(2) vs(2)] transpD [OF P] by blast
  then show ?thesis using c(1) vs(1) by (auto simp: evolves_def)
qed

lemma evolves_append: "reflp P \<Longrightarrow> evolves P ts (ts @ new)"
  unfolding evolves_def by (rule exI [of _ ts], rule exI [of _ new]) (simp add: list_all2_same reflpD)

lemma evolves_replace:
  assumes "reflp P" "distinct (map rk_id ts)" "t0 \<in> set ts" "rk_id t = rk_id t0" "P t0 t"
  shows "evolves P ts (replace_task t ts)"
proof -
  have "list_all2 P ts (replace_task t ts)"
    unfolding replace_task_def list_all2_map2 list_all2_same
  proof
    fix x
    assume "x \<in> set ts"
    then have "x = t0" if "rk_id x = rk_id t" using that assms(2-4) by (auto simp: distinct_map inj_on_def)
    then show "P x (if rk_id x = rk_id t then t else x)" using assms(1,5) by (auto simp: reflp_def)
  qed
  then show ?thesis by (auto simp: evolves_def)
qed

lemma evolves_member:
  assumes "evolves P ts ts'" "t \<in> set ts"
  obtains t' where "t' \<in> set ts'" "P t t'"
  using assms unfolding evolves_def by (metis Un_iff list_all2_conv_all_nth in_set_conv_nth set_append)

lemma chain_ok_replaced:
  assumes "chain_ok ts" "list_all2 same_reminder ts us"
  shows "chain_ok us"
  unfolding chain_ok_def
proof (intro ballI impI)
  fix u
  assume u: "u \<in> set us" "rk_attempt u > 1"
  then obtain t where t: "t \<in> set ts" "same_reminder t u"
    using assms(2) by (metis list_all2_conv_all_nth in_set_conv_nth)
  then have "rk_attempt t > 1" using u by (simp add: same_reminder_def)
  then obtain p where p: "p \<in> set ts" "rk_chain_id p = rk_chain_id t" "rk_schedule_id p = rk_schedule_id t"
      "rk_attempt p = rk_attempt t - 1" "\<not> Pending p"
    using assms(1) t by (auto simp: chain_ok_def)
  then obtain q where "q \<in> set us" "same_reminder p q"
    using assms(2) by (metis list_all2_conv_all_nth in_set_conv_nth)
  then show "\<exists>p \<in> set us. rk_chain_id p = rk_chain_id u \<and> rk_schedule_id p = rk_schedule_id u \<and>
      rk_attempt p = rk_attempt u - 1 \<and> \<not> Pending p"
    using p t by (intro bexI [of _ q]) (auto simp: same_reminder_def)
qed

lemma chain_ok_append:
  assumes "chain_ok ts"
    and "rk_attempt t > 1 \<Longrightarrow> \<exists>p \<in> set ts. rk_chain_id p = rk_chain_id t \<and> rk_schedule_id p = rk_schedule_id t \<and>
      rk_attempt p = rk_attempt t - 1 \<and> \<not> Pending p"
  shows "chain_ok (ts @ [t])"
  using assms unfolding chain_ok_def by fastforce

text \<open>In a well-formed collection at most one record of a chain is pending: every earlier attempt is not.\<close>

lemma earlier_not_pending:
  assumes "tasks_ok ts" "chain_ok ts"
  shows "t \<in> set ts \<Longrightarrow> u \<in> set ts \<Longrightarrow> rk_chain_id u = rk_chain_id t \<Longrightarrow> rk_attempt u < rk_attempt t \<Longrightarrow> \<not> Pending u"
proof (induction "nat (rk_attempt t)" arbitrary: t rule: less_induct)
  case less
  have "rk_attempt u > 0" using assms(1) less.prems(2) by (auto simp: tasks_ok_def Valid_def)
  then obtain p where p: "p \<in> set ts" "rk_chain_id p = rk_chain_id t" "rk_attempt p = rk_attempt t - 1" "\<not> Pending p"
    using assms(2) less.prems by (force simp: chain_ok_def)
  show ?case
  proof (cases "rk_attempt u = rk_attempt p")
    case True
    then have "u = p" using assms(1) less.prems p by (auto simp: tasks_ok_def unique_option_def)
    with p show ?thesis by simp
  next
    case False
    with less.prems p \<open>rk_attempt u > 0\<close> less.hyps [of p] show ?thesis by simp
  qed
qed

lemma one_pending_per_chain:
  assumes "tasks_ok ts" "chain_ok ts" "t \<in> set ts" "u \<in> set ts" "rk_chain_id t = rk_chain_id u" "Pending t" "Pending u"
  shows "t = u"
proof (cases "rk_attempt t" "rk_attempt u" rule: linorder_cases)
  case equal
  with assms show ?thesis by (auto simp: tasks_ok_def unique_option_def)
qed (use assms earlier_not_pending in metis)+

section \<open>Steps over the records\<close>

definition records :: "('m \<Rightarrow> ScheduleReminderTask list) \<Rightarrow> 't \<times> ('s, 'm, 'e) World \<Rightarrow> ScheduleReminderTask list" where
  "records tasks s = tasks (wd_reminders (snd s))"

definition sound :: "('m \<Rightarrow> bool) \<Rightarrow> ('m \<Rightarrow> ScheduleReminderTask list) \<Rightarrow> 't \<times> ('s, 'm, 'e) World \<Rightarrow> bool" where
  "sound tinv tasks s \<longleftrightarrow> tinv (wd_reminders (snd s)) \<and> chain_ok (records tasks s)"

definition progress ::
    "('m \<Rightarrow> bool) \<Rightarrow> ('m \<Rightarrow> ScheduleReminderTask list) \<Rightarrow> (ScheduleReminderTask \<Rightarrow> ScheduleReminderTask \<Rightarrow> bool)
       \<Rightarrow> 't \<times> ('s, 'm, 'e) World \<Rightarrow> 'u \<times> ('s, 'm, 'e) World \<Rightarrow> bool" where
  "progress tinv tasks P s s' \<longleftrightarrow>
     (sound tinv tasks s \<longrightarrow> sound tinv tasks s' \<and> evolves P (records tasks s) (records tasks s'))"

definition unchanged :: "'t \<times> ('s, 'm, 'e) World \<Rightarrow> 'u \<times> ('s, 'm, 'e) World \<Rightarrow> bool" where
  "unchanged s s' \<longleftrightarrow> wd_reminders (snd s') = wd_reminders (snd s)"

lemma unchanged_preorder: "reflp unchanged" "transp unchanged"
  by (auto simp: unchanged_def reflp_def transp_def)

lemma unchanged_same: "unchanged s s' \<Longrightarrow> sound tinv tasks s' = sound tinv tasks s" "unchanged s s' \<Longrightarrow> records tasks s' = records tasks s"
  by (simp_all add: unchanged_def sound_def records_def)

lemma progress_preorder:
  assumes "reflp P" "transp P"
  shows "reflp (progress tinv tasks P)" "transp (progress tinv tasks P)"
  using evolves_refl [OF assms(1)] evolves_trans [OF assms(2)] by (auto simp: progress_def reflp_def intro!: transpI)

lemma progress_unchanged: "reflp P \<Longrightarrow> unchanged s s' \<Longrightarrow> progress tinv tasks P s s'"
  by (simp add: progress_def unchanged_same evolves_refl)

lemma progress_mono: "progress tinv tasks quiet s s' \<Longrightarrow> progress tinv tasks keeps s s'"
  unfolding progress_def using evolves_mono quiet_keeps by blast

lemma io_mono: "state_io_rel R m \<Longrightarrow> (\<And>s s'. R s s' \<Longrightarrow> R' s s') \<Longrightarrow> state_io_rel R' m"
  by (simp add: state_io_rel_def)

lemma wp_io: "state_io_rel R m \<Longrightarrow> (\<And>x s'. R s s' \<Longrightarrow> Q x s') \<Longrightarrow> wp m Q s"
  unfolding state_io_rel_def wp_def by (metis case_prodI2 snd_conv)

lemma io_wp: "(\<And>s. wp m (\<lambda>_. R s) s) \<Longrightarrow> state_io_rel R m"
  unfolding state_io_rel_def wp_def by (metis case_prod_beta')

named_theorems frame_io \<open>computations that leave the reminder records alone\<close>

lemmas unchanged_bind [frame_io] = io_bind [OF unchanged_preorder(2)]

lemma frame_primitives [frame_io]:
  "state_io_rel unchanged (State_Monad.return x)" "state_io_rel unchanged (on_schedules f)"
  "state_io_rel unchanged (on_env g)" "state_io_rel unchanged (get_fields k)" "state_io_rel unchanged (set_fields h)"
  "state_io_rel unchanged (from_schedules a)" "state_io_rel unchanged (from_reminders b)"
  by (auto simp: state_io_rel_def unchanged_def on_schedules_def on_env_def get_fields_def set_fields_def from_schedules_def
      from_reminders_def gets_def modify_def split: prod.split)

lemma frame_calls [frame_io]:
  "state_io_rel unchanged (Now svc)" "state_io_rel unchanged (system_micros svc)" "state_io_rel unchanged (SystemNow svc)"
  "state_io_rel unchanged (find_schedule_by_id svc i)" "state_io_rel unchanged (find_schedules svc)"
  "state_io_rel unchanged (find_reminders svc)" "state_io_rel unchanged (IsRunning svc)"
  "state_io_rel unchanged (AllocateChainId svc)" "state_io_rel unchanged (AllocateTaskId svc p)"
  by (auto simp: Now_def system_micros_def SystemNow_def find_schedule_by_id_def find_schedules_def find_reminders_def
      IsRunning_def AllocateChainId_def AllocateTaskId_def Let_def intro!: frame_io)

section \<open>Calls\<close>

text \<open>
  One call into the service, a callback that the timing service runs, or a change elsewhere in the
  program, which leaves the reminder records alone.
\<close>

inductive reminder_call ::
    "('t, 's, 'm, 'e) ScheduleReminderService \<Rightarrow> 't \<times> ('s, 'm, 'e) World \<Rightarrow> 't \<times> ('s, 'm, 'e) World \<Rightarrow> bool"
  for svc where
  start: "reminder_call svc s (snd (run_state (Start svc) s))"
| stop: "reminder_call svc s (snd (run_state (Stop svc) s))"
| synchronize: "reminder_call svc s (snd (run_state (SynchronizeSchedule svc i) s))"
| cancel: "reminder_call svc s (snd (run_state (CancelScheduleReminder svc i) s))"
| suspend: "reminder_call svc s (snd (run_state (SuspendRuleReminders svc j) s))"
| synchronize_rule: "reminder_call svc s (snd (run_state (SynchronizeRule svc j) s))"
| acknowledge: "reminder_call svc s (snd (run_state (AcknowledgeRecentReminders svc) s))"
| snooze: "reminder_call svc s (snd (run_state (SnoozeRecentReminders svc) s))"
| action: "reminder_call svc s (snd (run_state (ExecuteReminderAction svc command) s))"
| recent_actions: "reminder_call svc s (snd (run_state (ExecuteRecentReminderActions svc kind) s))"
| list_actions: "reminder_call svc s (snd (run_state (ListPersistedVoiceActionResults svc) s))"
| fired: "reminder_call svc s (run_callback svc c i t s)"
| reported: "reminder_call svc (a, w) (a, run_result svc cb r w)"
| elsewhere: "unchanged s s' \<Longrightarrow> reminder_call svc s s'"

inductive_cases reminder_callE: "reminder_call svc s s'"

section \<open>The service\<close>

text \<open>What a new record needs: a first attempt nothing, a later one its predecessor, off the timer.\<close>

definition preceded :: "int \<Rightarrow> ScheduleId \<Rightarrow> int \<Rightarrow> ScheduleReminderTask list \<Rightarrow> bool" where
  "preceded chain schedule attempt ts \<longleftrightarrow> attempt > 1 \<longrightarrow>
     (\<exists>p \<in> set ts. rk_chain_id p = chain \<and> rk_schedule_id p = schedule \<and> rk_attempt p = attempt - 1 \<and> \<not> Pending p)"

lemma task_stored_fields:
  assumes "task_stored_as t t'"
  shows "rk_chain_id t' = rk_chain_id t" "rk_schedule_id t' = rk_schedule_id t" "rk_attempt t' = rk_attempt t"
    "rk_timer_status t' = rk_timer_status t" "rk_trigger_at t' = rk_trigger_at t" "rk_event t' = rk_event t"
    "rk_business_status t' = rk_business_status t" "rk_timing_task_id t' = rk_timing_task_id t"
  by (subst assms [unfolded task_stored_as_def], simp)+

text \<open>
  What the service relies on: its repository meets the contract, a registration runs at most the
  result callback it carries, a cancellation without callback runs nothing, and neither touches
  anything else but the environment.
\<close>

locale reminder_environment =
  reminder_task_repository T tinv tasks
  for T :: "'m ScheduleReminderTaskRepository" and tinv :: "'m \<Rightarrow> bool" and tasks :: "'m \<Rightarrow> ScheduleReminderTask list" +
  fixes svc :: "('t, 's, 'm, 'e) ScheduleReminderService"
  assumes reminder_repository: "rm_reminder_repository svc = T"
    and register_calls: "timing_RegisterTask (rm_timing_service svc) h cmd (t, w) = (a, t', w') \<Longrightarrow>
      \<exists>w1 e. (w1 = w \<or> (\<exists>cb r. rt_on_result cmd = Some cb \<and> w1 = h cb r w)) \<and> w' = w1\<lparr>wd_env := e\<rparr>"
    and cancel_calls: "timing_CancelTask (rm_timing_service svc) \<lparr>ct_task_id = i, ct_on_result = None\<rparr> (t, w) = (a, t', w') \<Longrightarrow>
      \<exists>e. w' = w\<lparr>wd_env := e\<rparr>"
begin

abbreviation recs :: "'u \<times> ('s, 'm, 'e) World \<Rightarrow> ScheduleReminderTask list" where
  "recs \<equiv> records tasks"

abbreviation good :: "'u \<times> ('s, 'm, 'e) World \<Rightarrow> bool" where
  "good \<equiv> sound tinv tasks"

abbreviation steps :: "(ScheduleReminderTask \<Rightarrow> ScheduleReminderTask \<Rightarrow> bool) \<Rightarrow> 'u \<times> ('s, 'm, 'e) World \<Rightarrow> 'u \<times> ('s, 'm, 'e) World \<Rightarrow> bool" where
  "steps \<equiv> progress tinv tasks"

lemma good_tasks: "good s \<Longrightarrow> tasks_ok (recs s)"
  by (simp add: sound_def records_def tasks_wf)

lemma good_distinct: "good s \<Longrightarrow> distinct (map rk_id (recs s))"
  by (drule good_tasks) (simp add: tasks_ok_def)

lemma frame_cancel: "state_io_rel unchanged (cancel_timing_task svc i)"
  unfolding cancel_timing_task_def state_io_rel_def unchanged_def
proof
  fix s :: "'t \<times> ('s, 'm, 'e) World"
  obtain t w where s: "s = (t, w)" by fastforce
  obtain a t' w' where "timing_CancelTask (rm_timing_service svc) \<lparr>ct_task_id = i, ct_on_result = None\<rparr> (t, w) = (a, t', w')"
    by (metis prod_cases3)
  with cancel_calls [OF this] show "wd_reminders (snd (snd (run_state (State
      (timing_CancelTask (rm_timing_service svc) \<lparr>ct_task_id = i, ct_on_result = None\<rparr>)) s))) = wd_reminders (snd s)"
    by (auto simp: s)
qed

lemma quiet_bind: "state_io_rel (steps quiet) m \<Longrightarrow> (\<And>x. state_io_rel (steps quiet) (f x)) \<Longrightarrow>
    state_io_rel (steps quiet) (State_Monad.bind m f)"
  by (rule io_bind [OF progress_preorder(2) [OF quiet_preorder]])

lemma quiet_frame: "state_io_rel unchanged m \<Longrightarrow> state_io_rel (steps quiet) m"
  by (erule io_mono) (rule progress_unchanged [OF quiet_preorder(1)])

lemmas quiet_io = quiet_bind frame_primitives [THEN quiet_frame] frame_calls [THEN quiet_frame] frame_cancel [THEN quiet_frame]

text \<open>One update, of a record of the current state.\<close>

lemma update_evolves:
  assumes "good s" "t0 \<in> set (recs s)" "rk_id t = rk_id t0" "P t0 t" "reflp P" "\<And>a b. P a b \<Longrightarrow> same_reminder a b"
  shows "wp (update_reminder svc t) (\<lambda>v s'. good s' \<and> evolves P (recs s) (recs s') \<and>
    (if status_ok v then recs s' = replace_task t (recs s) else recs s' = recs s)) s"
proof (rule wp_runI)
  fix v s'
  assume run: "run_state (update_reminder svc t) s = (v, s')"
  obtain m where u: "tasks_Update T (wd_reminders (snd s)) t = (v, m)" and m: "wd_reminders (snd s') = m"
    using run by (auto simp: update_reminder_def on_reminders_def reminder_repository split: prod.splits)
  have inv: "tinv (wd_reminders (snd s))" using assms(1) by (simp add: sound_def)
  note U = update_task_result [OF inv u]
  have R: "if status_ok v then recs s' = replace_task t (recs s) else recs s' = recs s"
    using U by (auto simp: records_def m)
  have e: "evolves P (recs s) (replace_task t (recs s))"
    using evolves_replace [OF assms(5) good_distinct [OF assms(1)] assms(2,3,4)] .
  have chain: "chain_ok (replace_task t (recs s))"
  proof -
    from e obtain us new where us: "replace_task t (recs s) = us @ new" "list_all2 P (recs s) us" by (auto simp: evolves_def)
    have "length us = length (replace_task t (recs s))" using list_all2_lengthD [OF us(2)] by (simp add: replace_task_def)
    with us(1) have "us = replace_task t (recs s)" by simp
    moreover have "list_all2 same_reminder (recs s) us" using list_all2_mono [OF us(2)] assms(6) by blast
    ultimately show ?thesis using chain_ok_replaced assms(1) by (auto simp: sound_def)
  qed
  have "good s'" using U R chain assms(1) by (auto simp: sound_def m split: if_splits)
  with R e show "good s' \<and> evolves P (recs s) (recs s') \<and> (if status_ok v then recs s' = replace_task t (recs s) else recs s' = recs s)"
    using evolves_refl [OF assms(5)] by (auto split: if_splits)
qed

text \<open>An update from an earlier reading of a record that has moved on quietly since.\<close>

lemma quiet_update:
  assumes "good s" "t0 \<in> set (recs s)" "quiet u t0" "quiet u t" "\<not> Pending t \<or> Pending t0"
  shows "wp (update_reminder svc t) (\<lambda>v s'. good s' \<and> evolves quiet (recs s) (recs s') \<and>
    (if status_ok v then recs s' = replace_task t (recs s) else recs s' = recs s)) s"
  by (rule update_evolves [OF assms(1,2)])
    (use assms(3-5) quiet_preorder in \<open>auto simp: quiet_def same_reminder_def same_action_def\<close>)

lemma find_record:
  assumes "good s" "ok (tasks_FindById T (wd_reminders (snd s)) i)"
  shows "the (val (tasks_FindById T (wd_reminders (snd s)) i)) \<in> set (recs s)"
    "rk_id (the (val (tasks_FindById T (wd_reminders (snd s)) i))) = i"
proof -
  have "tinv (wd_reminders (snd s))" using assms(1) by (simp add: sound_def)
  from find_task [OF this, of i] assms(2)
  show "the (val (tasks_FindById T (wd_reminders (snd s)) i)) \<in> set (recs s)"
    "rk_id (the (val (tasks_FindById T (wd_reminders (snd s)) i))) = i" by (auto simp: records_def)
qed

lemma reminder_registered_quiet: "state_io_rel (steps quiet) (on_reminder_registered svc i r :: ('u, 's, 'm, 'e, unit) action)"
proof (rule io_wp, unfold progress_def, rule wp_runI, rule impI)
  fix s :: "'u \<times> ('s, 'm, 'e) World" and x s'
  assume run: "run_state (on_reminder_registered svc i r) s = (x, s')" and g: "good s"
  let ?t = "the (val (tasks_FindById T (wd_reminders (snd s)) i))"
  have update: "wp (update_reminder svc (?t\<lparr>rk_timer_status := kFailed, rk_updated_at := now\<rparr>))
      (\<lambda>_ s'. good s' \<and> evolves quiet (recs s) (recs s')) s1"
    if "unchanged s s1" "ok (tasks_FindById T (wd_reminders (snd s)) i)" for now and s1 :: "'u \<times> ('s, 'm, 'e) World"
    by (rule wp_conseq [OF quiet_update [where u = ?t and ?t0.0 = ?t]])
      (use g find_record [OF g that(2)] that(1) in
        \<open>auto simp: unchanged_same quiet_def same_reminder_def same_action_def Pending_def\<close>)
  have "wp (on_reminder_registered svc i r) (\<lambda>_ s'. good s' \<and> evolves quiet (recs s) (recs s')) s"
    unfolding on_reminder_registered_def from_reminders_def reminder_repository
    by (auto simp: wp_simps g evolves_refl [OF quiet_preorder(1)] case_prod_beta intro: wp_io [OF frame_calls(1)] update)
  with run show "good s' \<and> evolves quiet (recs s) (recs s')" by (auto dest: wp_run)
qed

lemma retry_registered_frame: "state_io_rel unchanged (on_retry_registered svc j v r)"
  by (auto simp: on_retry_registered_def split: option.split intro!: frame_io)

lemma run_result_quiet: "progress tinv tasks quiet (t, w) (t', run_result svc cb r w)"
proof (cases cb)
  case (Reminder_registered i)
  have "progress tinv tasks quiet ((), w) (snd (run_state (on_reminder_registered svc i r) ((), w)))"
    by (rule reminder_registered_quiet [unfolded state_io_rel_def, rule_format])
  then show ?thesis by (simp add: Reminder_registered run_result_def progress_def sound_def records_def)
next
  case (Retry_registered j v)
  have "progress tinv tasks quiet ((), w) (snd (run_state (on_retry_registered svc j v r) ((), w)))"
    by (rule quiet_frame [OF retry_registered_frame, unfolded state_io_rel_def, rule_format])
  then show ?thesis by (simp add: Retry_registered run_result_def progress_def sound_def records_def)
qed

lemma register_quiet: "state_io_rel (steps quiet) (State (timing_RegisterTask (rm_timing_service svc) (run_result svc) cmd))"
proof (rule state_io_relI)
  fix a and s s' :: "'t \<times> ('s, 'm, 'e) World"
  assume "run_state (State (timing_RegisterTask (rm_timing_service svc) (run_result svc) cmd)) s = (a, s')"
  moreover obtain t w t' w' where s: "s = (t, w)" "s' = (t', w')" by fastforce
  ultimately obtain w1 e where "w1 = w \<or> (\<exists>cb r. w1 = run_result svc cb r w)" "w' = w1\<lparr>wd_env := e\<rparr>"
    using register_calls [of "run_result svc" cmd t w a t' w'] by auto
  then show "steps quiet s s'" unfolding s
    using run_result_quiet [of t w t] progress_unchanged [OF quiet_preorder(1)]
    by (auto simp: progress_def sound_def records_def evolves_refl [OF quiet_preorder(1)])
qed

lemma RegisterPersistedTask_quiet: "state_io_rel (steps quiet) (RegisterPersistedTask svc task)"
  unfolding RegisterPersistedTask_def
  by (auto intro!: quiet_io register_quiet split: option.split)

text \<open>A reading that an operation takes of its own past: the record may have moved on quietly.\<close>

lemma quiet_update_past:
  assumes "good s" "u \<in> set ts" "evolves quiet ts (recs s)" "quiet u t" "\<not> Pending t"
  shows "wp (update_reminder svc t) (\<lambda>v s'. good s' \<and> evolves quiet ts (recs s')) s"
proof -
  from assms(3,2) obtain t0 where "t0 \<in> set (recs s)" "quiet u t0" by (rule evolves_member)
  note u = quiet_update [OF assms(1) this assms(4) disjI1 [OF assms(5)]]
  show ?thesis by (rule wp_conseq [OF u]) (use evolves_trans [OF quiet_preorder(2) assms(3)] in auto)
qed

lemma insert_evolves:
  assumes "good s" "preceded (rk_chain_id t) (rk_schedule_id t) (rk_attempt t) (recs s)"
  shows "wp (on_reminders (\<lambda>m. tasks_Insert T m t)) (\<lambda>x s'. good s' \<and> evolves quiet (recs s) (recs s') \<and>
    (ok x \<longrightarrow> the (val x) \<in> set (recs s') \<and> task_stored_as t (the (val x)))) s"
proof (rule wp_runI)
  fix x s'
  assume run: "run_state (on_reminders (\<lambda>m. tasks_Insert T m t)) s = (x, s')"
  then obtain m where u: "tasks_Insert T (wd_reminders (snd s)) t = (x, m)" and m: "wd_reminders (snd s') = m"
    by (auto simp: on_reminders_def split: prod.splits)
  have inv: "tinv (wd_reminders (snd s))" and chain: "chain_ok (recs s)" using assms(1) by (simp_all add: sound_def)
  from insert_task_result [OF inv u] consider (rejected) "tinv m" "\<not> ok x" "recs s' = recs s"
    | (stored) t' where "tinv m" "x = Success t'" "task_stored_as t t'" "recs s' = recs s @ [t']"
    by (auto simp: records_def m)
  then show "good s' \<and> evolves quiet (recs s) (recs s') \<and> (ok x \<longrightarrow> the (val x) \<in> set (recs s') \<and> task_stored_as t (the (val x)))"
  proof cases
    case rejected
    then show ?thesis using chain by (simp add: sound_def m evolves_refl [OF quiet_preorder(1)])
  next
    case stored
    have "rk_chain_id t' = rk_chain_id t \<and> rk_schedule_id t' = rk_schedule_id t \<and> rk_attempt t' = rk_attempt t"
      using task_stored_fields [OF stored(3)] by simp
    then have "chain_ok (recs s')"
      using chain_ok_append [OF chain, of t'] assms(2) stored(4) by (simp add: preceded_def)
    with stored show ?thesis by (simp add: sound_def m evolves_append [OF quiet_preorder(1)])
  qed
qed

text \<open>
  Running an operation: the records have evolved quietly since \<open>ts\<close>. The rules step through its
  calls; a reading keeps what it read for as long as nothing is written.
\<close>

definition since :: "ScheduleReminderTask list \<Rightarrow> 't \<times> ('s, 'm, 'e) World \<Rightarrow> bool" where
  "since ts s \<longleftrightarrow> good s \<and> evolves quiet ts (recs s)"

lemma since_start: "good s \<Longrightarrow> since (recs s) s"
  by (simp add: since_def evolves_refl [OF quiet_preorder(1)])

lemma since_trans: "since ts s \<Longrightarrow> steps quiet s s' \<Longrightarrow> since ts s' \<and> evolves quiet (recs s) (recs s')"
  using evolves_trans [OF quiet_preorder(2)] by (auto simp: since_def progress_def)

lemma since_frame:
  assumes "state_io_rel unchanged m" "since ts s"
    "\<And>x s'. since ts s' \<Longrightarrow> recs s' = recs s \<Longrightarrow> wp (f x) Q s'"
  shows "wp (State_Monad.bind m f) Q s"
  unfolding wp_bind by (rule wp_io [OF assms(1)]) (use assms(2,3) in \<open>auto simp: since_def unchanged_same\<close>)

lemma since_quiet:
  assumes "state_io_rel (steps quiet) m" "since ts s"
    "\<And>x s'. since ts s' \<Longrightarrow> evolves quiet (recs s) (recs s') \<Longrightarrow> wp (f x) Q s'"
  shows "wp (State_Monad.bind m f) Q s"
  unfolding wp_bind by (rule wp_io [OF assms(1)]) (use assms(2,3) since_trans in blast)

lemma since_update:
  assumes "since ts s" "u \<in> set ts" "quiet u t" "\<not> Pending t" "\<And>v s'. since ts s' \<Longrightarrow> Q v s'"
  shows "wp (update_reminder svc t) Q s"
  by (rule wp_conseq [OF quiet_update_past [OF _ assms(2) _ assms(3,4)]]) (use assms(1,5) in \<open>auto simp: since_def\<close>)

lemma since_join: "since ts s \<Longrightarrow> since (recs s) s' \<Longrightarrow> since ts s'"
  using evolves_trans [OF quiet_preorder(2)] by (auto simp: since_def)

lemma since_good: "since ts s \<Longrightarrow> good s"
  by (simp add: since_def)

lemma register_inserted:
  assumes s: "since ts s" and t: "t \<in> set (recs s)"
  shows "wp (do { registered \<leftarrow> RegisterPersistedTask svc t;
      if \<not> status_ok registered then do {
        now \<leftarrow> Now svc;
        _ \<leftarrow> update_reminder svc (t\<lparr>rk_timer_status := kFailed, rk_updated_at := now\<rparr>);
        State_Monad.return registered
      } else State_Monad.return registered }) (\<lambda>_. since ts) s"
proof (rule since_quiet [OF RegisterPersistedTask_quiet since_start [OF since_good [OF s]]], rule wp_ifI)
  fix registered s1
  assume s1: "since (recs s) s1"
  show "wp (do { now \<leftarrow> Now svc; _ \<leftarrow> update_reminder svc (t\<lparr>rk_timer_status := kFailed, rk_updated_at := now\<rparr>);
      State_Monad.return registered }) (\<lambda>_. since ts) s1"
  proof (rule since_frame [OF frame_calls(1) s1], unfold wp_simps, rule since_update [OF _ t])
    fix now s2 and v :: Status and s3
    show "quiet t (t\<lparr>rk_timer_status := kFailed, rk_updated_at := now\<rparr>)"
      "\<not> Pending (t\<lparr>rk_timer_status := kFailed, rk_updated_at := now\<rparr>)"
      by (simp_all add: quiet_def same_reminder_def same_action_def Pending_def)
    show "since (recs s) s3 \<Longrightarrow> since ts s3" by (rule since_join [OF s])
  qed
  show "wp (State_Monad.return registered) (\<lambda>_. since ts) s1" using since_join [OF s s1] by (simp add: wp_return)
qed

lemma RegisterReminder_since:
  assumes s: "since ts s" and p: "preceded chain i attempt (recs s)"
  shows "wp (RegisterReminder svc i chain attempt at) (\<lambda>_. since ts) s"
proof -
  have insert: "wp (do { inserted \<leftarrow> on_reminders (\<lambda>m. tasks_Insert T m t);
      if \<not> ok inserted then State_Monad.return (status inserted)
      else do { registered \<leftarrow> RegisterPersistedTask svc (the (val inserted));
        if \<not> status_ok registered then do {
          now \<leftarrow> Now svc;
          _ \<leftarrow> update_reminder svc ((the (val inserted))\<lparr>rk_timer_status := kFailed, rk_updated_at := now\<rparr>);
          State_Monad.return registered
        } else State_Monad.return registered } }) (\<lambda>_. since ts) s1"
    if s1: "since ts s1" and t: "preceded (rk_chain_id t) (rk_schedule_id t) (rk_attempt t) (recs s1)" for t s1
  proof (rule wp_bindI, rule wp_conseq [OF insert_evolves [OF since_good [OF s1] t]], rule wp_ifI)
    fix x :: "ScheduleReminderTask Result" and s2 :: "'t \<times> ('s, 'm, 'e) World"
    assume x: "good s2 \<and> evolves quiet (recs s1) (recs s2) \<and>
        (ok x \<longrightarrow> the (val x) \<in> set (recs s2) \<and> task_stored_as t (the (val x)))"
    then have s2: "since ts s2" by (intro since_join [OF s1]) (simp add: since_def)
    then show "wp (State_Monad.return (status x)) (\<lambda>_. since ts) s2" by (simp add: wp_return)
    assume "\<not> \<not> ok x"
    with x show "wp (do { registered \<leftarrow> RegisterPersistedTask svc (the (val x));
        if \<not> status_ok registered then do {
          now \<leftarrow> Now svc;
          _ \<leftarrow> update_reminder svc ((the (val x))\<lparr>rk_timer_status := kFailed, rk_updated_at := now\<rparr>);
          State_Monad.return registered
        } else State_Monad.return registered }) (\<lambda>_. since ts) s2" by (intro register_inserted [OF s2]) simp
  qed
  show ?thesis
    unfolding RegisterReminder_def Let_def reminder_repository
    apply (rule since_frame [OF frame_calls(4) s], rule wp_ifI)
     apply (simp add: wp_return)
    apply (rule since_frame [OF frame_calls(1)], assumption)
    apply (rule since_frame [OF frame_calls(9)], assumption)
    using p by (intro insert) simp_all
qed

text \<open>From an arbitrary good state, as a step.\<close>

lemma step_since: "(\<And>s. good s \<Longrightarrow> wp m (\<lambda>_. since (recs s)) s) \<Longrightarrow> state_io_rel (steps quiet) m"
  unfolding state_io_rel_def progress_def wp_def since_def by (auto simp: case_prod_beta)

lemma since_step: "state_io_rel (steps quiet) m \<Longrightarrow> since ts s \<Longrightarrow> wp m (\<lambda>_. since ts) s"
  by (erule wp_io) (use since_trans in blast)

lemma first_reminder_quiet: "state_io_rel (steps quiet) (RegisterReminder svc i chain 1 at)"
  by (intro step_since RegisterReminder_since since_start) (simp_all add: preceded_def)

lemma CancelPendingTasks_quiet: "state_io_rel (steps quiet) (CancelPendingTasks svc i x)"
proof (rule step_since)
  fix s :: "'t \<times> ('s, 'm, 'e) World"
  assume g: "good s"
  have one: "wp (if \<not> Pending task \<or> Some (rk_id task) = x then State_Monad.return first_failure
      else do {
        accepted \<leftarrow> (case rk_timing_task_id task of
            None \<Rightarrow> State_Monad.return kAccepted
          | Some k \<Rightarrow> (case TaskId_Create k of None \<Rightarrow> State_Monad.return kAccepted | Some i \<Rightarrow> cancel_timing_task svc i));
        if accepted = Acceptance_kUnavailable
          then State_Monad.return (keep_first first_failure (Status_Error kUnavailable msg_cancel_rejected))
        else do {
          now \<leftarrow> Now svc;
          updated \<leftarrow> update_reminder svc (task\<lparr>rk_timer_status := Timer_kCancelled,
            rk_business_status := Business_kCancelled, rk_updated_at := now\<rparr>);
          State_Monad.return (keep_first first_failure updated)
        }
      }) (\<lambda>_. since (recs s)) s1"
    if s1: "since (recs s) s1" and t: "task \<in> set (recs s)" for task first_failure and s1 :: "'t \<times> ('s, 'm, 'e) World"
  proof -
    have cancel: "state_io_rel unchanged (case rk_timing_task_id task of
            None \<Rightarrow> State_Monad.return kAccepted
          | Some k \<Rightarrow> (case TaskId_Create k of None \<Rightarrow> State_Monad.return kAccepted | Some i \<Rightarrow> cancel_timing_task svc i))"
      by (auto intro!: frame_io frame_cancel split: option.split)
    show ?thesis
      apply (rule wp_ifI)
       apply (simp add: wp_return s1)
      apply (rule since_frame [OF cancel s1], rule wp_ifI)
       apply (simp add: wp_return)
      apply (rule since_frame [OF frame_calls(1)], assumption)
      apply (rule wp_bindI, rule since_update [OF _ t], assumption)
      by (auto simp: wp_return quiet_def same_reminder_def same_action_def Pending_def)
  qed
  show "wp (CancelPendingTasks svc i x) (\<lambda>_. since (recs s)) s"
    unfolding CancelPendingTasks_def
    apply (rule wp_bindI, unfold from_reminders_def, rule wp_getsI, rule wp_ifI)
     apply (simp add: wp_return since_start [OF g])
    apply (rule wp_for_each [where I = "\<lambda>xs _ s1. since (recs s) s1 \<and> set xs \<subseteq> set (recs s)"])
    subgoal using g since_start [OF g] find_by_schedule [of "wd_reminders (snd s)" i]
      by (auto simp: reminder_repository sound_def records_def case_prod_beta)
    subgoal by (rule wp_conseq [OF one]) auto
    subgoal by simp
    done
qed

lemma SynchronizeSchedule_quiet: "state_io_rel (steps quiet) (SynchronizeSchedule svc i)"
  unfolding SynchronizeSchedule_def
  by (auto intro!: quiet_io CancelPendingTasks_quiet first_reminder_quiet split: option.split)

lemma ScheduleGenerationRetry_quiet: "state_io_rel (steps quiet) (ScheduleGenerationRetry svc j n)"
  unfolding ScheduleGenerationRetry_def by (auto intro!: quiet_io register_quiet split: option.split)

lemma GenerateNextInstance_quiet: "state_io_rel (steps quiet) (GenerateNextInstance svc j n)"
  unfolding GenerateNextInstance_def
  by (auto intro!: quiet_io ScheduleGenerationRetry_quiet SynchronizeSchedule_quiet split: option.split)

lemma on_retry_fired_quiet: "state_io_rel (steps quiet) (on_retry_fired svc j v k)"
  unfolding on_retry_fired_def by (auto intro!: quiet_io GenerateNextInstance_quiet split: option.split)

text \<open>A fired reminder: its record leaves the timer before the next attempt is added.\<close>

definition triggered_record :: "ScheduleReminderTask \<Rightarrow> DateTime \<Rightarrow> DateTime \<Rightarrow> ScheduleReminderTask" where
  "triggered_record t a b = t\<lparr>rk_timer_status := kTriggered,
     rk_business_status := (if rk_attempt t \<ge> kMaximumAttempts then kExhausted else kWaitingAcknowledgement),
     rk_triggered_at := Some a, rk_updated_at := b\<rparr>"

lemma triggered_quiet: "quiet t (triggered_record t a b)" "\<not> Pending (triggered_record t a b)"
  "rk_id (triggered_record t a b) = rk_id t" "rk_attempt (triggered_record t a b) = rk_attempt t"
  by (simp_all add: triggered_record_def quiet_def same_reminder_def same_action_def Pending_def)

lemma update_triggered:
  assumes s: "since ts s" and t: "t \<in> set (recs s)"
  shows "wp (update_reminder svc (triggered_record t a b))
    (\<lambda>v s'. since ts s' \<and> (status_ok v \<longrightarrow> triggered_record t a b \<in> set (recs s'))) s"
proof -
  have q: "quiet t t" using quiet_preorder(1) by (rule reflpD)
  have "triggered_record t a b \<in> set (replace_task (triggered_record t a b) (recs s))"
    using t by (auto simp: replace_task_def triggered_quiet)
  with quiet_update [OF since_good [OF s] t q triggered_quiet(1) disjI1 [OF triggered_quiet(2)], of a b]
  show ?thesis by (elim wp_conseq) (use since_join [OF s] in \<open>auto simp: since_def\<close>)
qed

lemma announce_since:
  assumes s: "since ts s" and t: "t \<in> set (recs s)" "\<not> Pending t"
  shows "wp (announce_reminder svc schedule t) (\<lambda>_. since ts) s"
proof -
  have follow: "wp (if rk_attempt t < kMaximumAttempts then do {
          now \<leftarrow> Now svc;
          RegisterReminder svc (rk_schedule_id t) (rk_chain_id t) (rk_attempt t + 1) (now + kFollowUpDelay)
        } else State_Monad.return Status_Ok) (\<lambda>_. since ts) s"
  proof (rule wp_ifI)
    show "wp (do { now \<leftarrow> Now svc; RegisterReminder svc (rk_schedule_id t) (rk_chain_id t) (rk_attempt t + 1) (now + kFollowUpDelay) })
        (\<lambda>_. since ts) s"
      by (rule since_frame [OF frame_calls(1) s], rule RegisterReminder_since, assumption) (use t in \<open>auto simp: preceded_def\<close>)
  qed (simp add: wp_return s)
  show ?thesis
    unfolding announce_reminder_def Let_def
    by (rule wp_bindI, rule wp_conseq [OF follow], erule since_step [rotated])
      (auto intro!: quiet_io GenerateNextInstance_quiet split: option.split)
qed

lemma trigger_since:
  assumes s: "since ts s" and t: "t \<in> set (recs s)"
  shows "wp (do { a \<leftarrow> Now svc; b \<leftarrow> Now svc; v \<leftarrow> update_reminder svc (triggered_record t a b);
      if \<not> status_ok v then State_Monad.return () else announce_reminder svc schedule (triggered_record t a b) })
    (\<lambda>_. since ts) s"
  apply (rule since_frame [OF frame_calls(1) s], rule since_frame [OF frame_calls(1)], assumption, rule wp_bindI)
  apply (rule wp_conseq [OF update_triggered], assumption)
  using t by (auto simp: wp_return triggered_quiet intro!: wp_ifI announce_since)

lemma HandleReminder_quiet: "state_io_rel (steps quiet) (HandleReminder svc i k)"
proof (rule step_since)
  fix s :: "'t \<times> ('s, 'm, 'e) World"
  assume g: "good s"
  show "wp (HandleReminder svc i k) (\<lambda>_. since (recs s)) s"
    unfolding HandleReminder_def Let_def reminder_repository
    apply (rule since_frame [OF frame_calls(7) since_start [OF g]], rule wp_ifI)
     apply (simp add: wp_return)
    apply (rule wp_bindI, unfold from_reminders_def case_prod_beta, rule wp_getsI, rule wp_ifI)
     apply (simp add: wp_return)
    apply (rule since_frame [OF frame_calls(4)], assumption, rule wp_ifI)
     apply (simp add: wp_return)
    apply (fold triggered_record_def)
    apply (rule trigger_since, assumption)
    by (metis find_record(1) since_good)
qed

lemma run_callback_quiet: "steps quiet s (run_callback svc c i t s)"
  using HandleReminder_quiet [unfolded state_io_rel_def, rule_format] on_retry_fired_quiet [unfolded state_io_rel_def, rule_format]
  by (cases c) (simp_all only: run_callback_def ReminderCallback.case)

text \<open>The public operations.\<close>

lemma quiet_for_each: "(\<And>x acc. state_io_rel (steps quiet) (body x acc)) \<Longrightarrow> state_io_rel (steps quiet) (for_each xs acc body)"
  by (rule io_for_each [OF progress_preorder [OF quiet_preorder]])

lemma quiet_for_return: "(\<And>x. state_io_rel (steps quiet) (body x)) \<Longrightarrow> state_io_rel (steps quiet) (for_return xs body)"
  by (rule io_for_return [OF progress_preorder [OF quiet_preorder]])

lemma Stop_quiet: "state_io_rel (steps quiet) (Stop svc)"
  unfolding Stop_def Let_def by (auto intro!: quiet_io quiet_for_each split: option.split)

lemma CancelScheduleReminder_quiet: "state_io_rel (steps quiet) (CancelScheduleReminder svc i)"
  unfolding CancelScheduleReminder_def by (auto intro!: quiet_io CancelPendingTasks_quiet)

lemma SuspendRuleReminders_quiet: "state_io_rel (steps quiet) (SuspendRuleReminders svc j)"
  unfolding SuspendRuleReminders_def by (auto intro!: quiet_io quiet_for_each CancelPendingTasks_quiet split: option.split)

lemma SynchronizeRule_quiet: "state_io_rel (steps quiet) (SynchronizeRule svc j)"
  unfolding SynchronizeRule_def by (auto intro!: quiet_io quiet_for_each SynchronizeSchedule_quiet)

lemma restore_since:
  assumes s: "since ts s" and t: "t \<in> set ts"
  shows "wp (if rk_timer_status t \<noteq> kPending then State_Monad.return first_failure
      else do {
        schedule \<leftarrow> find_schedule_by_id svc (rk_schedule_id t);
        if \<not> ok schedule \<or> sc_status (the (val schedule)) \<noteq> kActive then do {
          now \<leftarrow> Now svc;
          _ \<leftarrow> update_reminder svc (t\<lparr>rk_timer_status := Timer_kCancelled,
            rk_business_status := Business_kCancelled, rk_updated_at := now\<rparr>);
          State_Monad.return first_failure
        } else do {
          now \<leftarrow> Now svc;
          if rk_trigger_at t \<le> now then do {
            HandleReminder svc (rk_id t) (case rk_timing_task_id t of None \<Rightarrow> [] | Some i \<Rightarrow> i);
            State_Monad.return first_failure
          } else do {
            restored \<leftarrow> RegisterPersistedTask svc t;
            State_Monad.return (keep_first first_failure restored)
          }
        }
      }) (\<lambda>_. since ts) s"
  apply (rule wp_ifI)
   apply (simp add: wp_return s)
  apply (rule since_frame [OF frame_calls(4) s], rule wp_ifI)
   apply (rule since_frame [OF frame_calls(1)], assumption, rule wp_bindI, rule since_update [OF _ t], assumption)
     apply (simp_all add: wp_return quiet_def same_reminder_def same_action_def Pending_def)
  apply (erule since_step [rotated])
  by (auto intro!: quiet_io HandleReminder_quiet RegisterPersistedTask_quiet)

lemma Start_quiet: "state_io_rel (steps quiet) (Start svc)"
proof (rule step_since)
  fix s :: "'t \<times> ('s, 'm, 'e) World"
  assume g: "good s"
  then have all: "tasks_FindAll T (wd_reminders (snd s)) = Success (recs s)"
    using find_all_tasks [of "wd_reminders (snd s)"] by (simp add: sound_def records_def)
  show "wp (Start svc) (\<lambda>_. since (recs s)) s"
    unfolding Start_def find_reminders_def from_reminders_def reminder_repository case_prod_beta Let_def
    apply (rule wp_bindI, rule wp_getsI, unfold all, rule wp_ifI)
     apply (simp add: wp_return since_start [OF g])
    apply (rule since_frame [OF frame_calls(7) since_start [OF g]], rule wp_ifI)
     apply (simp add: wp_return)
    apply (rule since_frame [OF frame_calls(2)], assumption)
    apply (rule since_frame [OF frame_primitives(5)], assumption)
    apply (rule wp_bindI, rule wp_for_each [where I = "\<lambda>xs _ s1. since (recs s) s1 \<and> set xs \<subseteq> set (recs s)"])
      apply simp
     apply (rule wp_conseq [OF restore_since])
       apply simp_all
    apply (rule since_step)
     apply (auto intro!: quiet_io quiet_for_each first_reminder_quiet split: option.split)
    done
qed

text \<open>User actions write records they have read, one by one: what is still to be written stays as it was read.\<close>

lemma update_current:
  assumes s: "since ts s" and t: "u \<in> set (recs s)" "quiet u t" and rest: "set ys \<subseteq> set (recs s)" "rk_id u \<notin> rk_id ` set ys"
  shows "wp (update_reminder svc t) (\<lambda>_ s'. since ts s' \<and> set ys \<subseteq> set (recs s')) s"
proof -
  have id: "rk_id t = rk_id u" "\<not> Pending t \<or> Pending u" using t(2) by (auto simp: quiet_def same_reminder_def)
  have "set ys \<subseteq> set (replace_task t (recs s))" using rest id by (auto simp: replace_task_def image_iff)
  moreover note u = quiet_update [OF since_good [OF s] t(1) reflpD [OF quiet_preorder(1)] t(2) id(2)]
  ultimately show ?thesis
    by (intro wp_conseq [OF u]) (use rest since_join [OF s] in \<open>auto simp: since_def split: if_splits\<close>)
qed

lemma acknowledge_quiet:
  "quiet task ((acknowledge_business task)\<lparr>rk_updated_at := now\<rparr>)"
  "quiet task ((acknowledge_business (task\<lparr>rk_timer_status := Timer_kCancelled\<rparr>))\<lparr>rk_updated_at := now\<rparr>)"
  by (auto simp: acknowledge_business_def quiet_def same_reminder_def same_action_def Pending_def)

lemma cancel_of_task: "state_io_rel unchanged
    (case TaskId_Create k of None \<Rightarrow> State_Monad.return a | Some i \<Rightarrow> cancel_timing_task svc i)"
  by (auto intro!: frame_io frame_cancel split: option.split)

lemma all_records:
  assumes "good s"
  shows "tasks_FindAll T (wd_reminders (snd s)) = Success (recs s)"
    "tasks_FindBySchedule T (wd_reminders (snd s)) i = Success (filter (\<lambda>t. rk_schedule_id t = i) (recs s))"
  using assms find_all_tasks [of "wd_reminders (snd s)"] find_by_schedule [of "wd_reminders (snd s)" i]
  by (simp_all add: sound_def records_def)

lemma find_recent_frame: "state_io_rel unchanged (find_recent svc)"
  unfolding find_recent_def by (auto intro!: frame_io)

lemma collect_recent_frame: "state_io_rel unchanged (collect_recent svc ts)"
  unfolding collect_recent_def
  by (rule io_for_each [OF unchanged_preorder]) (auto intro!: frame_io split: prod.split)

lemma acknowledge_chain_since:
  assumes s: "since ts s" "set (task # ys) \<subseteq> set (recs s)" "distinct (map rk_id (task # ys))"
  shows "wp (if rk_chain_id task \<notin> set cs then State_Monad.return None
      else do {
        accepted \<leftarrow>
          (if Pending task \<and> rk_timing_task_id task \<noteq> None
             then (case TaskId_Create (the (rk_timing_task_id task)) of
                     None \<Rightarrow> State_Monad.return kAccepted
                   | Some i \<Rightarrow> cancel_timing_task svc i)
           else State_Monad.return kAccepted);
        if accepted = Acceptance_kUnavailable
          then State_Monad.return (Some (Failure kUnavailable msg_followup_cancel_rejected))
        else do {
          let task = (if Pending task \<and> rk_timing_task_id task \<noteq> None
            then task\<lparr>rk_timer_status := Timer_kCancelled\<rparr> else task);
          now \<leftarrow> Now svc;
          st \<leftarrow> update_reminder svc ((acknowledge_business task)\<lparr>rk_updated_at := now\<rparr>);
          State_Monad.return (if \<not> status_ok st then Some (Failure (code st) (message st)) else None)
        }
      }) (\<lambda>_ s'. since ts s' \<and> set ys \<subseteq> set (recs s')) s"
proof (rule wp_ifI, goal_cases)
  case 2
  let ?t = "if Pending task \<and> rk_timing_task_id task \<noteq> None then task\<lparr>rk_timer_status := Timer_kCancelled\<rparr> else task"
  have q: "quiet task ((acknowledge_business ?t)\<lparr>rk_updated_at := now\<rparr>)" for now using acknowledge_quiet by simp
  have cancel: "state_io_rel unchanged (if Pending task \<and> rk_timing_task_id task \<noteq> None
             then (case TaskId_Create (the (rk_timing_task_id task)) of
                     None \<Rightarrow> State_Monad.return kAccepted
                   | Some i \<Rightarrow> cancel_timing_task svc i)
           else State_Monad.return kAccepted)"
    by (auto intro!: frame_io cancel_of_task)
  show ?case
    unfolding Let_def
    apply (rule since_frame [OF cancel s(1)], rule wp_ifI)
    subgoal using s(2) by (simp add: wp_return)
    apply (rule since_frame [OF frame_calls(1)], assumption, rule wp_bindI)
    apply (rule wp_conseq [OF update_current [OF _ _ q]], assumption)
    using s(2,3) by (auto simp: wp_return)
qed (use s in \<open>simp add: wp_return\<close>)

lemma AcknowledgeRecentReminders_quiet: "state_io_rel (steps quiet) (AcknowledgeRecentReminders svc)"
proof (rule step_since)
  fix s :: "'t \<times> ('s, 'm, 'e) World"
  assume g: "good s"
  show "wp (AcknowledgeRecentReminders svc) (\<lambda>_. since (recs s)) s"
    unfolding AcknowledgeRecentReminders_def
    apply (rule since_frame [OF find_recent_frame since_start [OF g]], rule wp_ifI)
     apply (simp add: wp_return)
    apply (rule since_frame [OF collect_recent_frame], assumption)
    apply (simp only: split_beta)
    apply (rule wp_ifI)
     apply (simp add: wp_return)
    apply (unfold find_reminders_def from_reminders_def reminder_repository case_prod_beta, rule wp_bindI, rule wp_getsI, rule wp_ifI)
     apply (simp add: wp_return)
    apply (rule wp_bindI, rule wp_for_return [where I = "\<lambda>xs s1. since (recs s) s1 \<and> set xs \<subseteq> set (recs s1) \<and> distinct (map rk_id xs)"])
    subgoal using good_distinct [OF g] by (auto dest!: since_good simp: all_records)
    subgoal for _ _ _ _ task ys
      by (rule wp_conseq [OF acknowledge_chain_since [where ys = ys]]) (auto simp: wp_return split: option.split)
    apply (simp, rule since_quiet, rule quiet_for_return)
      apply (auto simp: wp_return intro!: quiet_io split: option.split)
    done
qed

lemma SnoozeRecentReminders_frame: "state_io_rel unchanged (SnoozeRecentReminders svc)"
  unfolding SnoozeRecentReminders_def Let_def by (auto intro!: frame_io find_recent_frame)

text \<open>Recording an action on a reminder that has none.\<close>

definition acted :: "ScheduleReminderTask list \<Rightarrow> 't \<times> ('s, 'm, 'e) World \<Rightarrow> bool" where
  "acted ts s \<longleftrightarrow> good s \<and> evolves keeps ts (recs s)"

lemma since_acted: "since ts s \<Longrightarrow> acted ts s"
  unfolding since_def acted_def using evolves_mono quiet_keeps by blast

lemma update_acted:
  assumes s: "since ts s" and t: "u \<in> set (recs s)" "rk_action_operation_id u = None" "same_reminder u t"
  shows "wp (update_reminder svc t) (\<lambda>_. acted ts) s"
proof -
  have "rk_id t = rk_id u" "keeps u t" using t by (auto simp: same_reminder_def keeps_def)
  note u = update_evolves [OF since_good [OF s] t(1) this keeps_preorder(1)]
  have "evolves keeps ts (recs s)" using since_acted [OF s] by (simp add: acted_def)
  note e = evolves_trans [OF keeps_preorder(2) this]
  show ?thesis by (rule wp_conseq [OF u]) (use e in \<open>auto simp: acted_def keeps_def\<close>)
qed

lemma snooze_acted:
  assumes "since ts s" "target \<in> set (recs s)" "rk_action_operation_id target = None"
  shows "wp (snooze_target svc command target sts at) (\<lambda>_. acted ts) s"
  unfolding snooze_target_def
proof (rule wp_caseI)
  fix f
  show "wp (do {
          updated \<leftarrow> update_reminder svc (target\<lparr>rk_business_status := kSnoozed,
            rk_action_operation_id := Some (ra_operation_id command), rk_action_kind := Some (ra_action command),
            rk_action_occurred_at := Some at, rk_action_next_trigger_at := Some (rk_trigger_at f),
            rk_updated_at := at\<rparr>);
          State_Monad.return
            (if \<not> status_ok updated then Failure (code updated) (message updated)
             else Success (action_result command at (Some (rk_trigger_at f))))
        }) (\<lambda>_. acted ts) s"
    unfolding wp_simps
    by (rule wp_conseq [OF update_acted [OF assms(1-3)]]) (auto simp: same_reminder_def Pending_def)
qed (simp add: wp_return since_acted [OF assms(1)])

lemma complete_acted:
  assumes "since ts s" "target \<in> set (recs s)" "rk_action_operation_id target = None"
  shows "wp (complete_target svc command target at) (\<lambda>_. acted ts) s"
proof -
  have completion: "state_io_rel unchanged (if b then do { now \<leftarrow> SystemNow svc; on_schedules (f now) } else State_Monad.return st)" for b f st
    by (auto intro!: frame_io)
  show ?thesis
    unfolding complete_target_def
    apply (rule since_frame [OF frame_calls(4) assms(1)], rule wp_ifI)
     apply (simp add: wp_return since_acted)
    apply (rule since_frame [OF completion], assumption, rule wp_ifI)
     apply (simp add: wp_return since_acted)
    apply (rule wp_bindI, rule wp_conseq [OF update_acted], assumption)
    using assms(2,3) by (auto simp: wp_return same_reminder_def Pending_def)
qed

lemma acknowledge_others_since:
  assumes "since ts s" "set (task # ys) \<subseteq> set (recs s)" "distinct (map rk_id (task # ys))" "target \<in> set (recs s)"
  shows "wp (if rk_chain_id task \<noteq> rk_chain_id target \<or> rk_id task = rk_id target then State_Monad.return None
      else do {
        let task = (if Pending task then task\<lparr>rk_timer_status := Timer_kCancelled\<rparr> else task);
        updated \<leftarrow> update_reminder svc ((acknowledge_business task)\<lparr>rk_updated_at := at\<rparr>);
        State_Monad.return (if \<not> status_ok updated then Some (Failure (code updated) (message updated)) else None)
      }) (\<lambda>_ s'. since ts s' \<and> set (target # ys) \<subseteq> set (recs s')) s"
proof (rule wp_ifI, goal_cases)
  case 2
  let ?t = "if Pending task then task\<lparr>rk_timer_status := Timer_kCancelled\<rparr> else task"
  have q: "quiet task ((acknowledge_business ?t)\<lparr>rk_updated_at := at\<rparr>)" using acknowledge_quiet by simp
  show ?case
    unfolding Let_def
    apply (rule wp_bindI, rule wp_conseq [OF update_current [where ys = "target # ys", OF assms(1) _ q]])
    using assms(2-4) 2 by (auto simp: wp_return)
qed (use assms in \<open>simp add: wp_return\<close>)

lemma acknowledge_acted:
  assumes s: "since ts s" and target: "target \<in> set (recs s)" "rk_action_operation_id target = None"
    and sts: "set sts \<subseteq> set (recs s)" "distinct (map rk_id sts)"
  shows "wp (acknowledge_target svc command target sts at) (\<lambda>_. acted ts) s"
proof -
  have cancels: "state_io_rel unchanged (for_return sts (\<lambda>task.
       if rk_chain_id task \<noteq> rk_chain_id target \<or> \<not> Pending task \<or> rk_timing_task_id task = None
         then State_Monad.return None
       else (case TaskId_Create (the (rk_timing_task_id task)) of
               None \<Rightarrow> State_Monad.return None
             | Some i \<Rightarrow> do {
                 accepted \<leftarrow> cancel_timing_task svc i;
                 State_Monad.return (if accepted = Acceptance_kUnavailable
                   then Some (Failure kUnavailable msg_followup_cancel_rejected) else None)
               })))"
    by (rule io_for_return [OF unchanged_preorder]) (auto intro!: frame_io frame_cancel split: option.split)
  show ?thesis
    unfolding acknowledge_target_def
    apply (rule since_frame [OF cancels s], rule wp_caseI [rotated])
     apply (simp add: wp_return since_acted)
    apply (rule wp_bindI, rule wp_for_return [where I = "\<lambda>xs s1. since ts s1 \<and> set (target # xs) \<subseteq> set (recs s1) \<and> distinct (map rk_id xs)"])
    subgoal using target sts by simp
    subgoal for _ _ task ys
      by (rule wp_conseq [OF acknowledge_others_since [where ys = ys]])
        (auto simp: wp_return since_acted split: option.split)
    using target(2) by (simp add: complete_acted)
qed

lemma ExecuteReminderAction_acted:
  assumes s: "since ts s"
  shows "wp (ExecuteReminderAction svc command) (\<lambda>_. acted ts) s"
proof -
  have g: "good s" by (rule since_good [OF s])
  then have inv: "tinv (wd_reminders (snd s))" by (simp add: sound_def)
  let ?f = "tasks_FindByTimingTaskId T (wd_reminders (snd s)) (ra_reminder_trigger_id command)"
  have target: "the (val ?f) \<in> set (recs s)" if "ok ?f"
    using find_by_timing [OF inv, of "ra_reminder_trigger_id command"] that by (auto simp: records_def)
  have sts: "set (filter (\<lambda>t. rk_schedule_id t = i) (recs s)) \<subseteq> set (recs s)"
    "distinct (map rk_id (filter (\<lambda>t. rk_schedule_id t = i) (recs s)))" for i
    using good_distinct [OF g] by (auto simp: distinct_map_filter)
  show ?thesis
    unfolding ExecuteReminderAction_def find_reminders_def from_reminders_def reminder_repository case_prod_beta Let_def
    apply (intro wp_ifI)
       apply (simp_all only: wp_return since_acted [OF s])
    apply (rule wp_bindI, rule wp_getsI, intro wp_ifI)
       apply (simp_all only: wp_return since_acted [OF s])
    apply (rule wp_bindI, rule wp_getsI, intro wp_ifI)
      apply (simp_all only: wp_return since_acted [OF s])
    apply (rule wp_bindI, rule wp_getsI, rule wp_ifI)
     apply (simp_all only: wp_return since_acted [OF s])
    apply (rule since_frame [OF frame_calls(1) s], rule wp_ifI)
     apply (rule snooze_acted, assumption)
    subgoal using target by simp
    subgoal by simp
    apply (rule acknowledge_acted, assumption)
    using target sts by (simp_all add: all_records [OF g])
qed

lemma keeps_bind: "state_io_rel (steps keeps) m \<Longrightarrow> (\<And>x. state_io_rel (steps keeps) (f x)) \<Longrightarrow>
    state_io_rel (steps keeps) (State_Monad.bind m f)"
  by (rule io_bind [OF progress_preorder(2) [OF keeps_preorder]])

lemma quiet_keeps_io: "state_io_rel (steps quiet) m \<Longrightarrow> state_io_rel (steps keeps) m"
  by (erule io_mono) (rule progress_mono)

lemma ExecuteReminderAction_keeps: "state_io_rel (steps keeps) (ExecuteReminderAction svc command)"
proof (rule io_wp, rule wp_runI)
  fix s s' x
  assume run: "run_state (ExecuteReminderAction svc command) s = (x, s')"
  show "steps keeps s s'"
    unfolding progress_def using wp_run [OF ExecuteReminderAction_acted [OF since_start] run] by (simp add: acted_def)
qed

lemma ExecuteRecentReminderActions_keeps: "state_io_rel (steps keeps) (ExecuteRecentReminderActions svc kind)"
  unfolding ExecuteRecentReminderActions_def
  by (auto intro!: keeps_bind io_for_each [OF progress_preorder [OF keeps_preorder]] ExecuteReminderAction_keeps
      frame_primitives [THEN quiet_frame, THEN quiet_keeps_io] frame_calls [THEN quiet_frame, THEN quiet_keeps_io]
      find_recent_frame [THEN quiet_frame, THEN quiet_keeps_io] split: prod.split)

lemma ListPersistedVoiceActionResults_frame: "state_io_rel unchanged (ListPersistedVoiceActionResults svc)"
  unfolding ListPersistedVoiceActionResults_def by (auto intro!: frame_io)

lemmas operations_keep = Start_quiet [THEN quiet_keeps_io] Stop_quiet [THEN quiet_keeps_io]
  SynchronizeSchedule_quiet [THEN quiet_keeps_io] CancelScheduleReminder_quiet [THEN quiet_keeps_io]
  SuspendRuleReminders_quiet [THEN quiet_keeps_io] SynchronizeRule_quiet [THEN quiet_keeps_io]
  AcknowledgeRecentReminders_quiet [THEN quiet_keeps_io] SnoozeRecentReminders_frame [THEN quiet_frame, THEN quiet_keeps_io]
  ExecuteReminderAction_keeps ExecuteRecentReminderActions_keeps
  ListPersistedVoiceActionResults_frame [THEN quiet_frame, THEN quiet_keeps_io]

theorem call_keeps:
  assumes "reminder_call svc s s'"
  shows "steps keeps s s'"
  using assms
proof cases
  case fired
  then show ?thesis using progress_mono [OF run_callback_quiet] by simp
next
  case (reported a w cb r)
  then show ?thesis using progress_mono [OF run_result_quiet] by simp
next
  case elsewhere
  then show ?thesis by (rule progress_unchanged [OF keeps_preorder(1)])
qed (simp_all only: operations_keep [unfolded state_io_rel_def, rule_format])

theorem calls_keep:
  assumes "(reminder_call svc)\<^sup>*\<^sup>* s s'"
  shows "steps keeps s s'"
  using assms
proof (induction rule: rtranclp_induct)
  case base
  show ?case using progress_preorder(1) [OF keeps_preorder] by (rule reflpD)
next
  case (step s' s'')
  show ?case by (rule transpD [OF progress_preorder(2) [OF keeps_preorder] step.IH call_keeps [OF step.hyps(2)]])
qed

end

end
