(* ===== verification/Reminder_System.thy ===== *)
theory Reminder_System
  imports Reminder_Chains Rule_Store
begin

text \<open>
  The reminder service at work: what cancelling, acting on and firing a reminder achieve, and the
  service composed with the in-memory repositories and the timing runner whose callbacks it supplies.
\<close>

section \<open>Effects of single operations\<close>

definition recorded :: "string \<Rightarrow> ReminderActionResult \<Rightarrow> ScheduleReminderTask \<Rightarrow> bool" where
  "recorded k r t \<longleftrightarrow> rk_timing_task_id t = Some k \<and> rk_action_operation_id t = Some (rr_operation_id r) \<and>
     rk_action_kind t = Some (rr_action r) \<and> rk_action_occurred_at t = Some (rr_occurred_at r) \<and>
     rk_action_next_trigger_at t = rr_next_trigger_at r"

text \<open>The commands that pass the argument checks.\<close>

definition action_valid :: "ReminderActionCommand \<Rightarrow> bool" where
  "action_valid c \<longleftrightarrow> ra_operation_id c \<noteq> [] \<and> ra_reminder_trigger_id c \<noteq> [] \<and>
     ra_snooze_minutes c = (if ra_action c = kSnooze then Some 10 else None)"

context reminder_environment
begin

lemma stale_ignored:
  assumes "\<not> (sr_running (wd_service (snd s)) \<and> ok (tasks_FindById T (wd_reminders (snd s)) i) \<and>
      Pending (the (val (tasks_FindById T (wd_reminders (snd s)) i))) \<and>
      rk_timing_task_id (the (val (tasks_FindById T (wd_reminders (snd s)) i))) = Some fired)"
  shows "run_callback svc (Reminder_fired i) fired t s = s"
proof -
  have "wp (HandleReminder svc i fired) (\<lambda>_ s'. s' = s) s"
    using assms unfolding HandleReminder_def IsRunning_def get_fields_def from_reminders_def reminder_repository case_prod_beta
    by (auto simp: wp_simps)
  then show ?thesis by (auto simp: run_callback_def wp_def split: prod.splits)
qed

text \<open>Cancelling: as long as no failure is noted, what is still pending is still to come.\<close>

definition cancel_progress ::
    "ScheduleId \<Rightarrow> ScheduleReminderTask list \<Rightarrow> ScheduleReminderTask list \<Rightarrow> Status \<Rightarrow> 't \<times> ('s, 'm, 'e) World \<Rightarrow> bool" where
  "cancel_progress i ts xs acc s \<longleftrightarrow> since ts s \<and> set xs \<subseteq> set ts \<and> map rk_id (recs s) = map rk_id ts \<and>
     (status_ok acc \<longrightarrow> (\<forall>t \<in> set (recs s). rk_schedule_id t = i \<and> Pending t \<longrightarrow> rk_id t \<in> rk_id ` set xs))"

lemma cancel_progress_skip:
  assumes c: "cancel_progress i ts (x # ys) acc s" and x: "\<not> Pending x"
  shows "cancel_progress i ts ys acc s"
proof -
  have "rk_id t \<noteq> rk_id x" if t: "t \<in> set (recs s)" "Pending t" for t
  proof
    assume id: "rk_id t = rk_id x"
    have e: "evolves quiet ts (recs s)" "x \<in> set ts" using c by (auto simp: cancel_progress_def since_def)
    obtain t' where t': "t' \<in> set (recs s)" "quiet x t'" using evolves_member [OF e] .
    have "rk_id t' = rk_id x" using t'(2) by (simp add: quiet_def same_reminder_def)
    moreover have "distinct (map rk_id (recs s))" 
      using c by (intro good_distinct since_good [of ts]) (simp add: cancel_progress_def)
    ultimately have "t' = t" using t(1) t'(1) id by (auto simp: distinct_map inj_on_def)
    with t(2) t'(2) x show False by (auto simp: quiet_def same_reminder_def)
  qed
  with c show ?thesis by (auto simp: cancel_progress_def)
qed

lemma keep_first_ok: "status_ok (keep_first a b) \<longleftrightarrow> status_ok a \<and> status_ok b"
  by (auto simp: keep_first_def)

lemma cancel_update:
  assumes c: "cancel_progress i ts (x # ys) acc s" and t: "quiet x t" "\<not> Pending t"
  shows "wp (update_reminder svc t) (\<lambda>v s'. cancel_progress i ts ys (keep_first acc v) s') s"
proof -
  have s: "since ts s" and x: "x \<in> set ts" using c by (auto simp: cancel_progress_def)
  have e: "evolves quiet ts (recs s)" using s by (simp add: since_def)
  obtain t0 where t0: "t0 \<in> set (recs s)" "quiet x t0" using evolves_member [OF e x] .
  note u = quiet_update [OF since_good [OF s] t0 t(1) disjI1 [OF t(2)]]
  have id: "rk_id t = rk_id x" using t(1) by (simp add: quiet_def same_reminder_def)
  show ?thesis
  proof (rule wp_conseq [OF u])
    fix v and s' :: "'t \<times> ('s, 'm, 'e) World"
    assume s': "good s' \<and> evolves quiet (recs s) (recs s') \<and>
        (if status_ok v then recs s' = replace_task t (recs s) else recs s' = recs s)"
    then have since: "since ts s'" using since_join [OF s] by (simp add: since_def)
    moreover have "map rk_id (recs s') = map rk_id ts"
      using s' c by (simp add: cancel_progress_def map_id_replace split: if_splits)
    moreover have "\<forall>r \<in> set (recs s'). rk_schedule_id r = i \<and> Pending r \<longrightarrow> rk_id r \<in> rk_id ` set ys" if "status_ok (keep_first acc v)"
      using that c s' t(2) id by (auto simp: cancel_progress_def keep_first_ok replace_task_def)
    ultimately show "cancel_progress i ts ys (keep_first acc v) s'" using c by (auto simp: cancel_progress_def)
  qed
qed

lemma cancel_progress_frame:
  assumes "unchanged s s'" "cancel_progress i ts xs acc s"
  shows "cancel_progress i ts xs acc s'"
  using assms unfolding cancel_progress_def since_def by (simp add: unchanged_same [OF assms(1)])

lemma cancel_one:
  assumes c: "cancel_progress i ts (task # ys) acc s"
  shows "wp (if \<not> Pending task \<or> Some (rk_id task) = None then State_Monad.return acc
      else do {
        accepted \<leftarrow> (case rk_timing_task_id task of
            None \<Rightarrow> State_Monad.return kAccepted
          | Some k \<Rightarrow> (case TaskId_Create k of None \<Rightarrow> State_Monad.return kAccepted | Some i \<Rightarrow> cancel_timing_task svc i));
        if accepted = Acceptance_kUnavailable
          then State_Monad.return (keep_first acc (Status_Error kUnavailable msg_cancel_rejected))
        else do {
          now \<leftarrow> Now svc;
          updated \<leftarrow> update_reminder svc (task\<lparr>rk_timer_status := Timer_kCancelled,
            rk_business_status := Business_kCancelled, rk_updated_at := now\<rparr>);
          State_Monad.return (keep_first acc updated)
        }
      }) (\<lambda>acc'. cancel_progress i ts ys acc') s"
proof (rule wp_ifI, goal_cases)
  case 1
  with cancel_progress_skip [OF c] show ?case by (simp add: wp_return)
next
  case 2
  have cancel: "state_io_rel unchanged (case rk_timing_task_id task of
          None \<Rightarrow> State_Monad.return kAccepted
        | Some k \<Rightarrow> (case TaskId_Create k of None \<Rightarrow> State_Monad.return kAccepted | Some i \<Rightarrow> cancel_timing_task svc i))"
    by (auto intro!: frame_io frame_cancel split: option.split)
  have update: "wp (do { now \<leftarrow> Now svc;
      updated \<leftarrow> update_reminder svc (task\<lparr>rk_timer_status := Timer_kCancelled, rk_business_status := Business_kCancelled, rk_updated_at := now\<rparr>);
      State_Monad.return (keep_first acc updated) }) (\<lambda>acc'. cancel_progress i ts ys acc') s1"
    if "unchanged s s1" for s1
    unfolding wp_simps
    by (rule wp_io [OF frame_calls(1)], rule cancel_update)
      (use cancel_progress_frame that c in \<open>auto simp: quiet_def same_reminder_def same_action_def Pending_def\<close>)
  show ?case
    by (rule wp_bindI, rule wp_io [OF cancel], rule wp_ifI)
      (use update cancel_progress_frame [OF _ c] in \<open>auto simp: wp_return cancel_progress_def keep_first_ok\<close>)
qed

lemma CancelPendingTasks_complete:
  assumes g: "good s" and run: "run_state (CancelPendingTasks svc i None) s = (v, s')" and v: "status_ok v"
  shows "\<forall>t \<in> set (recs s'). rk_schedule_id t = i \<longrightarrow> \<not> Pending t"
proof -
  have "wp (CancelPendingTasks svc i None) (cancel_progress i (recs s) []) s"
    unfolding CancelPendingTasks_def from_reminders_def reminder_repository case_prod_beta
    apply (rule wp_bindI, rule wp_getsI, rule wp_ifI)
     apply (simp add: all_records [OF g])
    apply (rule wp_for_each [where I = "cancel_progress i (recs s)"])
    subgoal using since_start [OF g] by (auto simp: all_records [OF g] cancel_progress_def)
    subgoal by (rule cancel_one)
    subgoal by assumption
    done
  from wp_run [OF this run] v show ?thesis by (simp add: cancel_progress_def)
qed

text \<open>An action that succeeds is in the record of its reminder.\<close>

definition logged :: "string \<Rightarrow> ReminderActionResult Result \<Rightarrow> 't \<times> ('s, 'm, 'e) World \<Rightarrow> bool" where
  "logged k x s \<longleftrightarrow> ok x \<longrightarrow> (\<exists>t \<in> set (recs s). recorded k (the (val x)) t)"

lemma logged_failure: "logged k (Failure a b) s"
  by (simp add: logged_def)

lemma update_logged:
  assumes s: "since ts s" and u: "u \<in> set (recs s)" "rk_action_operation_id u = None" "same_reminder u t" and t: "recorded k r t"
  shows "wp (update_reminder svc t)
    (\<lambda>v. logged k (if \<not> status_ok v then Failure (code v) (message v) else Success r)) s"
proof -
  have id: "rk_id t = rk_id u" "keeps u t" using u by (auto simp: same_reminder_def keeps_def)
  have "t \<in> set (replace_task t (recs s))" using u(1) id(1) by (auto simp: replace_task_def image_iff)
  with t show ?thesis
    by (intro wp_conseq [OF update_evolves [OF since_good [OF s] u(1) id keeps_preorder(1)]])
      (auto simp: keeps_def logged_def)
qed

lemma snooze_logged:
  assumes s: "since ts s" "target \<in> set (recs s)" "rk_action_operation_id target = None"
    and k: "rk_timing_task_id target = Some (ra_reminder_trigger_id command)"
  shows "wp (snooze_target svc command target sts at) (logged (ra_reminder_trigger_id command)) s"
proof -
  have "wp (update_reminder svc (target\<lparr>rk_business_status := kSnoozed,
            rk_action_operation_id := Some (ra_operation_id command), rk_action_kind := Some (ra_action command),
            rk_action_occurred_at := Some at, rk_action_next_trigger_at := Some (rk_trigger_at f), rk_updated_at := at\<rparr>))
      (\<lambda>v. logged (ra_reminder_trigger_id command) (if \<not> status_ok v then Failure (code v) (message v)
        else Success (action_result command at (Some (rk_trigger_at f))))) s" for f
    by (rule update_logged [OF s]) (auto simp: same_reminder_def Pending_def recorded_def action_result_def k)
  then show ?thesis unfolding snooze_target_def by (auto simp: wp_simps logged_failure split: option.split)
qed

lemma complete_logged:
  assumes s: "since ts s" "target \<in> set (recs s)" "rk_action_operation_id target = None"
    and k: "rk_timing_task_id target = Some (ra_reminder_trigger_id command)"
  shows "wp (complete_target svc command target at) (logged (ra_reminder_trigger_id command)) s"
proof -
  have completion: "state_io_rel unchanged (if b then do { now \<leftarrow> SystemNow svc; on_schedules (f now) } else State_Monad.return st)" for b f st
    by (auto intro!: frame_io)
  have update: "wp (update_reminder svc (target\<lparr>rk_business_status := kAcknowledged,
           rk_action_operation_id := Some (ra_operation_id command), rk_action_kind := Some (ra_action command),
           rk_action_occurred_at := Some at, rk_action_next_trigger_at := None, rk_updated_at := at\<rparr>))
      (\<lambda>v. logged (ra_reminder_trigger_id command) (if \<not> status_ok v then Failure (code v) (message v)
        else Success (action_result command at None))) s1" if "since ts s1" "recs s1 = recs s" for s1
    by (rule update_logged [OF that(1) _ s(3)])
      (use s(2) that(2) in \<open>auto simp: same_reminder_def Pending_def recorded_def action_result_def k\<close>)
  show ?thesis
    unfolding complete_target_def
    apply (rule since_frame [OF frame_calls(4) s(1)], rule wp_ifI)
     apply (simp add: wp_return logged_failure)
    apply (rule since_frame [OF completion], assumption, rule wp_ifI)
     apply (simp add: wp_return logged_failure)
    unfolding wp_simps by (rule update) simp_all
qed

lemma wp_value_body:
  "wp (if rk_chain_id task \<noteq> rk_chain_id target \<or> rk_id task = rk_id target then State_Monad.return None
      else do {
        let task = (if Pending task then task\<lparr>rk_timer_status := Timer_kCancelled\<rparr> else task);
        updated \<leftarrow> update_reminder svc ((acknowledge_business task)\<lparr>rk_updated_at := at\<rparr>);
        State_Monad.return (if \<not> status_ok updated then Some (Failure (code updated) (message updated)) else None)
      }) (\<lambda>r _. case r of None \<Rightarrow> True | Some x \<Rightarrow> \<not> ok x) s"
  by (auto simp: wp_simps Let_def intro!: wp_value)

lemma acknowledge_logged:
  assumes s: "since ts s" and target: "target \<in> set (recs s)" "rk_action_operation_id target = None"
    and sts: "set sts \<subseteq> set (recs s)" "distinct (map rk_id sts)"
    and k: "rk_timing_task_id target = Some (ra_reminder_trigger_id command)"
  shows "wp (acknowledge_target svc command target sts at) (logged (ra_reminder_trigger_id command)) s"
proof -
  have failure: "logged k r s'" if "\<not> ok r" for k r s' using that by (simp add: logged_def)
  have cancels: "wp (for_return sts (\<lambda>task.
       if rk_chain_id task \<noteq> rk_chain_id target \<or> \<not> Pending task \<or> rk_timing_task_id task = None
         then State_Monad.return None
       else (case TaskId_Create (the (rk_timing_task_id task)) of
               None \<Rightarrow> State_Monad.return None
             | Some i \<Rightarrow> do {
                 accepted \<leftarrow> cancel_timing_task svc i;
                 State_Monad.return (if accepted = Acceptance_kUnavailable
                   then Some (Failure kUnavailable msg_followup_cancel_rejected) else None)
               }))) (\<lambda>r s'. unchanged s s' \<and> (case r of None \<Rightarrow> True | Some x \<Rightarrow> \<not> ok x)) s"
    apply (rule wp_for_return [where I = "\<lambda>_ s1. unchanged s s1"])
    subgoal by (simp add: unchanged_def)
    subgoal
      by (auto simp: wp_simps split: option.split if_splits intro!: wp_io [OF frame_cancel]
          elim: transpD [OF unchanged_preorder(2)])
    subgoal by simp
    done
  have others: "wp (for_return sts (\<lambda>task.
            if rk_chain_id task \<noteq> rk_chain_id target \<or> rk_id task = rk_id target then State_Monad.return None
            else do {
              let task = (if Pending task then task\<lparr>rk_timer_status := Timer_kCancelled\<rparr> else task);
              updated \<leftarrow> update_reminder svc ((acknowledge_business task)\<lparr>rk_updated_at := at\<rparr>);
              State_Monad.return (if \<not> status_ok updated then Some (Failure (code updated) (message updated)) else None)
            })) (\<lambda>r s'. case r of None \<Rightarrow> since ts s' \<and> target \<in> set (recs s') | Some x \<Rightarrow> \<not> ok x) s1"
    if s1: "unchanged s s1" for s1
    apply (rule wp_for_return [where I = "\<lambda>xs s2. since ts s2 \<and> set (target # xs) \<subseteq> set (recs s2) \<and> distinct (map rk_id xs)"])
    subgoal using s target sts s1 by (simp add: since_def unchanged_same [OF s1])
    subgoal for task ys s2
      by (rule wp_conseq [OF wp_conjI [OF acknowledge_others_since [where ys = ys]
              wp_value_body [where target = target and task = task and at = at]]])
        (auto split: option.splits)
    subgoal by simp
    done
  show ?thesis
    unfolding acknowledge_target_def
    apply (rule wp_bindI, rule wp_conseq [OF cancels], rule wp_caseI [rotated])
     apply (simp add: wp_return failure)
    apply (rule wp_bindI, rule wp_conseq [OF others], simp, rule wp_caseI [rotated])
     apply (simp add: wp_return failure)
    by (rule complete_logged) (use target(2) k in auto)
qed

lemma find_target:
  assumes "good s" "ok (tasks_FindByTimingTaskId T (wd_reminders (snd s)) k)"
  shows "the (val (tasks_FindByTimingTaskId T (wd_reminders (snd s)) k)) \<in> set (recs s)"
    "rk_timing_task_id (the (val (tasks_FindByTimingTaskId T (wd_reminders (snd s)) k))) = Some k"
proof -
  have "tinv (wd_reminders (snd s))" using assms(1) by (simp add: sound_def)
  from find_by_timing [OF this, of k] assms(2)
  show "the (val (tasks_FindByTimingTaskId T (wd_reminders (snd s)) k)) \<in> set (recs s)"
    "rk_timing_task_id (the (val (tasks_FindByTimingTaskId T (wd_reminders (snd s)) k))) = Some k" by (auto simp: records_def)
qed

lemma replay_logged:
  assumes "good s" "ok (tasks_FindByTimingTaskId T (wd_reminders (snd s)) (ra_reminder_trigger_id command))"
    "rk_action_operation_id (the (val (tasks_FindByTimingTaskId T (wd_reminders (snd s)) (ra_reminder_trigger_id command)))) \<noteq> None"
  shows "logged (ra_reminder_trigger_id command) (replay_action command
    (the (val (tasks_FindByTimingTaskId T (wd_reminders (snd s)) (ra_reminder_trigger_id command))))) s"
  using find_target [OF assms(1,2)] assms(3) by (auto simp: logged_def replay_action_def recorded_def)

lemma ExecuteReminderAction_logged:
  assumes g: "good s"
  shows "wp (ExecuteReminderAction svc command) (logged (ra_reminder_trigger_id command)) s"
proof -
  note s = since_start [OF g] and target = find_target [OF g]
  have sts: "set (filter (\<lambda>t. rk_schedule_id t = i) (recs s)) \<subseteq> set (recs s)"
    "distinct (map rk_id (filter (\<lambda>t. rk_schedule_id t = i) (recs s)))" for i
    using good_distinct [OF g] by (auto simp: distinct_map_filter)
  show ?thesis
    unfolding ExecuteReminderAction_def find_reminders_def from_reminders_def reminder_repository case_prod_beta Let_def
    apply (intro wp_ifI)
       apply (simp_all only: wp_return logged_failure)
    apply (rule wp_bindI, rule wp_getsI, intro wp_ifI)
       apply (simp_all only: wp_return logged_failure)
    subgoal by (rule replay_logged [OF g]) simp_all
    apply (rule wp_bindI, rule wp_getsI, intro wp_ifI)
      apply (simp_all only: wp_return logged_failure)
    apply (rule wp_bindI, rule wp_getsI, rule wp_ifI)
     apply (simp_all only: wp_return logged_failure)
    apply (rule since_frame [OF frame_calls(1) s], rule wp_ifI)
    subgoal using target by (intro snooze_logged) simp_all
    using target sts by (intro acknowledge_logged) (simp_all add: all_records [OF g])
qed

lemma action_replayed:
  assumes g: "good s" and t: "t \<in> set (recs s)" "recorded (ra_reminder_trigger_id c) r t"
    and c: "action_valid c" "ra_action c = rr_action r"
  shows "run_state (ExecuteReminderAction svc c) s =
    (Success \<lparr>rr_affected_count = 1, rr_events = [], rr_operation_id = rr_operation_id r,
       rr_reminder_trigger_id = ra_reminder_trigger_id c, rr_action = rr_action r, rr_occurred_at = rr_occurred_at r,
       rr_next_trigger_at = rr_next_trigger_at r, rr_replayed = True\<rparr>, s)"
proof -
  let ?f = "tasks_FindByTimingTaskId T (wd_reminders (snd s)) (ra_reminder_trigger_id c)"
  have inv: "tinv (wd_reminders (snd s))" using g by (simp add: sound_def)
  have k: "rk_timing_task_id t = Some (ra_reminder_trigger_id c)" using t(2) by (simp add: recorded_def)
  obtain t' where t': "t' \<in> set (recs s)" "rk_timing_task_id t' = Some (ra_reminder_trigger_id c)" "?f = Success t'"
    using find_by_timing [OF inv, of "ra_reminder_trigger_id c"] t(1) k by (force simp: records_def)
  have "t' = t" using good_tasks [OF g] t(1) t'(1,2) k unfolding tasks_ok_def unique_option_def by (metis option.distinct(1))
  with t' have f: "?f = Success t" by simp
  have kind: "ra_action c = kAcknowledge \<or> ra_action c = kSnooze" by (cases "ra_action c") simp_all
  have "wp (ExecuteReminderAction svc c) (\<lambda>x s'. s' = s \<and> x = Success \<lparr>rr_affected_count = 1, rr_events = [],
      rr_operation_id = rr_operation_id r, rr_reminder_trigger_id = ra_reminder_trigger_id c, rr_action = rr_action r,
      rr_occurred_at = rr_occurred_at r, rr_next_trigger_at = rr_next_trigger_at r, rr_replayed = True\<rparr>) s"
    using c kind t(2)
    by (auto simp: ExecuteReminderAction_def from_reminders_def reminder_repository case_prod_beta wp_simps f
        action_valid_def recorded_def replay_action_def kFollowUpDelay_def split: if_splits)
  then show ?thesis by (auto simp: wp_def split: prod.splits)
qed

lemma action_stays:
  assumes "good s" "recorded k r t" "t \<in> set (recs s)" "(reminder_call svc)\<^sup>*\<^sup>* s s'"
  shows "good s' \<and> (\<exists>t \<in> set (recs s'). recorded k r t)"
proof -
  have "good s'" and e: "evolves keeps (recs s) (recs s')" using calls_keep [OF assms(4)] assms(1) by (auto simp: progress_def)
  moreover obtain t' where "t' \<in> set (recs s')" "keeps t t'" using evolves_member [OF e assms(3)] .
  moreover have "recorded k r t'" using \<open>keeps t t'\<close> assms(2)
    by (simp add: recorded_def keeps_def same_reminder_def same_action_def)
  ultimately show ?thesis by blast
qed

end

section \<open>The composed system\<close>

text \<open>
  The service over the in-memory repositories and the timing runtime. The environment is any type;
  its part in the composition is a set of ports.
\<close>

record 'e Ports =
  po_speech :: "string \<Rightarrow> 'e \<Rightarrow> Status \<times> 'e"
  po_notification :: "(Schedule \<Rightarrow> ScheduleReminderTask \<Rightarrow> 'e \<Rightarrow> Status \<times> 'e) option"
  po_now :: "'e \<Rightarrow> DateTime \<times> 'e"
  po_system_clock :: "'e \<Rightarrow> int \<times> 'e"
  po_wake :: "'e \<Rightarrow> 'e"
  po_arm :: "'e \<Rightarrow> int \<Rightarrow> Status \<times> 'e"
  po_disarm :: "'e \<Rightarrow> Status \<times> 'e"
  po_schedule_order :: "ScheduleId list \<Rightarrow> ScheduleId list"
  po_retry_order :: "(ScheduleRuleId \<times> RetryState) list \<Rightarrow> (ScheduleRuleId \<times> RetryState) list"

type_synonym ReminderRunner = "(ReminderCallback, ReminderResultCallback, unit) InMemoryTimingTaskRunner"
type_synonym 'e MemoryWorld = "(MemoryStore, MemoryReminderTasks, 'e) World"

definition no_result :: "unit \<Rightarrow> CancelTaskResult \<Rightarrow> 'w \<Rightarrow> 'w" where
  "no_result f result w = w"

definition timing_ports :: "'e Ports \<Rightarrow> 'e MemoryWorld TimingPorts" where
  "timing_ports P = \<lparr>
     clock_Now = (\<lambda>w. let (t, e) = po_system_clock P (wd_env w) in (t, w\<lparr>wd_env := e\<rparr>)),
     timer_ArmAfter = (\<lambda>w d. let (st, e) = po_arm P (wd_env w) d in (st, w\<lparr>wd_env := e\<rparr>)),
     timer_Disarm = (\<lambda>w. let (st, e) = po_disarm P (wd_env w) in (st, w\<lparr>wd_env := e\<rparr>)),
     wake_Notify = (\<lambda>w. w\<lparr>wd_env := po_wake P (wd_env w)\<rparr>)\<rparr>"

definition memory_system :: "'e Ports \<Rightarrow> (ReminderRunner, MemoryStore, MemoryReminderTasks, 'e) ScheduleReminderService" where
  "memory_system P = \<lparr>
     rm_repository = memory_schedules, rm_reminder_repository = memory_reminder_tasks,
     rm_schedule_service = \<lparr>repository = memory_schedules, operation_service = None\<rparr>,
     rm_rule_service = \<lparr>rs_rules = memory_rules, rs_exceptions = memory_exceptions, rs_schedules = memory_schedules\<rparr>,
     rm_timing_service = \<lparr>timing_RegisterTask = Runtime_RegisterTask (timing_ports P),
       timing_CancelTask = Runtime_CancelTask (timing_ports P) no_result\<rparr>,
     rm_speech = po_speech P, rm_notification = po_notification P, rm_now_provider = po_now P,
     rm_system_clock = po_system_clock P, rm_schedule_order = po_schedule_order P, rm_retry_order = po_retry_order P\<rparr>"

lemma world_env_same [simp]: "w\<lparr>wd_env := wd_env w\<rparr> = (w :: ('s, 'm, 'e) World)"
  by simp

lemma runtime_register_calls:
  assumes "Runtime_RegisterTask (timing_ports P) h cmd (t, w) = (a, t', w')"
  shows "\<exists>w1 e. (w1 = w \<or> (\<exists>cb r. rt_on_result cmd = Some cb \<and> w1 = h cb r w)) \<and> w' = w1\<lparr>wd_env := e\<rparr>"
proof -
  have "w' = w \<or> (\<exists>cb r. rt_on_result cmd = Some cb \<and> w' = h cb r w) \<or> (\<exists>e. w' = w\<lparr>wd_env := e\<rparr>)"
    using assms
    by (auto simp: Runtime_RegisterTask_def Runner_RegisterTask_def ApplyRegisterTask_def report_def timing_ports_def
        IsInCallbackContext_def Let_def split: if_splits option.splits)
  then show ?thesis by (metis world_env_same)
qed

lemma runtime_cancel_calls:
  assumes "Runtime_CancelTask (timing_ports P) no_result cmd (t, w) = (a, t', w')"
  shows "\<exists>e. w' = w\<lparr>wd_env := e\<rparr>"
proof -
  have "w' = w \<or> (\<exists>e. w' = w\<lparr>wd_env := e\<rparr>)"
    using assms
    by (auto simp: Runtime_CancelTask_def Runner_CancelTask_def ApplyCancelTask_def report_def timing_ports_def no_result_def
        IsInCallbackContext_def Let_def split: if_splits option.splits)
  then show ?thesis by (metis world_env_same)
qed

interpretation memory_environment: reminder_environment memory_reminder_tasks reminders_inv mr_tasks "memory_system P" for P
proof
  show "rm_reminder_repository (memory_system P) = memory_reminder_tasks" by (simp add: memory_system_def)
next
  fix h cmd t w a t' w'
  assume "timing_RegisterTask (rm_timing_service (memory_system P)) h cmd (t, w) = (a, t', w')"
  then show "\<exists>w1 e. (w1 = w \<or> (\<exists>cb r. rt_on_result cmd = Some cb \<and> w1 = h cb r w)) \<and> w' = w1\<lparr>wd_env := e\<rparr>"
    by (intro runtime_register_calls) (simp add: memory_system_def)
next
  fix i t w a t' w'
  assume "timing_CancelTask (rm_timing_service (memory_system P)) \<lparr>ct_task_id = i, ct_on_result = None\<rparr> (t, w) = (a, t', w')"
  then show "\<exists>e. w' = w\<lparr>wd_env := e\<rparr>" by (intro runtime_cancel_calls) (simp add: memory_system_def)
qed

text \<open>The callbacks of the service use the runner through its interface only.\<close>

definition runner_calls ::
    "'e Ports \<Rightarrow> ReminderRunner \<times> 'e MemoryWorld \<Rightarrow> ReminderRunner \<times> 'e MemoryWorld \<Rightarrow> bool" where
  "runner_calls P = (timing_call (run_result (memory_system P)) no_result)\<^sup>*\<^sup>*"

lemma runner_calls_preorder: "reflp (runner_calls P)" "transp (runner_calls P)"
  by (auto simp: runner_calls_def reflp_def transp_def)

lemma runner_elsewhere: "(\<And>s. fst (snd (run_state m s)) = fst s) \<Longrightarrow> state_io_rel (runner_calls P) m"
  unfolding state_io_rel_def runner_calls_def
  by (metis prod.collapse r_into_rtranclp timing_call.elsewhere)

named_theorems runner_io \<open>computations that use the runner through its interface\<close>

lemmas runner_bind [runner_io] = io_bind [OF runner_calls_preorder(2)]

lemma runner_primitives [runner_io]:
  "state_io_rel (runner_calls P) (State_Monad.return x)" "state_io_rel (runner_calls P) (on_schedules f)"
  "state_io_rel (runner_calls P) (on_reminders r)" "state_io_rel (runner_calls P) (on_env g)"
  "state_io_rel (runner_calls P) (get_fields k)" "state_io_rel (runner_calls P) (set_fields h)"
  "state_io_rel (runner_calls P) (from_schedules a)" "state_io_rel (runner_calls P) (from_reminders b)"
  by (auto intro!: runner_elsewhere simp: on_schedules_def on_reminders_def on_env_def get_fields_def set_fields_def
      from_schedules_def from_reminders_def gets_def modify_def split: prod.split)

lemma runner_small [runner_io]:
  "state_io_rel (runner_calls P) (Now svc)" "state_io_rel (runner_calls P) (SystemNow svc)"
  "state_io_rel (runner_calls P) (find_schedule_by_id svc i)" "state_io_rel (runner_calls P) (update_reminder svc t)"
  "state_io_rel (runner_calls P) (IsRunning svc)" "state_io_rel (runner_calls P) (AllocateChainId svc)"
  "state_io_rel (runner_calls P) (AllocateTaskId svc p)"
  by (auto simp: Now_def system_micros_def SystemNow_def find_schedule_by_id_def update_reminder_def IsRunning_def
      AllocateChainId_def AllocateTaskId_def intro!: runner_io)

lemma runner_register [runner_io]: "state_io_rel (runner_calls P)
    (State (timing_RegisterTask (rm_timing_service (memory_system P)) (run_result (memory_system P)) cmd))"
proof (rule state_io_relI)
  fix a s s'
  assume "run_state (State (timing_RegisterTask (rm_timing_service (memory_system P)) (run_result (memory_system P)) cmd)) s = (a, s')"
  then obtain w where w: "s' = (fst (snd (Runner_RegisterTask (run_result (memory_system P)) cmd s)), w)"
    by (auto simp: memory_system_def Runtime_RegisterTask_def Let_def split: prod.splits)
  have "timing_call (run_result (memory_system P)) no_result s (snd (Runner_RegisterTask (run_result (memory_system P)) cmd s))"
    by (rule timing_call.register)
  moreover have "timing_call (run_result (memory_system P)) no_result (snd (Runner_RegisterTask (run_result (memory_system P)) cmd s)) s'"
    unfolding w by (metis prod.collapse timing_call.elsewhere)
  ultimately show "runner_calls P s s'" by (simp add: runner_calls_def)
qed

lemma runner_cancel [runner_io]: "state_io_rel (runner_calls P) (cancel_timing_task (memory_system P) i)"
proof (rule state_io_relI)
  fix a s s'
  let ?c = "\<lparr>ct_task_id = i, ct_on_result = None\<rparr>"
  assume "run_state (cancel_timing_task (memory_system P) i) s = (a, s')"
  then obtain w where w: "s' = (fst (snd (Runner_CancelTask no_result ?c s)), w)"
    by (auto simp: cancel_timing_task_def memory_system_def Runtime_CancelTask_def Let_def split: prod.splits)
  have "timing_call (run_result (memory_system P)) no_result s (snd (Runner_CancelTask no_result ?c s))"
    by (rule timing_call.cancel)
  moreover have "timing_call (run_result (memory_system P)) no_result (snd (Runner_CancelTask no_result ?c s)) s'"
    unfolding w by (metis prod.collapse timing_call.elsewhere)
  ultimately show "runner_calls P s s'" by (simp add: runner_calls_def)
qed

lemma runner_RegisterPersistedTask [runner_io]: "state_io_rel (runner_calls P) (RegisterPersistedTask (memory_system P) t)"
  unfolding RegisterPersistedTask_def by (auto intro!: runner_io split: option.split)

lemma runner_RegisterReminder [runner_io]: "state_io_rel (runner_calls P) (RegisterReminder (memory_system P) i c n t)"
  unfolding RegisterReminder_def Let_def by (auto intro!: runner_io)

lemma runner_CancelPendingTasks [runner_io]: "state_io_rel (runner_calls P) (CancelPendingTasks (memory_system P) i x)"
  unfolding CancelPendingTasks_def
  by (auto intro!: runner_io io_for_each [OF runner_calls_preorder] split: option.split)

lemma runner_SynchronizeSchedule [runner_io]: "state_io_rel (runner_calls P) (SynchronizeSchedule (memory_system P) i)"
  unfolding SynchronizeSchedule_def by (auto intro!: runner_io split: option.split)

lemma runner_ScheduleGenerationRetry [runner_io]: "state_io_rel (runner_calls P) (ScheduleGenerationRetry (memory_system P) j n)"
  unfolding ScheduleGenerationRetry_def by (auto intro!: runner_io split: option.split)

lemma runner_GenerateNextInstance [runner_io]: "state_io_rel (runner_calls P) (GenerateNextInstance (memory_system P) j n)"
  unfolding GenerateNextInstance_def by (auto intro!: runner_io split: option.split)

lemma runner_announce [runner_io]: "state_io_rel (runner_calls P) (announce_reminder (memory_system P) s t)"
  unfolding announce_reminder_def Let_def by (auto intro!: runner_io split: option.split)

lemma runner_HandleReminder [runner_io]: "state_io_rel (runner_calls P) (HandleReminder (memory_system P) i k)"
  unfolding HandleReminder_def Let_def by (auto intro!: runner_io)

lemma runner_on_retry_fired [runner_io]: "state_io_rel (runner_calls P) (on_retry_fired (memory_system P) j v k)"
  unfolding on_retry_fired_def by (auto intro!: runner_io split: option.split)

interpretation reminder_callbacks: task_callbacks "run_result (memory_system P)" no_result "run_callback (memory_system P)" for P
proof
  fix s c i t
  have "runner_calls P s (run_callback (memory_system P) c i t s)"
    using runner_HandleReminder [unfolded state_io_rel_def, rule_format] runner_on_retry_fired [unfolded state_io_rel_def, rule_format]
    by (cases c) (simp_all only: run_callback_def ReminderCallback.case)
  then show "(timing_call (run_result (memory_system P)) no_result)\<^sup>*\<^sup>* s (run_callback (memory_system P) c i t s)"
    by (simp add: runner_calls_def)
qed

section \<open>Batches of the runner are calls into the service\<close>

lemma reminder_elsewhere: "snd s' = snd s \<Longrightarrow> reminder_call svc s s'"
  by (rule reminder_call.elsewhere) (simp add: unchanged_def)

lemma apply_register_call: "(reminder_call svc)\<^sup>*\<^sup>* s (ApplyRegisterTask (run_result svc) cmd t s)"
proof -
  let ?s = "ApplyRegisterTask (run_result svc) cmd t s"
  have "snd ?s = snd s \<or> (\<exists>cb x. snd ?s = run_result svc cb x (snd s))"
    by (cases "rt_on_result cmd") (auto simp: ApplyRegisterTask_def report_def Let_def split: prod.split)
  then show ?thesis
  proof (elim disjE exE)
    fix cb x
    assume "snd ?s = run_result svc cb x (snd s)"
    then have "reminder_call svc (fst s, run_result svc cb x (snd s)) ?s" by (intro reminder_elsewhere) simp
    moreover have "reminder_call svc s (fst s, run_result svc cb x (snd s))"
      using reminder_call.reported [of svc "fst s" "snd s" cb x] by simp
    ultimately show ?thesis by (meson rtranclp.rtrancl_refl rtranclp.rtrancl_into_rtrancl)
  qed (blast intro: reminder_elsewhere)
qed

lemma apply_cancel_call: "reminder_call svc s (ApplyCancelTask no_result cmd t s)"
  by (rule reminder_call.elsewhere)
    (auto simp: unchanged_def ApplyCancelTask_def report_def no_result_def Let_def split: prod.split option.split)

lemma process_commands_calls: "(reminder_call svc)\<^sup>*\<^sup>* s (process_commands (run_result svc) no_result n t s)"
proof (induction n arbitrary: s)
  case (Suc n)
  let ?s = "((fst s)\<lparr>commands := tl (commands (fst s))\<rparr>, snd s)"
  have s: "reminder_call svc s ?s" by (rule reminder_call.elsewhere) (simp add: unchanged_def)
  show ?case
  proof (cases "hd (commands (fst s))")
    case (Pending_Register c)
    then show ?thesis
      using converse_rtranclp_into_rtranclp [OF s rtranclp_trans [OF apply_register_call Suc.IH]] by (simp add: Let_def)
  next
    case (Pending_Cancel c)
    then show ?thesis
      using converse_rtranclp_into_rtranclp [OF s converse_rtranclp_into_rtranclp [OF apply_cancel_call Suc.IH]] by (simp add: Let_def)
  qed
qed simp

lemma pending_commands_calls: "(reminder_call svc)\<^sup>*\<^sup>* s (snd (ProcessPendingCommands (run_result svc) no_result t s))"
proof (cases "processing_commands (fst s)")
  case False
  let ?s = "((fst s)\<lparr>processing_commands := True\<rparr>, snd s)"
  have s: "reminder_call svc s ?s" by (rule reminder_elsewhere) simp
  have e: "reminder_call svc u ((fst u)\<lparr>processing_commands := False\<rparr>, snd u)" for u by (rule reminder_elsewhere) simp
  show ?thesis
    using converse_rtranclp_into_rtranclp [OF s rtranclp.rtrancl_into_rtrancl [OF process_commands_calls e]] False
    by (simp add: ProcessPendingCommands_def Let_def)
qed (simp add: ProcessPendingCommands_def)

lemma run_task_calls: "(reminder_call svc)\<^sup>*\<^sup>* s (run_task (run_callback svc) now b i n s)"
proof -
  let ?p = "node_task n (pending_tasks (fst s))"
  let ?s = "((fst s)\<lparr>pending_tasks := erase_node n (pending_tasks (fst s)), pending_tasks_by_id := (pending_tasks_by_id (fst s))(i := None),
      callback_applied_at := Some now, in_callback := True\<rparr>, snd s)"
  let ?t = "run_callback svc (pt_callback ?p) (ta_id (pt_task ?p)) (ta_trigger_at (pt_task ?p)) ?s"
  have "reminder_call svc s ?s" by (rule reminder_elsewhere) simp
  moreover have "reminder_call svc ?s ?t" by (rule reminder_call.fired)
  moreover have "snd (run_task (run_callback svc) now b i n s) = snd ?t"
    by (auto simp: run_task_def Let_def split: prod.split)
  then have "reminder_call svc ?t (run_task (run_callback svc) now b i n s)" by (rule reminder_elsewhere)
  ultimately show ?thesis by (meson rtranclp.rtrancl_refl rtranclp.rtrancl_into_rtrancl)
qed

lemma run_due_calls: "(reminder_call svc)\<^sup>*\<^sup>* s (snd (snd (run_due (run_callback svc) now b ids p q s)))"
proof (induction ids arbitrary: p q s)
  case (Cons i ids)
  show ?case
  proof (cases "pending_tasks_by_id (fst s) i")
    case (Some n)
    then show ?thesis using rtranclp_trans [OF run_task_calls Cons.IH] by simp
  qed (simp add: Cons.IH)
qed simp

lemma RunDueTasks_calls: "(reminder_call svc)\<^sup>*\<^sup>* s (snd (RunDueTasks (run_callback svc) (run_result svc) no_result now s))"
proof -
  let ?s = "snd (ProcessPendingCommands (run_result svc) no_result now s)"
  let ?b = "in_callback (fst ?s)"
  let ?t = "snd (snd (run_due (run_callback svc) now ?b (due_task_ids now (fst ?s)) 0 0 ?s))"
  have "(reminder_call svc)\<^sup>*\<^sup>* s ?t" using rtranclp_trans [OF pending_commands_calls run_due_calls] .
  moreover have "snd (snd (RunDueTasks (run_callback svc) (run_result svc) no_result now s)) = snd ?t"
    by (auto simp: RunDueTasks_def Let_def split: prod.split)
  then have "reminder_call svc ?t (snd (RunDueTasks (run_callback svc) (run_result svc) no_result now s))"
    by (rule reminder_elsewhere)
  ultimately show ?thesis by (rule rtranclp.rtrancl_into_rtrancl)
qed

abbreviation wake_up :: "'e Ports \<Rightarrow> ReminderRunner \<times> 'e MemoryWorld \<Rightarrow> Status \<times> ReminderRunner \<times> 'e MemoryWorld" where
  "wake_up P \<equiv> ProcessWake (timing_ports P) (run_callback (memory_system P)) (run_result (memory_system P)) no_result"

lemma wake_up_calls: "(reminder_call (memory_system P))\<^sup>*\<^sup>* s (snd (wake_up P s))"
proof -
  let ?svc = "memory_system P"
  obtain now w where now: "clock_Now (timing_ports P) (snd s) = (now, w)" by fastforce
  then have w: "wd_reminders w = wd_reminders (snd s)" by (auto simp: timing_ports_def Let_def split: prod.splits)
  let ?run = "RunDueTasks (run_callback ?svc) (run_result ?svc) no_result now (fst s, w)"
  have "reminder_call ?svc s (fst s, w)" by (rule reminder_call.elsewhere) (simp add: unchanged_def w)
  then have "(reminder_call ?svc)\<^sup>*\<^sup>* s (snd ?run)" by (rule converse_rtranclp_into_rtranclp [OF _ RunDueTasks_calls])
  moreover have "unchanged (snd ?run) (snd (wake_up P s))"
    using now by (auto simp: ProcessWake_def unchanged_def timing_ports_def Let_def split: prod.splits option.splits)
  then have "reminder_call ?svc (snd ?run) (snd (wake_up P s))" by (rule reminder_call.elsewhere)
  ultimately show ?thesis by (rule rtranclp.rtrancl_into_rtrancl)
qed

end
