(* ===== verification/Reminder_Correctness.thy ===== *)
theory Reminder_Correctness
  imports Reminder_System
begin

text \<open>
  Properties of the reminder system: the service over the in-memory repositories, with the timing
  runtime running its callbacks, under any sequence of calls, wake-ups and changes elsewhere.
\<close>

section \<open>The system as a machine\<close>

inductive system_step :: "'e Ports \<Rightarrow> ReminderRunner \<times> 'e MemoryWorld \<Rightarrow> ReminderRunner \<times> 'e MemoryWorld \<Rightarrow> bool"
  for P where
  service: "reminder_call (memory_system P) s s' \<Longrightarrow> system_step P s s'"
| wake: "system_step P s (snd (wake_up P s))"

abbreviation reminders :: "'t \<times> 'e MemoryWorld \<Rightarrow> ScheduleReminderTask list" where
  "reminders s \<equiv> mr_tasks (wd_reminders (snd s))"

lemma system_steps_calls: "(system_step P)\<^sup>*\<^sup>* s s' \<Longrightarrow> (reminder_call (memory_system P))\<^sup>*\<^sup>* s s'"
proof (induction rule: rtranclp_induct)
  case (step s' s'')
  from step.hyps(2) have "(reminder_call (memory_system P))\<^sup>*\<^sup>* s' s''"
    by cases (auto intro: wake_up_calls)
  with step.IH show ?case by (rule rtranclp_trans)
qed simp

lemma system_progress:
  assumes "(system_step P)\<^sup>*\<^sup>* s s'" "reminders_inv (wd_reminders (snd s))" "chain_ok (reminders s)"
  shows "reminders_inv (wd_reminders (snd s')) \<and> chain_ok (reminders s') \<and> evolves keeps (reminders s) (reminders s')"
  using memory_environment.calls_keep [OF system_steps_calls [OF assms(1)]] assms(2,3)
  by (simp add: progress_def sound_def records_def)

lemma chain_at_most_three:
  assumes "tasks_ok ts"
  shows "card {t \<in> set ts. rk_chain_id t = c} \<le> 3"
proof -
  let ?C = "{t \<in> set ts. rk_chain_id t = c}"
  have "inj_on rk_attempt ?C" using assms by (auto simp: inj_on_def tasks_ok_def unique_option_def)
  moreover have "rk_attempt ` ?C \<subseteq> {1..3}" using assms by (auto simp: tasks_ok_def Valid_def)
  then have "card (rk_attempt ` ?C) \<le> card {1..3::int}" by (intro card_mono) auto
  ultimately show ?thesis by (simp add: card_image)
qed

section \<open>Properties\<close>

text \<open>
  C5. Whatever is called, fired and changed elsewhere, from an empty set of reminders: the records
  stay well-formed (valid, unique per chain and attempt, per timing task and per user operation), a
  chain has at most three attempts, each later attempt follows one that has left the timer, and at
  most one attempt of a chain waits on the timer.
\<close>

theorem reminder_chain_invariant:
  assumes "(system_step P)\<^sup>*\<^sup>* (r, w) s" "wd_reminders w = empty_reminders clock"
  shows "tasks_ok (reminders s) \<and> chain_ok (reminders s) \<and>
    (\<forall>c. card {t \<in> set (reminders s). rk_chain_id t = c} \<le> 3) \<and>
    (\<forall>t \<in> set (reminders s). \<forall>u \<in> set (reminders s). rk_chain_id t = rk_chain_id u \<and> Pending t \<and> Pending u \<longrightarrow> t = u)"
proof -
  have "reminders_inv (wd_reminders (snd s)) \<and> chain_ok (reminders s)"
    using system_progress [OF assms(1)] empty_reminders_inv assms(2)
    by (simp add: chain_ok_def empty_reminders_def)
  then have "tasks_ok (reminders s)" "chain_ok (reminders s)" by (simp_all add: reminders_inv_def)
  with chain_at_most_three one_pending_per_chain show ?thesis by blast
qed

text \<open>A system with a standing clock, whose environment is the time in seconds, and one schedule that starts at 2000.\<close>

definition sample_system :: "int Ports" where
  "sample_system = \<lparr>po_speech = (\<lambda>_ e. (Status_Ok, e)), po_notification = None, po_now = (\<lambda>e. (e, e)),
     po_system_clock = (\<lambda>e. (e * 1000000, e)), po_wake = (\<lambda>e. e), po_arm = (\<lambda>e _. (Status_Ok, e)),
     po_disarm = (\<lambda>e. (Status_Ok, e)), po_schedule_order = (\<lambda>xs. xs), po_retry_order = (\<lambda>xs. xs)\<rparr>"

definition sample_schedule :: Schedule where
  "sample_schedule = \<lparr>sc_id = 0, sc_event = ''tea'', sc_start_time = Some 2000, sc_end_time = None, sc_location = None,
     sc_notes = None, sc_rule_id = None, sc_status = kActive, sc_created_at = 0, sc_updated_at = 0\<rparr>"

definition sample_world :: "int MemoryWorld" where
  "sample_world = \<lparr>wd_schedules = snd (repo_Insert memory_schedules (empty_store (\<lambda>n. 1000)) sample_schedule),
     wd_reminders = empty_reminders (\<lambda>n. 1000), wd_service = initial_reminder_state, wd_env = 1000\<rparr>"

definition at_time :: "int \<Rightarrow> ReminderRunner \<times> int MemoryWorld \<Rightarrow> ReminderRunner \<times> int MemoryWorld" where
  "at_time t s = (fst s, (snd s)\<lparr>wd_env := t\<rparr>)"

definition sample_started :: "ReminderRunner \<times> int MemoryWorld" where
  "sample_started = snd (run_state (Start (memory_system sample_system)) (initial_runner, sample_world))"

definition sample_fired :: "ReminderRunner \<times> int MemoryWorld" where
  "sample_fired = snd (wake_up sample_system (at_time 2000 (snd (wake_up sample_system sample_started))))"

lemma sample_fired_reachable: "(system_step sample_system)\<^sup>*\<^sup>* (initial_runner, sample_world) sample_fired"
proof -
  have "system_step sample_system s (at_time t s)" for t s
    by (rule system_step.service, rule reminder_call.elsewhere) (simp add: at_time_def unchanged_def)
  moreover have "system_step sample_system (initial_runner, sample_world) sample_started"
    unfolding sample_started_def by (intro system_step.service reminder_call.start)
  ultimately show ?thesis
    unfolding sample_fired_def using system_step.wake by (meson rtranclp.rtrancl_refl rtranclp.rtrancl_into_rtrancl)
qed

lemma sample_fired_records:
  "map (\<lambda>t. (rk_attempt t, rk_timer_status t, rk_business_status t, rk_trigger_at t)) (reminders sample_fired) =
     [(1, kTriggered, kWaitingAcknowledgement, 2000), (2, kPending, kScheduled, 2600)]"
  by code_simp

theorem reminder_chain_invariant_witness:
  "tasks_ok (reminders sample_fired) \<and> chain_ok (reminders sample_fired) \<and> length (reminders sample_fired) = 2"
proof -
  have "wd_reminders sample_world = empty_reminders (\<lambda>n. 1000)" by (simp add: sample_world_def)
  moreover have "length (reminders sample_fired) = 2" using arg_cong [OF sample_fired_records, of length] by simp
  ultimately show ?thesis using reminder_chain_invariant [OF sample_fired_reachable] by blast
qed

text \<open>
  C12. A user action takes effect once: when it succeeds on a reminder, then at any later time the
  same kind of action on that reminder, under whatever operation identifier it arrives, answers with
  the operation, the time and the next trigger of the first one, marked as replayed, and changes
  nothing.
\<close>

theorem reminder_action_idempotent:
  assumes reach: "(system_step P)\<^sup>*\<^sup>* (r, w) s" and empty: "wd_reminders w = empty_reminders clock"
    and run: "run_state (ExecuteReminderAction (memory_system P) c) s = (x, s1)" and ok: "ok x"
    and later: "(system_step P)\<^sup>*\<^sup>* s1 s2"
    and again: "action_valid c'" "ra_reminder_trigger_id c' = ra_reminder_trigger_id c" "ra_action c' = rr_action (the (val x))"
  shows "run_state (ExecuteReminderAction (memory_system P) c') s2 =
    (Success \<lparr>rr_affected_count = 1, rr_events = [], rr_operation_id = rr_operation_id (the (val x)),
       rr_reminder_trigger_id = ra_reminder_trigger_id c, rr_action = rr_action (the (val x)),
       rr_occurred_at = rr_occurred_at (the (val x)), rr_next_trigger_at = rr_next_trigger_at (the (val x)),
       rr_replayed = True\<rparr>, s2)"
proof -
  let ?good = "sound reminders_inv mr_tasks"
  have s: "?good s" using system_progress [OF reach] empty_reminders_inv empty
    by (simp add: chain_ok_def empty_reminders_def sound_def records_def)
  have "reminder_call (memory_system P) s s1" using reminder_call.action [of "memory_system P" s c] run by simp
  then have s1: "?good s1" using memory_environment.call_keeps [of P s s1] s by (simp add: progress_def)
  obtain t where t: "t \<in> set (records mr_tasks s1)" "recorded (ra_reminder_trigger_id c) (the (val x)) t"
    using wp_run [OF memory_environment.ExecuteReminderAction_logged [OF s] run] ok
    by (auto simp: memory_environment.logged_def)
  obtain t2 where "?good s2" "t2 \<in> set (records mr_tasks s2)" "recorded (ra_reminder_trigger_id c) (the (val x)) t2"
    using memory_environment.action_stays [OF s1 t(2,1) system_steps_calls [OF later]] by blast
  from memory_environment.action_replayed [OF this(1,2) _ again(1,3)] this(3) again(2)
  show ?thesis by simp
qed

definition sample_action :: "string \<Rightarrow> ReminderActionCommand" where
  "sample_action op = \<lparr>ra_operation_id = op, ra_reminder_trigger_id = the (rk_timing_task_id (hd (reminders sample_fired))),
     ra_action = kAcknowledge, ra_snooze_minutes = None\<rparr>"

lemma sample_action_result:
  "fst (run_state (ExecuteReminderAction (memory_system sample_system) (sample_action ''op-1'')) sample_fired) =
     Success (action_result (sample_action ''op-1'') 2000 None)"
  by code_simp

lemma sample_action_valid: "action_valid (sample_action ''op-2'')"
  by code_simp

theorem reminder_action_idempotent_witness:
  "let s1 = snd (run_state (ExecuteReminderAction (memory_system sample_system) (sample_action ''op-1'')) sample_fired)
   in run_state (ExecuteReminderAction (memory_system sample_system) (sample_action ''op-2'')) s1 =
        (Success ((action_result (sample_action ''op-1'') 2000 None)\<lparr>rr_replayed := True\<rparr>), s1)"
proof -
  obtain x s1 where run: "run_state (ExecuteReminderAction (memory_system sample_system) (sample_action ''op-1'')) sample_fired = (x, s1)"
    by (metis surj_pair)
  have x: "x = Success (action_result (sample_action ''op-1'') 2000 None)" using sample_action_result run by simp
  have empty: "wd_reminders sample_world = empty_reminders (\<lambda>n. 1000)" by (simp add: sample_world_def)
  show ?thesis
    using reminder_action_idempotent [OF sample_fired_reachable empty run _ rtranclp.rtrancl_refl sample_action_valid] run x
    by (simp add: action_result_def sample_action_def)
qed

text \<open>
  C31. Cancelling the reminders of a schedule, when it reports success, leaves none of them waiting on
  the timer, and loses no record.
\<close>

theorem cancel_leaves_none_pending:
  assumes "(system_step P)\<^sup>*\<^sup>* (r, w) s" "wd_reminders w = empty_reminders clock"
    and "run_state (CancelScheduleReminder (memory_system P) i) s = (v, s')" "status_ok v"
    and "ok (repo_FindById memory_schedules (wd_schedules (snd s)) i)"
  shows "(\<forall>t \<in> set (reminders s'). rk_schedule_id t = i \<longrightarrow> \<not> Pending t) \<and> evolves keeps (reminders s) (reminders s')"
proof -
  have s: "sound reminders_inv mr_tasks s" using system_progress [OF assms(1)] empty_reminders_inv assms(2)
    by (simp add: chain_ok_def empty_reminders_def sound_def records_def)
  have run: "run_state (CancelPendingTasks (memory_system P) i None) s = (v, s')"
    using assms(3,5)
    by (simp add: CancelScheduleReminder_def find_schedule_by_id_def from_schedules_def gets_def memory_system_def case_prod_beta)
  have "reminder_call (memory_system P) s s'" using reminder_call.cancel [of "memory_system P" s i] assms(3) by simp
  then have "evolves keeps (reminders s) (reminders s')"
    using memory_environment.call_keeps [of P s s'] s by (simp add: progress_def records_def)
  with memory_environment.CancelPendingTasks_complete [OF s run assms(4)] show ?thesis by (simp add: records_def)
qed

theorem cancel_leaves_none_pending_witness:
  "let s' = snd (run_state (CancelScheduleReminder (memory_system sample_system) 1) sample_fired)
   in (\<forall>t \<in> set (reminders s'). rk_schedule_id t = 1 \<longrightarrow> \<not> Pending t) \<and> evolves keeps (reminders sample_fired) (reminders s')"
proof -
  obtain v s' where run: "run_state (CancelScheduleReminder (memory_system sample_system) 1) sample_fired = (v, s')"
    by (metis surj_pair)
  have "status_ok (fst (run_state (CancelScheduleReminder (memory_system sample_system) 1) sample_fired))" by code_simp
  then have v: "status_ok v" by (simp add: run)
  have found: "ok (repo_FindById memory_schedules (wd_schedules (snd sample_fired)) 1)" by code_simp
  have "wd_reminders sample_world = empty_reminders (\<lambda>n. 1000)" by (simp add: sample_world_def)
  from cancel_leaves_none_pending [OF sample_fired_reachable this run v found] show ?thesis by (simp add: run)
qed

text \<open>
  A timing callback that comes too late is ignored: when the service is stopped, the record is
  gone from the timer, or the record waits for another timing task, the whole state stays as it is.
\<close>

theorem stale_callback_ignored:
  assumes "\<not> sr_running (wd_service (snd s)) \<or>
    \<not> (\<exists>t \<in> set (reminders s). rk_id t = i \<and> Pending t \<and> rk_timing_task_id t = Some fired)"
    and "reminders_inv (wd_reminders (snd s))"
  shows "run_callback (memory_system P) (Reminder_fired i) fired at s = s"
  by (rule memory_environment.stale_ignored)
    (use assms memory_reminders.find_task [OF assms(2), of i] in auto)

theorem stale_callback_ignored_witness:
  "run_callback (memory_system sample_system) (Reminder_fired 1) (the (rk_timing_task_id (hd (reminders sample_fired)))) 0 sample_fired = sample_fired"
proof (rule stale_callback_ignored)
  have "\<not> list_ex (\<lambda>t. rk_id t = 1 \<and> Pending t \<and> rk_timing_task_id t = rk_timing_task_id (hd (reminders sample_fired))) (reminders sample_fired)"
    by code_simp
  moreover have "rk_timing_task_id (hd (reminders sample_fired)) \<noteq> None" by code_simp
  ultimately show "\<not> sr_running (wd_service (snd sample_fired)) \<or> \<not> (\<exists>t \<in> set (reminders sample_fired). rk_id t = 1 \<and> Pending t \<and>
      rk_timing_task_id t = Some (the (rk_timing_task_id (hd (reminders sample_fired)))))" by (auto simp: list_ex_iff)
  have "wd_reminders sample_world = empty_reminders (\<lambda>n. 1000)" by (simp add: sample_world_def)
  then show "reminders_inv (wd_reminders (snd sample_fired))"
    using system_progress [OF sample_fired_reachable] empty_reminders_inv by (simp add: chain_ok_def empty_reminders_def)
qed

section \<open>A restart in the same process\<close>

text \<open>
  \<open>Stop\<close> keeps the pending records, \<open>Start\<close> registers them again under the same timing identifier, and
  the runner never frees an identifier: the registration is reported as a duplicate and the record is
  marked as failed, so the reminder never fires.
\<close>

definition sample_restarted :: "ReminderRunner \<times> int MemoryWorld" where
  "sample_restarted =
     (let svc = memory_system sample_system;
          s = snd (wake_up sample_system sample_started);
          s = snd (wake_up sample_system (snd (run_state (Stop svc) s)));
          s = snd (run_state (Start svc) s)
      in snd (wake_up sample_system s))"

theorem restart_loses_reminders:
  "map rk_timer_status (reminders sample_started) = [kPending] \<and> map rk_timer_status (reminders sample_restarted) = [kFailed]"
  by code_simp

end
