(* ===== verification/Voice_Interaction.thy ===== *)
theory Voice_Interaction
  imports Contracts
begin

text \<open>
  \<open>VoiceInteractionController\<close> (\<open>voice_interaction_controller.cc\<close>): the state of one spoken
  interaction as the board shows it, and the action the runtime must take after each event.
  Proved here: a rejected event changes nothing, the board never shows that it listens before a
  confirmed capture, actions agree with the state they lead to, and every state leads back to
  standby.
\<close>

section \<open>States, events and actions\<close>

datatype VoiceInteractionState =
  State_kBooting
  | State_kStandby
  | State_kAcknowledging
  | State_kOpeningCapture
  | State_kListening
  | State_kFinalizing
  | State_kThinking
  | State_kSpeaking
  | State_kInterrupting
  | State_kReconnecting
  | State_kError

datatype VoiceInteractionEvent =
  Event_kBootCompleted
  | Event_kToggleChat
  | Event_kPressDown
  | Event_kPressUp
  | Event_kWakeDetected
  | Event_kWakeDetectionAccepted
  | Event_kInterruptAcknowledged
  | Event_kCaptureStarted
  | Event_kAcknowledgementTimedOut
  | Event_kEndpointDetected
  | Event_kNoSpeechTimeout
  | Event_kFinalizationTimedOut
  | Event_kTerminalResponseCompleted
  | Event_kSystemSpeechRequested
  | Event_kShakeSpeechRequested
  | Event_kIntentReceived
  | Event_kTtsStarted
  | Event_kTtsStopped
  | Event_kInterruptAndAcknowledge
  | Event_kInterruptRequested
  | Event_kInterruptCompleted
  | Event_kStandbyReady
  | Event_kTransportDisconnected
  | Event_kTransportConnected
  | Event_kFailure

datatype VoiceInteractionAction =
  Action_kNone
  | Action_kStartCapture
  | Action_kStartVoiceTurn
  | Action_kStopVoiceTurn
  | Action_kInterruptAndStartCapture
  | Action_kInterruptAndStartVoiceTurn
  | Action_kRestoreStandby
  | Action_kInterruptSession

record VoiceInteractionTransition =
  tr_state :: VoiceInteractionState
  tr_action :: VoiceInteractionAction

text \<open>\<open>static_cast<int>\<close> of the enumerators.\<close>

fun state_number :: "VoiceInteractionState \<Rightarrow> int" where
  "state_number State_kBooting = 0"
| "state_number State_kStandby = 1"
| "state_number State_kAcknowledging = 2"
| "state_number State_kOpeningCapture = 3"
| "state_number State_kListening = 4"
| "state_number State_kFinalizing = 5"
| "state_number State_kThinking = 6"
| "state_number State_kSpeaking = 7"
| "state_number State_kInterrupting = 8"
| "state_number State_kReconnecting = 9"
| "state_number State_kError = 10"

fun event_number :: "VoiceInteractionEvent \<Rightarrow> int" where
  "event_number Event_kBootCompleted = 0"
| "event_number Event_kToggleChat = 1"
| "event_number Event_kPressDown = 2"
| "event_number Event_kPressUp = 3"
| "event_number Event_kWakeDetected = 4"
| "event_number Event_kWakeDetectionAccepted = 5"
| "event_number Event_kInterruptAcknowledged = 6"
| "event_number Event_kCaptureStarted = 7"
| "event_number Event_kAcknowledgementTimedOut = 8"
| "event_number Event_kEndpointDetected = 9"
| "event_number Event_kNoSpeechTimeout = 10"
| "event_number Event_kFinalizationTimedOut = 11"
| "event_number Event_kTerminalResponseCompleted = 12"
| "event_number Event_kSystemSpeechRequested = 13"
| "event_number Event_kShakeSpeechRequested = 14"
| "event_number Event_kIntentReceived = 15"
| "event_number Event_kTtsStarted = 16"
| "event_number Event_kTtsStopped = 17"
| "event_number Event_kInterruptAndAcknowledge = 18"
| "event_number Event_kInterruptRequested = 19"
| "event_number Event_kInterruptCompleted = 20"
| "event_number Event_kStandbyReady = 21"
| "event_number Event_kTransportDisconnected = 22"
| "event_number Event_kTransportConnected = 23"
| "event_number Event_kFailure = 24"

definition InvalidTransition :: "VoiceInteractionState \<Rightarrow> VoiceInteractionEvent \<Rightarrow> VoiceInteractionTransition Result" where
  "InvalidTransition state event = Failure kConflict
     (utf8 [26495, 31471, 20132, 20114, 29366, 24577, 19981, 25509, 21463, 20107, 20214, 32] @
      to_string (event_number event) @ utf8 [65292, 24403, 21069, 29366, 24577, 32] @ to_string (state_number state))"

section \<open>The controller\<close>

text \<open>
  One event: the new state and the action, or the rejection. \<open>go s a\<close> is \<open>state_ = s\<close> with action \<open>a\<close>,
  \<open>stay\<close> leaves the state and asks for no action, \<open>reject\<close> is \<open>return InvalidTransition(state_, event)\<close>.
\<close>

definition go :: "VoiceInteractionState \<Rightarrow> VoiceInteractionAction \<Rightarrow> VoiceInteractionTransition Result \<times> VoiceInteractionState" where
  "go state action = (Success \<lparr>tr_state = state, tr_action = action\<rparr>, state)"

definition Handle :: "VoiceInteractionState \<Rightarrow> VoiceInteractionEvent \<Rightarrow> VoiceInteractionTransition Result \<times> VoiceInteractionState" where
  "Handle state event =
     (let reject = (InvalidTransition state event, state);
          stay = go state Action_kNone
      in case event of
        Event_kBootCompleted \<Rightarrow>
          if state \<noteq> State_kBooting then reject else go State_kStandby Action_kRestoreStandby
      | Event_kToggleChat \<Rightarrow>
          if state = State_kStandby then go State_kOpeningCapture Action_kStartCapture
          else if state = State_kListening then go State_kFinalizing Action_kStopVoiceTurn
          else if state = State_kSpeaking \<or> state = State_kThinking \<or> state = State_kFinalizing
            then go State_kInterrupting Action_kInterruptSession
          else reject
      | Event_kPressDown \<Rightarrow>
          if state = State_kStandby then go State_kOpeningCapture Action_kStartCapture
          else if state = State_kSpeaking \<or> state = State_kThinking \<or> state = State_kFinalizing
            then go State_kInterrupting Action_kInterruptAndStartCapture
          else reject
      | Event_kPressUp \<Rightarrow>
          if state \<noteq> State_kListening then reject else go State_kFinalizing Action_kStopVoiceTurn
      | Event_kWakeDetected \<Rightarrow>
          if state = State_kStandby then go State_kAcknowledging Action_kStartVoiceTurn
          else if state = State_kListening then go State_kStandby Action_kStopVoiceTurn
          else if state = State_kSpeaking \<or> state = State_kThinking then go State_kInterrupting Action_kInterruptSession
          else reject
      | Event_kWakeDetectionAccepted \<Rightarrow>
          if state \<noteq> State_kAcknowledging \<and> state \<noteq> State_kSpeaking \<and> state \<noteq> State_kOpeningCapture \<and>
             state \<noteq> State_kListening then reject
          else stay
      | Event_kCaptureStarted \<Rightarrow>
          if state = State_kOpeningCapture \<or> state = State_kInterrupting then go State_kListening Action_kNone
          else if state \<noteq> State_kListening then reject
          else stay
      | Event_kAcknowledgementTimedOut \<Rightarrow>
          if state \<noteq> State_kAcknowledging \<and> state \<noteq> State_kSpeaking \<and> state \<noteq> State_kOpeningCapture then reject
          else go State_kOpeningCapture Action_kStartCapture
      | Event_kInterruptAcknowledged \<Rightarrow>
          if state \<noteq> State_kInterrupting then reject else go State_kListening Action_kNone
      | Event_kEndpointDetected \<Rightarrow>
          if state \<noteq> State_kListening then reject else go State_kFinalizing Action_kStopVoiceTurn
      | Event_kNoSpeechTimeout \<Rightarrow>
          if state \<noteq> State_kListening then reject else go State_kStandby Action_kRestoreStandby
      | Event_kFinalizationTimedOut \<Rightarrow>
          if state \<noteq> State_kFinalizing then reject else go State_kStandby Action_kRestoreStandby
      | Event_kTerminalResponseCompleted \<Rightarrow>
          if state \<noteq> State_kSpeaking then reject else go State_kStandby Action_kRestoreStandby
      | Event_kSystemSpeechRequested \<Rightarrow>
          if state \<noteq> State_kStandby \<and> state \<noteq> State_kListening \<and> state \<noteq> State_kFinalizing \<and>
             state \<noteq> State_kThinking \<and> state \<noteq> State_kSpeaking then reject
          else go State_kThinking Action_kNone
      | Event_kShakeSpeechRequested \<Rightarrow>
          if state \<noteq> State_kStandby \<and> state \<noteq> State_kListening \<and> state \<noteq> State_kFinalizing \<and>
             state \<noteq> State_kThinking \<and> state \<noteq> State_kSpeaking \<and> state \<noteq> State_kOpeningCapture then reject
          else go State_kOpeningCapture Action_kNone
      | Event_kIntentReceived \<Rightarrow>
          if state \<noteq> State_kListening \<and> state \<noteq> State_kThinking \<and> state \<noteq> State_kFinalizing then reject
          else go State_kThinking Action_kNone
      | Event_kTtsStarted \<Rightarrow>
          if state \<noteq> State_kAcknowledging \<and> state \<noteq> State_kListening \<and> state \<noteq> State_kThinking \<and>
             state \<noteq> State_kFinalizing \<and> state \<noteq> State_kOpeningCapture then reject
          else go State_kSpeaking Action_kNone
      | Event_kTtsStopped \<Rightarrow>
          if state \<noteq> State_kSpeaking then reject else go State_kOpeningCapture Action_kStartCapture
      | Event_kInterruptAndAcknowledge \<Rightarrow>
          if state \<noteq> State_kListening \<and> state \<noteq> State_kThinking \<and> state \<noteq> State_kSpeaking \<and>
             state \<noteq> State_kFinalizing then reject
          else go State_kInterrupting Action_kInterruptAndStartVoiceTurn
      | Event_kInterruptRequested \<Rightarrow>
          if state \<noteq> State_kListening \<and> state \<noteq> State_kThinking \<and> state \<noteq> State_kSpeaking \<and>
             state \<noteq> State_kFinalizing then reject
          else go State_kInterrupting Action_kInterruptSession
      | Event_kInterruptCompleted \<Rightarrow>
          if state \<noteq> State_kInterrupting then reject else go State_kStandby Action_kRestoreStandby
      | Event_kStandbyReady \<Rightarrow>
          if state \<noteq> State_kStandby \<and> state \<noteq> State_kError \<and> state \<noteq> State_kInterrupting \<and>
             state \<noteq> State_kAcknowledging \<and> state \<noteq> State_kOpeningCapture then reject
          else go State_kStandby Action_kNone
      | Event_kTransportDisconnected \<Rightarrow>
          if state = State_kBooting \<or> state = State_kError then reject
          else if state = State_kStandby then go State_kStandby Action_kRestoreStandby
          else go State_kReconnecting Action_kRestoreStandby
      | Event_kTransportConnected \<Rightarrow>
          if state = State_kBooting then stay
          else if state = State_kStandby then stay
          else if state \<noteq> State_kReconnecting then reject
          else go State_kStandby Action_kRestoreStandby
      | Event_kFailure \<Rightarrow>
          if state = State_kBooting then reject
          else if state = State_kError then stay
          else go State_kError Action_kInterruptSession)"

text \<open>A sequence of events, from power-on.\<close>

fun run_events :: "VoiceInteractionState \<Rightarrow> VoiceInteractionEvent list \<Rightarrow> VoiceInteractionState" where
  "run_events state [] = state"
| "run_events state (event # events) = run_events (snd (Handle state event)) events"

section \<open>Properties\<close>

lemma go_simps [simp]: "fst (go s a) = Success \<lparr>tr_state = s, tr_action = a\<rparr>" "snd (go s a) = s"
  by (simp_all add: go_def)

lemma InvalidTransition_simps [simp]:
  "\<not> ok (InvalidTransition s e)" "code (status (InvalidTransition s e)) = kConflict" "InvalidTransition s e \<noteq> Success t"
  by (simp_all add: InvalidTransition_def)

lemmas handle_cases = Handle_def Let_def

text \<open>The states a given action may leave the board in.\<close>

fun action_states :: "VoiceInteractionAction \<Rightarrow> VoiceInteractionState set" where
  "action_states Action_kNone = UNIV"
| "action_states Action_kStartCapture = {State_kOpeningCapture}"
| "action_states Action_kStartVoiceTurn = {State_kAcknowledging}"
| "action_states Action_kStopVoiceTurn = {State_kFinalizing, State_kStandby}"
| "action_states Action_kInterruptAndStartCapture = {State_kInterrupting}"
| "action_states Action_kInterruptAndStartVoiceTurn = {State_kInterrupting}"
| "action_states Action_kRestoreStandby = {State_kStandby, State_kReconnecting}"
| "action_states Action_kInterruptSession = {State_kInterrupting, State_kError}"

text \<open>
  An event is either rejected with a conflict, and the state stays, or accepted, and the reported
  state is the new one and fits the action; listening begins only from an opened or interrupted
  capture, by the confirmation of the capture or of the interruption.
\<close>

theorem interaction_step:
  "(case Handle s e of (r, s') \<Rightarrow>
     (\<not> ok r \<and> code (status r) = kConflict \<and> s' = s \<or>
      (\<exists>a. r = Success \<lparr>tr_state = s', tr_action = a\<rparr> \<and> s' \<in> action_states a)) \<and>
     (s' = State_kListening \<longrightarrow> s = State_kListening \<or>
        s \<in> {State_kOpeningCapture, State_kInterrupting} \<and> e \<in> {Event_kCaptureStarted, Event_kInterruptAcknowledged}))"
  by (cases e; cases s) (simp_all add: handle_cases go_def)

theorem interaction_step_witness:
  "snd (Handle State_kOpeningCapture Event_kCaptureStarted) = State_kListening \<and>
   (State_kOpeningCapture = State_kListening \<or>
    State_kOpeningCapture \<in> {State_kOpeningCapture, State_kInterrupting} \<and>
    Event_kCaptureStarted \<in> {Event_kCaptureStarted, Event_kInterruptAcknowledged})"
proof -
  have "snd (Handle State_kOpeningCapture Event_kCaptureStarted) = State_kListening" by (simp add: handle_cases)
  then show ?thesis using interaction_step [of State_kOpeningCapture Event_kCaptureStarted] by (simp add: case_prod_beta)
qed

text \<open>How each state is left without the user: the events that bring the board back to standby.\<close>

fun way_home :: "VoiceInteractionState \<Rightarrow> VoiceInteractionEvent list" where
  "way_home State_kBooting = [Event_kBootCompleted]"
| "way_home State_kStandby = []"
| "way_home State_kAcknowledging = [Event_kStandbyReady]"
| "way_home State_kOpeningCapture = [Event_kStandbyReady]"
| "way_home State_kListening = [Event_kNoSpeechTimeout]"
| "way_home State_kFinalizing = [Event_kFinalizationTimedOut]"
| "way_home State_kThinking = [Event_kInterruptRequested, Event_kInterruptCompleted]"
| "way_home State_kSpeaking = [Event_kTerminalResponseCompleted]"
| "way_home State_kInterrupting = [Event_kInterruptCompleted]"
| "way_home State_kReconnecting = [Event_kTransportConnected]"
| "way_home State_kError = [Event_kStandbyReady]"

lemma way_home_works: "run_events s (way_home s) = State_kStandby \<and> length (way_home s) \<le> 2"
  by (cases s) (simp_all add: handle_cases)

lemma run_events_append: "run_events s (xs @ ys) = run_events (run_events s xs) ys"
  by (induction xs arbitrary: s) simp_all

text \<open>
  The interaction is never stuck: after any sequence of events whatever, at most two further
  events bring the board back to standby, and once booted it never falls back to booting.
\<close>

theorem interaction_not_stuck:
  "(\<exists>es. length es \<le> 2 \<and> run_events State_kBooting (events @ es) = State_kStandby) \<and>
   (s \<noteq> State_kBooting \<longrightarrow> run_events s events \<noteq> State_kBooting)"
proof
  show "\<exists>es. length es \<le> 2 \<and> run_events State_kBooting (events @ es) = State_kStandby"
    using way_home_works by (intro exI [of _ "way_home (run_events State_kBooting events)"]) (simp add: run_events_append)
  have step: "s \<noteq> State_kBooting \<Longrightarrow> snd (Handle s e) \<noteq> State_kBooting" for s e
    by (cases e; cases s) (simp_all add: handle_cases)
  show "s \<noteq> State_kBooting \<longrightarrow> run_events s events \<noteq> State_kBooting"
    by (induction events arbitrary: s) (simp_all add: step)
qed

theorem interaction_not_stuck_witness:
  "run_events State_kStandby [Event_kWakeDetected, Event_kTtsStarted] \<noteq> State_kBooting"
  using interaction_not_stuck [of "[Event_kWakeDetected, Event_kTtsStarted]" State_kStandby] by simp

end
