(* ===== verification/Audio_Queue.thy ===== *)
theory Audio_Queue
  imports Contracts
begin

text \<open>
  The audio data of \<open>voice_types.h\<close> and \<open>BoundedAudioFrameQueue\<close> (\<open>audio_frame_queue.cc\<close>): a bounded
  queue of frames of one session generation. The 64-bit counters are natural numbers.

  The contract \<open>frame_queue\<close> says what a user of such a queue relies on; what a sequence of calls
  does is proved once from it, and the queue of the code is shown to meet it.
\<close>

section \<open>Audio frames\<close>

datatype AudioCodec = kPcmS16Le | kOpus

record AudioFormat =
  af_codec :: AudioCodec
  af_sample_rate_hz :: nat
  af_channels :: nat
  af_bits_per_sample :: nat
  af_frame_duration_ms :: nat

definition format_valid :: "AudioFormat \<Rightarrow> bool" where
  "format_valid f \<longleftrightarrow> af_sample_rate_hz f > 0 \<and> af_channels f > 0 \<and> af_bits_per_sample f > 0 \<and> af_frame_duration_ms f > 0"

record AudioFrame =
  fr_generation :: nat
  fr_sequence :: nat
  fr_format :: AudioFormat
  fr_payload :: "8 word list"

definition kMaxPayloadBytes :: nat where
  "kMaxPayloadBytes = 16384"

section \<open>The queue\<close>

datatype AudioQueueFullPolicy = kDropOldest | kRejectNewest

record AudioQueuePolicy =
  capacity_frames :: nat
  full_policy :: AudioQueueFullPolicy

definition policy_valid :: "AudioQueuePolicy \<Rightarrow> bool" where
  "policy_valid p \<longleftrightarrow> capacity_frames p > 0"

record AudioQueueStats =
  high_watermark :: nat
  dropped_oldest :: nat
  rejected_newest :: nat
  rejected_stale_generation :: nat

record BoundedAudioFrameQueue =
  q_policy :: AudioQueuePolicy
  q_frames :: "AudioFrame list"
  q_generation :: nat
  q_stats :: AudioQueueStats

definition new_queue :: "AudioQueuePolicy \<Rightarrow> BoundedAudioFrameQueue" where
  "new_queue p = \<lparr>q_policy = p, q_frames = [], q_generation = 0,
     q_stats = \<lparr>high_watermark = 0, dropped_oldest = 0, rejected_newest = 0, rejected_stale_generation = 0\<rparr>\<rparr>"

definition msg_queue_capacity :: string where
  "msg_queue_capacity = utf8 [38899, 39057, 38431, 21015, 23481, 37327, 24517, 39035, 22823, 20110, 38646]"

definition msg_frame_invalid :: string where
  "msg_frame_invalid = utf8 [38899, 39057, 24103, 26684, 24335, 25110, 36127, 36733, 26080, 25928]"

definition msg_frame_stale :: string where
  "msg_frame_stale = utf8 [38899, 39057, 24103, 32, 103, 101, 110, 101, 114, 97, 116, 105, 111, 110, 32, 24050, 36807, 26399]"

definition msg_queue_full :: string where
  "msg_queue_full = utf8 [38899, 39057, 38431, 21015, 24050, 28385]"

definition msg_queue_empty :: string where
  "msg_queue_empty = utf8 [38899, 39057, 38431, 21015, 20026, 31354]"

definition Queue_Push :: "BoundedAudioFrameQueue \<Rightarrow> AudioFrame \<Rightarrow> Status \<times> BoundedAudioFrameQueue" where
  "Queue_Push q frame =
     (if \<not> policy_valid (q_policy q) then (Status_Error kInvalidArgument msg_queue_capacity, q)
      else if \<not> format_valid (fr_format frame) \<or> fr_payload frame = [] then (Status_Error kInvalidArgument msg_frame_invalid, q)
      else if fr_generation frame \<noteq> q_generation q
        then (Status_Error kConflict msg_frame_stale,
              q\<lparr>q_stats := (q_stats q)\<lparr>rejected_stale_generation := rejected_stale_generation (q_stats q) + 1\<rparr>\<rparr>)
      else if length (q_frames q) \<ge> capacity_frames (q_policy q) \<and> full_policy (q_policy q) = kRejectNewest
        then (Status_Error kUnavailable msg_queue_full,
              q\<lparr>q_stats := (q_stats q)\<lparr>rejected_newest := rejected_newest (q_stats q) + 1\<rparr>\<rparr>)
      else
        (let q = (if length (q_frames q) \<ge> capacity_frames (q_policy q)
                  then q\<lparr>q_frames := tl (q_frames q), q_stats := (q_stats q)\<lparr>dropped_oldest := dropped_oldest (q_stats q) + 1\<rparr>\<rparr>
                  else q);
             q = q\<lparr>q_frames := q_frames q @ [frame]\<rparr>;
             q = (if length (q_frames q) > high_watermark (q_stats q)
                  then q\<lparr>q_stats := (q_stats q)\<lparr>high_watermark := length (q_frames q)\<rparr>\<rparr> else q)
         in (Status_Ok, q)))"

definition Queue_Pop :: "BoundedAudioFrameQueue \<Rightarrow> AudioFrame Result \<times> BoundedAudioFrameQueue" where
  "Queue_Pop q =
     (case q_frames q of
        [] \<Rightarrow> (Failure kNotFound msg_queue_empty, q)
      | frame # rest \<Rightarrow> (Success frame, q\<lparr>q_frames := rest\<rparr>))"

definition Queue_SetGeneration :: "BoundedAudioFrameQueue \<Rightarrow> nat \<Rightarrow> Status \<times> BoundedAudioFrameQueue" where
  "Queue_SetGeneration q generation =
     (if \<not> policy_valid (q_policy q) then (Status_Error kInvalidArgument msg_queue_capacity, q)
      else if q_generation q \<noteq> generation then (Status_Ok, q\<lparr>q_frames := [], q_generation := generation\<rparr>)
      else (Status_Ok, q))"

definition Queue_Clear :: "BoundedAudioFrameQueue \<Rightarrow> BoundedAudioFrameQueue" where
  "Queue_Clear q = q\<lparr>q_frames := []\<rparr>"

section \<open>The contract\<close>

text \<open>Acceptable frames: a valid format, a payload, and the generation of the queue.\<close>

definition playable :: "nat \<Rightarrow> AudioFrame \<Rightarrow> bool" where
  "playable g f \<longleftrightarrow> fr_generation f = g \<and> format_valid (fr_format f) \<and> fr_payload f \<noteq> []"

locale frame_queue =
  fixes push :: "'q \<Rightarrow> AudioFrame \<Rightarrow> Status \<times> 'q"
    and pop :: "'q \<Rightarrow> AudioFrame Result \<times> 'q"
    and set_generation :: "'q \<Rightarrow> nat \<Rightarrow> Status \<times> 'q"
    and clear :: "'q \<Rightarrow> 'q"
    and qinv :: "'q \<Rightarrow> bool"
    and content :: "'q \<Rightarrow> AudioFrame list"
    and gen :: "'q \<Rightarrow> nat"
    and capacity :: "'q \<Rightarrow> nat"
  assumes bounded: "qinv q \<Longrightarrow> length (content q) \<le> capacity q \<and> (\<forall>f \<in> set (content q). playable (gen q) f)"
    and push_law: "qinv q \<Longrightarrow> push q f = (v, q') \<Longrightarrow> qinv q' \<and> gen q' = gen q \<and> capacity q' = capacity q \<and>
      (\<not> status_ok v \<and> content q' = content q \<or>
       status_ok v \<and> playable (gen q) f \<and> (\<exists>d. d @ content q' = content q @ [f] \<and> length d \<le> 1))"
    and pop_law: "qinv q \<Longrightarrow> pop q = (r, q') \<Longrightarrow> qinv q' \<and> gen q' = gen q \<and> capacity q' = capacity q \<and>
      (case content q of [] \<Rightarrow> \<not> ok r \<and> q' = q | f # fs \<Rightarrow> r = Success f \<and> content q' = fs)"
    and generation_law: "qinv q \<Longrightarrow> set_generation q g = (v, q') \<Longrightarrow>
      qinv q' \<and> capacity q' = capacity q \<and> status_ok v \<and> gen q' = g \<and> content q' = (if gen q = g then content q else [])"
    and clear_law: "qinv q \<Longrightarrow> qinv (clear q) \<and> gen (clear q) = gen q \<and> capacity (clear q) = capacity q \<and> content (clear q) = []"

text \<open>Calls, with the frames a run accepted and those it took out, by \<open>Pop\<close>, by dropping or by clearing.\<close>

datatype QueueCall = Do_Push AudioFrame | Do_Pop | Do_SetGeneration nat | Do_Clear

context frame_queue
begin

fun call :: "'q \<Rightarrow> QueueCall \<Rightarrow> 'q" where
  "call q (Do_Push f) = snd (push q f)"
| "call q Do_Pop = snd (pop q)"
| "call q (Do_SetGeneration g) = snd (set_generation q g)"
| "call q Do_Clear = clear q"

fun accepted :: "'q \<Rightarrow> QueueCall \<Rightarrow> AudioFrame list" where
  "accepted q (Do_Push f) = (if status_ok (fst (push q f)) then [f] else [])"
| "accepted q _ = []"

fun delivered :: "'q \<Rightarrow> QueueCall \<Rightarrow> AudioFrame list" where
  "delivered q Do_Pop = (if ok (fst (pop q)) then [the (val (fst (pop q)))] else [])"
| "delivered q _ = []"

lemma call_keeps:
  assumes "qinv q"
  shows "qinv (call q c) \<and> capacity (call q c) = capacity q"
proof (cases c)
  case (Do_Push f)
  then show ?thesis using push_law [OF assms, of f "fst (push q f)" "snd (push q f)"] by simp
next
  case Do_Pop
  then show ?thesis using pop_law [OF assms, of "fst (pop q)" "snd (pop q)"] by simp
next
  case (Do_SetGeneration g)
  then show ?thesis using generation_law [OF assms, of g "fst (set_generation q g)" "snd (set_generation q g)"] by simp
next
  case Do_Clear
  then show ?thesis using clear_law [OF assms] by simp
qed

text \<open>One call keeps the order: what leaves, followed by what stays, is what was there followed by what came.\<close>

lemma call_order:
  assumes "qinv q"
  shows "\<exists>gone. gone @ content (call q c) = content q @ accepted q c \<and> subseq (delivered q c) gone"
proof (cases c)
  case (Do_Push f)
  then show ?thesis using push_law [OF assms, of f "fst (push q f)" "snd (push q f)"] by auto
next
  case Do_Pop
  then show ?thesis using pop_law [OF assms, of "fst (pop q)" "snd (pop q)"]
    by (auto split: list.splits)
next
  case (Do_SetGeneration g)
  then show ?thesis using generation_law [OF assms, of g "fst (set_generation q g)" "snd (set_generation q g)"] by auto
next
  case Do_Clear
  then show ?thesis using clear_law [OF assms] by auto
qed

fun run :: "'q \<Rightarrow> QueueCall list \<Rightarrow> 'q \<times> AudioFrame list \<times> AudioFrame list" where
  "run q [] = (q, [], [])"
| "run q (c # cs) = (case run (call q c) cs of (q', ins, outs) \<Rightarrow> (q', accepted q c @ ins, delivered q c @ outs))"

lemma run_order:
  assumes "qinv q" "run q cs = (q', ins, outs)"
  shows "qinv q' \<and> capacity q' = capacity q \<and> (\<exists>gone. gone @ content q' = content q @ ins \<and> subseq outs gone)"
  using assms
proof (induction cs arbitrary: q q' ins outs)
  case (Cons c cs)
  obtain ins1 outs1 where r: "run (call q c) cs = (q', ins1, outs1)" "ins = accepted q c @ ins1" "outs = delivered q c @ outs1"
    using Cons.prems(2) by (auto split: prod.splits)
  have q: "qinv (call q c)" "capacity (call q c) = capacity q" using call_keeps [OF Cons.prems(1)] by simp_all
  obtain gone1 where g1: "gone1 @ content (call q c) = content q @ accepted q c" "subseq (delivered q c) gone1"
    using call_order [OF Cons.prems(1)] by blast
  obtain gone2 where g2: "gone2 @ content q' = content (call q c) @ ins1" "subseq outs1 gone2" and q': "qinv q'" "capacity q' = capacity q"
    using Cons.IH [OF q(1) r(1)] q(2) by auto
  have "(gone1 @ gone2) @ content q' = gone1 @ content (call q c) @ ins1" using g2(1) by simp
  also have "\<dots> = content q @ ins" using g1(1) r(2) by (metis append.assoc)
  finally have "(gone1 @ gone2) @ content q' = content q @ ins" .
  moreover have "subseq outs (gone1 @ gone2)" using g1(2) g2(2) r(3) by (simp add: list_emb_append_mono)
  ultimately show ?case using q' by blast
qed auto

end

section \<open>The queue meets the contract\<close>

definition queue_inv :: "BoundedAudioFrameQueue \<Rightarrow> bool" where
  "queue_inv q \<longleftrightarrow> policy_valid (q_policy q) \<and> length (q_frames q) \<le> capacity_frames (q_policy q) \<and>
     (\<forall>f \<in> set (q_frames q). playable (q_generation q) f) \<and>
     length (q_frames q) \<le> high_watermark (q_stats q) \<and> high_watermark (q_stats q) \<le> capacity_frames (q_policy q)"

lemma new_queue_inv: "policy_valid p \<Longrightarrow> queue_inv (new_queue p)"
  by (simp add: queue_inv_def new_queue_def)

lemma Queue_Push_cases:
  assumes inv: "queue_inv q" and run: "Queue_Push q f = (v, q')"
  shows "queue_inv q' \<and> q_generation q' = q_generation q \<and> q_policy q' = q_policy q \<and>
    (\<not> status_ok v \<and> q_frames q' = q_frames q \<or>
     status_ok v \<and> playable (q_generation q) f \<and> (\<exists>d. d @ q_frames q' = q_frames q @ [f] \<and> length d \<le> 1))"
proof (cases "status_ok v")
  case True
  then have p: "playable (q_generation q) f" using run by (auto simp: Queue_Push_def playable_def split: if_splits)
  let ?full = "length (q_frames q) \<ge> capacity_frames (q_policy q)"
  let ?rest = "if ?full then tl (q_frames q) else q_frames q"
  have q': "q_frames q' = ?rest @ [f]" "q_generation q' = q_generation q" "q_policy q' = q_policy q"
    "high_watermark (q_stats q') = max (high_watermark (q_stats q)) (length (?rest @ [f]))"
    using run True by (auto simp: Queue_Push_def Let_def split: if_splits)
  have pos: "0 < capacity_frames (q_policy q)" using inv by (simp add: queue_inv_def policy_valid_def)
  have "length ?rest < capacity_frames (q_policy q)" using inv pos by (auto simp: queue_inv_def)
  moreover have "set ?rest \<subseteq> set (q_frames q)" by (cases "q_frames q") auto
  ultimately have "queue_inv q'" using inv p q' by (auto simp: queue_inv_def)
  moreover have "\<exists>d. d @ q_frames q' = q_frames q @ [f] \<and> length d \<le> 1"
  proof (cases ?full)
    case full: True
    then obtain x xs where x: "q_frames q = x # xs" using pos by (cases "q_frames q") auto
    then have "[x] @ q_frames q' = q_frames q @ [f]" using q'(1) full by simp
    then show ?thesis by (metis length_Cons list.size(3) One_nat_def order_refl)
  qed (simp add: q'(1))
  ultimately show ?thesis using True p q' by blast
next
  case False
  then have "q_frames q' = q_frames q \<and> q_generation q' = q_generation q \<and> q_policy q' = q_policy q \<and>
      high_watermark (q_stats q') = high_watermark (q_stats q)"
    using run by (auto simp: Queue_Push_def Let_def split: if_splits)
  with False inv show ?thesis by (simp add: queue_inv_def)
qed

interpretation audio_queue: frame_queue Queue_Push Queue_Pop Queue_SetGeneration Queue_Clear queue_inv q_frames q_generation
  "\<lambda>q. capacity_frames (q_policy q)"
proof
  fix q f v q'
  assume "queue_inv q" "Queue_Push q f = (v, q')"
  with Queue_Push_cases show "queue_inv q' \<and> q_generation q' = q_generation q \<and>
      capacity_frames (q_policy q') = capacity_frames (q_policy q) \<and>
      (\<not> status_ok v \<and> q_frames q' = q_frames q \<or>
       status_ok v \<and> playable (q_generation q) f \<and> (\<exists>d. d @ q_frames q' = q_frames q @ [f] \<and> length d \<le> 1))"
    by (metis (no_types))
qed (auto simp: queue_inv_def Queue_Pop_def Queue_SetGeneration_def Queue_Clear_def split: list.splits if_splits)

section \<open>Property\<close>

abbreviation queue_run :: "BoundedAudioFrameQueue \<Rightarrow> QueueCall list \<Rightarrow> BoundedAudioFrameQueue \<times> AudioFrame list \<times> AudioFrame list" where
  "queue_run \<equiv> audio_queue.run"

text \<open>
  C39. Over any sequence of calls the queue holds at most its capacity, only frames of its current
  generation, and its high-water mark stays between the two; the frames it accepted leave it in the
  order they came, so what was delivered is a subsequence of what was accepted and the frames still
  held are its latest part.
\<close>

theorem audio_queue_fifo:
  assumes "policy_valid p" "queue_run (new_queue p) calls = (q, ins, outs)"
  shows "length (q_frames q) \<le> high_watermark (q_stats q) \<and> high_watermark (q_stats q) \<le> capacity_frames p \<and>
    (\<forall>f \<in> set (q_frames q). playable (q_generation q) f) \<and>
    (\<exists>gone. ins = gone @ q_frames q \<and> subseq outs gone)"
proof -
  note r = audio_queue.run_order [OF new_queue_inv [OF assms(1)] assms(2)]
  have "q_frames (new_queue p) = []" "q_policy (new_queue p) = p" by (simp_all add: new_queue_def)
  with r show ?thesis by (auto simp: queue_inv_def)
qed

definition sample_frame :: "nat \<Rightarrow> AudioFrame" where
  "sample_frame n = \<lparr>fr_generation = 0, fr_sequence = n, fr_format = \<lparr>af_codec = kPcmS16Le, af_sample_rate_hz = 16000,
     af_channels = 1, af_bits_per_sample = 16, af_frame_duration_ms = 20\<rparr>, fr_payload = [1, 2]\<rparr>"

theorem audio_queue_fifo_witness:
  "case queue_run (new_queue \<lparr>capacity_frames = 2, full_policy = kDropOldest\<rparr>)
       [Do_Push (sample_frame 0), Do_Push (sample_frame 1), Do_Push (sample_frame 2), Do_Pop] of
     (q, ins, outs) \<Rightarrow> map fr_sequence ins = [0, 1, 2] \<and> map fr_sequence outs = [1] \<and> map fr_sequence (q_frames q) = [2] \<and>
       (\<exists>gone. ins = gone @ q_frames q \<and> subseq outs gone)"
proof -
  let ?calls = "[Do_Push (sample_frame 0), Do_Push (sample_frame 1), Do_Push (sample_frame 2), Do_Pop]"
  let ?p = "\<lparr>capacity_frames = 2, full_policy = kDropOldest\<rparr>"
  obtain q ins outs where run: "queue_run (new_queue ?p) ?calls = (q, ins, outs)" by (metis prod_cases3)
  have "map fr_sequence ins = [0, 1, 2] \<and> map fr_sequence outs = [1] \<and> map fr_sequence (q_frames q) = [2]"
    using run by (auto simp: new_queue_def Queue_Push_def Queue_Pop_def policy_valid_def format_valid_def sample_frame_def Let_def)
  moreover have "\<exists>gone. ins = gone @ q_frames q \<and> subseq outs gone"
    using audio_queue_fifo [OF _ run] by (auto simp: policy_valid_def)
  ultimately show ?thesis unfolding run by simp
qed

end
