(* ===== verification/Interleaving.thy ===== *)
theory Interleaving
  imports Contracts
begin

text \<open>
  Methods of an object that several threads call. A method is a program: it enters critical
  sections, in which it holds the object's mutex, and between them it calls other objects through
  their ports, which may answer anything. The object has one further lock, held by its life-cycle
  operations from beginning to end, so that at most one of them runs at a time; callbacks take only
  the mutex and run beside it in any number. The steps of the system are every interleaving of the
  programs' sections and calls.

  A rely-guarantee contract (\<open>concurrent_object\<close>) is checked section by section and gives the
  invariant of the object in every interleaving; the bound on the steps of the programs gives that
  every call that was begun can finish.
\<close>

section \<open>Programs\<close>

text \<open>
  \<open>Section f\<close> runs \<open>f\<close> with the mutex held, \<open>Leave\<close> releases it and \<open>Ask\<close> is a call made while it is
  held; \<open>Call\<close> waits for the status that the callee returns, \<open>Query\<close> for another result, and \<open>Tell\<close>
  is a call of a \<open>void\<close> function.
\<close>

datatype ('s, 'q, 'v, 'r) program =
    Return 'r
  | Section "'s \<Rightarrow> ('s, 'q, 'v, 'r) critical"
  | Call 'q "Status \<Rightarrow> ('s, 'q, 'v, 'r) program"
  | Tell 'q "('s, 'q, 'v, 'r) program"
  | Query 'q "'v \<Rightarrow> ('s, 'q, 'v, 'r) program"
and ('s, 'q, 'v, 'r) critical =
    Leave 's "('s, 'q, 'v, 'r) program"
  | Ask 'q "Status \<Rightarrow> ('s, 'q, 'v, 'r) critical"

text \<open>A section that only changes the state.\<close>

definition Update :: "('s \<Rightarrow> 's) \<Rightarrow> ('s, 'q, 'v, 'r) program \<Rightarrow> ('s, 'q, 'v, 'r) program" where
  "Update f p = Section (\<lambda>s. Leave (f s) p)"

text \<open>Execution without interference, with the answers given by functions of the call.\<close>

primrec run_program :: "('q \<Rightarrow> Status) \<Rightarrow> ('q \<Rightarrow> 'v) \<Rightarrow> ('s, 'q, 'v, 'r) program \<Rightarrow> 's \<Rightarrow> 'q list \<times> 's \<times> 'r"
  and run_critical :: "('q \<Rightarrow> Status) \<Rightarrow> ('q \<Rightarrow> 'v) \<Rightarrow> ('s, 'q, 'v, 'r) critical \<Rightarrow> 'q list \<times> 's \<times> 'r" where
  "run_program a b (Return r) s = ([], s, r)"
| "run_program a b (Section f) s = run_critical a b (f s)"
| "run_program a b (Call q k) s = (case run_program a b (k (a q)) s of (qs, z) \<Rightarrow> (q # qs, z))"
| "run_program a b (Tell q p) s = (case run_program a b p s of (qs, z) \<Rightarrow> (q # qs, z))"
| "run_program a b (Query q k) s = (case run_program a b (k (b q)) s of (qs, z) \<Rightarrow> (q # qs, z))"
| "run_critical a b (Leave s p) = run_program a b p s"
| "run_critical a b (Ask q k) = (case run_critical a b (k (a q)) of (qs, z) \<Rightarrow> (q # qs, z))"

section \<open>Steps\<close>

inductive critical_run :: "('s, 'q, 'v, 'r) critical \<Rightarrow> 'q list \<Rightarrow> 's \<Rightarrow> ('s, 'q, 'v, 'r) program \<Rightarrow> bool" where
  critical_leave: "critical_run (Leave s p) [] s p"
| critical_ask: "critical_run (k v) qs s p \<Longrightarrow> critical_run (Ask q k) (q # qs) s p"

inductive thread_step :: "'s \<Rightarrow> ('s, 'q, 'v, 'r) program \<Rightarrow> 'q list \<Rightarrow> 's \<Rightarrow> ('s, 'q, 'v, 'r) program \<Rightarrow> bool" where
  step_section: "critical_run (f s) qs s' p \<Longrightarrow> thread_step s (Section f) qs s' p"
| step_call: "thread_step s (Call q k) [q] s (k v)"
| step_tell: "thread_step s (Tell q p) [q] s p"
| step_query: "thread_step s (Query q k) [q] s (k v)"

inductive_simps critical_run_simps [simp]: "critical_run (Leave s p) qs s' p'" "critical_run (Ask q k) qs s' p'"

inductive_simps thread_step_simps [simp]:
  "thread_step s (Return r) qs s' p'" "thread_step s (Section f) qs s' p'" "thread_step s (Call q k) qs s' p'"
  "thread_step s (Tell q p) qs s' p'" "thread_step s (Query q k) qs s' p'"

text \<open>A whole run of one program that nothing interferes with, whatever the ports answer.\<close>

inductive completes :: "'s \<Rightarrow> ('s, 'q, 'v, 'r) program \<Rightarrow> 'q list \<Rightarrow> 's \<Rightarrow> 'r \<Rightarrow> bool" where
  completes_return: "completes s (Return r) [] s r"
| completes_step: "thread_step s p qs s1 p1 \<Longrightarrow> completes s1 p1 qs' s' r \<Longrightarrow> completes s p (qs @ qs') s' r"

inductive_simps completes_Return [simp]: "completes s (Return r) qs s' r'"

inductive_simps completes_raw:
  "completes s (Section f) qs s' r" "completes s (Call q k) qs s' r" "completes s (Tell q p) qs s' r" "completes s (Query q m) qs s' r"

lemma completes_unfold:
  "completes s (Section f) qs s' r \<longleftrightarrow> (\<exists>qs1 s1 p1 qs2. critical_run (f s) qs1 s1 p1 \<and> completes s1 p1 qs2 s' r \<and> qs = qs1 @ qs2)"
  "completes s (Call q k) qs s' r \<longleftrightarrow> (\<exists>v qs2. completes s (k v) qs2 s' r \<and> qs = q # qs2)"
  "completes s (Tell q p) qs s' r \<longleftrightarrow> (\<exists>qs2. completes s p qs2 s' r \<and> qs = q # qs2)"
  "completes s (Query q m) qs s' r \<longleftrightarrow> (\<exists>v qs2. completes s (m v) qs2 s' r \<and> qs = q # qs2)"
  unfolding completes_raw by (simp_all, blast+)

lemma completes_Update [simp]: "completes s (Update f p) qs s' r \<longleftrightarrow> completes (f s) p qs s' r"
  by (simp add: Update_def completes_unfold)

lemma run_program_completes:
  "run_program a b p s = (qs, s', r) \<Longrightarrow> completes s p qs s' r"
  "run_critical a b c = (qs, s', r) \<Longrightarrow> \<exists>qs1 s1 p1 qs2. critical_run c qs1 s1 p1 \<and> completes s1 p1 qs2 s' r \<and> qs = qs1 @ qs2"
proof (induction p and c arbitrary: s qs s' r and qs s' r)
  case (Ask q k)
  then obtain qs0 where "run_critical a b (k (a q)) = (qs0, s', r)" "qs = q # qs0" by (auto split: prod.splits)
  with Ask.IH [OF rangeI] show ?case by (metis append_Cons critical_ask)
next
  case (Call q k)
  then show ?case using Call.IH [OF rangeI] by (auto simp: completes_unfold split: prod.splits) blast
next
  case (Query q k)
  then show ?case using Query.IH [OF rangeI] by (auto simp: completes_unfold split: prod.splits) blast
next
  case (Section f)
  then show ?case by (simp add: completes_unfold)
qed (auto simp: completes_unfold split: prod.splits)

section \<open>The system\<close>

record ('s, 'q, 'v, 'r) system =
  obj :: 's
  lifecycle :: "('s, 'q, 'v, 'r) program option"
  callbacks :: "('s, 'q, 'v, 'r) program list"
  port_log :: "('s \<times> 'q) list"

datatype ('o, 'c) move = is_Begin: Begin 'o | Work | Finish | is_Arrive: Arrive 'c | React nat | Retire nat

text \<open>The log keeps each call with the state in which it was made.\<close>

inductive system_move ::
  "('o \<Rightarrow> ('s, 'q, 'v, 'r) program) \<Rightarrow> ('c \<Rightarrow> ('s, 'q, 'v, 'r) program) \<Rightarrow>
   ('s, 'q, 'v, 'r) system \<Rightarrow> ('o, 'c) move \<Rightarrow> ('s, 'q, 'v, 'r) system \<Rightarrow> bool"
  for ops cbs where
  move_begin: "lifecycle \<sigma> = None \<Longrightarrow> system_move ops cbs \<sigma> (Begin op) (\<sigma>\<lparr>lifecycle := Some (ops op)\<rparr>)"
| move_work: "lifecycle \<sigma> = Some p \<Longrightarrow> thread_step (obj \<sigma>) p qs s' p' \<Longrightarrow>
    system_move ops cbs \<sigma> Work (\<sigma>\<lparr>obj := s', lifecycle := Some p', port_log := port_log \<sigma> @ map (Pair (obj \<sigma>)) qs\<rparr>)"
| move_finish: "lifecycle \<sigma> = Some (Return r) \<Longrightarrow> system_move ops cbs \<sigma> Finish (\<sigma>\<lparr>lifecycle := None\<rparr>)"
| move_arrive: "system_move ops cbs \<sigma> (Arrive c) (\<sigma>\<lparr>callbacks := callbacks \<sigma> @ [cbs c]\<rparr>)"
| move_react: "i < length (callbacks \<sigma>) \<Longrightarrow> thread_step (obj \<sigma>) (callbacks \<sigma> ! i) qs s' p' \<Longrightarrow>
    system_move ops cbs \<sigma> (React i)
      (\<sigma>\<lparr>obj := s', callbacks := (callbacks \<sigma>)[i := p'], port_log := port_log \<sigma> @ map (Pair (obj \<sigma>)) qs\<rparr>)"
| move_retire: "i < length (callbacks \<sigma>) \<Longrightarrow> callbacks \<sigma> ! i = Return r \<Longrightarrow>
    system_move ops cbs \<sigma> (Retire i) (\<sigma>\<lparr>callbacks := take i (callbacks \<sigma>) @ drop (Suc i) (callbacks \<sigma>)\<rparr>)"

inductive system_run ::
  "('o \<Rightarrow> ('s, 'q, 'v, 'r) program) \<Rightarrow> ('c \<Rightarrow> ('s, 'q, 'v, 'r) program) \<Rightarrow>
   ('s, 'q, 'v, 'r) system \<Rightarrow> ('o, 'c) move list \<Rightarrow> ('s, 'q, 'v, 'r) system \<Rightarrow> bool"
  for ops cbs where
  run_start: "system_run ops cbs \<sigma> [] \<sigma>"
| run_move: "system_run ops cbs \<sigma> ms \<tau> \<Longrightarrow> system_move ops cbs \<tau> m \<upsilon> \<Longrightarrow> system_run ops cbs \<sigma> (ms @ [m]) \<upsilon>"

definition idle_system :: "'s \<Rightarrow> ('s, 'q, 'v, 'r) system" where
  "idle_system s = \<lparr>obj = s, lifecycle = None, callbacks = [], port_log = []\<rparr>"

text \<open>One move and a schedule of moves as functions, with the status and the value that a port answers.\<close>

primrec step_critical :: "Status \<Rightarrow> ('s, 'q, 'v, 'r) critical \<Rightarrow> 'q list \<times> 's \<times> ('s, 'q, 'v, 'r) program" where
  "step_critical a (Leave s p) = ([], s, p)"
| "step_critical a (Ask q k) = (case step_critical a (k a) of (qs, z) \<Rightarrow> (q # qs, z))"

fun step_program :: "Status \<Rightarrow> 'v \<Rightarrow> 's \<Rightarrow> ('s, 'q, 'v, 'r) program \<Rightarrow> ('q list \<times> 's \<times> ('s, 'q, 'v, 'r) program) option" where
  "step_program a v s (Return r) = None"
| "step_program a v s (Section f) = Some (step_critical a (f s))"
| "step_program a v s (Call q k) = Some ([q], s, k a)"
| "step_program a v s (Tell q p) = Some ([q], s, p)"
| "step_program a v s (Query q k) = Some ([q], s, k v)"

fun returned :: "('s, 'q, 'v, 'r) program \<Rightarrow> bool" where
  "returned (Return r) = True"
| "returned _ = False"

fun move_system ::
  "('o \<Rightarrow> ('s, 'q, 'v, 'r) program) \<Rightarrow> ('c \<Rightarrow> ('s, 'q, 'v, 'r) program) \<Rightarrow> Status \<Rightarrow> 'v \<Rightarrow>
   ('s, 'q, 'v, 'r) system \<Rightarrow> ('o, 'c) move \<Rightarrow> ('s, 'q, 'v, 'r) system option" where
  "move_system ops cbs a v \<sigma> (Begin op) = (case lifecycle \<sigma> of None \<Rightarrow> Some (\<sigma>\<lparr>lifecycle := Some (ops op)\<rparr>) | Some p \<Rightarrow> None)"
| "move_system ops cbs a v \<sigma> Work = (case lifecycle \<sigma> of None \<Rightarrow> None | Some p \<Rightarrow>
     (case step_program a v (obj \<sigma>) p of None \<Rightarrow> None | Some (qs, s', p') \<Rightarrow>
        Some (\<sigma>\<lparr>obj := s', lifecycle := Some p', port_log := port_log \<sigma> @ map (Pair (obj \<sigma>)) qs\<rparr>)))"
| "move_system ops cbs a v \<sigma> Finish = (case lifecycle \<sigma> of None \<Rightarrow> None | Some p \<Rightarrow>
     if returned p then Some (\<sigma>\<lparr>lifecycle := None\<rparr>) else None)"
| "move_system ops cbs a v \<sigma> (Arrive c) = Some (\<sigma>\<lparr>callbacks := callbacks \<sigma> @ [cbs c]\<rparr>)"
| "move_system ops cbs a v \<sigma> (React i) = (if i < length (callbacks \<sigma>) then
     (case step_program a v (obj \<sigma>) (callbacks \<sigma> ! i) of None \<Rightarrow> None | Some (qs, s', p') \<Rightarrow>
        Some (\<sigma>\<lparr>obj := s', callbacks := (callbacks \<sigma>)[i := p'], port_log := port_log \<sigma> @ map (Pair (obj \<sigma>)) qs\<rparr>)) else None)"
| "move_system ops cbs a v \<sigma> (Retire i) = (if i < length (callbacks \<sigma>) \<and> returned (callbacks \<sigma> ! i)
     then Some (\<sigma>\<lparr>callbacks := take i (callbacks \<sigma>) @ drop (Suc i) (callbacks \<sigma>)\<rparr>) else None)"

fun schedule ::
  "('o \<Rightarrow> ('s, 'q, 'v, 'r) program) \<Rightarrow> ('c \<Rightarrow> ('s, 'q, 'v, 'r) program) \<Rightarrow> Status \<Rightarrow> 'v \<Rightarrow>
   ('s, 'q, 'v, 'r) system \<Rightarrow> ('o, 'c) move list \<Rightarrow> ('s, 'q, 'v, 'r) system option" where
  "schedule ops cbs a v \<sigma> [] = Some \<sigma>"
| "schedule ops cbs a v \<sigma> (m # ms) = (case move_system ops cbs a v \<sigma> m of None \<Rightarrow> None | Some \<tau> \<Rightarrow> schedule ops cbs a v \<tau> ms)"

text \<open>Evaluation by rewriting leaves the part of a program that is still to come alone.\<close>

lemma program_congs:
  "Section f = Section f" "q = q' \<Longrightarrow> Call q k = Call q' k" "q = q' \<Longrightarrow> Tell q p = Tell q' p" "q = q' \<Longrightarrow> Query q m = Query q' m"
  "s = s' \<Longrightarrow> Leave s p = Leave s' p" "q = q' \<Longrightarrow> Ask q c = Ask q' c" "Update u p = Update u p"
  by simp_all

lemma step_Update [simp]: "step_program a v s (Update u p) = Some ([], u s, p)"
  by (simp add: Update_def)

lemma step_critical_run: "step_critical a c = (qs, s', p) \<Longrightarrow> critical_run c qs s' p"
proof (induction c arbitrary: qs)
  case (Ask q k)
  then obtain qs' where "step_critical a (k a) = (qs', s', p)" "qs = q # qs'" by (auto split: prod.splits)
  then show ?case using Ask.IH [OF rangeI, of a qs'] by auto
qed simp_all

lemma step_program_step: "step_program a v s p = Some (qs, s', p') \<Longrightarrow> thread_step s p qs s' p'"
  by (cases p) (auto dest: step_critical_run)

lemma move_system_move: "move_system ops cbs a v \<sigma> m = Some \<tau> \<Longrightarrow> system_move ops cbs \<sigma> m \<tau>"
proof (induction ops cbs a v \<sigma> m rule: move_system.induct)
  case (3 ops cbs a v \<sigma>)
  then show ?case by (auto split: option.splits if_splits elim!: returned.elims(2) intro: move_finish)
next
  case (6 ops cbs a v \<sigma> i)
  then show ?case by (auto split: if_splits elim!: returned.elims(2) intro: move_retire)
qed (auto split: option.splits if_splits intro: system_move.intros dest: step_program_step)

lemma system_run_Cons:
  "system_run ops cbs \<tau> ms \<upsilon> \<Longrightarrow> system_move ops cbs \<sigma> m \<tau> \<Longrightarrow> system_run ops cbs \<sigma> (m # ms) \<upsilon>"
proof (induction rule: system_run.induct)
  case (run_start \<sigma>')
  then show ?case using system_run.run_move [OF system_run.run_start] by fastforce
next
  case (run_move \<sigma>' ms \<tau>' m' \<upsilon>)
  then show ?case using system_run.run_move by fastforce
qed

lemma system_run_ConsD:
  "system_run ops cbs \<sigma> ms' \<upsilon> \<Longrightarrow> ms' = m # ms \<Longrightarrow> \<exists>\<tau>. system_move ops cbs \<sigma> m \<tau> \<and> system_run ops cbs \<tau> ms \<upsilon>"
proof (induction arbitrary: ms rule: system_run.induct)
  case (run_move \<sigma> ms' \<tau> m' \<upsilon>)
  show ?case
  proof (cases ms')
    case Nil
    then have "\<tau> = \<sigma>" using run_move.hyps(1) by (auto elim: system_run.cases)
    then show ?thesis using run_move Nil by (auto intro: run_start)
  next
    case (Cons m0 ms0)
    then show ?thesis using run_move by (auto intro: system_run.run_move)
  qed
qed simp

lemma run_log: "system_run ops cbs \<sigma> ms \<tau> \<Longrightarrow> \<exists>new. port_log \<tau> = port_log \<sigma> @ new"
proof (induction rule: system_run.induct)
  case (run_move \<sigma> ms \<tau> m \<upsilon>)
  have "\<exists>new. port_log \<upsilon> = port_log \<tau> @ new" using run_move.hyps(2) by cases auto
  then show ?case using run_move.IH by auto
qed simp

lemma schedule_run: "schedule ops cbs a v \<sigma> ms = Some \<tau> \<Longrightarrow> system_run ops cbs \<sigma> ms \<tau>"
  by (induction ms arbitrary: \<sigma>) (auto split: option.splits intro: run_start system_run_Cons dest: move_system_move)

section \<open>Rely and guarantee\<close>

text \<open>
  \<open>checked I R G C p s\<close>: from state \<open>s\<close>, when other threads change the state only within \<open>R\<close> and keep
  \<open>I\<close>, every section of \<open>p\<close> keeps \<open>I\<close> and changes the state within \<open>G\<close>, and every call is made in a
  state where \<open>C\<close> allows it.
\<close>

primrec checked ::
    "('s \<Rightarrow> bool) \<Rightarrow> ('s \<Rightarrow> 's \<Rightarrow> bool) \<Rightarrow> ('s \<Rightarrow> 's \<Rightarrow> bool) \<Rightarrow> ('s \<Rightarrow> 'q \<Rightarrow> bool) \<Rightarrow> ('s, 'q, 'v, 'r) program \<Rightarrow> 's \<Rightarrow> bool"
  and checked_critical ::
    "('s \<Rightarrow> bool) \<Rightarrow> ('s \<Rightarrow> 's \<Rightarrow> bool) \<Rightarrow> ('s \<Rightarrow> 's \<Rightarrow> bool) \<Rightarrow> ('s \<Rightarrow> 'q \<Rightarrow> bool) \<Rightarrow> ('s, 'q, 'v, 'r) critical \<Rightarrow> 's \<Rightarrow> bool" where
  "checked I R G C (Return r) s = True"
| "checked I R G C (Section f) s = (\<forall>s'. R s s' \<longrightarrow> I s' \<longrightarrow> checked_critical I R G C (f s') s')"
| "checked I R G C (Call q k) s = ((\<forall>s'. R s s' \<longrightarrow> I s' \<longrightarrow> C s' q) \<and> (\<forall>v. checked I R G C (k v) s))"
| "checked I R G C (Tell q p) s = ((\<forall>s'. R s s' \<longrightarrow> I s' \<longrightarrow> C s' q) \<and> checked I R G C p s)"
| "checked I R G C (Query q k) s = ((\<forall>s'. R s s' \<longrightarrow> I s' \<longrightarrow> C s' q) \<and> (\<forall>v. checked I R G C (k v) s))"
| "checked_critical I R G C (Leave s' p) s = (I s' \<and> G s s' \<and> checked I R G C p s')"
| "checked_critical I R G C (Ask q k) s = (C s q \<and> (\<forall>v. checked_critical I R G C (k v) s))"

text \<open>The number of steps a program may take: its sections and calls on the longest path.\<close>

primrec within :: "('s, 'q, 'v, 'r) program \<Rightarrow> nat \<Rightarrow> bool"
  and critical_within :: "('s, 'q, 'v, 'r) critical \<Rightarrow> nat \<Rightarrow> bool" where
  "within (Return r) n = True"
| "within (Section f) n = (0 < n \<and> (\<forall>s. critical_within (f s) (n - 1)))"
| "within (Call q k) n = (0 < n \<and> (\<forall>v. within (k v) (n - 1)))"
| "within (Tell q p) n = (0 < n \<and> within p (n - 1))"
| "within (Query q k) n = (0 < n \<and> (\<forall>v. within (k v) (n - 1)))"
| "critical_within (Leave s p) n = within p n"
| "critical_within (Ask q k) n = (\<forall>v. critical_within (k v) n)"

lemma checked_Update: "checked I R G C (Update f p) s \<longleftrightarrow>
    (\<forall>s'. R s s' \<longrightarrow> I s' \<longrightarrow> I (f s') \<and> G s' (f s') \<and> checked I R G C p (f s'))"
  by (simp add: Update_def)

lemma within_Update [simp]: "within (Update f p) n \<longleftrightarrow> 0 < n \<and> within p (n - 1)"
  by (simp add: Update_def)

lemma checked_moves:
  fixes p :: "('s, 'q, 'v, 'r) program" and c :: "('s, 'q, 'v, 'r) critical"
  shows "transp R \<Longrightarrow> checked I R G C p s \<Longrightarrow> R s s' \<Longrightarrow> checked I R G C p s'" and "c = c"
  by (induction p and c) (auto 4 4 simp: transp_def)

lemma checked_critical_run:
  "critical_run c qs s' p \<Longrightarrow> checked_critical I R G C c s \<Longrightarrow> I s' \<and> G s s' \<and> checked I R G C p s' \<and> (\<forall>q \<in> set qs. C s q)"
  by (induction rule: critical_run.induct) auto

lemma checked_step:
  assumes "thread_step s p qs s' p'" "checked I R G C p s" "I s" "reflp R" "reflp G"
  shows "I s' \<and> G s s' \<and> checked I R G C p' s' \<and> (\<forall>q \<in> set qs. C s q)"
  using assms by cases (auto dest!: checked_critical_run reflpD)

lemma critical_within_run: "critical_run c qs s' p \<Longrightarrow> critical_within c n \<Longrightarrow> within p n"
  by (induction rule: critical_run.induct) auto

lemma within_step: "thread_step s p qs s' p' \<Longrightarrow> within p n \<Longrightarrow> 0 < n \<and> within p' (n - 1)"
  by (cases p) (auto dest: critical_within_run)

lemma critical_run_exists: "\<exists>qs s' p. critical_run c qs s' p"
proof (induction c)
  case (Ask q k)
  then show ?case by (metis critical_ask rangeI)
qed (auto intro: critical_leave)

lemma thread_progress: "(\<exists>r. p = Return r) \<or> (\<exists>qs s' p'. thread_step s p qs s' p')"
  using critical_run_exists by (cases p) (simp_all, blast+)

section \<open>Runs among interference\<close>

text \<open>A whole run of one program between whose steps other threads change the state within \<open>R\<close>.\<close>

inductive among :: "('s \<Rightarrow> 's \<Rightarrow> bool) \<Rightarrow> 's \<Rightarrow> ('s, 'q, 'v, 'r) program \<Rightarrow> 'q list \<Rightarrow> 's \<Rightarrow> 'r \<Rightarrow> bool" for R where
  among_return: "R s s' \<Longrightarrow> among R s (Return r) [] s' r"
| among_step: "R s s1 \<Longrightarrow> thread_step s1 p qs s2 p2 \<Longrightarrow> among R s2 p2 qs' s' r \<Longrightarrow> among R s p (qs @ qs') s' r"

inductive_simps among_Return [simp]: "among R s (Return r) qs s' r'"

inductive_simps among_raw:
  "among R s (Section f) qs s' r" "among R s (Call q k) qs s' r" "among R s (Tell q p) qs s' r" "among R s (Query q m) qs s' r"

lemma among_unfold:
  "among R s (Section f) qs s' r \<longleftrightarrow>
     (\<exists>s0 qs1 s1 p1 qs2. R s s0 \<and> critical_run (f s0) qs1 s1 p1 \<and> among R s1 p1 qs2 s' r \<and> qs = qs1 @ qs2)"
  "among R s (Call q k) qs s' r \<longleftrightarrow> (\<exists>s0 v qs2. R s s0 \<and> among R s0 (k v) qs2 s' r \<and> qs = q # qs2)"
  "among R s (Tell q p) qs s' r \<longleftrightarrow> (\<exists>s0 qs2. R s s0 \<and> among R s0 p qs2 s' r \<and> qs = q # qs2)"
  "among R s (Query q m) qs s' r \<longleftrightarrow> (\<exists>s0 v qs2. R s s0 \<and> among R s0 (m v) qs2 s' r \<and> qs = q # qs2)"
  unfolding among_raw by (simp_all, blast+)

lemma among_Update: "among R s (Update f p) qs s' r \<longleftrightarrow> (\<exists>s0. R s s0 \<and> among R (f s0) p qs s' r)"
  by (simp add: Update_def among_unfold)

lemma among_before:
  assumes "among R s1 p qs s' r" "R s s1" "transp R"
  shows "among R s p qs s' r"
  using assms(1)
proof cases
  case among_return
  then show ?thesis using assms(2,3) by (auto dest: transpD)
next
  case (among_step s2 qs1 s3 p3 qs2)
  then show ?thesis using assms(2,3) by (auto dest: transpD intro: among.among_step)
qed

section \<open>The contract of an object\<close>

text \<open>
  \<open>inv\<close> is the invariant, \<open>op_change\<close> and \<open>cb_change\<close> are what one section of a life-cycle operation or
  of a callback may do to the state, and \<open>allowed\<close> says in which states a port call may be made.
  Life-cycle operations rely on what callbacks do (\<open>op_rely\<close>), callbacks on what any thread does
  (\<open>cb_rely\<close>).
\<close>

locale concurrent_object =
  fixes ops :: "'o \<Rightarrow> ('s, 'q, 'v, 'r) program"
    and cbs :: "'c \<Rightarrow> ('s, 'q, 'v, 'r) program"
    and inv :: "'s \<Rightarrow> bool"
    and op_change :: "'s \<Rightarrow> 's \<Rightarrow> bool"
    and cb_change :: "'s \<Rightarrow> 's \<Rightarrow> bool"
    and op_rely :: "'s \<Rightarrow> 's \<Rightarrow> bool"
    and cb_rely :: "'s \<Rightarrow> 's \<Rightarrow> bool"
    and allowed :: "'s \<Rightarrow> 'q \<Rightarrow> bool"
    and op_steps :: nat
    and cb_steps :: nat
  assumes change_refl: "reflp op_change" "reflp cb_change"
    and rely_refl: "reflp op_rely" "reflp cb_rely"
    and rely_trans: "transp op_rely" "transp cb_rely"
    and cb_relied: "cb_change s s' \<Longrightarrow> op_rely s s' \<and> cb_rely s s'"
    and op_relied: "op_change s s' \<Longrightarrow> cb_rely s s'"
    and op_checked: "inv s \<Longrightarrow> checked inv op_rely op_change allowed (ops op) s"
    and cb_checked: "inv s \<Longrightarrow> checked inv cb_rely cb_change allowed (cbs c) s"
    and op_within: "within (ops op) op_steps"
    and cb_within: "within (cbs c) cb_steps"
begin

definition system_ok :: "('s, 'q, 'v, 'r) system \<Rightarrow> bool" where
  "system_ok \<sigma> \<longleftrightarrow> inv (obj \<sigma>) \<and> (\<forall>p. lifecycle \<sigma> = Some p \<longrightarrow> checked inv op_rely op_change allowed p (obj \<sigma>)) \<and>
     (\<forall>p \<in> set (callbacks \<sigma>). checked inv cb_rely cb_change allowed p (obj \<sigma>)) \<and> (\<forall>(s, q) \<in> set (port_log \<sigma>). allowed s q)"

lemma callbacks_move:
  "\<forall>p \<in> set ps. checked inv cb_rely cb_change allowed p s \<Longrightarrow> cb_rely s s' \<Longrightarrow> \<forall>p \<in> set ps. checked inv cb_rely cb_change allowed p s'"
  using checked_moves(1) [OF rely_trans(2)] by blast

lemma cb_checked_step:
  assumes "system_ok \<sigma>" "i < length (callbacks \<sigma>)" "thread_step (obj \<sigma>) (callbacks \<sigma> ! i) qs s' p'"
  shows "inv s' \<and> cb_change (obj \<sigma>) s' \<and> checked inv cb_rely cb_change allowed p' s' \<and> (\<forall>q \<in> set qs. allowed (obj \<sigma>) q)"
  using checked_step [OF assms(3) _ _ rely_refl(2) change_refl(2), of inv allowed] assms(1,2) by (simp add: system_ok_def)

lemma move_ok:
  assumes "system_move ops cbs \<sigma> m \<tau>" "system_ok \<sigma>"
  shows "system_ok \<tau> \<and> (obj \<tau> = obj \<sigma> \<or> op_change (obj \<sigma>) (obj \<tau>) \<or> cb_change (obj \<sigma>) (obj \<tau>))"
  using assms
proof cases
  case (move_work p qs s' p')
  have "inv s' \<and> op_change (obj \<sigma>) s' \<and> checked inv op_rely op_change allowed p' s' \<and> (\<forall>q \<in> set qs. allowed (obj \<sigma>) q)"
    using checked_step [OF move_work(4) _ _ rely_refl(1) change_refl(1), of inv allowed] assms(2) move_work(3)
    by (simp add: system_ok_def)
  with assms(2) move_work(2) callbacks_move [of "callbacks \<sigma>" "obj \<sigma>" s'] op_relied [of "obj \<sigma>" s'] show ?thesis
    by (auto simp: system_ok_def)
next
  case (move_react i qs s' p')
  note new = cb_checked_step [OF assms(2) move_react(3,4)]
  then have rely: "op_rely (obj \<sigma>) s'" "cb_rely (obj \<sigma>) s'" using cb_relied by blast+
  have "checked inv op_rely op_change allowed p s'" if "lifecycle \<sigma> = Some p" for p
    using checked_moves(1) [OF rely_trans(1) _ rely(1), of inv op_change allowed p] that assms(2) by (simp add: system_ok_def)
  moreover have "\<forall>p \<in> set ((callbacks \<sigma>)[i := p']). checked inv cb_rely cb_change allowed p s'"
    using callbacks_move [of "callbacks \<sigma>" "obj \<sigma>" s'] rely(2) new assms(2) set_update_subset_insert [of "callbacks \<sigma>" i p']
    by (auto simp: system_ok_def)
  ultimately show ?thesis using assms(2) move_react(2) new by (auto simp: system_ok_def)
next
  case (move_retire i r)
  have "set (take i (callbacks \<sigma>) @ drop (Suc i) (callbacks \<sigma>)) \<subseteq> set (callbacks \<sigma>)"
    using set_take_subset set_drop_subset by fastforce
  with assms(2) move_retire(2) show ?thesis by (auto simp: system_ok_def)
qed (auto simp: system_ok_def op_checked cb_checked)

lemma run_ok: "system_run ops cbs \<sigma> ms \<tau> \<Longrightarrow> system_ok \<sigma> \<Longrightarrow> system_ok \<tau>"
  by (induction rule: system_run.induct) (use move_ok in blast)+

lemma idle_ok: "inv s \<Longrightarrow> system_ok (idle_system s)"
  by (simp add: system_ok_def idle_system_def)

lemma run_invariant:
  assumes "system_run ops cbs (idle_system s) ms \<tau>" "inv s"
  shows "inv (obj \<tau>)" "(s', q) \<in> set (port_log \<tau>) \<Longrightarrow> allowed s' q"
  using run_ok [OF assms(1) idle_ok [OF assms(2)]] by (auto simp: system_ok_def)

lemma run_change:
  assumes "system_run ops cbs (idle_system s) ms \<sigma>" "inv s" "system_move ops cbs \<sigma> m \<tau>"
  shows "obj \<tau> = obj \<sigma> \<or> op_change (obj \<sigma>) (obj \<tau>) \<or> cb_change (obj \<sigma>) (obj \<tau>)"
  using move_ok [OF assms(3) run_ok [OF assms(1) idle_ok [OF assms(2)]]] by simp

text \<open>What becomes of an operation in a run of the system that goes on until it returns.\<close>

definition interference :: "'s \<Rightarrow> 's \<Rightarrow> bool" where
  "interference s s' \<longleftrightarrow> op_rely s s' \<and> (inv s \<longrightarrow> inv s')"

lemma interference_refl: "interference s s"
  using rely_refl(1) by (simp add: interference_def reflpD)

lemma interference_trans: "transp interference"
  using rely_trans(1) unfolding interference_def transp_def by blast

lemma run_among:
  assumes "system_run ops cbs \<sigma> ms \<tau>" "system_ok \<sigma>" "lifecycle \<sigma> = Some p"
    and "\<forall>m \<in> set ms. \<not> is_Begin m \<and> m \<noteq> Finish" "lifecycle \<tau> = Some (Return r)"
  shows "\<exists>qs. among interference (obj \<sigma>) p qs (obj \<tau>) r \<and> set qs \<subseteq> snd ` set (drop (length (port_log \<sigma>)) (port_log \<tau>))"
  using assms
proof (induction ms arbitrary: \<sigma> p)
  case Nil
  then have "\<tau> = \<sigma>" by (auto elim: system_run.cases)
  then show ?case using Nil by (auto simp: interference_refl)
next
  case (Cons m ms)
  obtain \<upsilon> where m: "system_move ops cbs \<sigma> m \<upsilon>" and run: "system_run ops cbs \<upsilon> ms \<tau>" using system_run_ConsD [OF Cons.prems(1) refl] by blast
  have ok: "system_ok \<upsilon>" "inv (obj \<sigma>)" "inv (obj \<upsilon>)" using move_ok [OF m Cons.prems(2)] Cons.prems(2) by (auto simp: system_ok_def)
  obtain new where log: "port_log \<tau> = port_log \<upsilon> @ new" using run_log [OF run] by blast
  show ?case using m
  proof cases
    case (move_work p0 qs s' p')
    obtain qs' where "among interference s' p' qs' (obj \<tau>) r" "set qs' \<subseteq> snd ` set (drop (length (port_log \<upsilon>)) (port_log \<tau>))"
      using Cons.IH [OF run ok(1), of p'] Cons.prems(4,5) move_work(2) by auto
    then show ?thesis
      using move_work log Cons.prems(3) among_step [where R = interference, OF interference_refl [of "obj \<sigma>"], of p qs s' p' qs' "obj \<tau>" r]
      by (auto simp: image_Un image_image intro!: exI [of _ "qs @ qs'"])
  next
    case (move_arrive c)
    then show ?thesis using Cons.IH [OF run ok(1), of p] Cons.prems(3-5) by simp
  next
    case (move_react i qs s' p')
    have s': "interference (obj \<sigma>) (obj \<upsilon>)"
      using cb_checked_step [OF Cons.prems(2) move_react(3,4)] cb_relied ok by (auto simp: interference_def move_react(2))
    obtain qs' where "among interference (obj \<upsilon>) p qs' (obj \<tau>) r" "set qs' \<subseteq> snd ` set (drop (length (port_log \<upsilon>)) (port_log \<tau>))"
      using Cons.IH [OF run ok(1), of p] Cons.prems(3-5) move_react(2) by auto
    then show ?thesis using among_before [OF _ s' interference_trans] log move_react(2) by (auto intro!: exI [of _ qs'])
  next
    case (move_retire i r')
    then show ?thesis using Cons.IH [OF run ok(1), of p] Cons.prems(3-5) by simp
  qed (use Cons.prems(3,4) in auto)
qed

text \<open>A quantity that no section decreases: later calls are made in states with at least its present value.\<close>

lemma run_log_later:
  fixes level :: "'s \<Rightarrow> nat"
  assumes "system_run ops cbs \<sigma> ms \<tau>" "system_ok \<sigma>"
    and op: "\<And>s s'. op_change s s' \<Longrightarrow> level s \<le> level s'" and cb: "\<And>s s'. cb_change s s' \<Longrightarrow> level s \<le> level s'"
  shows "level (obj \<sigma>) \<le> level (obj \<tau>) \<and> (\<exists>new. port_log \<tau> = port_log \<sigma> @ new \<and> (\<forall>(s, q) \<in> set new. level (obj \<sigma>) \<le> level s))"
  using assms(1,2)
proof (induction rule: system_run.induct)
  case (run_move \<sigma> ms \<tau> m \<upsilon>)
  then obtain new where ih: "level (obj \<sigma>) \<le> level (obj \<tau>)" "port_log \<tau> = port_log \<sigma> @ new" "\<forall>(s, q) \<in> set new. level (obj \<sigma>) \<le> level s"
    by blast
  have "level (obj \<tau>) \<le> level (obj \<upsilon>)"
    using move_ok [OF run_move.hyps(2) run_ok [OF run_move.hyps(1) run_move.prems]] op cb by auto
  moreover have "\<exists>qs. port_log \<upsilon> = port_log \<tau> @ map (Pair (obj \<tau>)) qs"
    using run_move.hyps(2) by cases (auto intro: exI [of _ "[]"])
  then obtain qs where "port_log \<upsilon> = port_log \<sigma> @ (new @ map (Pair (obj \<tau>)) qs)" using ih(2) by auto
  moreover have "\<forall>(s, q) \<in> set (new @ map (Pair (obj \<tau>)) qs). level (obj \<sigma>) \<le> level s" using ih(1,3) by auto
  ultimately show ?case using ih(1) by (meson le_trans)
qed simp

text \<open>
  The steps still to be done, bounded for each thread; a thread that has returned has one move left.
\<close>

definition budgets :: "('s, 'q, 'v, 'r) system \<Rightarrow> nat \<Rightarrow> nat list \<Rightarrow> bool" where
  "budgets \<sigma> a bs \<longleftrightarrow> (case lifecycle \<sigma> of None \<Rightarrow> a = 0 | Some p \<Rightarrow> 0 < a \<and> within p (a - 1)) \<and>
     list_all2 (\<lambda>p b. 0 < b \<and> within p (b - 1)) (callbacks \<sigma>) bs"

definition spent :: "('o, 'c) move list \<Rightarrow> nat" where
  "spent ms = (\<Sum>m \<leftarrow> ms. case m of Begin op \<Rightarrow> op_steps + 2 | Arrive c \<Rightarrow> cb_steps + 2 | _ \<Rightarrow> 0)"

lemma sum_list_swap: "i < length bs \<Longrightarrow> sum_list (bs[i := b]) + bs ! i = sum_list bs + (b :: nat)"
  by (induction bs arbitrary: i) (auto simp: nth_Cons split: nat.split)

lemma sum_list_remove: "i < length bs \<Longrightarrow> sum_list (take i bs @ drop (Suc i) bs) + bs ! i = sum_list (bs :: nat list)"
proof -
  assume "i < length bs"
  then have "sum_list bs = sum_list (take i bs @ bs ! i # drop (Suc i) bs)" by (simp add: id_take_nth_drop [symmetric])
  then show ?thesis by simp
qed

lemma move_budgets:
  assumes "system_move ops cbs \<sigma> m \<tau>" "budgets \<sigma> a bs"
  shows "\<exists>a' bs'. budgets \<tau> a' bs' \<and> Suc (a' + sum_list bs') \<le> a + sum_list bs + spent [m]"
  using assms(1)
proof cases
  case (move_begin op)
  then show ?thesis using assms(2) op_within by (intro exI [of _ "op_steps + 1"] exI [of _ bs]) (simp add: budgets_def spent_def)
next
  case (move_work p qs s' p')
  then show ?thesis using assms(2) within_step [OF move_work(4), of "a - 1"]
    by (intro exI [of _ "a - 1"] exI [of _ bs]) (simp add: budgets_def)
next
  case (move_finish r)
  then show ?thesis using assms(2) by (intro exI [of _ 0] exI [of _ bs]) (simp add: budgets_def)
next
  case (move_arrive c)
  then show ?thesis using assms(2) cb_within
    by (intro exI [of _ a] exI [of _ "bs @ [cb_steps + 1]"]) (simp add: budgets_def spent_def list_all2_appendI)
next
  case (move_react i qs s' p')
  have l: "length bs = length (callbacks \<sigma>)" and b: "0 < bs ! i" "within (callbacks \<sigma> ! i) (bs ! i - 1)"
    using assms(2) move_react(3) by (auto simp: budgets_def list_all2_conv_all_nth)
  then have "0 < bs ! i - 1" "within p' (bs ! i - 1 - 1)" using within_step [OF move_react(4)] by blast+
  then show ?thesis using assms(2) move_react(2,3) l sum_list_swap [of i bs "bs ! i - 1"]
    by (intro exI [of _ a] exI [of _ "bs[i := bs ! i - 1]"]) (auto simp: budgets_def list_all2_update_cong)
next
  case (move_retire i r)
  have "length bs = length (callbacks \<sigma>)" "0 < bs ! i"
    using assms(2) move_retire(3) by (auto simp: budgets_def list_all2_conv_all_nth)
  then show ?thesis using assms(2) move_retire(2,3) sum_list_remove [of i bs]
    by (intro exI [of _ a] exI [of _ "take i bs @ drop (Suc i) bs"])
      (auto simp: budgets_def intro!: list_all2_appendI list_all2_takeI list_all2_dropI)
qed

lemma run_budgets:
  assumes "system_run ops cbs \<sigma> ms \<tau>" "\<sigma> = idle_system s"
  shows "\<exists>a bs. budgets \<tau> a bs \<and> length ms + a + sum_list bs \<le> spent ms"
  using assms
proof (induction rule: system_run.induct)
  case (run_start \<sigma>)
  then show ?case by (intro exI [of _ 0] exI [of _ "[]"]) (simp add: budgets_def idle_system_def spent_def)
next
  case (run_move \<sigma> ms \<tau> m \<upsilon>)
  then obtain a bs where b: "budgets \<tau> a bs" "length ms + a + sum_list bs \<le> spent ms" by blast
  obtain a' bs' where "budgets \<upsilon> a' bs'" "Suc (a' + sum_list bs') \<le> a + sum_list bs + spent [m]"
    using move_budgets [OF run_move.hyps(2) b(1)] by blast
  with b(2) show ?case by (intro exI [of _ a'] exI [of _ bs']) (simp add: spent_def)
qed

lemma spent_count: "spent ms = (op_steps + 2) * length (filter is_Begin ms) + (cb_steps + 2) * length (filter is_Arrive ms)"
  by (induction ms) (auto simp: spent_def split: move.splits)

lemma run_bounded:
  "system_run ops cbs (idle_system s) ms \<tau> \<Longrightarrow>
     length ms \<le> (op_steps + 2) * length (filter is_Begin ms) + (cb_steps + 2) * length (filter is_Arrive ms)"
  using run_budgets [of "idle_system s" ms \<tau> s] by (fastforce simp: spent_count)

lemma run_progress:
  "lifecycle \<sigma> = None \<and> callbacks \<sigma> = [] \<or>
   (\<exists>m \<tau>. system_move ops cbs \<sigma> m \<tau> \<and> \<not> is_Begin m \<and> \<not> is_Arrive m)"
proof (cases "lifecycle \<sigma>")
  case (Some p)
  from thread_progress [of p "obj \<sigma>"] consider r where "p = Return r" | qs s' p' where "thread_step (obj \<sigma>) p qs s' p'" by blast
  then show ?thesis
  proof cases
    case 1
    then show ?thesis using move_finish [of \<sigma> r ops cbs] Some by (metis move.disc(3,9))
  next
    case 2
    then show ?thesis using move_work [OF Some 2, of ops cbs] by (metis move.disc(2,8))
  qed
next
  case None
  show ?thesis
  proof (cases "callbacks \<sigma>")
    case (Cons p ps)
    then have p: "0 < length (callbacks \<sigma>)" "callbacks \<sigma> ! 0 = p" by simp_all
    from thread_progress [of p "obj \<sigma>"] consider r where "p = Return r" | qs s' p' where "thread_step (obj \<sigma>) p qs s' p'" by blast
    then show ?thesis
    proof cases
      case 1
      then show ?thesis using move_retire [OF p(1), of r ops cbs] p(2) by (metis move.disc(6,12))
    next
      case 2
      then show ?thesis using move_react [OF p(1), of qs s' p' ops cbs] p(2) by (metis move.disc(5,11))
    qed
  qed (simp add: None)
qed

end

end
