(* ===== verification/Voice_Session.thy ===== *)
theory Voice_Session
  imports Audio_Queue Interleaving
begin

text \<open>
  \<open>VoiceSession\<close> (\<open>voice_session.cc\<close>): the session between the audio devices and the speech provider.
  Its methods are programs in the sense of \<open>Interleaving\<close>: a block under \<open>mutex_\<close> is a section, a
  call of the provider, of the input or output port or of the evidence sink is a port call, and
  \<open>lifecycle_mutex_\<close> makes the public operations life-cycle operations. Provider events and
  downlink frames are callbacks.

  Generations and sequence numbers are natural numbers, steady-clock instants are integers in
  nanoseconds, and a moved-from string is empty.
\<close>

section \<open>Data\<close>

datatype VoiceMode = Mode_kManual | Mode_kAuto | Mode_kRealtime

datatype VoiceSessionState =
  Session_kStopped | Session_kStarting | Session_kReady | Session_kCapturing | Session_kSpeaking | Session_kFailed

datatype VoiceEventKind =
    Kind_kConnected
  | Kind_kDisconnected
  | Kind_kAsrText
  | Kind_kTtsStarted
  | Kind_kTtsSentenceStarted
  | Kind_kTtsStopped
  | Kind_kToolCall
  | Kind_kLlmEmotion
  | Kind_kError

record VoiceAudioFormats =
  fm_capture :: AudioFormat
  fm_playback :: AudioFormat

definition formats_valid :: "VoiceAudioFormats \<Rightarrow> bool" where
  "formats_valid f \<longleftrightarrow> format_valid (fm_capture f) \<and> format_valid (fm_playback f)"

record VoiceSessionConfig =
  cfg_session_id :: string
  cfg_provider_id :: string
  cfg_mode :: VoiceMode
  cfg_audio :: AudioFormat
  cfg_hello_timeout_ms :: nat
  cfg_vad_silence_ms :: nat
  cfg_reconnect_backoff_ms :: nat
  cfg_enable_mcp :: bool
  cfg_generation :: nat

record CapabilityProfile =
  cp_provider_id :: string
  cp_capabilities :: "string list"

record VoiceEvent =
  ev_kind :: VoiceEventKind
  ev_generation :: nat
  ev_text :: string
  ev_aborted :: bool

record VoiceEvidence =
  vd_session_id :: string
  vd_generation :: nat
  vd_event :: string
  vd_detail :: string

text \<open>The calls a session makes of its ports; the flag of \<open>SetAudioSink\<close> says whether the sink is set or cleared.\<close>

datatype PortCall =
    Provider_SetAudioSink bool
  | Provider_SetGeneration nat
  | Provider_Connect VoiceSessionConfig
  | Provider_StartCapture VoiceMode
  | Provider_StopCapture
  | Provider_SendAudio AudioFrame
  | Provider_Abort string
  | Provider_Speak string
  | Provider_NotifyLocalWakeWord string string
  | Provider_Disconnect
  | Provider_audio_formats
  | Input_SetAudioSink bool
  | Input_Open AudioFormat
  | Input_StartCapture VoiceMode
  | Input_StopCapture
  | Input_Close
  | Output_Open AudioFormat
  | Output_Push AudioFrame
  | Output_Flush
  | Output_Close
  | Evidence VoiceEvidence

record VoiceSession =
  has_evidence :: bool
  vs_config :: VoiceSessionConfig
  vs_formats :: VoiceAudioFormats
  vs_state :: VoiceSessionState
  audio_ready :: bool
  provider_capture_active :: bool
  response_armed :: bool
  pending_local_wake_tts :: bool
  local_wake_tts_active :: bool
  first_tts_audio_pending :: bool
  awaiting_final_asr :: bool
  pending_local_wake_echo :: string
  interrupt_fence_pending :: bool
  pending_interrupt_wake_word :: string
  pending_interrupt_text_response :: string
  pending_system_speech :: string
  vad_speech_seen :: bool
  vad_silence_emitted :: bool
  last_speech_at :: int
  vs_generation :: nat
  next_sequence :: nat

definition default_format :: AudioFormat where
  "default_format = \<lparr>af_codec = kPcmS16Le, af_sample_rate_hz = 16000, af_channels = 1, af_bits_per_sample = 16, af_frame_duration_ms = 20\<rparr>"

definition default_config :: VoiceSessionConfig where
  "default_config = \<lparr>cfg_session_id = [], cfg_provider_id = [], cfg_mode = Mode_kManual, cfg_audio = default_format,
     cfg_hello_timeout_ms = 10000, cfg_vad_silence_ms = 900, cfg_reconnect_backoff_ms = 250, cfg_enable_mcp = True, cfg_generation = 0\<rparr>"

text \<open>A new session; the flag says whether it was given an evidence sink.\<close>

definition new_session :: "bool \<Rightarrow> VoiceSession" where
  "new_session evidence = \<lparr>has_evidence = evidence, vs_config = default_config,
     vs_formats = \<lparr>fm_capture = default_format, fm_playback = default_format\<rparr>, vs_state = Session_kStopped, audio_ready = False,
     provider_capture_active = False, response_armed = False, pending_local_wake_tts = False, local_wake_tts_active = False,
     first_tts_audio_pending = False, awaiting_final_asr = False, pending_local_wake_echo = [], interrupt_fence_pending = False,
     pending_interrupt_wake_word = [], pending_interrupt_text_response = [], pending_system_speech = [], vad_speech_seen = False,
     vad_silence_emitted = False, last_speech_at = 0, vs_generation = 0, next_sequence = 0\<rparr>"

type_synonym session_program = "(VoiceSession, PortCall, VoiceAudioFormats Result, Status option) program"

section \<open>Messages\<close>

definition msg_session_config :: string where
  "msg_session_config = utf8 [35821, 38899, 20250, 35805, 37197, 32622, 26080, 25928]"

definition msg_provider_mismatch :: string where
  "msg_provider_mismatch = utf8 [80, 114, 111, 118, 105, 100, 101, 114, 32, 73, 68, 32, 19982, 33021, 21147, 32, 80, 114, 111, 102, 105, 108, 101, 32, 19981, 19968, 33268]"

definition msg_session_started :: string where
  "msg_session_started = utf8 [35821, 38899, 20250, 35805, 24050, 32463, 21551, 21160]"

definition msg_formats_invalid :: string where
  "msg_formats_invalid = utf8 [80, 114, 111, 118, 105, 100, 101, 114, 32, 36820, 22238, 30340, 21452, 21521, 38899, 39057, 26684, 24335, 26080, 25928]"

definition msg_no_listen :: string where
  "msg_no_listen = utf8 [35821, 38899, 20250, 35805, 24403, 21069, 19981, 33021, 24320, 22987, 32, 80, 114, 111, 118, 105, 100, 101, 114, 32, 30417, 21548]"

definition msg_no_capture :: string where
  "msg_no_capture = utf8 [35821, 38899, 20250, 35805, 24403, 21069, 19981, 33021, 24320, 22987, 37319, 38598]"

definition msg_not_capturing :: string where
  "msg_not_capturing = utf8 [35821, 38899, 20250, 35805, 24403, 21069, 27809, 26377, 37319, 38598]"

definition msg_frame_rejected :: string where
  "msg_frame_rejected = utf8 [38899, 39057, 24103, 23646, 20110, 26087, 20250, 35805, 12289, 20081, 24207, 25110, 26684, 24335, 26080, 25928]"

definition msg_frame_gap :: string where
  "msg_frame_gap = utf8 [38899, 39057, 24103, 24207, 21495, 19981, 36830, 32493]"

definition msg_no_send :: string where
  "msg_no_send = utf8 [35821, 38899, 20250, 35805, 24403, 21069, 19981, 33021, 21457, 36865, 37319, 38598, 38899, 39057]"

definition msg_input_format :: string where
  "msg_input_format = utf8 [37319, 38598, 24103, 26684, 24335, 19982, 20250, 35805, 19981, 19968, 33268]"

definition msg_no_playback :: string where
  "msg_no_playback = utf8 [35821, 38899, 20250, 35805, 24403, 21069, 19981, 33021, 25773, 25918, 38899, 39057]"

definition msg_playback_foreign :: string where
  "msg_playback_foreign = utf8 [25773, 25918, 24103, 19981, 23646, 20110, 24403, 21069, 20250, 35805]"

definition msg_no_speak :: string where
  "msg_no_speak = utf8 [35821, 38899, 20250, 35805, 24403, 21069, 19981, 33021, 25773, 25253]"

definition msg_no_wake :: string where
  "msg_no_wake = utf8 [35821, 38899, 20250, 35805, 24403, 21069, 19981, 33021, 36890, 30693, 26412, 22320, 21796, 37266]"

definition msg_ack_empty :: string where
  "msg_ack_empty = utf8 [25171, 26029, 30830, 35748, 30340, 21796, 37266, 35789, 21644, 30830, 35748, 25991, 26412, 19981, 33021, 20026, 31354]"

definition msg_no_ack :: string where
  "msg_no_ack = utf8 [35821, 38899, 20250, 35805, 24403, 21069, 19981, 33021, 25171, 26029, 24182, 30830, 35748]"

definition msg_speech_empty :: string where
  "msg_speech_empty = utf8 [31995, 32479, 25773, 25253, 25991, 26412, 19981, 33021, 20026, 31354]"

definition msg_no_system_speech :: string where
  "msg_no_system_speech = utf8 [35821, 38899, 20250, 35805, 24403, 21069, 19981, 33021, 25773, 25253, 31995, 32479, 35821, 38899]"

section \<open>Shared steps\<close>

definition Emit :: "string \<Rightarrow> string \<Rightarrow> session_program \<Rightarrow> session_program" where
  "Emit event detail p =
     Section (\<lambda>s. Leave s
       (if has_evidence s
        then Tell (Evidence \<lparr>vd_session_id = cfg_session_id (vs_config s), vd_generation = vs_generation s,
                             vd_event = event, vd_detail = detail\<rparr>) p
        else p))"

text \<open>\<open>++generation_; config_.generation = generation_; next_sequence_ = 0\<close>.\<close>

definition advance :: "VoiceSession \<Rightarrow> VoiceSession" where
  "advance s = s\<lparr>vs_generation := vs_generation s + 1,
                 vs_config := (vs_config s)\<lparr>cfg_generation := vs_generation s + 1\<rparr>, next_sequence := 0\<rparr>"

definition same_format :: "AudioFormat \<Rightarrow> AudioFormat \<Rightarrow> bool" where
  "same_format actual expected \<longleftrightarrow>
     af_codec actual = af_codec expected \<and> af_sample_rate_hz actual = af_sample_rate_hz expected \<and>
     af_channels actual = af_channels expected \<and> af_bits_per_sample actual = af_bits_per_sample expected \<and>
     af_frame_duration_ms actual = af_frame_duration_ms expected"

definition AcceptFrameLocked :: "VoiceSession \<Rightarrow> AudioFrame \<Rightarrow> bool" where
  "AcceptFrameLocked s frame \<longleftrightarrow>
     vs_state s = Session_kCapturing \<and> fr_generation frame = vs_generation s \<and> format_valid (fr_format frame) \<and>
     same_format (fr_format frame) (fm_capture (vs_formats s)) \<and> fr_payload frame \<noteq> [] \<and>
     length (fr_payload frame) \<le> kMaxPayloadBytes"

abbreviation fail :: "ErrorCode \<Rightarrow> string \<Rightarrow> session_program" where
  "fail c m \<equiv> Return (Some (Status_Error c m))"

abbreviation set_failed :: "VoiceSession \<Rightarrow> VoiceSession" where
  "set_failed s \<equiv> s\<lparr>vs_state := Session_kFailed\<rparr>"

section \<open>Starting\<close>

definition start_state :: "VoiceSessionConfig \<Rightarrow> VoiceSession \<Rightarrow> VoiceSession" where
  "start_state config s = advance
     (s\<lparr>vs_config := config, vs_formats := \<lparr>fm_capture = cfg_audio config, fm_playback = cfg_audio config\<rparr>,
        audio_ready := False, provider_capture_active := False, vs_state := Session_kStarting, response_armed := False,
        pending_local_wake_tts := False, local_wake_tts_active := False, first_tts_audio_pending := False,
        awaiting_final_asr := False, pending_local_wake_echo := [], interrupt_fence_pending := False\<rparr>)"

text \<open>From the second port call on: the input, then the output device, in the negotiated formats.\<close>

definition Start_open :: "CapabilityProfile \<Rightarrow> VoiceAudioFormats \<Rightarrow> session_program" where
  "Start_open profile negotiated =
     Update (\<lambda>s. s\<lparr>vs_formats := negotiated\<rparr>)
       (Tell (Input_SetAudioSink True)
         (Call (Input_Open (fm_capture negotiated)) (\<lambda>status.
            if \<not> status_ok status then
              Tell (Input_SetAudioSink False) (Tell (Provider_SetAudioSink False) (Call Provider_Disconnect (\<lambda>_.
                Update set_failed (Emit ''input_open_failed'' (message status) (Return (Some status))))))
            else
              Call (Output_Open (fm_playback negotiated)) (\<lambda>status.
                if \<not> status_ok status then
                  Tell (Input_SetAudioSink False) (Tell (Provider_SetAudioSink False) (Tell Input_Close (Call Provider_Disconnect (\<lambda>_.
                    Update set_failed (Emit ''output_open_failed'' (message status) (Return (Some status)))))))
                else
                  Update (\<lambda>s. s\<lparr>audio_ready := True, vs_state := Session_kReady\<rparr>)
                    (Emit ''ready'' (cp_provider_id profile) (Return (Some Status_Ok)))))))"

definition Start_connect :: "CapabilityProfile \<Rightarrow> session_program" where
  "Start_connect profile =
     Tell (Provider_SetAudioSink True)
       (Section (\<lambda>s. Leave s
         (Call (Provider_Connect (vs_config s)) (\<lambda>connected.
            if \<not> status_ok connected then
              Tell (Provider_SetAudioSink False) (Call Provider_Disconnect (\<lambda>_.
                Update set_failed (Emit ''provider_connect_failed'' (message connected) (Return (Some connected)))))
            else
              Query Provider_audio_formats (\<lambda>negotiated.
                if \<not> ok negotiated \<or> \<not> formats_valid (the (val negotiated)) then
                  Tell (Provider_SetAudioSink False) (Call Provider_Disconnect (\<lambda>_.
                    Update set_failed
                      (let failure = (if ok negotiated then Status_Error kInvalidArgument msg_formats_invalid else status negotiated)
                       in Emit ''audio_negotiation_failed'' (message failure) (Return (Some failure)))))
                else Start_open profile (the (val negotiated)))))))"

definition Start :: "CapabilityProfile \<Rightarrow> VoiceSessionConfig \<Rightarrow> session_program" where
  "Start profile config =
     (if cfg_session_id config = [] \<or> cfg_provider_id config = [] \<or> \<not> format_valid (cfg_audio config) \<or>
         cfg_hello_timeout_ms config = 0 \<or> cfg_vad_silence_ms config = 0 \<or> cfg_vad_silence_ms config > 5000
      then fail kInvalidArgument msg_session_config
      else if cp_provider_id profile \<noteq> cfg_provider_id config then fail kInvalidArgument msg_provider_mismatch
      else
        Section (\<lambda>s.
          if vs_state s \<noteq> Session_kStopped \<and> vs_state s \<noteq> Session_kFailed then Leave s (fail kConflict msg_session_started)
          else Leave (start_state config s) (Start_connect profile)))"

section \<open>Provider events\<close>

text \<open>What the first section of \<open>HandleEvent\<close> leaves in its local variables.\<close>

record EventOutcome =
  eo_stale :: "string option"
  eo_wake_echo :: bool
  eo_generation_changed :: bool
  eo_playback_aborted :: bool
  eo_fence_reached :: bool
  eo_stop_input :: bool
  eo_wake_started :: bool
  eo_wake_stopped :: bool
  eo_generation :: nat
  eo_wake_word :: string
  eo_text_response :: string
  eo_system_speech :: string

definition no_outcome :: EventOutcome where
  "no_outcome = \<lparr>eo_stale = None, eo_wake_echo = False, eo_generation_changed = False, eo_playback_aborted = False,
     eo_fence_reached = False, eo_stop_input = False, eo_wake_started = False, eo_wake_stopped = False, eo_generation = 0,
     eo_wake_word = [], eo_text_response = [], eo_system_speech = []\<rparr>"

definition on_disconnected :: "VoiceSession \<Rightarrow> VoiceSession \<times> EventOutcome" where
  "on_disconnected s =
     (let s = (advance s)\<lparr>vs_state := Session_kStarting, provider_capture_active := False, response_armed := False,
                pending_local_wake_tts := False, local_wake_tts_active := False, awaiting_final_asr := False,
                pending_local_wake_echo := [], interrupt_fence_pending := False, pending_interrupt_wake_word := [],
                pending_interrupt_text_response := [], pending_system_speech := []\<rparr>
      in (s, no_outcome\<lparr>eo_generation := vs_generation s, eo_generation_changed := True\<rparr>))"

definition on_asr_text :: "string \<Rightarrow> VoiceSession \<Rightarrow> VoiceSession \<times> EventOutcome" where
  "on_asr_text recognised s =
     (if pending_local_wake_echo s \<noteq> [] \<and> recognised = pending_local_wake_echo s
      then (s\<lparr>pending_local_wake_echo := []\<rparr>, no_outcome\<lparr>eo_wake_echo := True\<rparr>)
      else if vs_state s \<noteq> Session_kCapturing \<and> \<not> (vs_state s = Session_kReady \<and> awaiting_final_asr s)
      then (s, no_outcome\<lparr>eo_stale := Some ''asr_outside_capture''\<rparr>)
      else (s\<lparr>pending_local_wake_echo := [], response_armed := True, awaiting_final_asr := False\<rparr>, no_outcome))"

definition on_tts_started :: "VoiceSession \<Rightarrow> VoiceSession \<times> EventOutcome" where
  "on_tts_started s =
     (let local_wake_tts = pending_local_wake_tts s;
          armed = (response_armed s \<or> vs_state s = Session_kSpeaking)
      in if interrupt_fence_pending s \<or> \<not> armed \<or> vs_state s = Session_kStopped \<or>
            vs_state s = Session_kStarting \<or> vs_state s = Session_kFailed
         then (s, no_outcome\<lparr>eo_stale := Some (if interrupt_fence_pending s then ''tts_interrupt_fence'' else ''tts_not_armed'')\<rparr>)
         else
           (let outcome = no_outcome\<lparr>eo_stop_input := (vs_state s = Session_kCapturing)\<rparr>;
                s = s\<lparr>vs_state := Session_kSpeaking, first_tts_audio_pending := True\<rparr>
            in if local_wake_tts
               then (s\<lparr>pending_local_wake_tts := False, local_wake_tts_active := True\<rparr>, outcome\<lparr>eo_wake_started := True\<rparr>)
               else (s, outcome)))"

definition on_tts_stopped :: "bool \<Rightarrow> VoiceSession \<Rightarrow> VoiceSession \<times> EventOutcome" where
  "on_tts_stopped aborted s =
     (if interrupt_fence_pending s
      then (s\<lparr>interrupt_fence_pending := False, response_armed := False, pending_local_wake_tts := False,
              local_wake_tts_active := False, awaiting_final_asr := False, pending_interrupt_wake_word := [],
              pending_interrupt_text_response := [], pending_system_speech := []\<rparr>,
            no_outcome\<lparr>eo_wake_stopped := local_wake_tts_active s, eo_playback_aborted := True, eo_fence_reached := True,
              eo_wake_word := pending_interrupt_wake_word s, eo_text_response := pending_interrupt_text_response s,
              eo_system_speech := pending_system_speech s\<rparr>)
      else if aborted \<and> audio_ready s \<and> vs_state s = Session_kSpeaking
      then ((advance s)\<lparr>vs_state := Session_kReady, response_armed := False, pending_local_wake_tts := False,
              local_wake_tts_active := False\<rparr>,
            no_outcome\<lparr>eo_generation := vs_generation (advance s), eo_playback_aborted := True, eo_wake_stopped := local_wake_tts_active s\<rparr>)
      else if vs_state s = Session_kSpeaking
      then (s\<lparr>vs_state := Session_kReady, response_armed := False, pending_local_wake_tts := False, local_wake_tts_active := False\<rparr>,
            no_outcome\<lparr>eo_wake_stopped := local_wake_tts_active s\<rparr>)
      else (s, no_outcome\<lparr>eo_stale := Some ''tts_stop_without_speaking''\<rparr>))"

definition HandleEvent_section :: "VoiceEvent \<Rightarrow> VoiceSession \<Rightarrow> VoiceSession \<times> EventOutcome" where
  "HandleEvent_section event s =
     (if ev_generation event \<noteq> vs_generation s then (s, no_outcome\<lparr>eo_stale := Some ''generation_mismatch''\<rparr>)
      else if ev_kind event = Kind_kDisconnected \<and> audio_ready s \<and> vs_state s \<noteq> Session_kStopped \<and> vs_state s \<noteq> Session_kFailed
      then on_disconnected s
      else if ev_kind event = Kind_kAsrText then on_asr_text (ev_text event) s
      else if ev_kind event = Kind_kConnected \<and> audio_ready s \<and> vs_state s = Session_kStarting
      then (s\<lparr>vs_state := Session_kReady\<rparr>, no_outcome)
      else if ev_kind event = Kind_kTtsStarted then on_tts_started s
      else if ev_kind event = Kind_kTtsStopped then on_tts_stopped (ev_aborted event) s
      else (s, no_outcome))"

text \<open>
  The reports that follow, and their port calls; \<open>p\<close> is the rest of the method, which a failure to
  stop the input skips.
\<close>

definition report_tts_started :: "VoiceEvent \<Rightarrow> EventOutcome \<Rightarrow> session_program \<Rightarrow> session_program" where
  "report_tts_started event oc p =
     (let started = Emit ''tts_started'' (if eo_wake_started oc then ''local_wake_greeting'' else []) p
      in if eo_stop_input oc then
           Call Input_StopCapture (\<lambda>status.
             if \<not> status_ok status then
               Update (\<lambda>s. if vs_generation s = ev_generation event \<and> vs_state s = Session_kSpeaking then set_failed s else s)
                 (Emit ''tts_capture_stop_failed'' (message status) (Return None))
             else started)
         else started)"

definition HandleEvent_report :: "VoiceEvent \<Rightarrow> EventOutcome \<Rightarrow> session_program \<Rightarrow> session_program" where
  "HandleEvent_report event oc p =
     (if eo_stale oc \<noteq> None then Emit ''stale_event_dropped'' (the (eo_stale oc)) p
      else if eo_generation_changed oc then
        Tell (Provider_SetGeneration (eo_generation oc))
          (Emit ''transport_disconnected'' ''audio sending disabled until a new hello completes'' p)
      else if eo_playback_aborted oc then
        (let flush = Call Output_Flush (\<lambda>flush_status.
               Emit ''tts_aborted'' ''server abort invalidated buffered playback''
                 (if \<not> status_ok flush_status then Emit ''playback_flush_failed'' (message flush_status) p else p))
         in if \<not> eo_fence_reached oc then Tell (Provider_SetGeneration (eo_generation oc)) flush else flush)
      else if ev_kind event = Kind_kConnected then Emit ''transport_connected'' ''provider hello completed'' p
      else if eo_wake_echo oc then Emit ''wake_echo_suppressed'' [] p
      else if ev_kind event = Kind_kAsrText then Emit ''stt_text_received'' (ev_text event) p
      else if ev_kind event = Kind_kToolCall then Emit ''tool_call_received'' (ev_text event) p
      else if ev_kind event = Kind_kLlmEmotion then Emit ''llm_emotion'' (ev_text event) p
      else if ev_kind event = Kind_kTtsStarted then report_tts_started event oc p
      else if ev_kind event = Kind_kTtsSentenceStarted then
        Section (\<lambda>s. Leave s (if vs_state s = Session_kSpeaking then Emit ''tts_sentence_started'' (ev_text event) p else p))
      else if ev_kind event = Kind_kTtsStopped then Emit ''tts_stopped'' (if eo_wake_stopped oc then ''local_wake_greeting'' else []) p
      else if ev_kind event = Kind_kError then Emit ''provider_error'' (ev_text event) p
      else p)"

text \<open>Once the interrupted stream has ended: the confirmation or the system speech that waited for it.\<close>

definition HandleEvent_wake :: "EventOutcome \<Rightarrow> session_program \<Rightarrow> session_program" where
  "HandleEvent_wake oc p =
     (if eo_wake_word oc = [] then p
      else
        Section (\<lambda>s.
          if vs_state s \<noteq> Session_kReady \<or> \<not> audio_ready s then Leave s p
          else Leave (s\<lparr>response_armed := (eo_text_response oc \<noteq> [])\<rparr>)
            (Call (Provider_NotifyLocalWakeWord (eo_wake_word oc) (eo_text_response oc)) (\<lambda>status.
               if \<not> status_ok status then
                 Update (\<lambda>s. s\<lparr>response_armed := False, pending_local_wake_tts := False, local_wake_tts_active := False\<rparr>)
                   (Emit ''interrupt_ack_failed'' (message status) p)
               else Emit ''interrupt_ack_requested'' [] p))))"

definition HandleEvent_speech :: "EventOutcome \<Rightarrow> session_program \<Rightarrow> session_program" where
  "HandleEvent_speech oc p =
     (if eo_system_speech oc = [] then p
      else
        Section (\<lambda>s.
          if vs_state s \<noteq> Session_kReady \<or> \<not> audio_ready s then Leave s p
          else Leave (s\<lparr>response_armed := True\<rparr>)
            (Call (Provider_Speak (eo_system_speech oc)) (\<lambda>status.
               if \<not> status_ok status then
                 Update (\<lambda>s. s\<lparr>response_armed := False\<rparr>) (Emit ''system_speech_failed'' (message status) p)
               else Emit ''system_speech_requested'' ''interrupt_fence_reached'' p))))"

definition HandleEvent :: "VoiceEvent \<Rightarrow> session_program" where
  "HandleEvent event =
     Section (\<lambda>s. case HandleEvent_section event s of (s', oc) \<Rightarrow>
       Leave s' (HandleEvent_report event oc (HandleEvent_wake oc (HandleEvent_speech oc (Return None)))))"

section \<open>Capturing\<close>

fun mode_name :: "VoiceMode \<Rightarrow> string" where
  "mode_name Mode_kManual = ''manual''"
| "mode_name Mode_kAuto = ''auto''"
| "mode_name Mode_kRealtime = ''realtime''"

definition BeginProviderCapture :: session_program where
  "BeginProviderCapture =
     Section (\<lambda>s.
       if vs_state s \<noteq> Session_kReady then Leave s (fail kUnavailable msg_no_listen)
       else if provider_capture_active s then Leave s (Return (Some Status_Ok))
       else
         (let mode = cfg_mode (vs_config s) in
          Leave (s\<lparr>provider_capture_active := True\<rparr>)
            (Call (Provider_StartCapture mode) (\<lambda>status.
               if \<not> status_ok status then
                 Update (\<lambda>s. s\<lparr>provider_capture_active := False, response_armed := False, pending_local_wake_tts := False,
                              local_wake_tts_active := False, pending_local_wake_echo := []\<rparr>) (Return (Some status))
               else Emit ''provider_capture_started'' (mode_name mode) (Return (Some Status_Ok))))))"

definition capture_started :: "VoiceSession \<Rightarrow> VoiceSession" where
  "capture_started s = s\<lparr>vs_state := Session_kCapturing, next_sequence := 0, response_armed := False,
     pending_local_wake_tts := False, local_wake_tts_active := False, pending_local_wake_echo := [],
     vad_speech_seen := False, vad_silence_emitted := False, last_speech_at := 0, awaiting_final_asr := False\<rparr>"

definition BeginCapture_input :: "VoiceMode \<Rightarrow> session_program" where
  "BeginCapture_input mode =
     Call (Input_StartCapture mode) (\<lambda>input_status.
       if status_ok input_status then Update capture_started (Emit ''capture_started'' [] (Return (Some Status_Ok)))
       else
         Call Provider_StopCapture (\<lambda>rollback.
           Update (\<lambda>s. s\<lparr>provider_capture_active := False, response_armed := False, pending_local_wake_tts := False,
                        local_wake_tts_active := False, pending_local_wake_echo := []\<rparr>)
             (if \<not> status_ok rollback then
                Update set_failed (Emit ''capture_rollback_failed'' (message rollback) (Return (Some rollback)))
              else Return (Some input_status))))"

definition BeginCapture :: session_program where
  "BeginCapture =
     Section (\<lambda>s.
       if vs_state s \<noteq> Session_kReady then Leave s (fail kUnavailable msg_no_capture)
       else
         (let mode = cfg_mode (vs_config s) in
          if provider_capture_active s then Leave s (BeginCapture_input mode)
          else Leave (s\<lparr>provider_capture_active := True\<rparr>)
            (Call (Provider_StartCapture mode) (\<lambda>provider_status.
               if \<not> status_ok provider_status then
                 Update (\<lambda>s. s\<lparr>provider_capture_active := False\<rparr>) (Return (Some provider_status))
               else BeginCapture_input mode))))"

definition EndCapture :: session_program where
  "EndCapture =
     Section (\<lambda>s.
       if vs_state s \<noteq> Session_kCapturing
       then Leave s (if vs_state s = Session_kReady \<or> vs_state s = Session_kSpeaking then Return (Some Status_Ok)
                     else fail kUnavailable msg_not_capturing)
       else Leave s
         (Call Input_StopCapture (\<lambda>input_status. Call Provider_StopCapture (\<lambda>provider_status.
            if status_ok input_status \<and> status_ok provider_status then
              Update (\<lambda>s. s\<lparr>vs_state := Session_kReady, provider_capture_active := False, awaiting_final_asr := True\<rparr>)
                (Emit ''capture_stopped'' [] (Return (Some Status_Ok)))
            else if status_ok input_status then
              Section (\<lambda>s.
                (let s = (advance s)\<lparr>vs_state := Session_kReady, provider_capture_active := False, awaiting_final_asr := False\<rparr>
                 in Leave s (Tell (Provider_SetGeneration (vs_generation s)) (Emit ''capture_stopped'' [] (Return (Some Status_Ok))))))
            else
              Update set_failed
                (let failure = (if \<not> status_ok input_status then input_status else provider_status)
                 in Emit ''capture_stop_failed'' (message failure) (Return (Some failure)))))))"

section \<open>Audio\<close>

definition SubmitAudio :: "AudioFrame \<Rightarrow> session_program" where
  "SubmitAudio frame =
     Section (\<lambda>s.
       if \<not> AcceptFrameLocked s frame then Leave s (fail kInvalidArgument msg_frame_rejected)
       else if fr_sequence frame \<noteq> next_sequence s then Leave s (fail kConflict msg_frame_gap)
       else Leave s
         (Call (Provider_SendAudio frame) (\<lambda>status.
            if status_ok status then Update (\<lambda>s. s\<lparr>next_sequence := next_sequence s + 1\<rparr>) (Return (Some status))
            else Return (Some status))))"

text \<open>The samples of a payload, as \<open>int16_t\<close> in the byte order of the target; a last odd byte is ignored.\<close>

fun pcm_samples :: "8 word list \<Rightarrow> int list" where
  "pcm_samples (low # high # rest) = sint (word_of_int (uint low + 256 * uint high) :: 16 word) # pcm_samples rest"
| "pcm_samples _ = []"

definition frame_energy :: "8 word list \<Rightarrow> int" where
  "frame_energy payload =
     (let samples = pcm_samples payload; energy = sum_list (map (\<lambda>x. x * x) samples)
      in if length samples > 0 then energy div int (length samples) else 0)"

definition kSpeechEnterThreshold :: int where
  "kSpeechEnterThreshold = 300 * 300"

definition kSpeechExitThreshold :: int where
  "kSpeechExitThreshold = 180 * 180"

text \<open>The end-of-speech detector: the new state, whether speech began and whether the silence is reported now.\<close>

definition detect_speech :: "int \<Rightarrow> int \<Rightarrow> VoiceSession \<Rightarrow> VoiceSession \<times> bool \<times> bool" where
  "detect_speech rms now s =
     (if rms \<ge> kSpeechEnterThreshold \<or> vad_speech_seen s \<and> rms \<ge> kSpeechExitThreshold
      then (s\<lparr>vad_speech_seen := True, last_speech_at := now\<rparr>, \<not> vad_speech_seen s, False)
      else if vad_speech_seen s \<and> \<not> vad_silence_emitted s \<and> last_speech_at s > 0 \<and>
              now - last_speech_at s \<ge> int (cfg_vad_silence_ms (vs_config s)) * 1000000
      then (s\<lparr>vad_silence_emitted := True\<rparr>, False, True)
      else (s, False, False))"

definition HandleInputAudio :: "AudioFrame \<Rightarrow> int \<Rightarrow> session_program" where
  "HandleInputAudio frame now =
     Section (\<lambda>s.
       if vs_state s \<noteq> Session_kCapturing then Leave s (fail kUnavailable msg_no_send)
       else if \<not> format_valid (fr_format frame) \<or> \<not> same_format (fr_format frame) (fm_capture (vs_formats s)) \<or>
               fr_payload frame = [] \<or> length (fr_payload frame) > kMaxPayloadBytes
       then Leave s (fail kInvalidArgument msg_input_format)
       else
         (let generation = vs_generation s;
              sequence = next_sequence s;
              frame = frame\<lparr>fr_generation := generation, fr_sequence := sequence\<rparr>
          in case detect_speech (frame_energy (fr_payload frame)) now s of (s', speech_started, vad_silence) \<Rightarrow>
            (let send = Call (Provider_SendAudio frame) (\<lambda>status.
                   if status_ok status then
                     Update (\<lambda>s. if vs_state s = Session_kCapturing \<and> vs_generation s = generation \<and> next_sequence s = sequence
                                then s\<lparr>next_sequence := next_sequence s + 1\<rparr> else s) (Return (Some status))
                   else Return (Some status));
                 send = (if vad_silence then Emit ''vad_silence'' [] send else send);
                 send = (if speech_started then Emit ''speech_started'' [] send else send)
             in Leave s' send)))"

text \<open>The frame is handed to the output while the mutex is held.\<close>

definition HandleAudio :: "AudioFrame \<Rightarrow> session_program" where
  "HandleAudio frame =
     Section (\<lambda>s.
       if vs_state s \<noteq> Session_kSpeaking then Leave s (fail kUnavailable msg_no_playback)
       else if fr_generation frame \<noteq> vs_generation s \<or> \<not> same_format (fr_format frame) (fm_playback (vs_formats s)) \<or>
               fr_payload frame = [] \<or> length (fr_payload frame) > kMaxPayloadBytes
       then Leave s (fail kInvalidArgument msg_playback_foreign)
       else
         Ask (Output_Push frame) (\<lambda>status.
           if status_ok status \<and> first_tts_audio_pending s
           then Leave (s\<lparr>first_tts_audio_pending := False\<rparr>) (Emit ''tts_first_audio'' [] (Return (Some status)))
           else Leave s (Return (Some status))))"

definition ReportToolCallStarted :: session_program where
  "ReportToolCallStarted = Emit ''mcp_tool_started'' [] (Return None)"

definition ReportToolResult :: "string \<Rightarrow> bool \<Rightarrow> session_program" where
  "ReportToolResult summary success = Emit (if success then ''mcp_tool_result'' else ''mcp_tool_failed'') summary (Return None)"

section \<open>Speaking and interrupting\<close>

definition Speak :: "string \<Rightarrow> session_program" where
  "Speak speech =
     Section (\<lambda>s.
       if vs_state s \<noteq> Session_kReady \<or> speech = [] then Leave s (fail kUnavailable msg_no_speak)
       else Leave (s\<lparr>response_armed := True\<rparr>)
         (Call (Provider_Speak speech) (\<lambda>status.
            if \<not> status_ok status then Update (\<lambda>s. s\<lparr>response_armed := False\<rparr>) (Return (Some status))
            else Return (Some status))))"

definition NotifyLocalWakeWord :: "string \<Rightarrow> string \<Rightarrow> session_program" where
  "NotifyLocalWakeWord wake_word text_response =
     Section (\<lambda>s.
       if vs_state s \<noteq> Session_kReady \<or> wake_word = [] then Leave s (fail kUnavailable msg_no_wake)
       else
         Leave (s\<lparr>response_armed := True, pending_local_wake_tts := (text_response = []), local_wake_tts_active := False,
                  pending_local_wake_echo := (if text_response = [] then wake_word else [])\<rparr>)
           (Call (Provider_NotifyLocalWakeWord wake_word text_response) (\<lambda>status.
              if \<not> status_ok status then
                Update (\<lambda>s. s\<lparr>response_armed := False, pending_local_wake_tts := False, local_wake_tts_active := False,
                             pending_local_wake_echo := []\<rparr>) (Return (Some status))
              else Emit (if text_response = [] then ''local_wake_detect_requested'' else ''local_wake_ack_requested'') []
                     (Return (Some status)))))"

text \<open>What the three interruptions do in their first section; the arguments are what waits for the fence.\<close>

definition interrupted :: "bool \<Rightarrow> string \<Rightarrow> string \<Rightarrow> string \<Rightarrow> VoiceSession \<Rightarrow> VoiceSession" where
  "interrupted fence wake_word text_response speech s =
     (advance s)\<lparr>vs_state := Session_kReady, provider_capture_active := False, response_armed := False,
        pending_local_wake_tts := False, local_wake_tts_active := False, awaiting_final_asr := False,
        pending_local_wake_echo := [], interrupt_fence_pending := fence, pending_interrupt_wake_word := wake_word,
        pending_interrupt_text_response := text_response, pending_system_speech := speech\<rparr>"

definition call_if :: "bool \<Rightarrow> PortCall \<Rightarrow> (Status \<Rightarrow> session_program) \<Rightarrow> session_program" where
  "call_if b q k = (if b then Call q k else k Status_Ok)"

definition first_failure :: "Status list \<Rightarrow> Status" where
  "first_failure statuses = (case filter (\<lambda>v. \<not> status_ok v) statuses of [] \<Rightarrow> last statuses | v # _ \<Rightarrow> v)"

definition InterruptAndNotifyLocalWakeWord_now :: session_program where
  "InterruptAndNotifyLocalWakeWord_now =
     Section (\<lambda>s.
       Leave (s\<lparr>pending_interrupt_wake_word := [], pending_interrupt_text_response := [], response_armed := True\<rparr>)
         (Call (Provider_NotifyLocalWakeWord (pending_interrupt_wake_word s) (pending_interrupt_text_response s)) (\<lambda>status.
            if \<not> status_ok status then
              Update (\<lambda>s. s\<lparr>response_armed := False, pending_local_wake_tts := False, local_wake_tts_active := False\<rparr>)
                (Return (Some status))
            else Emit ''interrupt_ack_requested'' [] (Return (Some Status_Ok)))))"

definition InterruptAndNotifyLocalWakeWord :: "string \<Rightarrow> string \<Rightarrow> session_program" where
  "InterruptAndNotifyLocalWakeWord wake_word text_response =
     (if wake_word = [] \<or> text_response = [] then fail kInvalidArgument msg_ack_empty
      else
        Section (\<lambda>s.
          if vs_state s \<noteq> Session_kCapturing \<and> vs_state s \<noteq> Session_kSpeaking then Leave s (fail kUnavailable msg_no_ack)
          else
            (let capturing = (vs_state s = Session_kCapturing);
                 wait_for_old_tts_stop = (vs_state s = Session_kSpeaking);
                 s = interrupted wait_for_old_tts_stop wake_word text_response [] s
             in Leave s
               (Tell (Provider_SetGeneration (vs_generation s))
                 (call_if capturing Input_StopCapture (\<lambda>input_status.
                  Call (Provider_Abort ''user_interrupt'') (\<lambda>abort_status.
                  Call Output_Flush (\<lambda>flush_status.
                    if \<not> status_ok input_status \<or> \<not> status_ok abort_status \<or> \<not> status_ok flush_status then
                      Update (\<lambda>s. s\<lparr>interrupt_fence_pending := False, pending_interrupt_wake_word := [],
                                   pending_interrupt_text_response := [], pending_system_speech := [], response_armed := False,
                                   pending_local_wake_tts := False, local_wake_tts_active := False\<rparr>)
                        (Return (Some (first_failure [input_status, abort_status, flush_status])))
                    else
                      Emit ''interrupted'' ''old audio generation invalidated''
                        (if wait_for_old_tts_stop then Return (Some Status_Ok) else InterruptAndNotifyLocalWakeWord_now)))))))))"

definition Interrupt :: session_program where
  "Interrupt =
     Section (\<lambda>s.
       (let finalizing = (vs_state s = Session_kReady \<and> awaiting_final_asr s);
            provider_listening = provider_capture_active s
        in if vs_state s \<noteq> Session_kCapturing \<and> vs_state s \<noteq> Session_kSpeaking \<and> \<not> finalizing \<and> \<not> provider_listening
           then Leave s (Return (Some Status_Ok))
           else
             (let capturing = (vs_state s = Session_kCapturing);
                  needs_interrupt_fence = (vs_state s = Session_kSpeaking);
                  s = interrupted needs_interrupt_fence [] [] [] s
              in Leave s
                (Tell (Provider_SetGeneration (vs_generation s))
                  (call_if capturing Input_StopCapture (\<lambda>input_status.
                   Call (Provider_Abort ''user_interrupt'') (\<lambda>abort_status.
                   Call Output_Flush (\<lambda>flush_status.
                     Emit ''interrupted'' ''old audio generation invalidated''
                       (if \<not> status_ok input_status then Return (Some input_status)
                        else if \<not> status_ok abort_status then Return (Some abort_status)
                        else if \<not> needs_interrupt_fence then
                          Emit ''interrupt_fence_reached'' ''no active playback'' (Return (Some flush_status))
                        else Return (Some flush_status))))))))))"

definition InterruptAndSpeak_now :: session_program where
  "InterruptAndSpeak_now =
     Section (\<lambda>s.
       Leave (s\<lparr>pending_system_speech := [], response_armed := True\<rparr>)
         (Call (Provider_Speak (pending_system_speech s)) (\<lambda>status.
            if \<not> status_ok status then Update (\<lambda>s. s\<lparr>response_armed := False\<rparr>) (Return (Some status))
            else Emit ''system_speech_requested'' ''immediate'' (Return (Some Status_Ok)))))"

definition InterruptAndSpeak :: "string \<Rightarrow> session_program" where
  "InterruptAndSpeak speech =
     (if speech = [] then fail kInvalidArgument msg_speech_empty
      else
        Section (\<lambda>s.
          if vs_state s \<noteq> Session_kReady \<and> vs_state s \<noteq> Session_kCapturing \<and> vs_state s \<noteq> Session_kSpeaking
          then Leave s (fail kUnavailable msg_no_system_speech)
          else
            (let capturing = (vs_state s = Session_kCapturing);
                 wait_for_old_tts_stop = (vs_state s = Session_kSpeaking);
                 provider_listening = provider_capture_active s;
                 s = interrupted wait_for_old_tts_stop [] [] speech s
             in Leave s
               (Tell (Provider_SetGeneration (vs_generation s))
                 (call_if capturing Input_StopCapture (\<lambda>input_status.
                  call_if (provider_listening \<or> wait_for_old_tts_stop) (Provider_Abort ''local_system_speech'') (\<lambda>abort_status.
                  Call Output_Flush (\<lambda>flush_status.
                    if \<not> status_ok input_status \<or> \<not> status_ok abort_status \<or> \<not> status_ok flush_status then
                      Update (\<lambda>s. s\<lparr>interrupt_fence_pending := False, pending_system_speech := [], response_armed := False\<rparr>)
                        (Return (Some (first_failure [input_status, abort_status, flush_status])))
                    else
                      Emit ''interrupted'' ''old audio generation invalidated for local system speech''
                        (if wait_for_old_tts_stop then Return (Some Status_Ok) else InterruptAndSpeak_now)))))))))"

definition Stop :: session_program where
  "Stop =
     Section (\<lambda>s.
       if vs_state s = Session_kStopped then Leave s (Return (Some Status_Ok))
       else
         (let s = (advance s)\<lparr>audio_ready := False, provider_capture_active := False, vs_state := Session_kStopped,
                response_armed := False, pending_local_wake_tts := False, local_wake_tts_active := False,
                awaiting_final_asr := False, pending_local_wake_echo := [], interrupt_fence_pending := False,
                pending_interrupt_wake_word := [], pending_interrupt_text_response := [], pending_system_speech := []\<rparr>
          in Leave s
            (Tell (Provider_SetGeneration (vs_generation s)) (Tell (Provider_SetAudioSink False)
              (Call Provider_Disconnect (\<lambda>provider_status.
                 Tell (Input_SetAudioSink False) (Tell Input_Close (Tell Output_Close
                   (if \<not> status_ok provider_status then
                      Update set_failed (Emit ''stop_disconnect_failed'' (message provider_status) (Return (Some provider_status)))
                    else Emit ''stopped'' [] (Return (Some provider_status)))))))))))"

section \<open>The session as an object\<close>

datatype VoiceOp =
    Op_Start VoiceSessionConfig
  | Op_BeginProviderCapture
  | Op_BeginCapture
  | Op_EndCapture
  | Op_SubmitAudio AudioFrame
  | Op_HandleInputAudio AudioFrame int
  | Op_Speak string
  | Op_NotifyLocalWakeWord string string
  | Op_InterruptAndNotifyLocalWakeWord string string
  | Op_Interrupt
  | Op_InterruptAndSpeak string
  | Op_Stop

datatype VoiceCallback =
    Cb_HandleEvent VoiceEvent
  | Cb_HandleAudio AudioFrame
  | Cb_ReportToolCallStarted
  | Cb_ReportToolResult string bool

fun session_op :: "CapabilityProfile \<Rightarrow> VoiceOp \<Rightarrow> session_program" where
  "session_op profile (Op_Start config) = Start profile config"
| "session_op profile Op_BeginProviderCapture = BeginProviderCapture"
| "session_op profile Op_BeginCapture = BeginCapture"
| "session_op profile Op_EndCapture = EndCapture"
| "session_op profile (Op_SubmitAudio frame) = SubmitAudio frame"
| "session_op profile (Op_HandleInputAudio frame now) = HandleInputAudio frame now"
| "session_op profile (Op_Speak speech) = Speak speech"
| "session_op profile (Op_NotifyLocalWakeWord w t) = NotifyLocalWakeWord w t"
| "session_op profile (Op_InterruptAndNotifyLocalWakeWord w t) = InterruptAndNotifyLocalWakeWord w t"
| "session_op profile Op_Interrupt = Interrupt"
| "session_op profile (Op_InterruptAndSpeak speech) = InterruptAndSpeak speech"
| "session_op profile Op_Stop = Stop"

fun session_callback :: "VoiceCallback \<Rightarrow> session_program" where
  "session_callback (Cb_HandleEvent event) = HandleEvent event"
| "session_callback (Cb_HandleAudio frame) = HandleAudio frame"
| "session_callback Cb_ReportToolCallStarted = ReportToolCallStarted"
| "session_callback (Cb_ReportToolResult summary success) = ReportToolResult summary success"

end
