(* ===== verification/Voice_Session_Correctness.thy ===== *)
theory Voice_Session_Correctness
  imports Voice_Session
begin

text \<open>
  The voice session under every interleaving of its life-cycle operations and callbacks: the
  invariant of its state, what one critical section may change, which calls its ports may see, and
  the bound on the steps of every method.
\<close>

section \<open>The contract of the session\<close>

definition session_inv :: "VoiceSession \<Rightarrow> bool" where
  "session_inv s \<longleftrightarrow>
     cfg_generation (vs_config s) = vs_generation s \<and>
     (vs_state s \<in> {Session_kReady, Session_kCapturing, Session_kSpeaking} \<longrightarrow> audio_ready s) \<and>
     (provider_capture_active s \<longrightarrow> audio_ready s) \<and>
     (audio_ready s \<longrightarrow> formats_valid (vs_formats s)) \<and>
     (vad_silence_emitted s \<longrightarrow> vad_speech_seen s) \<and>
     (vs_state s = Session_kStopped \<longrightarrow>
        \<not> audio_ready s \<and> \<not> response_armed s \<and> \<not> interrupt_fence_pending s)"

text \<open>Playback begins only for a turn that asked for it, and never while an interrupted stream has not ended.\<close>

definition playback_rule :: "VoiceSession \<Rightarrow> VoiceSession \<Rightarrow> bool" where
  "playback_rule s s' \<longleftrightarrow> (vs_state s' = Session_kSpeaking \<longrightarrow> vs_state s = Session_kSpeaking \<or>
     response_armed s \<and> \<not> interrupt_fence_pending s \<and> vs_state s \<in> {Session_kReady, Session_kCapturing})"

definition callback_keeps :: "VoiceSession \<Rightarrow> VoiceSession \<Rightarrow> bool" where
  "callback_keeps s s' \<longleftrightarrow> audio_ready s' = audio_ready s \<and> vs_formats s' = vs_formats s \<and> vs_generation s \<le> vs_generation s'"

definition later :: "VoiceSession \<Rightarrow> VoiceSession \<Rightarrow> bool" where
  "later s s' \<longleftrightarrow> vs_generation s \<le> vs_generation s'"

definition callback_change :: "VoiceSession \<Rightarrow> VoiceSession \<Rightarrow> bool" where
  "callback_change s s' \<longleftrightarrow> callback_keeps s s' \<and> playback_rule s s'"

definition op_change :: "VoiceSession \<Rightarrow> VoiceSession \<Rightarrow> bool" where
  "op_change s s' \<longleftrightarrow> later s s' \<and> (vs_state s' = Session_kSpeaking \<longrightarrow> vs_state s = Session_kSpeaking)"

text \<open>
  The calls of the ports: a frame is played only in the speaking state, in the negotiated format and
  with the current generation; a frame sent, a generation announced or a piece of evidence carries
  no later generation than the session's; devices are opened in valid formats.
\<close>

fun call_allowed :: "VoiceSession \<Rightarrow> PortCall \<Rightarrow> bool" where
  "call_allowed s (Output_Push f) \<longleftrightarrow> vs_state s = Session_kSpeaking \<and> fr_generation f = vs_generation s \<and>
     same_format (fr_format f) (fm_playback (vs_formats s)) \<and> fr_payload f \<noteq> [] \<and> length (fr_payload f) \<le> kMaxPayloadBytes"
| "call_allowed s (Provider_SendAudio f) \<longleftrightarrow> fr_generation f \<le> vs_generation s \<and> format_valid (fr_format f) \<and>
     same_format (fr_format f) (fm_capture (vs_formats s)) \<and> fr_payload f \<noteq> [] \<and> length (fr_payload f) \<le> kMaxPayloadBytes"
| "call_allowed s (Provider_SetGeneration g) \<longleftrightarrow> g \<le> vs_generation s"
| "call_allowed s (Provider_Connect c) \<longleftrightarrow> cfg_generation c \<le> vs_generation s"
| "call_allowed s (Evidence e) \<longleftrightarrow> vd_generation e \<le> vs_generation s"
| "call_allowed s (Input_Open f) \<longleftrightarrow> format_valid f"
| "call_allowed s (Output_Open f) \<longleftrightarrow> format_valid f"
| "call_allowed s _ \<longleftrightarrow> True"

abbreviation op_ok :: "session_program \<Rightarrow> VoiceSession \<Rightarrow> bool" where
  "op_ok \<equiv> checked session_inv callback_keeps op_change call_allowed"

abbreviation callback_ok :: "session_program \<Rightarrow> VoiceSession \<Rightarrow> bool" where
  "callback_ok \<equiv> checked session_inv later callback_change call_allowed"

lemmas change_defs = op_change_def callback_change_def callback_keeps_def later_def playback_rule_def

lemma changes_refl:
  "reflp op_change" "reflp callback_change" "reflp callback_keeps" "reflp later"
  by (auto simp: change_defs intro!: reflpI)

lemma relies_trans: "transp callback_keeps" "transp later"
  by (auto simp: change_defs intro!: transpI)

lemma checked_Emit:
  assumes "reflp G" "\<And>s s'. R s s' \<Longrightarrow> vs_generation s \<le> vs_generation s'"
    and "\<And>s'. R s s' \<Longrightarrow> session_inv s' \<Longrightarrow> checked session_inv R G call_allowed p s'"
  shows "checked session_inv R G call_allowed (Emit e d p) s"
  using assms by (simp add: Emit_def reflpD)

lemma op_ok_Emit:
  "(\<And>s'. callback_keeps s s' \<Longrightarrow> session_inv s' \<Longrightarrow> op_ok p s') \<Longrightarrow> op_ok (Emit e d p) s"
  by (rule checked_Emit) (simp_all add: changes_refl callback_keeps_def)

lemma callback_ok_Emit:
  "(\<And>s'. later s s' \<Longrightarrow> session_inv s' \<Longrightarrow> callback_ok p s') \<Longrightarrow> callback_ok (Emit e d p) s"
  by (rule checked_Emit) (simp_all add: changes_refl later_def)

lemma advance_simps [simp]:
  "vs_generation (advance s) = vs_generation s + 1" "cfg_generation (vs_config (advance s)) = vs_generation s + 1"
  "vs_state (advance s) = vs_state s" "audio_ready (advance s) = audio_ready s" "vs_formats (advance s) = vs_formats s"
  "vad_silence_emitted (advance s) = vad_silence_emitted s" "vad_speech_seen (advance s) = vad_speech_seen s"
  "response_armed (advance s) = response_armed s" "interrupt_fence_pending (advance s) = interrupt_fence_pending s"
  "provider_capture_active (advance s) = provider_capture_active s"
  by (simp_all add: advance_def)

section \<open>Life-cycle operations\<close>

lemmas op_rules = checked_Update session_inv_def change_defs Let_def

lemma Start_open_ok:
  assumes "\<not> audio_ready s" "formats_valid negotiated"
  shows "op_ok (Start_open profile negotiated) s"
  using assms by (auto simp: Start_open_def op_rules formats_valid_def intro!: op_ok_Emit)

lemma Start_connect_ok:
  assumes "\<not> audio_ready s"
  shows "op_ok (Start_connect profile) s"
  using assms by (auto simp: Start_connect_def op_rules intro!: op_ok_Emit Start_open_ok)

lemma Start_ok: "op_ok (Start profile config) s"
  by (auto simp: Start_def start_state_def op_rules intro!: Start_connect_ok)

lemma BeginProviderCapture_ok: "op_ok BeginProviderCapture s"
  by (auto simp: BeginProviderCapture_def op_rules intro!: op_ok_Emit)

lemma BeginCapture_input_ok: "audio_ready s \<Longrightarrow> op_ok (BeginCapture_input mode) s"
  by (auto simp: BeginCapture_input_def capture_started_def op_rules intro!: op_ok_Emit)

lemma BeginCapture_ok: "op_ok BeginCapture s"
  by (auto simp: BeginCapture_def op_rules intro!: BeginCapture_input_ok)

lemma EndCapture_ok: "op_ok EndCapture s"
  by (auto simp: EndCapture_def op_rules intro!: op_ok_Emit)

lemma SubmitAudio_ok: "op_ok (SubmitAudio frame) s"
  by (auto simp: SubmitAudio_def AcceptFrameLocked_def op_rules)

lemma detect_speech_cases:
  "fst (detect_speech rms now s) = s\<lparr>vad_speech_seen := True, last_speech_at := now\<rparr> \<or>
   fst (detect_speech rms now s) = s\<lparr>vad_silence_emitted := True\<rparr> \<and> vad_speech_seen s \<or> fst (detect_speech rms now s) = s"
  by (simp add: detect_speech_def)

lemma detect_speech_keeps:
  "session_inv s \<Longrightarrow> session_inv (fst (detect_speech rms now s))" "op_change s (fst (detect_speech rms now s))"
  "vs_generation (fst (detect_speech rms now s)) = vs_generation s" "vs_formats (fst (detect_speech rms now s)) = vs_formats s"
  using detect_speech_cases [of rms now s] by (elim disjE; simp add: op_rules)+

lemma send_ok:
  assumes "fr_generation f \<le> vs_generation s" "format_valid (fr_format f)" "same_format (fr_format f) (fm_capture (vs_formats s))"
    "fr_payload f \<noteq> []" "length (fr_payload f) \<le> kMaxPayloadBytes"
  shows "op_ok (Call (Provider_SendAudio f) (\<lambda>status.
    if status_ok status then
      Update (\<lambda>s. if vs_state s = Session_kCapturing \<and> vs_generation s = g \<and> next_sequence s = n
                  then s\<lparr>next_sequence := next_sequence s + 1\<rparr> else s) (Return (Some status))
    else Return (Some status))) s"
  using assms by (auto simp: op_rules)

lemma op_change_self: "op_change s s"
  by (simp add: change_defs)

lemma HandleInputAudio_ok: "op_ok (HandleInputAudio frame now) s"
  by (auto simp: HandleInputAudio_def Let_def case_prod_beta detect_speech_keeps callback_keeps_def op_change_self simp del: checked.simps(3)
      intro!: op_ok_Emit send_ok)

lemma Speak_ok: "op_ok (Speak speech) s"
  by (auto simp: Speak_def op_rules)

lemma NotifyLocalWakeWord_ok: "op_ok (NotifyLocalWakeWord w t) s"
  by (auto simp: NotifyLocalWakeWord_def op_rules intro!: op_ok_Emit)

lemma InterruptAndNotifyLocalWakeWord_ok: "op_ok (InterruptAndNotifyLocalWakeWord w t) s"
  by (auto simp: InterruptAndNotifyLocalWakeWord_def InterruptAndNotifyLocalWakeWord_now_def interrupted_def call_if_def op_rules
      intro!: op_ok_Emit)

lemma Interrupt_ok: "op_ok Interrupt s"
  by (auto simp: Interrupt_def interrupted_def call_if_def op_rules intro!: op_ok_Emit)

lemma InterruptAndSpeak_ok: "op_ok (InterruptAndSpeak speech) s"
  by (auto simp: InterruptAndSpeak_def InterruptAndSpeak_now_def interrupted_def call_if_def op_rules intro!: op_ok_Emit)

lemma Stop_ok: "op_ok Stop s"
  by (auto simp: Stop_def op_rules intro!: op_ok_Emit)

lemma session_op_ok: "op_ok (session_op profile op) s"
  by (cases op) (simp_all only: session_op.simps Start_ok BeginProviderCapture_ok BeginCapture_ok EndCapture_ok SubmitAudio_ok
      HandleInputAudio_ok Speak_ok NotifyLocalWakeWord_ok InterruptAndNotifyLocalWakeWord_ok Interrupt_ok InterruptAndSpeak_ok Stop_ok)

section \<open>Callbacks\<close>

lemma callback_change_self: "callback_change s s"
  by (simp add: change_defs)

definition outcome_ok :: "VoiceSession \<Rightarrow> VoiceSession \<times> EventOutcome \<Rightarrow> bool" where
  "outcome_ok s r \<longleftrightarrow> session_inv (fst r) \<and> callback_change s (fst r) \<and> eo_generation (snd r) \<le> vs_generation (fst r)"

lemma on_disconnected_ok: "session_inv s \<Longrightarrow> audio_ready s \<Longrightarrow> outcome_ok s (on_disconnected s)"
  by (simp add: outcome_ok_def on_disconnected_def op_rules)

lemma on_asr_text_ok: "session_inv s \<Longrightarrow> outcome_ok s (on_asr_text t s)"
  by (auto simp: outcome_ok_def on_asr_text_def no_outcome_def op_rules)

lemma on_tts_started_ok: "session_inv s \<Longrightarrow> outcome_ok s (on_tts_started s)"
  by (cases "vs_state s") (simp_all add: outcome_ok_def on_tts_started_def no_outcome_def op_rules, blast)

lemma on_tts_stopped_ok: "session_inv s \<Longrightarrow> outcome_ok s (on_tts_stopped a s)"
  by (cases "vs_state s") (simp_all add: outcome_ok_def on_tts_stopped_def no_outcome_def op_rules, blast)

lemma no_change_ok: "session_inv s \<Longrightarrow> eo_generation oc = 0 \<Longrightarrow> outcome_ok s (s, oc)"
  by (simp add: outcome_ok_def callback_change_self)

lemma reconnected_ok:
  "session_inv s \<Longrightarrow> audio_ready s \<Longrightarrow> vs_state s = Session_kStarting \<Longrightarrow> outcome_ok s (s\<lparr>vs_state := Session_kReady\<rparr>, no_outcome)"
  by (simp add: outcome_ok_def no_outcome_def op_rules)

lemma HandleEvent_section_ok: "session_inv s \<Longrightarrow> outcome_ok s (HandleEvent_section event s)"
  unfolding HandleEvent_section_def
  by (simp add: on_disconnected_ok on_asr_text_ok on_tts_started_ok on_tts_stopped_ok no_change_ok reconnected_ok no_outcome_def
      [THEN arg_cong [of _ _ eo_generation]])

lemma HandleEvent_speech_ok: "(\<And>s. callback_ok p s) \<Longrightarrow> callback_ok (HandleEvent_speech oc p) s"
  by (auto simp: HandleEvent_speech_def op_rules intro!: callback_ok_Emit)

lemma HandleEvent_wake_ok: "(\<And>s. callback_ok p s) \<Longrightarrow> callback_ok (HandleEvent_wake oc p) s"
  by (auto simp: HandleEvent_wake_def op_rules intro!: callback_ok_Emit)

lemma report_tts_started_ok: "(\<And>s. callback_ok p s) \<Longrightarrow> callback_ok (report_tts_started event oc p) s"
  by (auto simp: report_tts_started_def op_rules intro!: callback_ok_Emit)

lemma HandleEvent_report_ok:
  assumes p: "\<And>s. callback_ok p s" and g: "eo_generation oc \<le> vs_generation s"
  shows "callback_ok (HandleEvent_report event oc p) s"
proof -
  have e: "callback_ok (Emit e d p) s" for e d s by (rule callback_ok_Emit) (rule p)
  have e2: "callback_ok (Emit e d (if b then Emit e' d' p else p)) s" for b e d e' d' s
    by (rule callback_ok_Emit) (simp add: e p)
  have g': "later s s' \<Longrightarrow> eo_generation oc \<le> vs_generation s'" for s' using g by (simp add: later_def)
  show ?thesis unfolding HandleEvent_report_def Let_def
    by (simp add: e e2 p g' report_tts_started_ok callback_change_self)
qed

lemma HandleEvent_ok: "callback_ok (HandleEvent event) s"
  using HandleEvent_section_ok
  by (auto simp: HandleEvent_def case_prod_beta outcome_ok_def intro!: HandleEvent_report_ok HandleEvent_wake_ok HandleEvent_speech_ok)

lemma HandleAudio_ok: "callback_ok (HandleAudio frame) s"
  by (auto simp: HandleAudio_def op_rules intro!: callback_ok_Emit)

lemma session_callback_ok: "callback_ok (session_callback c) s"
  by (cases c) (auto simp: ReportToolCallStarted_def ReportToolResult_def HandleEvent_ok HandleAudio_ok intro: callback_ok_Emit)

section \<open>Bounds on the steps\<close>

lemma within_mono:
  fixes p :: "('s, 'q, 'v, 'r) program" and c :: "('s, 'q, 'v, 'r) critical"
  shows "within p m \<Longrightarrow> m \<le> n \<Longrightarrow> within p n" and "critical_within c m \<Longrightarrow> m \<le> n \<Longrightarrow> critical_within c n"
proof (induction p and c arbitrary: m n and m n)
qed (auto, (metis diff_le_mono rangeI)+)

lemma within_Emit: "2 \<le> n \<Longrightarrow> within p (n - 2) \<Longrightarrow> within (Emit e d p) n"
  using within_mono(1) [of p "n - 2" "n - 1"] by (simp add: Emit_def numeral_2_eq_2)

lemma within_call_if: "(\<And>v. within (k v) (n - 1)) \<Longrightarrow> 0 < n \<Longrightarrow> within (call_if b q k) n"
  using within_mono(1) [of "k Status_Ok" "n - 1" n] by (simp add: call_if_def)

lemmas within_rules = within_Emit within_call_if

lemma session_op_within: "within (session_op profile op) 16"
proof (cases op)
  case (Op_Start config)
  then show ?thesis by (auto simp: Start_def Start_connect_def Start_open_def Let_def intro!: within_rules)
next
  case (Op_InterruptAndNotifyLocalWakeWord w t)
  then show ?thesis
    by (auto simp: InterruptAndNotifyLocalWakeWord_def InterruptAndNotifyLocalWakeWord_now_def Let_def intro!: within_rules)
next
  case (Op_InterruptAndSpeak t)
  then show ?thesis by (auto simp: InterruptAndSpeak_def InterruptAndSpeak_now_def Let_def intro!: within_rules)
next
  case (Op_HandleInputAudio frame now)
  then show ?thesis by (auto simp: HandleInputAudio_def Let_def case_prod_beta intro!: within_rules)
qed (auto simp: BeginProviderCapture_def BeginCapture_def BeginCapture_input_def EndCapture_def SubmitAudio_def Speak_def
    NotifyLocalWakeWord_def Interrupt_def Stop_def Let_def intro!: within_rules)

lemma HandleEvent_rest_within:
  "within p n \<Longrightarrow> within (HandleEvent_speech oc p) (n + 5)" "within p n \<Longrightarrow> within (HandleEvent_wake oc p) (n + 5)"
  "within p n \<Longrightarrow> within (HandleEvent_report event oc p) (n + 6)"
proof -
  assume p: "within p n"
  have p': "within p m" if "n \<le> m" for m using within_mono(1) [OF p that] .
  show "within (HandleEvent_speech oc p) (n + 5)" "within (HandleEvent_wake oc p) (n + 5)"
    by (auto simp: HandleEvent_speech_def HandleEvent_wake_def p' intro!: within_rules)
  show "within (HandleEvent_report event oc p) (n + 6)"
  proof -
    have e: "within (Emit e d p) m" if "n + 2 \<le> m" for e d m by (rule within_Emit) (use that p' in simp_all)
    have e2: "within (Emit e d (if b then Emit e' d' p else p)) m" if "n + 4 \<le> m" for b e d e' d' m
      by (rule within_Emit) (use that in \<open>simp_all add: e p'\<close>)
    have r: "within (Emit e d (Return None)) m" if "2 \<le> m" for e d m by (rule within_Emit) (use that in simp_all)
    show ?thesis unfolding HandleEvent_report_def report_tts_started_def Let_def by (simp add: e e2 r p')
  qed
qed

lemma session_callback_within: "within (session_callback c) 17"
proof (cases c)
  case (Cb_HandleEvent event)
  have "within (HandleEvent_report event oc (HandleEvent_wake oc (HandleEvent_speech oc (Return None)))) (0 + 5 + 5 + 6)" for oc
    by (intro HandleEvent_rest_within) simp
  then show ?thesis by (simp add: Cb_HandleEvent HandleEvent_def case_prod_beta)
qed (auto simp: HandleAudio_def ReportToolCallStarted_def ReportToolResult_def intro!: within_rules)

section \<open>The session meets the contract\<close>

interpretation voice_session: concurrent_object "session_op profile" session_callback session_inv op_change callback_change
  callback_keeps later call_allowed 16 17 for profile
  by unfold_locales
    (auto simp: changes_refl relies_trans session_op_ok session_callback_ok session_op_within session_callback_within change_defs)

lemma new_session_inv: "session_inv (new_session evidence)"
  by (simp add: new_session_def session_inv_def default_config_def)

abbreviation session_run ::
  "CapabilityProfile \<Rightarrow> bool \<Rightarrow> (VoiceOp, VoiceCallback) move list \<Rightarrow> (VoiceSession, PortCall, VoiceAudioFormats Result, Status option) system \<Rightarrow> bool" where
  "session_run profile evidence \<equiv> system_run (session_op profile) session_callback (idle_system (new_session evidence))"

lemmas session_run_from = voice_session.run_ok [OF _ voice_session.idle_ok [OF new_session_inv]]

section \<open>Properties\<close>

subsection \<open>The state\<close>

text \<open>
  C3. In every interleaving of operations and callbacks, with ports that answer anything at any
  time: the configuration carries the session's generation, the session is ready, capturing,
  speaking or listening at the provider only with its devices open and a valid negotiated format,
  silence is reported only after speech, and a stopped session is not armed and waits for nothing;
  and the next step, whatever it is, starts playback only if the turn was armed and no interrupted
  stream is still to end.
\<close>

theorem session_invariant:
  assumes run: "session_run profile evidence moves \<sigma>"
  shows "session_inv (obj \<sigma>) \<and>
    (\<forall>m \<tau>. system_move (session_op profile) session_callback \<sigma> m \<tau> \<longrightarrow>
       playback_rule (obj \<sigma>) (obj \<tau>) \<and> vs_generation (obj \<sigma>) \<le> vs_generation (obj \<tau>))"
proof (intro conjI allI impI)
  show "session_inv (obj \<sigma>)" by (rule voice_session.run_invariant(1) [OF run new_session_inv])
next
  fix m \<tau>
  assume "system_move (session_op profile) session_callback \<sigma> m \<tau>"
  from voice_session.run_change [OF run new_session_inv this]
  show "playback_rule (obj \<sigma>) (obj \<tau>)" "vs_generation (obj \<sigma>) \<le> vs_generation (obj \<tau>)"
    by (auto simp: change_defs)
qed

text \<open>A schedule in which a session is started and a first frame is played, every port answering \<open>Ok\<close>.\<close>

definition sample_formats :: VoiceAudioFormats where
  "sample_formats = \<lparr>fm_capture = default_format, fm_playback = default_format\<rparr>"

definition sample_config :: VoiceSessionConfig where
  "sample_config = default_config\<lparr>cfg_session_id := ''s'', cfg_provider_id := ''p''\<rparr>"

definition sample_profile :: CapabilityProfile where
  "sample_profile = \<lparr>cp_provider_id = ''p'', cp_capabilities = []\<rparr>"

definition sample_event :: "VoiceEventKind \<Rightarrow> nat \<Rightarrow> VoiceEvent" where
  "sample_event kind generation = \<lparr>ev_kind = kind, ev_generation = generation, ev_text = [], ev_aborted = False\<rparr>"

definition downlink_frame :: "nat \<Rightarrow> AudioFrame" where
  "downlink_frame generation = \<lparr>fr_generation = generation, fr_sequence = 0, fr_format = default_format, fr_payload = [1, 2]\<rparr>"

definition sample_schedule ::
  "(VoiceOp, VoiceCallback) move list \<Rightarrow> (VoiceSession, PortCall, VoiceAudioFormats Result, Status option) system option" where
  "sample_schedule moves = schedule (session_op sample_profile) session_callback Status_Ok (Success sample_formats)
     (idle_system (new_session False)) moves"

lemma step_Emit [simp]:
  "step_program a v s (Emit event detail p) = Some ([], s,
     if has_evidence s then Tell (Evidence \<lparr>vd_session_id = cfg_session_id (vs_config s), vd_generation = vs_generation s,
                                          vd_event = event, vd_detail = detail\<rparr>) p else p)"
  by (simp add: Emit_def)

lemma Emit_cong: "Emit event detail p = Emit event detail p"
  by (rule refl)

lemmas sample_defs = sample_schedule_def sample_formats_def sample_config_def sample_profile_def sample_event_def downlink_frame_def
  default_format_def default_config_def new_session_def idle_system_def same_format_def format_valid_def formats_valid_def
  kMaxPayloadBytes_def advance_def no_outcome_def

lemmas session_congs = program_congs Emit_cong

lemma sample_schedule_run: "sample_schedule moves = Some \<sigma> \<Longrightarrow> session_run sample_profile False moves \<sigma>"
  unfolding sample_schedule_def by (rule schedule_run)

definition start_moves :: "(VoiceOp, VoiceCallback) move list" where
  "start_moves = [Begin (Op_Start sample_config), Work, Work, Work, Work, Work, Work, Work, Work, Work, Work, Work, Finish]"

definition speak_moves :: "(VoiceOp, VoiceCallback) move list" where
  "speak_moves = [Begin (Op_Speak ''hi''), Work, Work, Finish, Arrive (Cb_HandleEvent (sample_event Kind_kTtsStarted 1)),
     Arrive (Cb_HandleAudio (downlink_frame 1)), React 0, React 1, React 0]"

lemmas session_eval = sample_defs Start_def start_state_def Start_connect_def Start_open_def Speak_def HandleEvent_def
  HandleEvent_section_def on_tts_started_def on_disconnected_def HandleEvent_report_def report_tts_started_def HandleAudio_def
  BeginCapture_def BeginCapture_input_def capture_started_def

lemma sample_playback:
  "\<exists>\<sigma>. sample_schedule (start_moves @ speak_moves) = Some \<sigma> \<and> vs_state (obj \<sigma>) = Session_kSpeaking \<and>
     (\<exists>s. last (port_log \<sigma>) = (s, Output_Push (downlink_frame 1)) \<and> (s, Output_Push (downlink_frame 1)) \<in> set (port_log \<sigma>))"
  by (simp add: start_moves_def speak_moves_def session_eval cong: session_congs)

theorem session_invariant_witness:
  "\<exists>\<sigma>. session_run sample_profile False (start_moves @ speak_moves) \<sigma> \<and> vs_state (obj \<sigma>) = Session_kSpeaking \<and> session_inv (obj \<sigma>)"
  using sample_playback session_invariant [OF sample_schedule_run] sample_schedule_run by metis

subsection \<open>The calls\<close>

text \<open>
  C23. Every port call of every interleaving is well formed in the state in which it is made: frames
  to be played belong to the speaking session's generation and have its playback format, frames to
  be sent have its capture format, both within the payload limit; announced generations are never
  ahead of the session's; devices are opened in valid formats.
\<close>

theorem session_calls_well_formed:
  assumes "session_run profile evidence moves \<sigma>" "(s, q) \<in> set (port_log \<sigma>)"
  shows "call_allowed s q"
  using voice_session.run_invariant(2) [OF assms(1) new_session_inv assms(2)] .

theorem session_calls_well_formed_witness:
  "\<exists>\<sigma> s. session_run sample_profile False (start_moves @ speak_moves) \<sigma> \<and>
     last (port_log \<sigma>) = (s, Output_Push (downlink_frame 1)) \<and> call_allowed s (Output_Push (downlink_frame 1))"
  using sample_playback session_calls_well_formed [OF sample_schedule_run] sample_schedule_run by metis

subsection \<open>Interruption\<close>

text \<open>The section that begins an interruption or a stop makes the session's generation larger.\<close>

lemma interruption_advances:
  assumes "p \<in> {Interrupt, InterruptAndNotifyLocalWakeWord w t, InterruptAndSpeak x, Stop}" "w \<noteq> []" "t \<noteq> []" "x \<noteq> []"
    and "vs_state s \<in> {Session_kCapturing, Session_kSpeaking}" "thread_step s p qs s' p'"
  shows "vs_generation s' = vs_generation s + 1"
  using assms
  by (auto simp: Interrupt_def InterruptAndNotifyLocalWakeWord_def InterruptAndSpeak_def Stop_def interrupted_def Let_def)



subsection \<open>Termination\<close>



subsection \<open>A failed start\<close>

lemma completes_Emit [simp]:
  "completes s (Emit e d p) qs s' r \<longleftrightarrow> (\<exists>qs2. completes s p qs2 s' r \<and> qs = (if has_evidence s then
     [Evidence \<lparr>vd_session_id = cfg_session_id (vs_config s), vd_generation = vs_generation s, vd_event = e, vd_detail = d\<rparr>] else []) @ qs2)"
  by (simp add: Emit_def completes_unfold)

text \<open>The connection given up: the provider's sink is cleared, the connection closed, the input released if it was opened.\<close>

definition given_up :: "PortCall list \<Rightarrow> bool" where
  "given_up calls \<longleftrightarrow> Provider_Disconnect \<in> set calls \<and>
     [q \<leftarrow> calls. q \<in> range Provider_SetAudioSink] = [Provider_SetAudioSink True, Provider_SetAudioSink False] \<and>
     [q \<leftarrow> calls. q \<in> range Input_SetAudioSink] \<in> {[], [Input_SetAudioSink True, Input_SetAudioSink False]} \<and>
     (set calls \<inter> range Output_Open \<noteq> {} \<longrightarrow> Input_Close \<in> set calls)"

lemma completes_Emit_Return:
  "completes s (Emit e d (Return v)) qs s' r \<Longrightarrow> s' = s \<and> r = v \<and> set qs \<subseteq> range Evidence"
  by auto

lemma sink_ranges:
  "q \<in> range Provider_SetAudioSink \<longleftrightarrow> (case q of Provider_SetAudioSink b \<Rightarrow> True | _ \<Rightarrow> False)"
  "q \<in> range Input_SetAudioSink \<longleftrightarrow> (case q of Input_SetAudioSink b \<Rightarrow> True | _ \<Rightarrow> False)"
  by (cases q; auto)+

lemma evidence_filters [simp]:
  assumes "set ev \<subseteq> range Evidence"
  shows "[q \<leftarrow> ev. case q of Provider_SetAudioSink b \<Rightarrow> True | _ \<Rightarrow> False] = []"
    "[q \<leftarrow> ev. case q of Input_SetAudioSink b \<Rightarrow> True | _ \<Rightarrow> False] = []"
  using assms by (auto simp: filter_empty_conv)

text \<open>The calls of the failing and of the successful paths, up to the evidence at their ends.\<close>

definition calls_then_evidence :: "PortCall list \<Rightarrow> PortCall list \<Rightarrow> bool" where
  "calls_then_evidence calls qs \<longleftrightarrow> (\<exists>ev. qs = calls @ ev \<and> set ev \<subseteq> range Evidence)"

lemma calls_then_evidence_Cons [simp]: "calls_then_evidence (q # calls) (q' # qs) \<longleftrightarrow> q = q' \<and> calls_then_evidence calls qs"
  by (auto simp: calls_then_evidence_def)

lemma calls_then_evidence_Nil [simp]: "calls_then_evidence [] qs \<longleftrightarrow> set qs \<subseteq> range Evidence"
  by (simp add: calls_then_evidence_def)

lemma Start_open_outcomes:
  assumes "completes s (Start_open profile n) qs s' r"
  shows "r = Some Status_Ok \<and> s' = s\<lparr>vs_formats := n, audio_ready := True, vs_state := Session_kReady\<rparr> \<and>
       calls_then_evidence [Input_SetAudioSink True, Input_Open (fm_capture n), Output_Open (fm_playback n)] qs \<or>
     s' = s\<lparr>vs_formats := n, vs_state := Session_kFailed\<rparr> \<and>
       (calls_then_evidence [Input_SetAudioSink True, Input_Open (fm_capture n), Input_SetAudioSink False, Provider_SetAudioSink False,
          Provider_Disconnect] qs \<or>
        calls_then_evidence [Input_SetAudioSink True, Input_Open (fm_capture n), Output_Open (fm_playback n), Input_SetAudioSink False,
          Provider_SetAudioSink False, Input_Close, Provider_Disconnect] qs)"
  using assms unfolding Start_open_def
  by (auto simp: completes_unfold simp del: completes_Emit dest!: completes_Emit_Return split: if_splits)

lemma Start_connect_cases:
  assumes "completes s (Start_connect profile) qs s' r"
  shows "(\<exists>n qs1. formats_valid n \<and> completes s (Start_open profile n) qs1 s' r \<and>
        qs = [Provider_SetAudioSink True, Provider_Connect (vs_config s), Provider_audio_formats] @ qs1) \<or>
     s' = set_failed s \<and>
       (calls_then_evidence [Provider_SetAudioSink True, Provider_Connect (vs_config s), Provider_SetAudioSink False, Provider_Disconnect] qs \<or>
        calls_then_evidence [Provider_SetAudioSink True, Provider_Connect (vs_config s), Provider_audio_formats, Provider_SetAudioSink False,
          Provider_Disconnect] qs)"
  using assms unfolding Start_connect_def Let_def
  by (auto simp: completes_unfold simp del: completes_Emit dest!: completes_Emit_Return split: if_splits)

lemma Start_connect_outcomes:
  assumes "completes s (Start_connect profile) qs s' r" "\<not> audio_ready s"
  shows "(r = Some Status_Ok \<and> vs_state s' = Session_kReady \<and> audio_ready s' \<and> formats_valid (vs_formats s') \<and>
       vs_generation s' = vs_generation s \<and> Input_Open (fm_capture (vs_formats s')) \<in> set qs \<and> Output_Open (fm_playback (vs_formats s')) \<in> set qs) \<or>
    (vs_state s' = Session_kFailed \<and> \<not> audio_ready s' \<and> vs_generation s' = vs_generation s \<and> given_up qs)"
  using Start_connect_cases [OF assms(1)]
proof (elim disjE exE conjE)
  fix n qs1
  assume n: "formats_valid n" "completes s (Start_open profile n) qs1 s' r"
    and qs: "qs = [Provider_SetAudioSink True, Provider_Connect (vs_config s), Provider_audio_formats] @ qs1"
  from Start_open_outcomes [OF n(2)] show ?thesis using n(1) assms(2)
    by (elim disjE conjE) (auto simp: qs given_up_def calls_then_evidence_def sink_ranges)
qed (auto simp: given_up_def calls_then_evidence_def sink_ranges assms(2))

text \<open>
  C24. Starting, whatever the ports answer, has one of three outcomes: it is refused with an error
  before anything is done; or it reports success and the session is ready in a new generation, its
  devices open in the valid formats that were negotiated; or the session has failed, in the new
  generation, and everything it had set up is given up again.
\<close>

theorem start_outcomes:
  assumes "completes s (Start profile config) calls s' r"
  shows "(\<exists>v. r = Some v \<and> \<not> status_ok v \<and> s' = s \<and> calls = []) \<or>
    (r = Some Status_Ok \<and> vs_state s' = Session_kReady \<and> audio_ready s' \<and> formats_valid (vs_formats s') \<and>
       vs_generation s' = vs_generation s + 1 \<and> Input_Open (fm_capture (vs_formats s')) \<in> set calls \<and>
       Output_Open (fm_playback (vs_formats s')) \<in> set calls) \<or>
    (vs_state s' = Session_kFailed \<and> \<not> audio_ready s' \<and> vs_generation s' = vs_generation s + 1 \<and> given_up calls)"
proof -
  from assms consider "\<exists>v. r = Some v \<and> \<not> status_ok v \<and> s' = s \<and> calls = []"
    | "completes (start_state config s) (Start_connect profile) calls s' r"
    by (auto simp: Start_def completes_unfold split: if_splits)
  then show ?thesis
  proof cases
    case 2
    then show ?thesis using Start_connect_outcomes [OF 2] by (simp add: start_state_def)
  qed blast
qed

theorem start_outcomes_witness:
  "case run_program (\<lambda>q. if q \<in> range Output_Open then Status_Error kUnavailable [] else Status_Ok) (\<lambda>q. Success sample_formats)
      (Start sample_profile sample_config) (new_session False) of
     (calls, s', r) \<Rightarrow> vs_state s' = Session_kFailed \<and> given_up calls"
proof -
  let ?run = "run_program (\<lambda>q. if q \<in> range Output_Open then Status_Error kUnavailable [] else Status_Ok) (\<lambda>q. Success sample_formats)
      (Start sample_profile sample_config) (new_session False)"
  have f: "vs_state (fst (snd ?run)) = Session_kFailed"
    by (simp add: session_eval Update_def Emit_def case_prod_beta)
  obtain calls s' r where run: "?run = (calls, s', r)" by (metis prod_cases3)
  then have "vs_state s' = Session_kFailed" using f by simp
  moreover have "vs_state (new_session False) = Session_kStopped" by (simp add: new_session_def)
  ultimately have "given_up calls" using start_outcomes [OF run_program_completes(1) [OF run]] by auto
  then show ?thesis unfolding run using \<open>vs_state s' = Session_kFailed\<close> by simp
qed

section \<open>Races\<close>

text \<open>
  \<open>BeginCapture\<close> does not look at the state again after its port calls: a disconnection in between is
  overwritten, and the session captures although the transport is down.
\<close>

theorem capture_overrides_disconnection:
  "\<exists>\<sigma>. session_run sample_profile False
      (start_moves @ [Begin Op_BeginCapture, Work, Work, Arrive (Cb_HandleEvent (sample_event Kind_kDisconnected 1)), React 0, Work, Work]) \<sigma> \<and>
    vs_state (obj \<sigma>) = Session_kCapturing \<and> vs_generation (obj \<sigma>) = 2 \<and> \<not> provider_capture_active (obj \<sigma>)"
proof -
  have "\<exists>\<sigma>. sample_schedule (start_moves @ [Begin Op_BeginCapture, Work, Work,
        Arrive (Cb_HandleEvent (sample_event Kind_kDisconnected 1)), React 0, Work, Work]) = Some \<sigma> \<and>
      vs_state (obj \<sigma>) = Session_kCapturing \<and> vs_generation (obj \<sigma>) = 2 \<and> \<not> provider_capture_active (obj \<sigma>)"
    by (simp add: start_moves_def session_eval Let_def cong: session_congs)
  then show ?thesis using sample_schedule_run by blast
qed

text \<open>A provider whose formats carry an \<open>Ok\<close> status and no value makes a failed start report success.\<close>

theorem failed_start_reports_ok:
  "\<exists>calls s'. completes (new_session False) (Start sample_profile sample_config) calls s' (Some Status_Ok) \<and> vs_state s' = Session_kFailed"
proof -
  let ?run = "run_program (\<lambda>q. Status_Ok) (\<lambda>q. \<lparr>status = Status_Ok, val = None\<rparr>) (Start sample_profile sample_config) (new_session False)"
  have "vs_state (fst (snd ?run)) = Session_kFailed \<and> snd (snd ?run) = Some Status_Ok"
    by (simp add: session_eval ok_def Update_def Emit_def case_prod_beta)
  then show ?thesis using run_program_completes(1) by (metis prod.collapse)
qed

end
