(* ===== verification/Im_Stream.thy ===== *)
theory Im_Stream
  imports Contracts
begin

text \<open>
  Two parts of \<open>voicelife_im\<close> that stand between the network and the reminder actions: the
  incremental decoder of the server-sent event stream (\<open>im_sse.cc\<close>) and the retry policy of the
  transport (\<open>im_retry_policy.cc\<close>).
\<close>

section \<open>The event stream decoder\<close>

definition CR :: char where
  "CR = CHR 0x0D"

definition LF :: char where
  "LF = CHR 0x0A"

lemma CR_LF [simp]: "CR \<noteq> LF" "LF \<noteq> CR"
  by (simp_all add: CR_def LF_def)

record SseFrame =
  sse_id :: string
  sse_event :: string
  sse_data :: string

record SseDecoder =
  sse_buffer :: string
  trailing_cr :: bool
  sse_overflow :: bool

definition kMaxFrameBytes :: nat where
  "kMaxFrameBytes = 4096"

definition new_decoder :: SseDecoder where
  "new_decoder = \<lparr>sse_buffer = [], trailing_cr = False, sse_overflow = False\<rparr>"

text \<open>\<open>std::string::find\<close> of a string.\<close>

fun str_find :: "string \<Rightarrow> string \<Rightarrow> nat option" where
  "str_find p [] = (if p = [] then Some 0 else None)"
| "str_find p (x # xs) = (if prefix p (x # xs) then Some 0 else map_option Suc (str_find p xs))"

definition Sse_Trim :: "string \<Rightarrow> string" where
  "Sse_Trim value = (let blank = (\<lambda>c. c = CHR '' '' \<or> c = CHR 0x09) in rev (dropWhile blank (rev (dropWhile blank value))))"

text \<open>The loop body of \<open>ParseBlock\<close> for one line; the three variables it changes are \<open>frame\<close>, \<open>data\<close> and \<open>present\<close>.\<close>

definition ParseLine :: "string \<Rightarrow> SseFrame \<times> string \<times> bool \<Rightarrow> SseFrame \<times> string \<times> bool" where
  "ParseLine line acc =
     (case acc of (frame, data, present) \<Rightarrow>
        if line = [] \<or> hd line = CHR '':'' then acc
        else case str_find '':'' line of
            None \<Rightarrow> acc
          | Some colon \<Rightarrow>
              (let value = drop (colon + 1) line;
                   value = (if value \<noteq> [] \<and> hd value = CHR '' '' then tl value else value);
                   field = take colon line
               in if field = ''id'' then (frame\<lparr>sse_id := Sse_Trim value\<rparr>, data, True)
                  else if field = ''event'' then (frame\<lparr>sse_event := Sse_Trim value\<rparr>, data, True)
                  else if field = ''data'' then (frame, (if data \<noteq> [] then data @ [LF] else data) @ value, True)
                  else acc))"

lemma str_find_less: "str_find p xs = Some n \<Longrightarrow> p \<noteq> [] \<Longrightarrow> n + length p \<le> length xs"
  by (induction xs arbitrary: n) (auto split: if_splits dest: prefix_length_le)

function ParseBlock_loop :: "string \<Rightarrow> SseFrame \<times> string \<times> bool \<Rightarrow> SseFrame \<times> string \<times> bool" where
  "ParseBlock_loop rest acc =
     (case str_find [LF] rest of
        None \<Rightarrow> ParseLine rest acc
      | Some newline \<Rightarrow> ParseBlock_loop (drop (newline + 1) rest) (ParseLine (take newline rest) acc))"
  by pat_completeness auto
termination
  by (relation "measure (length \<circ> fst)") (auto dest!: str_find_less)

declare ParseBlock_loop.simps [simp del]

definition ParseBlock :: "string \<Rightarrow> bool \<times> SseFrame" where
  "ParseBlock block =
     (case ParseBlock_loop block (\<lparr>sse_id = [], sse_event = [], sse_data = []\<rparr>, [], False) of
        (frame, data, present) \<Rightarrow> if \<not> present then (False, frame) else (True, frame\<lparr>sse_data := data\<rparr>))"

fun Feed_normalize :: "string \<Rightarrow> string \<times> bool \<Rightarrow> string \<times> bool" where
  "Feed_normalize [] (buffer, cr) = (buffer, cr)"
| "Feed_normalize (b # bytes) (buffer, cr) =
     (if b = CR then
        (case bytes of
           c # rest \<Rightarrow> if c = LF then Feed_normalize rest (buffer @ [LF], False) else Feed_normalize bytes (buffer @ [LF], True)
         | [] \<Rightarrow> Feed_normalize bytes (buffer @ [LF], True))
      else if b = LF \<and> cr then Feed_normalize bytes (buffer, False)
      else Feed_normalize bytes (buffer @ [b], False))"

function Feed_cut :: "string \<Rightarrow> SseFrame list \<Rightarrow> string \<times> SseFrame list" where
  "Feed_cut buffer frames =
     (case str_find [LF, LF] buffer of
        None \<Rightarrow> (buffer, frames)
      | Some separator \<Rightarrow>
          (case ParseBlock (take separator buffer) of (present, frame) \<Rightarrow>
             Feed_cut (drop (separator + 2) buffer) (if present then frames @ [frame] else frames)))"
  by pat_completeness auto
termination
  by (relation "measure (length \<circ> fst)") (auto dest!: str_find_less)

declare Feed_cut.simps [simp del]

definition Feed :: "SseDecoder \<Rightarrow> string \<Rightarrow> SseFrame list \<Rightarrow> SseDecoder \<times> SseFrame list" where
  "Feed d bytes frames =
     (case Feed_normalize bytes (sse_buffer d, trailing_cr d) of (buffer, cr) \<Rightarrow>
      case Feed_cut buffer frames of (buffer, frames) \<Rightarrow>
        (if length buffer \<ge> kMaxFrameBytes
         then \<lparr>sse_buffer = [], trailing_cr = cr, sse_overflow = True\<rparr>
         else \<lparr>sse_buffer = buffer, trailing_cr = cr, sse_overflow = sse_overflow d\<rparr>, frames))"

definition Sse_Reset :: "SseDecoder \<Rightarrow> SseDecoder" where
  "Sse_Reset d = \<lparr>sse_buffer = [], trailing_cr = False, sse_overflow = False\<rparr>"

text \<open>The reader of the stream: one \<open>Feed\<close> per block of bytes the connection delivers.\<close>

fun feed_all :: "SseDecoder \<Rightarrow> string list \<Rightarrow> SseFrame list \<Rightarrow> SseDecoder \<times> SseFrame list" where
  "feed_all d [] frames = (d, frames)"
| "feed_all d (c # cs) frames = (case Feed d c frames of (d', frames') \<Rightarrow> feed_all d' cs frames')"

section \<open>The decoder as a function of the stream\<close>

text \<open>The text of a stream: line ends \<open>CR LF\<close>, \<open>CR\<close> and \<open>LF\<close> are all \<open>LF\<close>.\<close>

fun lf_text :: "string \<Rightarrow> string" where
  "lf_text [] = []"
| "lf_text (b # bs) = (if b = CR then LF # lf_text (if bs \<noteq> [] \<and> hd bs = LF then tl bs else bs) else b # lf_text bs)"

definition after_cr :: "bool \<Rightarrow> string \<Rightarrow> string" where
  "after_cr cr bs = (if cr \<and> bs \<noteq> [] \<and> hd bs = LF then tl bs else bs)"

definition ends_cr :: "bool \<Rightarrow> string \<Rightarrow> bool" where
  "ends_cr cr bs \<longleftrightarrow> (if bs = [] then cr else last bs = CR)"

lemma Feed_normalize_text: "Feed_normalize bs (buffer, cr) = (buffer @ lf_text (after_cr cr bs), ends_cr cr bs)"
proof (induction "length bs" arbitrary: bs buffer cr rule: less_induct)
  case less
  show ?case
  proof (cases bs)
    case (Cons x xs)
    show ?thesis
    proof (cases "x = CR \<and> xs \<noteq> [] \<and> hd xs = LF")
      case True
      then obtain ys where xs: "xs = LF # ys" by (cases xs) auto
      then show ?thesis using less [of ys] True Cons by (simp add: after_cr_def ends_cr_def)
    next
      case False
      then have "Feed_normalize bs (buffer, cr) =
          (if x = CR then Feed_normalize xs (buffer @ [LF], True)
           else if x = LF \<and> cr then Feed_normalize xs (buffer, False) else Feed_normalize xs (buffer @ [x], False))"
        using Cons by (cases xs) auto
      then show ?thesis using less [of xs] Cons False by (auto simp: after_cr_def ends_cr_def)
    qed
  qed (simp add: after_cr_def ends_cr_def)
qed

lemma lf_text_append: "lf_text (a @ b) = lf_text a @ lf_text (after_cr (ends_cr False a) b)"
proof (induction "length a" arbitrary: a rule: less_induct)
  case less
  show ?case
  proof (cases a)
    case (Cons x xs)
    show ?thesis
    proof (cases "x = CR \<and> xs \<noteq> [] \<and> hd xs = LF")
      case True
      then obtain ys where xs: "xs = LF # ys" by (cases xs) auto
      then show ?thesis using less [of ys] True Cons by (simp add: ends_cr_def)
    next
      case False
      then show ?thesis using less [of xs] Cons by (cases xs) (auto simp: after_cr_def ends_cr_def)
    qed
  qed (simp add: after_cr_def ends_cr_def)
qed

lemma ends_cr_append: "ends_cr cr (a @ b) = ends_cr (ends_cr cr a) b"
  by (simp add: ends_cr_def)

lemma str_find_append: "str_find p a = Some n \<Longrightarrow> p \<noteq> [] \<Longrightarrow> str_find p (a @ b) = Some n"
proof (induction a arbitrary: n)
  case (Cons x xs)
  show ?case
  proof (cases "prefix p (x # xs)")
    case True
    then have "prefix p ((x # xs) @ b)" by (rule prefix_prefix)
    then show ?thesis using Cons.prems True by simp
  next
    case False
    then obtain m where m: "n = Suc m" "str_find p xs = Some m" using Cons.prems(1) by auto
    then have "\<not> prefix p ((x # xs) @ b)"
      using False str_find_less [OF m(2) Cons.prems(2)] prefix_length_prefix [of p "(x # xs) @ b" "x # xs"] by auto
    then show ?thesis using Cons.IH [OF m(2) Cons.prems(2)] m(1) by simp
  qed
qed simp

lemma Feed_cut_append: "Feed_cut (a @ b) frames = (case Feed_cut a frames of (rest, frames') \<Rightarrow> Feed_cut (rest @ b) frames')"
proof (induction a frames rule: Feed_cut.induct)
  case (1 a frames)
  show ?case
  proof (cases "str_find [LF, LF] a")
    case None
    then show ?thesis by (simp add: Feed_cut.simps [of a])
  next
    case (Some n)
    then show ?thesis using "1.IH" [OF Some prod.collapse] str_find_append [OF Some, of b] str_find_less [OF Some]
      by (simp add: Feed_cut.simps [of a] Feed_cut.simps [of "a @ b"] case_prod_beta)
  qed
qed

lemma Feed_cut_shorter: "length (fst (Feed_cut a frames)) \<le> length a"
proof (induction a frames rule: Feed_cut.induct)
  case (1 a frames)
  show ?case
  proof (cases "str_find [LF, LF] a")
    case (Some n)
    then show ?thesis using "1.IH" [OF Some prod.collapse] by (simp add: Feed_cut.simps [of a] case_prod_beta)
  qed (simp add: Feed_cut.simps [of a])
qed

text \<open>What a run without overflow leaves behind depends on the bytes only.\<close>

definition decoder_after :: "string \<Rightarrow> SseDecoder \<times> SseFrame list" where
  "decoder_after bytes = (case Feed_cut (lf_text bytes) [] of (rest, frames) \<Rightarrow>
     (\<lparr>sse_buffer = rest, trailing_cr = ends_cr False bytes, sse_overflow = False\<rparr>, frames))"

abbreviation unfinished :: "string \<Rightarrow> nat" where
  "unfinished bytes \<equiv> length (fst (Feed_cut (lf_text bytes) []))"

lemma decoder_after_Nil: "decoder_after [] = (new_decoder, [])"
  by (simp add: decoder_after_def new_decoder_def Feed_cut.simps ends_cr_def)

lemma Feed_decoder_after:
  assumes "decoder_after sofar = (d, frames)"
  shows "Feed d bytes frames =
    (if unfinished (sofar @ bytes) < kMaxFrameBytes then decoder_after (sofar @ bytes)
     else (\<lparr>sse_buffer = [], trailing_cr = ends_cr False (sofar @ bytes), sse_overflow = True\<rparr>, snd (decoder_after (sofar @ bytes))))"
proof -
  obtain rest where r: "Feed_cut (lf_text sofar) [] = (rest, frames)"
    and d: "d = \<lparr>sse_buffer = rest, trailing_cr = ends_cr False sofar, sse_overflow = False\<rparr>"
    using assms by (auto simp: decoder_after_def split: prod.splits)
  have "Feed_cut (lf_text (sofar @ bytes)) [] = Feed_cut (rest @ lf_text (after_cr (ends_cr False sofar) bytes)) frames"
    by (simp add: lf_text_append Feed_cut_append [of "lf_text sofar"] r)
  then show ?thesis
    by (simp add: decoder_after_def Feed_def d Feed_normalize_text ends_cr_append split: prod.splits)
qed

lemma Feed_overflow: "sse_overflow d \<Longrightarrow> sse_overflow (fst (Feed d bytes frames))"
  by (simp add: Feed_def split: prod.splits)

lemma feed_all_overflow: "sse_overflow d \<Longrightarrow> sse_overflow (fst (feed_all d cs frames))"
proof (induction cs arbitrary: d frames)
  case (Cons c cs)
  then show ?case using Feed_overflow [OF Cons.prems, of c frames] by (auto split: prod.splits)
qed simp

lemma feed_all_decoder_after:
  assumes "decoder_after sofar = (d, frames)" "feed_all d cs frames = (d', frames')" "\<not> sse_overflow d'"
  shows "decoder_after (sofar @ concat cs) = (d', frames')"
  using assms
proof (induction cs arbitrary: sofar d frames)
  case (Cons c cs)
  obtain d1 frames1 where f: "Feed d c frames = (d1, frames1)" by fastforce
  then have "\<not> sse_overflow d1" using Cons.prems(2,3) feed_all_overflow [of d1 cs frames1] by auto
  then have "decoder_after (sofar @ c) = (d1, frames1)"
    using f Feed_decoder_after [OF Cons.prems(1), of c] by (auto split: if_splits)
  then show ?case using Cons.IH [of "sofar @ c" d1 frames1] Cons.prems(2,3) f by simp
qed simp

lemma feed_all_no_overflow:
  assumes "decoder_after sofar = (d, frames)"
    and "\<And>p. prefix p (concat cs) \<Longrightarrow> unfinished (sofar @ p) < kMaxFrameBytes"
  shows "feed_all d cs frames = decoder_after (sofar @ concat cs)"
  using assms
proof (induction cs arbitrary: sofar d frames)
  case (Cons c cs)
  obtain d1 frames1 where f: "Feed d c frames = (d1, frames1)" by fastforce
  have "unfinished (sofar @ c) < kMaxFrameBytes" using Cons.prems(2) by simp
  then have "decoder_after (sofar @ c) = (d1, frames1)" using f Feed_decoder_after [OF Cons.prems(1), of c] by simp
  moreover have "unfinished ((sofar @ c) @ p) < kMaxFrameBytes" if "prefix p (concat cs)" for p
    using Cons.prems(2) [of "c @ p"] that by simp
  ultimately show ?case using Cons.IH [of "sofar @ c" d1 frames1] f by simp
qed simp

section \<open>Blocks and frames\<close>

lemma str_find_None: "str_find p xs = None \<Longrightarrow> p \<noteq> [] \<Longrightarrow> \<not> sublist p xs"
  by (induction xs) (auto simp: sublist_Cons_right split: if_splits)

lemma str_find_Some:
  "str_find p xs = Some n \<Longrightarrow> p \<noteq> [] \<Longrightarrow> xs = take n xs @ p @ drop (n + length p) xs \<and> (\<forall>m < n. \<not> prefix p (drop m xs))"
proof (induction xs arbitrary: n)
  case (Cons x xs)
  show ?case
  proof (cases "prefix p (x # xs)")
    case True
    then show ?thesis using Cons.prems(1) by (auto simp: prefix_def)
  next
    case False
    then obtain m where m: "n = Suc m" "str_find p xs = Some m" using Cons.prems(1) by auto
    then show ?thesis using Cons.IH [OF m(2) Cons.prems(2)] False by (auto simp: less_Suc_eq_0_disj)
  qed
qed simp

lemma first_blank_line:
  assumes "str_find [LF, LF] xs = Some n"
  shows "xs = take n xs @ [LF, LF] @ drop (n + 2) xs" "\<not> sublist [LF, LF] (take n xs @ [LF])"
proof -
  note f = str_find_Some [OF assms]
  show x: "xs = take n xs @ [LF, LF] @ drop (n + 2) xs" using f by simp
  show "\<not> sublist [LF, LF] (take n xs @ [LF])"
  proof
    assume "sublist [LF, LF] (take n xs @ [LF])"
    then obtain ps ss where ps: "take n xs @ [LF] = ps @ [LF, LF] @ ss" by (auto simp: sublist_def)
    then have "length (take n xs @ [LF]) = length (ps @ [LF, LF] @ ss)" by simp
    then have "length ps < n" by (simp add: min_def split: if_splits)
    moreover have "xs = (take n xs @ [LF]) @ LF # drop (n + 2) xs" using x by simp
    then have "xs = ps @ [LF, LF] @ ss @ LF # drop (n + 2) xs" unfolding ps by simp
    then have "prefix [LF, LF] (drop (length ps) xs)" by (metis append_eq_conv_conj prefixI)
    ultimately show False using f by simp
  qed
qed

definition block_frames :: "string list \<Rightarrow> SseFrame list" where
  "block_frames bs = map (snd \<circ> ParseBlock) (filter (fst \<circ> ParseBlock) bs)"

text \<open>Blocks are what a blank line ends; the rest is not ended yet.\<close>

definition cut_at_blank_lines :: "string \<Rightarrow> string list \<Rightarrow> string \<Rightarrow> bool" where
  "cut_at_blank_lines text bs rest \<longleftrightarrow>
     text = concat (map (\<lambda>b. b @ [LF, LF]) bs) @ rest \<and>
     (\<forall>b \<in> set bs. \<not> sublist [LF, LF] (b @ [LF])) \<and> \<not> sublist [LF, LF] rest"

lemma Feed_cut_blocks:
  "Feed_cut t frames = (rest, frames') \<Longrightarrow> \<exists>bs. cut_at_blank_lines t bs rest \<and> frames' = frames @ block_frames bs"
proof (induction t frames rule: Feed_cut.induct)
  case (1 t frames)
  show ?case
  proof (cases "str_find [LF, LF] t")
    case None
    then show ?thesis using "1.prems" str_find_None [OF None]
      by (intro exI [of _ "[]"]) (simp add: Feed_cut.simps [of t] cut_at_blank_lines_def block_frames_def)
  next
    case (Some n)
    let ?b = "take n t"
    obtain bs where bs: "cut_at_blank_lines (drop (n + 2) t) bs rest"
      "frames' = (if fst (ParseBlock ?b) then frames @ [snd (ParseBlock ?b)] else frames) @ block_frames bs"
      using "1.IH" [OF Some prod.collapse] "1.prems" Some by (auto simp: Feed_cut.simps [of t] case_prod_beta)
    then have "cut_at_blank_lines t (?b # bs) rest"
      using first_blank_line [OF Some] by (simp add: cut_at_blank_lines_def)
    then show ?thesis using bs(2) by (intro exI [of _ "?b # bs"]) (simp add: block_frames_def)
  qed
qed

lemma kMaxFrameBytes_pos: "0 < kMaxFrameBytes"
  by (simp add: kMaxFrameBytes_def)

lemma Feed_bounded: "length (sse_buffer (fst (Feed d bytes frames))) < kMaxFrameBytes"
  using kMaxFrameBytes_pos by (simp add: Feed_def split: prod.splits)

lemma feed_all_bounded:
  "length (sse_buffer d) < kMaxFrameBytes \<Longrightarrow> length (sse_buffer (fst (feed_all d cs frames))) < kMaxFrameBytes"
proof (induction cs arbitrary: d frames)
  case (Cons c cs)
  then show ?case using Feed_bounded [of d c frames] by (auto split: prod.splits)
qed simp

section \<open>Properties of the decoder\<close>

text \<open>
  C10. However the connection cuts the byte stream into pieces, the decoder never holds 4096 bytes,
  and as long as it has not overflowed it implements the whole-stream specification: the text,
  with every line end read as LF, is the blocks ended by a blank line followed by the buffered
  rest, and the frames are those of the blocks in order; feeding all bytes at once gives the same
  decoder and the same frames.
\<close>

theorem sse_refines_stream:
  assumes run: "feed_all new_decoder chunks [] = (d, frames)"
  shows "length (sse_buffer d) < kMaxFrameBytes \<and>
    (\<not> sse_overflow d \<longrightarrow>
       (\<exists>bs. cut_at_blank_lines (lf_text (concat chunks)) bs (sse_buffer d) \<and> frames = block_frames bs) \<and>
       Feed new_decoder (concat chunks) [] = (d, frames))"
proof (intro conjI impI)
  show bound: "length (sse_buffer d) < kMaxFrameBytes"
    using feed_all_bounded [of new_decoder chunks "[]"] run kMaxFrameBytes_pos by (simp add: new_decoder_def)
  assume "\<not> sse_overflow d"
  then have d: "decoder_after (concat chunks) = (d, frames)"
    using feed_all_decoder_after [OF decoder_after_Nil run] by simp
  then have cut: "Feed_cut (lf_text (concat chunks)) [] = (sse_buffer d, frames)"
    by (auto simp: decoder_after_def split: prod.splits)
  then show "\<exists>bs. cut_at_blank_lines (lf_text (concat chunks)) bs (sse_buffer d) \<and> frames = block_frames bs"
    using Feed_cut_blocks by fastforce
  show "Feed new_decoder (concat chunks) [] = (d, frames)"
    using Feed_decoder_after [OF decoder_after_Nil, of "concat chunks"] bound cut d by simp
qed

theorem sse_refines_stream_witness:
  "case feed_all new_decoder [''id: 7'' @ [CR], [LF] @ ''data: on'' @ [CR, LF, CR], [LF] @ '':''] [] of (d, frames) \<Rightarrow>
     frames = [\<lparr>sse_id = ''7'', sse_event = [], sse_data = ''on''\<rparr>] \<and> length (sse_buffer d) < kMaxFrameBytes \<and>
     Feed new_decoder (''id: 7'' @ [CR, LF] @ ''data: on'' @ [CR, LF, CR, LF] @ '':'') [] = (d, frames)"
proof -
  let ?chunks = "[''id: 7'' @ [CR], [LF] @ ''data: on'' @ [CR, LF, CR], [LF] @ '':'']"
  have run: "feed_all new_decoder ?chunks [] =
      (\<lparr>sse_buffer = '':'', trailing_cr = False, sse_overflow = False\<rparr>, [\<lparr>sse_id = ''7'', sse_event = [], sse_data = ''on''\<rparr>])"
    by code_simp
  show ?thesis using sse_refines_stream [OF run] unfolding run by simp
qed

subsection \<open>Encoding\<close>

text \<open>The frame of an action event as the server writes it: one line per field, then a blank line.\<close>

definition frame_block :: "SseFrame \<Rightarrow> string" where
  "frame_block f = ''id: '' @ sse_id f @ [LF] @ ''event: '' @ sse_event f @ [LF] @ ''data: '' @ sse_data f"

definition encode_frame :: "SseFrame \<Rightarrow> string" where
  "encode_frame f = frame_block f @ [LF, LF]"

definition one_line :: "string \<Rightarrow> bool" where
  "one_line s \<longleftrightarrow> CR \<notin> set s \<and> LF \<notin> set s"

definition frame_encodable :: "SseFrame \<Rightarrow> bool" where
  "frame_encodable f \<longleftrightarrow> one_line (sse_id f) \<and> one_line (sse_event f) \<and> one_line (sse_data f) \<and>
     Sse_Trim (sse_id f) = sse_id f \<and> Sse_Trim (sse_event f) = sse_event f \<and> length (encode_frame f) \<le> kMaxFrameBytes"

lemma lf_text_id: "CR \<notin> set t \<Longrightarrow> lf_text t = t"
  by (induction t) auto

lemma str_find_line: "LF \<notin> set l \<Longrightarrow> str_find [LF] (l @ LF # r) = Some (length l)"
  by (induction l) auto

lemma str_find_no_line: "LF \<notin> set l \<Longrightarrow> str_find [LF] l = None"
  by (induction l) auto

lemma blank_line_append: "LF \<notin> set l \<Longrightarrow> sublist [LF, LF] (l @ r) \<longleftrightarrow> sublist [LF, LF] r"
  by (induction l) (auto simp: sublist_Cons_right)

lemma str_find_blank: "\<not> sublist [LF, LF] (b @ [LF]) \<Longrightarrow> str_find [LF, LF] (b @ LF # LF # t) = Some (length b)"
proof (induction b)
  case (Cons c b)
  then have "\<not> prefix [LF, LF] (c # b @ LF # LF # t)" by (cases b) (auto simp: sublist_Cons_right)
  then show ?case using Cons by (simp add: sublist_Cons_right)
qed simp

lemma frame_block_no_blank: "frame_encodable f \<Longrightarrow> \<not> sublist [LF, LF] (frame_block f @ [LF])"
proof -
  assume "frame_encodable f"
  then have l: "LF \<notin> set (''id: '' @ sse_id f)" "LF \<notin> set (''event: '' @ sse_event f)" "LF \<notin> set (''data: '' @ sse_data f)"
    by (simp_all add: frame_encodable_def one_line_def LF_def)
  have step: "\<not> sublist [LF, LF] (LF # x # xs) \<longleftrightarrow> \<not> sublist [LF, LF] (x # xs)" if "x \<noteq> LF" for x xs
    using that by (auto simp: sublist_Cons_right)
  have "\<not> sublist [LF, LF] ((''id: '' @ sse_id f) @ LF # (''event: '' @ sse_event f) @ LF # (''data: '' @ sse_data f) @ [LF])"
    unfolding blank_line_append [OF l(1)] using blank_line_append [OF l(2)] blank_line_append [OF l(3)]
    by (simp add: step LF_def sublist_Cons_right)
  then show ?thesis by (simp add: frame_block_def)
qed

lemma ParseLine_fields:
  "ParseLine (''id: '' @ v) (f, data, present) = (f\<lparr>sse_id := Sse_Trim v\<rparr>, data, True)"
  "ParseLine (''event: '' @ v) (f, data, present) = (f\<lparr>sse_event := Sse_Trim v\<rparr>, data, True)"
  "ParseLine (''data: '' @ v) (f, [], present) = (f, v, True)"
  by (simp_all add: ParseLine_def)

lemma ParseBlock_frame: "frame_encodable f \<Longrightarrow> ParseBlock (frame_block f) = (True, f)"
proof -
  assume f: "frame_encodable f"
  then have l: "LF \<notin> set (''id: '' @ sse_id f)" "LF \<notin> set (''event: '' @ sse_event f)" "LF \<notin> set (''data: '' @ sse_data f)"
    by (simp_all add: frame_encodable_def one_line_def LF_def)
  have loop: "ParseBlock_loop (l @ LF # r) acc = ParseBlock_loop r (ParseLine l acc)" if "LF \<notin> set l" for l r acc
    using str_find_line [OF that, of r] by (simp add: ParseBlock_loop.simps [of "l @ LF # r"])
  have "frame_block f = (''id: '' @ sse_id f) @ LF # (''event: '' @ sse_event f) @ LF # (''data: '' @ sse_data f)"
    by (simp add: frame_block_def)
  then have "ParseBlock_loop (frame_block f) acc =
      ParseLine (''data: '' @ sse_data f) (ParseLine (''event: '' @ sse_event f) (ParseLine (''id: '' @ sse_id f) acc))" for acc
    using str_find_no_line [OF l(3)]
    by (simp only: loop [OF l(1)] loop [OF l(2)] ParseBlock_loop.simps [of "''data: '' @ sse_data f"] option.case)
  then show ?thesis using f by (simp only: ParseBlock_def ParseLine_fields) (simp add: frame_encodable_def)
qed

lemma Feed_cut_encoded: "frame_encodable f \<Longrightarrow> Feed_cut (encode_frame f @ t) frames = Feed_cut t (frames @ [f])"
  using str_find_blank [OF frame_block_no_blank, of f t]
  by (simp add: encode_frame_def Feed_cut.simps [of "frame_block f @ LF # LF # t"] ParseBlock_frame)

lemma Feed_cut_encodings:
  "\<forall>f \<in> set fs. frame_encodable f \<Longrightarrow> Feed_cut (concat (map encode_frame fs) @ t) frames = Feed_cut t (frames @ fs)"
  by (induction fs arbitrary: frames) (simp_all add: Feed_cut_encoded)

lemma encoded_prefix:
  assumes "\<forall>f \<in> set fs. frame_encodable f" "prefix p (concat (map encode_frame fs))"
  shows "length (fst (Feed_cut p frames)) < kMaxFrameBytes"
  using assms
proof (induction fs arbitrary: p frames)
  case Nil
  then show ?case using kMaxFrameBytes_pos Feed_cut_shorter [of "[]" frames] by simp
next
  case (Cons f fs)
  have f: "frame_encodable f" using Cons.prems(1) by simp
  consider t where "p = encode_frame f @ t" "prefix t (concat (map encode_frame fs))" | "strict_prefix p (encode_frame f)"
    using Cons.prems(2) by (cases "p = encode_frame f") (auto simp: prefix_append strict_prefix_def)
  then show ?case
  proof cases
    case 1
    then show ?thesis using Cons.IH [OF _ 1(2)] Cons.prems(1) Feed_cut_encoded [OF f] by simp
  next
    case 2
    then have "length p < length (encode_frame f)" by (rule prefix_length_less)
    then show ?thesis using f Feed_cut_shorter [of p frames] by (simp add: frame_encodable_def)
  qed
qed

lemma encoded_no_cr: "\<forall>f \<in> set fs. frame_encodable f \<Longrightarrow> CR \<notin> set (concat (map encode_frame fs))"
  by (auto simp: encode_frame_def frame_block_def frame_encodable_def one_line_def CR_def LF_def)

text \<open>
  C25. Frames written by the server, each below the size limit, come out of the decoder unchanged
  and in order, whatever pieces the connection delivers, and leave nothing behind.
\<close>

theorem sse_roundtrip:
  assumes frames: "\<forall>f \<in> set fs. frame_encodable f" and chunks: "concat chunks = concat (map encode_frame fs)"
  shows "feed_all new_decoder chunks [] = (new_decoder, fs)"
proof -
  have no_cr: "CR \<notin> set p" if "prefix p (concat chunks)" for p
    using that encoded_no_cr [OF frames] set_mono_prefix [OF that] unfolding chunks by blast
  have "unfinished ([] @ p) < kMaxFrameBytes" if "prefix p (concat chunks)" for p
    using encoded_prefix [OF frames, of p "[]"] that no_cr [OF that] by (simp add: chunks lf_text_id)
  then have "feed_all new_decoder chunks [] = decoder_after ([] @ concat chunks)"
    by (rule feed_all_no_overflow [OF decoder_after_Nil])
  moreover have "ends_cr False (concat chunks) = False" using no_cr [of "concat chunks"] by (metis ends_cr_def last_in_set prefix_order.refl)
  moreover have "Feed_cut (lf_text (concat chunks)) [] = ([], fs)"
    using Feed_cut_encodings [OF frames, of "[]" "[]"] no_cr [of "concat chunks"]
    by (simp add: lf_text_id chunks Feed_cut.simps [of "[]"])
  ultimately show ?thesis by (simp add: decoder_after_def new_decoder_def)
qed

theorem sse_roundtrip_witness:
  "feed_all new_decoder [''id: 7'' @ [LF] @ ''event: reminder.'', ''action'' @ [LF] @ ''data: {}'' @ [LF], [LF]] [] =
     (new_decoder, [\<lparr>sse_id = ''7'', sse_event = ''reminder.action'', sse_data = ''{}''\<rparr>])"
  by (rule sse_roundtrip)
    (simp_all add: frame_encodable_def one_line_def encode_frame_def frame_block_def Sse_Trim_def kMaxFrameBytes_def CR_def LF_def)

text \<open>An overflow does not stop the decoder from accumulating bytes again before it is reset.\<close>

theorem sse_accumulates_after_overflow:
  "\<exists>d. sse_overflow d \<and> sse_buffer (fst (Feed d ''x'' [])) = ''x''"
  by (rule exI [of _ "\<lparr>sse_buffer = [], trailing_cr = False, sse_overflow = True\<rparr>"]) code_simp

section \<open>The retry policy\<close>

datatype ImTransportStatus = Im_kSuccess | Im_kCredentialRejected | Im_kHttpError | Im_kNetworkFailure | Im_kInvalidConfig

record ImHttpResponse =
  http_status :: ImTransportStatus
  http_status_code :: int
  http_body :: string
  http_message :: string

record ImRetryOptions =
  maximum_attempts :: nat
  initial_delay_ms :: "32 word"
  maximum_delay_ms :: "32 word"

record ImRetryPolicy =
  rp_options :: ImRetryOptions
  rp_attempts :: nat

definition IsRetryable :: "ImHttpResponse \<Rightarrow> bool" where
  "IsRetryable response =
     (if http_status response = Im_kNetworkFailure then True
      else if http_status response \<noteq> Im_kHttpError then False
      else http_status_code response = 408 \<or> http_status_code response = 429 \<or> http_status_code response \<ge> 500)"

definition new_retry_policy :: "ImRetryOptions \<Rightarrow> ImRetryPolicy" where
  "new_retry_policy options =
     (let options = (if initial_delay_ms options = 0 then options\<lparr>initial_delay_ms := 1\<rparr> else options);
          options = (if maximum_delay_ms options < initial_delay_ms options
                     then options\<lparr>maximum_delay_ms := initial_delay_ms options\<rparr> else options)
      in \<lparr>rp_options = options, rp_attempts = 0\<rparr>)"

text \<open>The doubling loop, with the number of rounds still allowed; it computes in 64 bits.\<close>

fun NextDelay_loop :: "nat \<Rightarrow> 64 word \<Rightarrow> 64 word \<Rightarrow> 64 word" where
  "NextDelay_loop 0 delay maximum = delay"
| "NextDelay_loop (Suc n) delay maximum =
     (if delay < maximum then NextDelay_loop n (min (delay * 2) maximum) maximum else delay)"

definition NextDelay :: "ImRetryPolicy \<Rightarrow> ImHttpResponse \<Rightarrow> 32 word option \<times> ImRetryPolicy" where
  "NextDelay p response =
     (if \<not> IsRetryable response \<or> rp_attempts p \<ge> maximum_attempts (rp_options p) then (None, p)
      else
        (let delay = NextDelay_loop (rp_attempts p) (ucast (initial_delay_ms (rp_options p))) (ucast (maximum_delay_ms (rp_options p)))
         in (Some (ucast (min delay 4294967295)), p\<lparr>rp_attempts := rp_attempts p + 1\<rparr>)))"

definition Retry_Reset :: "ImRetryPolicy \<Rightarrow> ImRetryPolicy" where
  "Retry_Reset p = p\<lparr>rp_attempts := 0\<rparr>"

fun retry_run :: "ImRetryPolicy \<Rightarrow> ImHttpResponse list \<Rightarrow> 32 word list \<times> ImRetryPolicy" where
  "retry_run p [] = ([], p)"
| "retry_run p (r # rs) = (case NextDelay p r of (d, p') \<Rightarrow>
     case retry_run p' rs of (ds, p'') \<Rightarrow> ((case d of None \<Rightarrow> ds | Some x \<Rightarrow> x # ds), p''))"

definition backoff :: "ImRetryOptions \<Rightarrow> nat \<Rightarrow> nat" where
  "backoff options k = min (unat (initial_delay_ms options) * 2 ^ k) (unat (maximum_delay_ms options))"

lemma capped_scale: "1 \<le> k \<Longrightarrow> min (min a m * k) m = min (a * k) (m :: nat)"
proof -
  assume "1 \<le> k"
  then have k: "a \<le> a * k" "m \<le> m * k" by simp_all
  show ?thesis
  proof (cases "a \<le> m")
    case False
    then have "m \<le> a * k" using k(1) by linarith
    then show ?thesis using False k(2) by (simp only: min_absorb2 nat_le_linear)
  qed (simp add: min_absorb1)
qed

lemma NextDelay_loop_value:
  assumes "unat delay \<le> unat maximum" "unat maximum < 2 ^ 32"
  shows "unat (NextDelay_loop n delay maximum) = min (unat delay * 2 ^ n) (unat maximum)"
  using assms
proof (induction n arbitrary: delay)
  case (Suc n)
  show ?case
  proof (cases "delay < maximum")
    case True
    have d: "unat (delay * 2) = unat delay * 2" using Suc.prems by (simp add: unat_word_ariths)
    have m: "unat (min (delay * 2) maximum) = min (unat delay * 2) (unat maximum)"
      using d by (simp add: min_def word_le_nat_alt)
    then have "unat (NextDelay_loop (Suc n) delay maximum) = min (min (unat delay * 2) (unat maximum) * 2 ^ n) (unat maximum)"
      using True Suc.IH [of "min (delay * 2) maximum"] Suc.prems(2) by simp
    also have "\<dots> = min (unat delay * 2 ^ Suc n) (unat maximum)" using capped_scale [of "2 ^ n" "unat delay * 2"] by simp
    finally show ?thesis .
  next
    case False
    then have "unat delay = unat maximum" using Suc.prems(1) by (simp add: word_less_nat_alt)
    moreover have "unat maximum \<le> unat maximum * 2 ^ Suc n" by simp
    ultimately show ?thesis using False by (simp add: min_absorb2)
  qed
qed simp

lemma new_retry_policy_options:
  "0 < unat (initial_delay_ms (rp_options (new_retry_policy options)))"
  "unat (initial_delay_ms (rp_options (new_retry_policy options))) \<le> unat (maximum_delay_ms (rp_options (new_retry_policy options)))"
  "maximum_attempts (rp_options (new_retry_policy options)) = maximum_attempts options"
  by (auto simp: new_retry_policy_def Let_def word_less_nat_alt unat_gt_0)

lemma NextDelay_grants:
  assumes "unat (initial_delay_ms (rp_options p)) \<le> unat (maximum_delay_ms (rp_options p))"
    and "IsRetryable r" "rp_attempts p < maximum_attempts (rp_options p)"
  shows "\<exists>d. NextDelay p r = (Some d, p\<lparr>rp_attempts := rp_attempts p + 1\<rparr>) \<and> unat d = backoff (rp_options p) (rp_attempts p)"
proof -
  let ?i = "ucast (initial_delay_ms (rp_options p)) :: 64 word" and ?m = "ucast (maximum_delay_ms (rp_options p)) :: 64 word"
  let ?d = "NextDelay_loop (rp_attempts p) ?i ?m"
  have u: "unat (ucast w :: 64 word) = unat w" for w :: "32 word" 
    using unsigned_less [of w, where 'a = nat] by (simp add: unsigned_ucast_eq take_bit_nat_eq_self)
  have m: "unat ?m < 2 ^ 32" using u unsigned_less [of "maximum_delay_ms (rp_options p)"] by simp
  have d: "unat ?d = backoff (rp_options p) (rp_attempts p)"
    using NextDelay_loop_value [of ?i ?m] assms(1) m by (simp add: u backoff_def)
  then have "unat ?d < 2 ^ 32" using m by (simp add: backoff_def u)
  then have "min ?d 4294967295 = ?d" "unat (ucast ?d :: 32 word) = unat ?d"
    by (simp_all add: min_def word_le_nat_alt unsigned_ucast_eq take_bit_nat_eq_self)
  then show ?thesis using assms(2,3) d by (simp add: NextDelay_def)
qed

lemma retry_run_delays:
  assumes "unat (initial_delay_ms (rp_options p)) \<le> unat (maximum_delay_ms (rp_options p))" "retry_run p rs = (ds, p')"
  shows "length ds = min (maximum_attempts (rp_options p) - rp_attempts p) (length (filter IsRetryable rs)) \<and>
    map unat ds = map (backoff (rp_options p)) [rp_attempts p ..< rp_attempts p + length ds]"
  using assms
proof (induction rs arbitrary: p ds)
  case (Cons r rs)
  show ?case
  proof (cases "IsRetryable r \<and> rp_attempts p < maximum_attempts (rp_options p)")
    case True
    then obtain d where d: "NextDelay p r = (Some d, p\<lparr>rp_attempts := rp_attempts p + 1\<rparr>)"
      "unat d = backoff (rp_options p) (rp_attempts p)"
      using NextDelay_grants [OF Cons.prems(1)] by blast
    obtain ds' where ds: "retry_run (p\<lparr>rp_attempts := rp_attempts p + 1\<rparr>) rs = (ds', p')" "ds = d # ds'"
      using Cons.prems(2) d(1) by (auto split: prod.splits)
    have ih: "length ds' = min (maximum_attempts (rp_options p) - (rp_attempts p + 1)) (length (filter IsRetryable rs))"
      "map unat ds' = map (backoff (rp_options p)) [rp_attempts p + 1 ..< rp_attempts p + 1 + length ds']"
      using Cons.IH [OF _ ds(1)] Cons.prems(1) by simp_all
    have "[rp_attempts p ..< rp_attempts p + length ds] = rp_attempts p # [rp_attempts p + 1 ..< rp_attempts p + 1 + length ds']"
      by (simp add: ds(2) upt_rec)
    moreover have "maximum_attempts (rp_options p) - rp_attempts p = Suc (maximum_attempts (rp_options p) - (rp_attempts p + 1))"
      using True by linarith
    ultimately show ?thesis using ih d(2) True by (simp only: ds(2) list.map length_Cons filter.simps if_True) simp
  next
    case False
    then have "NextDelay p r = (None, p)" by (auto simp: NextDelay_def)
    then have "retry_run p rs = (ds, p')" using Cons.prems(2) by (auto split: prod.splits)
    with Cons.IH [OF Cons.prems(1)] False show ?thesis by auto
  qed
qed simp

text \<open>
  C40. Retries end and never spin: from a fresh policy, whatever the responses, the number of delays
  granted is the number of retryable responses capped by the configured attempts, the \<open>k\<close>-th delay is
  the initial one doubled \<open>k\<close> times and capped by the maximum, computed without wrap-around, and no
  delay is zero.
\<close>

theorem retry_backoff:
  assumes "retry_run (new_retry_policy options) responses = (delays, p)"
  shows "length delays = min (maximum_attempts options) (length (filter IsRetryable responses)) \<and>
    map unat delays = map (backoff (rp_options (new_retry_policy options))) [0 ..< length delays] \<and>
    (\<forall>d \<in> set delays. 0 < unat d)"
proof -
  let ?o = "rp_options (new_retry_policy options)"
  have "rp_attempts (new_retry_policy options) = 0" by (simp add: new_retry_policy_def Let_def)
  then have r: "length delays = min (maximum_attempts options) (length (filter IsRetryable responses))"
    "map unat delays = map (backoff ?o) [0 ..< length delays]"
    using retry_run_delays [OF new_retry_policy_options(2) assms] by (simp_all add: new_retry_policy_options(3))
  have "0 < backoff ?o k" for k
    using new_retry_policy_options(1,2) [of options] by (simp add: backoff_def)
  then have "0 < x" if "x \<in> set (map unat delays)" for x using that unfolding r(2) by auto
  then have "\<forall>d \<in> set delays. 0 < unat d" by (metis image_eqI list.set_map)
  then show ?thesis using r by simp
qed

theorem retry_backoff_witness:
  "map unat (fst (retry_run (new_retry_policy \<lparr>maximum_attempts = 3, initial_delay_ms = 1000, maximum_delay_ms = 3000\<rparr>)
     (replicate 5 \<lparr>http_status = Im_kNetworkFailure, http_status_code = 0, http_body = [], http_message = []\<rparr>))) = [1000, 2000, 3000]"
proof -
  let ?o = "\<lparr>maximum_attempts = 3, initial_delay_ms = 1000, maximum_delay_ms = 3000\<rparr>"
  let ?r = "\<lparr>http_status = Im_kNetworkFailure, http_status_code = 0, http_body = [], http_message = []\<rparr>"
  obtain ds p where run: "retry_run (new_retry_policy ?o) (replicate 5 ?r) = (ds, p)" by fastforce
  have l: "length ds = 3" using retry_backoff [OF run] by (simp add: IsRetryable_def)
  have "map unat ds = map (backoff (rp_options (new_retry_policy ?o))) [0 ..< length ds]" using retry_backoff [OF run] by blast
  also have "\<dots> = [1000, 2000, 3000]" unfolding l by (simp add: backoff_def new_retry_policy_def upt_rec)
  finally show ?thesis using run by simp
qed

end
