(* ===== verification/Im_Provisioning.thy ===== *)
theory Im_Provisioning
  imports Contracts
begin

text \<open>
  The frames that configure the messaging gateway over the USB serial line (\<open>im_provisioning.cc\<close>):
  the header and the request of a provisioning frame and the pairing trigger. The request parser is
  compared with a writer of the format: it accepts exactly what the writer produces.
\<close>

unbundle bit_operations_syntax

type_synonym octet = "8 word"

section \<open>Frames\<close>

definition kImProvisioningHeaderSize :: nat where
  "kImProvisioningHeaderSize = 12"

definition kImPairingTriggerSize :: nat where
  "kImPairingTriggerSize = 12"

record ImPairingTriggerRequest =
  expires_in_minutes :: int

record ImProvisioningHeader =
  ph_allow_overwrite :: bool
  gateway_origin_size :: nat
  device_id_size :: nat
  device_token_size :: nat
  user_id_size :: nat
  payload_size :: nat

record ImProvisioningRequest =
  pr_allow_overwrite :: bool
  gateway_origin :: string
  pr_device_id :: string
  pr_device_token :: string
  pr_user_id :: string

definition kMagicPrefix :: "octet list" where
  "kMagicPrefix = [0x56, 0x4C, 0x49]"

definition kMaxGatewayOriginBytes :: nat where "kMaxGatewayOriginBytes = 255"
definition kMaxDeviceIdBytes :: nat where "kMaxDeviceIdBytes = 128"
definition kMaxDeviceTokenBytes :: nat where "kMaxDeviceTokenBytes = 512"
definition kMaxUserIdBytes :: nat where "kMaxUserIdBytes = 128"

definition DecodeSize :: "octet list \<Rightarrow> nat \<Rightarrow> nat" where
  "DecodeSize bytes offset = push_bit 8 (unat (bytes ! offset)) OR unat (bytes ! (offset + 1))"

text \<open>\<open>std::iscntrl\<close> in the C locale.\<close>

definition iscntrl :: "octet \<Rightarrow> bool" where
  "iscntrl c \<longleftrightarrow> c < 0x20 \<or> c = 0x7F"

definition IsSafeText :: "octet list \<Rightarrow> bool" where
  "IsSafeText bytes \<longleftrightarrow> list_all (\<lambda>c. c \<noteq> 0 \<and> \<not> iscntrl c) bytes"

definition IsSafeCredential :: "octet list \<Rightarrow> bool" where
  "IsSafeCredential bytes \<longleftrightarrow> list_all (\<lambda>c. c > 0x20 \<and> c < 0x7F) bytes"

definition ToString :: "octet list \<Rightarrow> string" where
  "ToString bytes = map (\<lambda>b. char_of (unat b)) bytes"

definition msg_header_incomplete :: string where
  "msg_header_incomplete = ''IM provisioning header '' @ utf8 [19981, 23436, 25972]"

definition msg_magic_invalid :: string where
  "msg_magic_invalid = ''IM provisioning magic '' @ utf8 [26080, 25928]"

definition msg_field_length :: string where
  "msg_field_length = ''IM provisioning '' @ utf8 [23383, 27573, 38271, 24230, 36234, 30028]"

definition msg_frame_length :: string where
  "msg_frame_length = ''IM provisioning frame '' @ utf8 [38271, 24230, 19981, 21305, 37197]"

definition msg_field_control :: string where
  "msg_field_control = ''IM provisioning '' @ utf8 [23383, 27573, 21253, 21547, 38750, 27861, 25511, 21046, 23383, 31526]"

definition msg_trigger_invalid :: string where
  "msg_trigger_invalid = ''IM pairing trigger '' @ utf8 [26080, 25928]"

definition msg_trigger_range :: string where
  "msg_trigger_range = ''IM pairing trigger '' @ utf8 [21442, 25968, 36234, 30028]"

section \<open>Parsers\<close>

definition ParseImProvisioningHeader :: "octet list \<Rightarrow> ImProvisioningHeader Result" where
  "ParseImProvisioningHeader bytes =
     (if length bytes < kImProvisioningHeaderSize then Failure kInvalidArgument msg_header_incomplete
      else if take 3 bytes \<noteq> kMagicPrefix \<or> bytes ! 3 \<noteq> 0x31 \<and> bytes ! 3 \<noteq> 0x32
        then Failure kInvalidArgument msg_magic_invalid
      else
        (let origin = DecodeSize bytes 4; device = DecodeSize bytes 6; token = DecodeSize bytes 8; user = DecodeSize bytes 10
         in if origin = 0 \<or> origin > kMaxGatewayOriginBytes \<or> device = 0 \<or> device > kMaxDeviceIdBytes \<or>
               token = 0 \<or> token > kMaxDeviceTokenBytes \<or> user > kMaxUserIdBytes
            then Failure kInvalidArgument msg_field_length
            else Success \<lparr>ph_allow_overwrite = (bytes ! 3 = 0x32), gateway_origin_size = origin, device_id_size = device,
                   device_token_size = token, user_id_size = user, payload_size = origin + device + token + user\<rparr>))"

definition ParseImProvisioningRequest :: "octet list \<Rightarrow> ImProvisioningRequest Result" where
  "ParseImProvisioningRequest bytes =
     (let header = ParseImProvisioningHeader bytes
      in case (ok header, val header) of
           (True, Some h) \<Rightarrow>
             if length bytes \<noteq> kImProvisioningHeaderSize + payload_size h then Failure kInvalidArgument msg_frame_length
             else
               (let rest = drop kImProvisioningHeaderSize bytes;
                    origin = take (gateway_origin_size h) rest; rest = drop (gateway_origin_size h) rest;
                    device = take (device_id_size h) rest; rest = drop (device_id_size h) rest;
                    token = take (device_token_size h) rest; rest = drop (device_token_size h) rest;
                    user = take (user_id_size h) rest
                in if \<not> IsSafeText origin \<or> \<not> IsSafeCredential device \<or> \<not> IsSafeCredential token \<or> \<not> IsSafeText user
                   then Failure kInvalidArgument msg_field_control
                   else Success \<lparr>pr_allow_overwrite = ph_allow_overwrite h, gateway_origin = ToString origin,
                          pr_device_id = ToString device, pr_device_token = ToString token, pr_user_id = ToString user\<rparr>)
         | _ \<Rightarrow> Failure (code (status header)) (message (status header)))"

definition kPairingMagic :: "octet list" where
  "kPairingMagic = [0x56, 0x4C, 0x50, 0x31]"

definition ParseImPairingTrigger :: "octet list \<Rightarrow> ImPairingTriggerRequest Result" where
  "ParseImPairingTrigger bytes =
     (if length bytes \<noteq> kImPairingTriggerSize \<or> take 4 bytes \<noteq> kPairingMagic
        then Failure kInvalidArgument msg_trigger_invalid
      else if bytes ! 4 < 1 \<or> bytes ! 4 > 10 \<or> \<not> list_all (\<lambda>value. value = 0) (drop 5 bytes)
        then Failure kInvalidArgument msg_trigger_range
      else Success \<lparr>expires_in_minutes = uint (bytes ! 4)\<rparr>)"

section \<open>The format\<close>

text \<open>A writer of provisioning frames, as the provisioning client has to produce them.\<close>

definition octets :: "string \<Rightarrow> octet list" where
  "octets s = map (\<lambda>c. word_of_nat (byte c)) s"

definition size_field :: "'a list \<Rightarrow> octet list" where
  "size_field s = [word_of_nat (length s div 256), word_of_nat (length s mod 256)]"

definition write_request :: "ImProvisioningRequest \<Rightarrow> octet list" where
  "write_request r =
     kMagicPrefix @ [if pr_allow_overwrite r then 0x32 else 0x31] @
     size_field (gateway_origin r) @ size_field (pr_device_id r) @ size_field (pr_device_token r) @ size_field (pr_user_id r) @
     octets (gateway_origin r) @ octets (pr_device_id r) @ octets (pr_device_token r) @ octets (pr_user_id r)"

definition text_char :: "char \<Rightarrow> bool" where
  "text_char c \<longleftrightarrow> byte c \<ge> 32 \<and> byte c \<noteq> 127"

definition credential_char :: "char \<Rightarrow> bool" where
  "credential_char c \<longleftrightarrow> 33 \<le> byte c \<and> byte c \<le> 126"

definition request_allowed :: "ImProvisioningRequest \<Rightarrow> bool" where
  "request_allowed r \<longleftrightarrow>
     length (gateway_origin r) \<in> {1..255} \<and> list_all text_char (gateway_origin r) \<and>
     length (pr_device_id r) \<in> {1..128} \<and> list_all credential_char (pr_device_id r) \<and>
     length (pr_device_token r) \<in> {1..512} \<and> list_all credential_char (pr_device_token r) \<and>
     length (pr_user_id r) \<le> 128 \<and> list_all text_char (pr_user_id r)"

lemma octets_simps [simp]: "length (octets s) = length s" "length (ToString bs) = length bs" "length (size_field s) = 2"
  by (simp_all add: octets_def ToString_def size_field_def)

lemma char_less [simp]: "byte c < 256"
  using nat_of_char_less_256 [of c] by simp

lemma octet_less [simp]: "unat (b :: octet) < 256"
  using unsigned_less [of b, where 'a = nat] by simp

lemma unat_octet [simp]: "n < 256 \<Longrightarrow> unat (word_of_nat n :: octet) = n"
  by (simp add: unsigned_of_nat take_bit_nat_eq_self)

lemma ToString_octets [simp]: "ToString (octets s) = s"
  by (simp add: ToString_def octets_def comp_def)

lemma octets_ToString [simp]: "octets (ToString bs) = bs"
  by (simp add: ToString_def octets_def comp_def of_char_of)

lemma safe_octets [simp]:
  "IsSafeText (octets s) \<longleftrightarrow> list_all text_char s" "IsSafeCredential (octets s) \<longleftrightarrow> list_all credential_char s"
  by (auto simp: IsSafeText_def IsSafeCredential_def octets_def list_all_iff iscntrl_def text_char_def credential_char_def
      word_less_nat_alt word_unat_eq_iff)

lemma size_octets: "push_bit 8 (unat (a :: octet)) OR unat (b :: octet) = 256 * unat a + unat b"
proof -
  have "push_bit 8 (unat a) OR take_bit 8 (unat b) = push_bit 8 (unat a) + take_bit 8 (unat b)"
    by (rule disjunctive_add_eq_or [symmetric]) (auto simp: bit_eq_iff bit_simps)
  then show ?thesis by (simp add: take_bit_nat_eq_self push_bit_eq_mult mult.commute)
qed

lemma size_field_eq: "length s < 65536 \<Longrightarrow> size_field s = [a, b] \<longleftrightarrow> length s = 256 * unat a + unat b"
proof
  assume "length s < 65536" "size_field s = [a, b]"
  then have "length s div 256 = unat a" "length s mod 256 = unat b" by (auto simp: size_field_def)
  then show "length s = 256 * unat a + unat b" using mult_div_mod_eq [of 256 "length s"] by simp
qed (use octet_less [of b] in \<open>auto simp: size_field_def\<close>)

lemma size_field_cases: obtains a b where "size_field s = [a, b]"
  by (simp add: size_field_def)

lemma ParseHeader_shape:
  "ParseImProvisioningHeader (kMagicPrefix @ [b, x4, x5, x6, x7, x8, x9, x10, x11] @ rest) =
     (if b \<noteq> 0x31 \<and> b \<noteq> 0x32 then Failure kInvalidArgument msg_magic_invalid
      else let origin = 256 * unat x4 + unat x5; device = 256 * unat x6 + unat x7;
               token = 256 * unat x8 + unat x9; user = 256 * unat x10 + unat x11
           in if origin \<in> {1..255} \<and> device \<in> {1..128} \<and> token \<in> {1..512} \<and> user \<le> 128
              then Success \<lparr>ph_allow_overwrite = (b = 0x32), gateway_origin_size = origin, device_id_size = device,
                     device_token_size = token, user_id_size = user, payload_size = origin + device + token + user\<rparr>
              else Failure kInvalidArgument msg_field_length)"
  unfolding ParseImProvisioningHeader_def
  by (simp add: DecodeSize_def kMagicPrefix_def size_octets kImProvisioningHeaderSize_def Let_def
      kMaxGatewayOriginBytes_def kMaxDeviceIdBytes_def kMaxDeviceTokenBytes_def kMaxUserIdBytes_def not_less) linarith

lemma nine_elements:
  assumes "length xs = 9"
  obtains x0 x1 x2 x3 x4 x5 x6 x7 x8 where "xs = [x0, x1, x2, x3, x4, x5, x6, x7, x8]"
  using assms by (auto simp: numeral_eq_Suc length_Suc_conv)

lemma header_bytes:
  assumes "length bs \<ge> 12" "take 3 bs = kMagicPrefix"
  obtains b x4 x5 x6 x7 x8 x9 x10 x11 rest where "bs = kMagicPrefix @ [b, x4, x5, x6, x7, x8, x9, x10, x11] @ rest"
proof -
  have "length (take 9 (drop 3 bs)) = 9" using assms(1) by simp
  then obtain b x4 x5 x6 x7 x8 x9 x10 x11 where m: "take 9 (drop 3 bs) = [b, x4, x5, x6, x7, x8, x9, x10, x11]"
    by (elim nine_elements)
  have "bs = take 3 bs @ take 9 (drop 3 bs) @ drop 9 (drop 3 bs)" by (simp only: append_take_drop_id)
  then show ?thesis using that [of b x4 x5 x6 x7 x8 x9 x10 x11 "drop 9 (drop 3 bs)"] by (simp only: assms(2) m)
qed

lemma split_length:
  assumes "length s = m + n"
  obtains u v where "s = u @ v" "length u = m" "length v = n"
  using assms that [of "take m s" "drop m s"] by simp

lemma octets_append: "octets (xs @ ys) = octets xs @ octets ys"
  by (simp add: octets_def)

definition request_of :: "ImProvisioningHeader \<Rightarrow> string \<Rightarrow> string \<Rightarrow> string \<Rightarrow> string \<Rightarrow> ImProvisioningRequest" where
  "request_of h origin device token user = \<lparr>pr_allow_overwrite = ph_allow_overwrite h, gateway_origin = origin,
     pr_device_id = device, pr_device_token = token, pr_user_id = user\<rparr>"

lemma ParseRequest_fields:
  assumes "ParseImProvisioningHeader bs = Success h" "length bs = 12 + payload_size h"
    and "payload_size h = length origin + length device + length token + length user"
    and "drop 12 bs = octets origin @ octets device @ octets token @ octets user"
    and "gateway_origin_size h = length origin" "device_id_size h = length device"
    and "device_token_size h = length token" "user_id_size h = length user"
  shows "ParseImProvisioningRequest bs =
       (if list_all text_char origin \<and> list_all credential_char device \<and> list_all credential_char token \<and> list_all text_char user
        then Success (request_of h origin device token user) else Failure kInvalidArgument msg_field_control)"
  using assms(2,3)
  by (simp add: ParseImProvisioningRequest_def assms(1,4-8) kImProvisioningHeaderSize_def Let_def request_of_def)

lemma ParseRequest_split:
  assumes "ParseImProvisioningHeader bs = Success h" "length bs = 12 + payload_size h"
    and "payload_size h = gateway_origin_size h + (device_id_size h + (device_token_size h + user_id_size h))"
  obtains origin device token user where
    "drop 12 bs = octets origin @ octets device @ octets token @ octets user"
    "gateway_origin_size h = length origin" "device_id_size h = length device"
    "device_token_size h = length token" "user_id_size h = length user"
proof -
  have "length (ToString (drop 12 bs)) = gateway_origin_size h + (device_id_size h + (device_token_size h + user_id_size h))"
    using assms by simp
  then obtain origin device token user where s: "ToString (drop 12 bs) = origin @ device @ token @ user"
    and l: "length origin = gateway_origin_size h" "length device = device_id_size h"
      "length token = device_token_size h" "length user = user_id_size h"
    by (metis split_length)
  have "drop 12 bs = octets (ToString (drop 12 bs))" by simp
  also have "\<dots> = octets origin @ octets device @ octets token @ octets user" by (simp only: s octets_append)
  finally show ?thesis using that l by metis
qed

lemma write_request_bytes:
  obtains b x4 x5 x6 x7 x8 x9 x10 x11 where
    "write_request r = kMagicPrefix @ [b, x4, x5, x6, x7, x8, x9, x10, x11] @
       octets (gateway_origin r) @ octets (pr_device_id r) @ octets (pr_device_token r) @ octets (pr_user_id r)"
    "b = (if pr_allow_overwrite r then 0x32 else 0x31)" "size_field (gateway_origin r) = [x4, x5]"
    "size_field (pr_device_id r) = [x6, x7]" "size_field (pr_device_token r) = [x8, x9]" "size_field (pr_user_id r) = [x10, x11]"
  unfolding write_request_def by (simp add: size_field_def)

lemma parsed_is_written:
  assumes *: "ParseImProvisioningRequest bs = Success r"
  shows "request_allowed r \<and> bs = write_request r"
proof -
  have "ok (ParseImProvisioningHeader bs)"
    using * by (auto simp: ParseImProvisioningRequest_def Let_def split: bool.splits option.splits)
  then obtain h where h: "ParseImProvisioningHeader bs = Success h"
    unfolding ParseImProvisioningHeader_def Let_def by (auto split: if_splits)
  then obtain b x4 x5 x6 x7 x8 x9 x10 x11 rest where
    bs: "bs = kMagicPrefix @ [b, x4, x5, x6, x7, x8, x9, x10, x11] @ rest"
    using header_bytes [of bs]
    by (auto simp: ParseImProvisioningHeader_def kImProvisioningHeaderSize_def split: if_splits)
  have p: "length bs = 12 + payload_size h" using * h
    by (auto simp: ParseImProvisioningRequest_def Let_def kImProvisioningHeaderSize_def split: if_splits)
  have H: "b = (if ph_allow_overwrite h then 0x32 else 0x31)"
    "gateway_origin_size h = 256 * unat x4 + unat x5" "device_id_size h = 256 * unat x6 + unat x7"
    "device_token_size h = 256 * unat x8 + unat x9" "user_id_size h = 256 * unat x10 + unat x11"
    "gateway_origin_size h \<in> {1..255}" "device_id_size h \<in> {1..128}" "device_token_size h \<in> {1..512}" "user_id_size h \<le> 128"
    "payload_size h = gateway_origin_size h + (device_id_size h + (device_token_size h + user_id_size h))"
    using h unfolding bs ParseHeader_shape Let_def by (auto split: if_splits)
  obtain origin device token user where
    f: "drop 12 bs = octets origin @ octets device @ octets token @ octets user"
    "gateway_origin_size h = length origin" "device_id_size h = length device"
    "device_token_size h = length token" "user_id_size h = length user"
    using ParseRequest_split [OF h p H(10)] by blast
  have r: "r = request_of h origin device token user"
    "list_all text_char origin" "list_all credential_char device" "list_all credential_char token" "list_all text_char user"
    using * ParseRequest_fields [OF h p _ f] H(10) f(2-5) by (auto split: if_splits)
  have "rest = drop 12 bs" by (simp add: bs kMagicPrefix_def)
  moreover have "size_field origin = [x4, x5]" "size_field device = [x6, x7]" "size_field token = [x8, x9]" "size_field user = [x10, x11]"
    using H f(2-5) by (simp_all add: size_field_eq)
  ultimately have "bs = write_request r" using bs H(1) f(1) r(1) by (simp add: write_request_def request_of_def)
  then show ?thesis
    using H f(2-5) r by (simp add: request_allowed_def request_of_def)
qed

lemma written_is_parsed:
  assumes *: "request_allowed r \<and> bs = write_request r"
  shows "ParseImProvisioningRequest bs = Success r"
proof -
  obtain b x4 x5 x6 x7 x8 x9 x10 x11 where
    bs: "write_request r = kMagicPrefix @ [b, x4, x5, x6, x7, x8, x9, x10, x11] @
       octets (gateway_origin r) @ octets (pr_device_id r) @ octets (pr_device_token r) @ octets (pr_user_id r)"
    and b: "b = (if pr_allow_overwrite r then 0x32 else 0x31)"
    and x: "size_field (gateway_origin r) = [x4, x5]" "size_field (pr_device_id r) = [x6, x7]"
      "size_field (pr_device_token r) = [x8, x9]" "size_field (pr_user_id r) = [x10, x11]"
    by (rule write_request_bytes)
  have l: "256 * unat x4 + unat x5 = length (gateway_origin r)" "256 * unat x6 + unat x7 = length (pr_device_id r)"
    "256 * unat x8 + unat x9 = length (pr_device_token r)" "256 * unat x10 + unat x11 = length (pr_user_id r)"
    using * x by (simp_all add: request_allowed_def size_field_eq)
  have "ParseImProvisioningHeader bs = Success \<lparr>ph_allow_overwrite = pr_allow_overwrite r,
      gateway_origin_size = length (gateway_origin r), device_id_size = length (pr_device_id r),
      device_token_size = length (pr_device_token r), user_id_size = length (pr_user_id r),
      payload_size = length (gateway_origin r) + length (pr_device_id r) + length (pr_device_token r) + length (pr_user_id r)\<rparr>"
    using * unfolding conjunct2 [OF *] bs ParseHeader_shape l Let_def by (simp add: b request_allowed_def)
  then obtain h where h: "ParseImProvisioningHeader bs = Success h" "ph_allow_overwrite h = pr_allow_overwrite r"
    "gateway_origin_size h = length (gateway_origin r)" "device_id_size h = length (pr_device_id r)"
    "device_token_size h = length (pr_device_token r)" "user_id_size h = length (pr_user_id r)"
    "payload_size h = length (gateway_origin r) + length (pr_device_id r) + length (pr_device_token r) + length (pr_user_id r)"
    by (metis ImProvisioningHeader.select_convs(1-6))
  have "length bs = 12 + payload_size h"
    "drop 12 bs = octets (gateway_origin r) @ octets (pr_device_id r) @ octets (pr_device_token r) @ octets (pr_user_id r)"
    using * h(7) by (simp_all add: bs kMagicPrefix_def)
  from ParseRequest_fields [OF h(1) this(1) h(7) this(2) h(3-6)] show ?thesis
    using * h(2) by (simp add: request_allowed_def request_of_def)
qed

text \<open>
  C29. The provisioning request that a frame carries is unambiguous and checked: the parser accepts
  a sequence of bytes exactly when it is the written form of a request whose fields have the
  permitted lengths and characters, and then returns that request.
\<close>

theorem provisioning_exact:
  "ParseImProvisioningRequest bs = Success r \<longleftrightarrow> request_allowed r \<and> bs = write_request r"
  using parsed_is_written written_is_parsed by blast

end
