(* ===== verification/Usb_Frames.thy ===== *)
theory Usb_Frames
  imports Im_Provisioning
begin

text \<open>
  The decoder of the frames that share the USB serial line with the console
  (\<open>usb_serial_frame_router.cc\<close>, \<open>serial_voice_protocol.h\<close>): it searches the byte stream for one of
  four magic numbers, reads a header and, with the length found there, the rest of the frame, into
  a fixed array. The decoder is refined to one on lists, for which the format of frames is stated.
\<close>

section \<open>The voice protocol\<close>

definition kSerialVoiceMagic :: "octet list" where
  "kSerialVoiceMagic = [0x56, 0x4C, 0x56, 0x54]"

definition kSerialVoiceProtocolVersion :: octet where "kSerialVoiceProtocolVersion = 1"
definition kSerialVoiceBegin :: octet where "kSerialVoiceBegin = 1"
definition kSerialVoicePcm :: octet where "kSerialVoicePcm = 2"
definition kSerialVoiceEnd :: octet where "kSerialVoiceEnd = 3"
definition kSerialVoiceWakeBegin :: octet where "kSerialVoiceWakeBegin = 4"
definition kSerialVoiceWakeEnd :: octet where "kSerialVoiceWakeEnd = 5"

definition kSerialVoicePcmBytes :: nat where
  "kSerialVoicePcmBytes = 16000 * 20 div 1000 * 2"

record SerialVoiceFrameHeader =
  vh_version :: octet
  vh_kind :: octet
  vh_payload_bytes :: "16 word"

definition IsValidSerialVoiceHeader :: "SerialVoiceFrameHeader \<Rightarrow> bool" where
  "IsValidSerialVoiceHeader header =
     (if vh_version header \<noteq> kSerialVoiceProtocolVersion \<or> unat (vh_payload_bytes header) > kSerialVoicePcmBytes then False
      else if vh_kind header = kSerialVoicePcm then unat (vh_payload_bytes header) = kSerialVoicePcmBytes
      else (vh_kind header = kSerialVoiceBegin \<or> vh_kind header = kSerialVoiceEnd \<or>
            vh_kind header = kSerialVoiceWakeBegin \<or> vh_kind header = kSerialVoiceWakeEnd) \<and> vh_payload_bytes header = 0)"

text \<open>\<open>SerialVoiceMagicMatcher\<close>; its state is \<open>matched_\<close>, which stays below 4, the bound of the two arrays.\<close>

definition kFailure :: "nat list" where
  "kFailure = [0, 0, 1, 0]"

lemma kFailure_less: "0 < m \<Longrightarrow> m < 4 \<Longrightarrow> kFailure ! (m - 1) < m"
  by (auto simp: kFailure_def less_Suc_eq numeral_eq_Suc)

function Matcher_fallback :: "octet \<Rightarrow> nat \<Rightarrow> nat" where
  "Matcher_fallback b m =
     (if 0 < m \<and> m < 4 \<and> b \<noteq> kSerialVoiceMagic ! m then Matcher_fallback b (kFailure ! (m - 1)) else m)"
  by pat_completeness auto
termination by (relation "measure snd") (auto intro: kFailure_less [simplified])

declare Matcher_fallback.simps [simp del]

definition Matcher_Push :: "nat \<Rightarrow> octet \<Rightarrow> bool \<times> nat" where
  "Matcher_Push matched b =
     (let matched = Matcher_fallback b matched;
          matched = (if b = kSerialVoiceMagic ! matched then matched + 1 else matched)
      in if matched \<noteq> length kSerialVoiceMagic then (False, matched) else (True, last kFailure))"

section \<open>The decoder\<close>

datatype UsbSerialFrameKind = kImProvisioning | kImPairing | kSerialVoice

definition kUsbSerialMaximumFrameBytes :: nat where
  "kUsbSerialMaximumFrameBytes = 12 + 255 + 128 + 512 + 128"

record UsbSerialFrame =
  usb_kind :: UsbSerialFrameKind
  usb_size :: nat
  usb_bytes :: "octet list"

definition view :: "UsbSerialFrame \<Rightarrow> octet list" where
  "view f = take (usb_size f) (usb_bytes f)"

datatype DecoderState = kSearchingMagic | kReadingFrame

record UsbSerialFrameDecoder =
  dec_state :: DecoderState
  dec_frame :: UsbSerialFrame
  dec_expected :: nat

definition kImProvisioningV1Magic :: "octet list" where "kImProvisioningV1Magic = [0x56, 0x4C, 0x49, 0x31]"
definition kImProvisioningV2Magic :: "octet list" where "kImProvisioningV2Magic = [0x56, 0x4C, 0x49, 0x32]"
definition kImPairingMagic :: "octet list" where "kImPairingMagic = [0x56, 0x4C, 0x50, 0x31]"
definition kSerialVoiceHeaderSize :: nat where "kSerialVoiceHeaderSize = 8"

definition MatchesPrefix :: "octet list \<Rightarrow> octet list \<Rightarrow> bool" where
  "MatchesPrefix candidate magic \<longleftrightarrow> length candidate \<le> length magic \<and> candidate = take (length candidate) magic"

definition FullMagicKind :: "octet list \<Rightarrow> UsbSerialFrameKind option" where
  "FullMagicKind magic =
     (if magic = kImProvisioningV1Magic then Some kImProvisioning
      else if magic = kImProvisioningV2Magic then Some kImProvisioning
      else if magic = kImPairingMagic then Some kImPairing
      else if magic = kSerialVoiceMagic then Some kSerialVoice
      else None)"

definition new_usb_decoder :: UsbSerialFrameDecoder where
  "new_usb_decoder = \<lparr>dec_state = kSearchingMagic,
     dec_frame = \<lparr>usb_kind = kImProvisioning, usb_size = 0, usb_bytes = replicate kUsbSerialMaximumFrameBytes 0\<rparr>,
     dec_expected = 0\<rparr>"

definition Usb_Reset :: "UsbSerialFrameDecoder \<Rightarrow> UsbSerialFrameDecoder" where
  "Usb_Reset d = \<lparr>dec_state = kSearchingMagic,
     dec_frame = (dec_frame d)\<lparr>usb_bytes := replicate (length (usb_bytes (dec_frame d))) 0, usb_size := 0\<rparr>,
     dec_expected = 0\<rparr>"

definition IsMagicPrefix :: "UsbSerialFrame \<Rightarrow> bool" where
  "IsMagicPrefix f \<longleftrightarrow> MatchesPrefix (view f) kImProvisioningV1Magic \<or> MatchesPrefix (view f) kImProvisioningV2Magic \<or>
     MatchesPrefix (view f) kImPairingMagic \<or> MatchesPrefix (view f) kSerialVoiceMagic"

definition FinishFrame :: "UsbSerialFrameDecoder \<Rightarrow> UsbSerialFrame option \<times> UsbSerialFrameDecoder" where
  "FinishFrame d = (Some (dec_frame d), Usb_Reset d)"

text \<open>\<open>bytes[size++] = byte\<close>, and the loop that moves the array down by one while it is no prefix of a magic number.\<close>

definition append_byte :: "UsbSerialFrame \<Rightarrow> octet \<Rightarrow> UsbSerialFrame" where
  "append_byte f b = f\<lparr>usb_bytes := (usb_bytes f)[usb_size f := b], usb_size := usb_size f + 1\<rparr>"

function resynchronize :: "UsbSerialFrame \<Rightarrow> UsbSerialFrame" where
  "resynchronize f =
     (if usb_size f \<noteq> 0 \<and> \<not> IsMagicPrefix f
      then resynchronize (f\<lparr>usb_bytes := take (usb_size f - 1) (drop 1 (usb_bytes f)) @ drop (usb_size f - 1) (usb_bytes f),
                            usb_size := usb_size f - 1\<rparr>)
      else f)"
  by pat_completeness auto
termination by (relation "measure usb_size") auto

declare resynchronize.simps [simp del]

definition Push_search :: "UsbSerialFrameDecoder \<Rightarrow> octet \<Rightarrow> UsbSerialFrame option \<times> UsbSerialFrameDecoder" where
  "Push_search d b =
     (let d = (if usb_size (dec_frame d) = 4 then Usb_Reset d else d);
          f = resynchronize (append_byte (dec_frame d) b);
          d = d\<lparr>dec_frame := f\<rparr>
      in if usb_size f \<noteq> 4 then (None, d)
         else case FullMagicKind (view f) of
             None \<Rightarrow> (None, Usb_Reset d)
           | Some kind \<Rightarrow>
               (None, \<lparr>dec_state = kReadingFrame, dec_frame = f\<lparr>usb_kind := kind\<rparr>,
                       dec_expected = (if kind = kSerialVoice then kSerialVoiceHeaderSize else kImProvisioningHeaderSize)\<rparr>))"

definition serial_header :: "octet list \<Rightarrow> SerialVoiceFrameHeader" where
  "serial_header bytes = \<lparr>vh_version = bytes ! 4, vh_kind = bytes ! 5,
     vh_payload_bytes = ucast (bytes ! 6) OR push_bit 8 (ucast (bytes ! 7))\<rparr>"

text \<open>What happens when the expected number of bytes has been read: the end of a frame or of a header.\<close>

definition extend_frame :: "UsbSerialFrameDecoder \<Rightarrow> nat \<Rightarrow> UsbSerialFrame option \<times> UsbSerialFrameDecoder" where
  "extend_frame d payload =
     (let d = d\<lparr>dec_expected := dec_expected d + payload\<rparr>
      in if dec_expected d = usb_size (dec_frame d) then FinishFrame d else (None, d))"

definition Push_expected :: "UsbSerialFrameDecoder \<Rightarrow> UsbSerialFrame option \<times> UsbSerialFrameDecoder" where
  "Push_expected d =
     (let f = dec_frame d
      in case usb_kind f of
           kImPairing \<Rightarrow> if \<not> ok (ParseImPairingTrigger (view f)) then (None, Usb_Reset d) else FinishFrame d
         | kImProvisioning \<Rightarrow>
             if dec_expected d \<noteq> kImProvisioningHeaderSize then FinishFrame d
             else (let header = ParseImProvisioningHeader (view f)
                   in if \<not> ok header \<or> usb_size f + payload_size (the (val header)) > length (usb_bytes f) then (None, Usb_Reset d)
                      else extend_frame d (payload_size (the (val header))))
         | kSerialVoice \<Rightarrow>
             (let header = serial_header (usb_bytes f)
              in if dec_expected d \<noteq> kSerialVoiceHeaderSize then FinishFrame d
                 else if \<not> IsValidSerialVoiceHeader header \<or> usb_size f + unat (vh_payload_bytes header) > length (usb_bytes f)
                   then (None, Usb_Reset d)
                 else extend_frame d (unat (vh_payload_bytes header))))"

definition Usb_Push :: "UsbSerialFrameDecoder \<Rightarrow> octet \<Rightarrow> UsbSerialFrame option \<times> UsbSerialFrameDecoder" where
  "Usb_Push d b =
     (case dec_state d of
        kSearchingMagic \<Rightarrow> Push_search d b
      | kReadingFrame \<Rightarrow>
          if usb_size (dec_frame d) = length (usb_bytes (dec_frame d)) then (None, Usb_Reset d)
          else let d = d\<lparr>dec_frame := append_byte (dec_frame d) b\<rparr>
               in if usb_size (dec_frame d) \<noteq> dec_expected d then (None, d) else Push_expected d)"

text \<open>The loop of \<open>RouterTask\<close>: the frames that a sequence of received bytes gives.\<close>

primrec decode :: "UsbSerialFrameDecoder \<Rightarrow> octet list \<Rightarrow> UsbSerialFrame list \<times> UsbSerialFrameDecoder" where
  "decode d [] = ([], d)"
| "decode d (b # bs) =
     (case Usb_Push d b of (out, d) \<Rightarrow>
        case decode d bs of (fs, d) \<Rightarrow> ((case out of None \<Rightarrow> fs | Some f \<Rightarrow> f # fs), d))"

section \<open>The decoder on lists\<close>

text \<open>The same automaton with the array and its fill level replaced by the list of bytes read.\<close>

datatype stream_state = Searching "octet list" | Reading UsbSerialFrameKind "octet list" nat

definition magics :: "octet list list" where
  "magics = [kImProvisioningV1Magic, kImProvisioningV2Magic, kImPairingMagic, kSerialVoiceMagic]"

definition magic_prefix :: "octet list \<Rightarrow> bool" where
  "magic_prefix b \<longleftrightarrow> list_ex (prefix b) magics"

fun trim_front :: "octet list \<Rightarrow> octet list" where
  "trim_front [] = []"
| "trim_front (x # xs) = (if magic_prefix (x # xs) then x # xs else trim_front xs)"

definition header_size :: "UsbSerialFrameKind \<Rightarrow> nat" where
  "header_size k = (if k = kSerialVoice then 8 else 12)"

text \<open>The length that a complete header announces for the whole frame.\<close>

definition announced :: "UsbSerialFrameKind \<Rightarrow> octet list \<Rightarrow> nat option" where
  "announced k bs =
     (case k of
        kImPairing \<Rightarrow> if ok (ParseImPairingTrigger (take 12 bs)) then Some 12 else None
      | kImProvisioning \<Rightarrow> map_option (\<lambda>h. 12 + payload_size h) (val (ParseImProvisioningHeader (take 12 bs)))
      | kSerialVoice \<Rightarrow>
          if IsValidSerialVoiceHeader (serial_header bs) then Some (8 + unat (vh_payload_bytes (serial_header bs))) else None)"

fun stream_push :: "stream_state \<Rightarrow> octet \<Rightarrow> (UsbSerialFrameKind \<times> octet list) option \<times> stream_state" where
  "stream_push (Searching bs) b =
     (let bs = trim_front (bs @ [b])
      in case FullMagicKind bs of None \<Rightarrow> (None, Searching bs) | Some k \<Rightarrow> (None, Reading k bs (header_size k)))"
| "stream_push (Reading k bs n) b =
     (let bs = bs @ [b]
      in if length bs \<noteq> n then (None, Reading k bs n)
         else if n \<noteq> header_size k then (Some (k, bs), Searching [])
         else case announced k bs of
             None \<Rightarrow> (None, Searching [])
           | Some m \<Rightarrow> if m = n then (Some (k, bs), Searching []) else (None, Reading k bs m))"

primrec stream_decode :: "stream_state \<Rightarrow> octet list \<Rightarrow> (UsbSerialFrameKind \<times> octet list) list \<times> stream_state" where
  "stream_decode s [] = ([], s)"
| "stream_decode s (b # bs) =
     (case stream_push s b of (out, s) \<Rightarrow>
        case stream_decode s bs of (fs, s) \<Rightarrow> ((case out of None \<Rightarrow> fs | Some f \<Rightarrow> f # fs), s))"

section \<open>Refinement\<close>

definition abs_state :: "UsbSerialFrameDecoder \<Rightarrow> stream_state" where
  "abs_state d = (case dec_state d of
     kSearchingMagic \<Rightarrow> Searching (view (dec_frame d))
   | kReadingFrame \<Rightarrow> Reading (usb_kind (dec_frame d)) (view (dec_frame d)) (dec_expected d))"

definition decoder_inv :: "UsbSerialFrameDecoder \<Rightarrow> bool" where
  "decoder_inv d \<longleftrightarrow>
     length (usb_bytes (dec_frame d)) = kUsbSerialMaximumFrameBytes \<and>
     (case dec_state d of
        kSearchingMagic \<Rightarrow> usb_size (dec_frame d) < 4
      | kReadingFrame \<Rightarrow>
          4 \<le> usb_size (dec_frame d) \<and> usb_size (dec_frame d) < dec_expected d \<and> dec_expected d \<le> kUsbSerialMaximumFrameBytes \<and>
          FullMagicKind (take 4 (view (dec_frame d))) = Some (usb_kind (dec_frame d)) \<and>
          (dec_expected d = header_size (usb_kind (dec_frame d)) \<or>
           header_size (usb_kind (dec_frame d)) \<le> usb_size (dec_frame d) \<and>
           announced (usb_kind (dec_frame d)) (view (dec_frame d)) = Some (dec_expected d)))"

lemma MatchesPrefix_prefix: "MatchesPrefix c m \<longleftrightarrow> prefix c m"
  unfolding MatchesPrefix_def by (metis prefix_def prefix_length_le append_eq_conv_conj take_is_prefix)

lemma magic_prefix_eq [simp]: "IsMagicPrefix f \<longleftrightarrow> magic_prefix (view f)"
  by (simp add: IsMagicPrefix_def magic_prefix_def magics_def MatchesPrefix_prefix)

lemma FullMagicKind_magics: "FullMagicKind m \<noteq> None \<longleftrightarrow> m \<in> set magics"
  by (auto simp: FullMagicKind_def magics_def)

lemma length_magics: "m \<in> set magics \<Longrightarrow> length m = 4"
  by (auto simp: magics_def kImProvisioningV1Magic_def kImProvisioningV2Magic_def kImPairingMagic_def kSerialVoiceMagic_def)

lemma magic_prefix_length: "magic_prefix b \<Longrightarrow> length b \<le> 4"
  using length_magics by (fastforce simp: magic_prefix_def list_ex_iff dest: prefix_length_le)

lemma magic_prefix_four: "magic_prefix b \<Longrightarrow> length b = 4 \<longleftrightarrow> b \<in> set magics"
  using length_magics by (fastforce simp: magic_prefix_def list_ex_iff prefix_def)

lemma trim_front_props: "magic_prefix (trim_front b)" "suffix (trim_front b) b"
  "suffix c b \<Longrightarrow> magic_prefix c \<Longrightarrow> suffix c (trim_front b)"
proof -
  show "magic_prefix (trim_front b)" by (induction b) (auto simp: magic_prefix_def magics_def)
  show "suffix (trim_front b) b" by (induction b) (auto intro: suffix_ConsI)
  show "suffix c b \<Longrightarrow> magic_prefix c \<Longrightarrow> suffix c (trim_front b)"
    by (induction b) (auto simp: suffix_Cons)
qed

lemma append_byte_simps [simp]:
  "usb_size (append_byte f b) = Suc (usb_size f)" "length (usb_bytes (append_byte f b)) = length (usb_bytes f)"
  "usb_kind (append_byte f b) = usb_kind f"
  by (simp_all add: append_byte_def)

lemma view_append_byte [simp]:
  "usb_size f < length (usb_bytes f) \<Longrightarrow> view (append_byte f b) = view f @ [b]"
  by (simp add: view_def append_byte_def take_Suc_conv_app_nth)

lemma resynchronize_view:
  "usb_size f \<le> length (usb_bytes f) \<Longrightarrow>
     view (resynchronize f) = trim_front (view f) \<and> length (usb_bytes (resynchronize f)) = length (usb_bytes f) \<and>
     usb_size (resynchronize f) = length (trim_front (view f)) \<and> usb_kind (resynchronize f) = usb_kind f"
proof (induction f rule: resynchronize.induct)
  case (1 f)
  then show ?case
  proof (cases "usb_size f \<noteq> 0 \<and> \<not> IsMagicPrefix f")
    case True
    define g where "g = f\<lparr>usb_bytes := take (usb_size f - 1) (drop 1 (usb_bytes f)) @ drop (usb_size f - 1) (usb_bytes f), usb_size := usb_size f - 1\<rparr>"
    have g: "view g = tl (view f)" using 1(2) by (simp add: g_def view_def tl_take drop_Suc)
    have v: "view f \<noteq> []" using True 1(2) by (auto simp: view_def)
    have t: "trim_front (view f) = trim_front (tl (view f))" using v True by (cases "view f") auto
    have "usb_size g \<le> length (usb_bytes g)" "length (usb_bytes g) = length (usb_bytes f)" using 1(2) True by (auto simp: g_def)
    moreover have "resynchronize f = resynchronize g" using True by (simp add: g_def resynchronize.simps [of f])
    ultimately show ?thesis using 1(1) [OF True, folded g_def] by (simp add: t g) (simp add: g_def)
  next
    case False
    then have "trim_front (view f) = view f" by (cases "view f") (auto simp: view_def)
    moreover have "resynchronize f = f" using False by (auto simp: resynchronize.simps [of f])
    ultimately show ?thesis using 1(2) by (simp add: view_def)
  qed
qed

lemma trim_front_length: "length (trim_front b) \<le> 4"
  using magic_prefix_length trim_front_props(1) by blast

lemma FullMagicKind_trim: "FullMagicKind (trim_front b) = None \<longleftrightarrow> length (trim_front b) < 4"
  using magic_prefix_four [OF trim_front_props(1)] FullMagicKind_magics trim_front_length [of b] by (metis less_le)

lemma Usb_Reset_simps [simp]:
  "abs_state (Usb_Reset d) = Searching []" "decoder_inv (Usb_Reset d) \<longleftrightarrow> length (usb_bytes (dec_frame d)) = kUsbSerialMaximumFrameBytes"
  by (simp_all add: Usb_Reset_def abs_state_def view_def decoder_inv_def)

lemma Push_search_refines:
  assumes "decoder_inv d" "dec_state d = kSearchingMagic" "Push_search d b = (out, d')"
  shows "out = None \<and> decoder_inv d' \<and> stream_push (abs_state d) b = (None, abs_state d')"
proof -
  let ?g = "append_byte (dec_frame d) b"
  have i: "length (usb_bytes (dec_frame d)) = kUsbSerialMaximumFrameBytes" "usb_size (dec_frame d) < 4"
    using assms(1,2) by (simp_all add: decoder_inv_def)
  then have "usb_size (dec_frame d) < length (usb_bytes (dec_frame d))" by (simp add: kUsbSerialMaximumFrameBytes_def)
  then have g: "view ?g = view (dec_frame d) @ [b]" "usb_size ?g \<le> length (usb_bytes ?g)" "length (usb_bytes ?g) = kUsbSerialMaximumFrameBytes"
    using i by simp_all
  note r = resynchronize_view [OF g(2), unfolded g]
  show ?thesis
  proof (cases "FullMagicKind (trim_front (view (dec_frame d) @ [b]))")
    case None
    then have "length (trim_front (view (dec_frame d) @ [b])) < 4" by (simp add: FullMagicKind_trim)
    then show ?thesis using assms(2,3) i r None by (auto simp: Push_search_def Let_def abs_state_def decoder_inv_def)
  next
    case (Some k)
    then have "length (trim_front (view (dec_frame d) @ [b])) = 4"
      using FullMagicKind_trim trim_front_length by (metis less_le option.simps(3))
    then show ?thesis using assms(2,3) i r Some
      by (auto simp: Push_search_def Let_def abs_state_def decoder_inv_def header_size_def view_def
          kSerialVoiceHeaderSize_def kImProvisioningHeaderSize_def kUsbSerialMaximumFrameBytes_def)
  qed
qed

lemma serial_header_view: "8 \<le> usb_size f \<Longrightarrow> usb_size f \<le> length (usb_bytes f) \<Longrightarrow> serial_header (usb_bytes f) = serial_header (view f)"
  by (simp add: serial_header_def view_def)

lemma header_payload: "val (ParseImProvisioningHeader bs) = Some h \<Longrightarrow> 3 \<le> payload_size h \<and> payload_size h \<le> 1023"
  by (auto simp: ParseImProvisioningHeader_def Let_def kMaxGatewayOriginBytes_def kMaxDeviceIdBytes_def
      kMaxDeviceTokenBytes_def kMaxUserIdBytes_def split: if_splits)

lemma header_ok: "ok (ParseImProvisioningHeader bs) \<longleftrightarrow> val (ParseImProvisioningHeader bs) \<noteq> None"
  by (simp add: ParseImProvisioningHeader_def Let_def)

lemma voice_payload: "IsValidSerialVoiceHeader h \<Longrightarrow> unat (vh_payload_bytes h) \<le> 640"
  by (auto simp: IsValidSerialVoiceHeader_def kSerialVoicePcmBytes_def split: if_splits)

lemma announced_bound: "announced k bs = Some m \<Longrightarrow> header_size k \<le> m \<and> m \<le> kUsbSerialMaximumFrameBytes"
  using header_payload [of "take 12 bs"] voice_payload [of "serial_header bs"]
  by (cases k) (fastforce simp: announced_def header_size_def kUsbSerialMaximumFrameBytes_def split: if_splits)+

lemmas usb_sizes = kSerialVoiceHeaderSize_def kImProvisioningHeaderSize_def header_size_def kUsbSerialMaximumFrameBytes_def

lemma Push_expected_refines:
  assumes "length (usb_bytes (dec_frame d)) = kUsbSerialMaximumFrameBytes" "usb_size (dec_frame d) = dec_expected d"
    and "dec_expected d \<le> kUsbSerialMaximumFrameBytes"
    and "dec_expected d \<noteq> header_size (usb_kind (dec_frame d)) \<Longrightarrow>
      header_size (usb_kind (dec_frame d)) < dec_expected d \<and> usb_kind (dec_frame d) \<noteq> kImPairing"
  shows "Push_expected d =
     (if dec_expected d \<noteq> header_size (usb_kind (dec_frame d)) then (Some (dec_frame d), Usb_Reset d)
      else case announced (usb_kind (dec_frame d)) (view (dec_frame d)) of
          None \<Rightarrow> (None, Usb_Reset d)
        | Some m \<Rightarrow> if m = dec_expected d then (Some (dec_frame d), Usb_Reset d) else (None, d\<lparr>dec_expected := m\<rparr>))"
proof (cases "usb_kind (dec_frame d)")
  case kImProvisioning
  then show ?thesis using assms header_payload [of "view (dec_frame d)"]
    by (auto simp: Push_expected_def extend_frame_def FinishFrame_def Usb_Reset_def announced_def Let_def header_ok usb_sizes view_def
        split: option.split)
next
  case kImPairing
  then show ?thesis using assms
    by (auto simp: Push_expected_def FinishFrame_def announced_def Let_def usb_sizes view_def)
next
  case kSerialVoice
  then have "header_size (usb_kind (dec_frame d)) = 8" by (simp add: header_size_def)
  then have "serial_header (usb_bytes (dec_frame d)) = serial_header (view (dec_frame d))"
    using assms by (intro serial_header_view) fastforce+
  then show ?thesis using kSerialVoice assms voice_payload [of "serial_header (view (dec_frame d))"]
    by (auto simp: Push_expected_def extend_frame_def FinishFrame_def Usb_Reset_def announced_def Let_def usb_sizes)
qed

lemma announced_append: "header_size k \<le> length bs \<Longrightarrow> announced k (bs @ cs) = announced k bs"
  by (cases k) (auto simp: announced_def header_size_def serial_header_def nth_append)

lemma announced_pairing: "announced kImPairing bs = Some m \<Longrightarrow> m = 12"
  by (simp add: announced_def split: if_splits)

lemma Usb_Push_refines:
  assumes "decoder_inv d" "Usb_Push d b = (out, d')"
  shows "decoder_inv d' \<and>
     stream_push (abs_state d) b = (map_option (\<lambda>f. (usb_kind f, view f)) out, abs_state d') \<and>
     (\<forall>f. out = Some f \<longrightarrow> length (usb_bytes f) = kUsbSerialMaximumFrameBytes \<and> usb_size f = length (view f))"
proof (cases "dec_state d")
  case kSearchingMagic
  then show ?thesis using Push_search_refines [OF assms(1) kSearchingMagic, of b out d'] assms(2) by (auto simp: Usb_Push_def)
next
  case kReadingFrame
  define f where "f = append_byte (dec_frame d) b"
  let ?k = "usb_kind (dec_frame d)" and ?n = "dec_expected d"
  have i: "length (usb_bytes (dec_frame d)) = kUsbSerialMaximumFrameBytes" "4 \<le> usb_size (dec_frame d)" "usb_size (dec_frame d) < ?n"
    "?n \<le> kUsbSerialMaximumFrameBytes" "FullMagicKind (take 4 (view (dec_frame d))) = Some ?k"
    "?n = header_size ?k \<or> header_size ?k \<le> usb_size (dec_frame d) \<and> announced ?k (view (dec_frame d)) = Some ?n"
    using assms(1) kReadingFrame by (simp_all add: decoder_inv_def)
  have l: "length (view (dec_frame d)) = usb_size (dec_frame d)" using i by (simp add: view_def)
  have f: "usb_kind f = ?k" "usb_size f = Suc (usb_size (dec_frame d))" "length (usb_bytes f) = kUsbSerialMaximumFrameBytes"
    "view f = view (dec_frame d) @ [b]" "length (view f) = Suc (usb_size (dec_frame d))" "FullMagicKind (take 4 (view f)) = Some ?k"
    using i l by (simp_all add: f_def)
  have a: "?n \<noteq> header_size ?k \<Longrightarrow> announced ?k (view f) = Some ?n" using i(6) l f(4) announced_append by auto
  have p: "Usb_Push d b = (if usb_size f \<noteq> ?n then (None, d\<lparr>dec_frame := f\<rparr>) else Push_expected (d\<lparr>dec_frame := f\<rparr>))"
    using i kReadingFrame by (simp add: Usb_Push_def f_def [symmetric] Let_def)
  show ?thesis
  proof (cases "usb_size f = ?n")
    case False
    then have "out = None" "d' = d\<lparr>dec_frame := f\<rparr>" using assms(2) p by auto
    then show ?thesis using False kReadingFrame i f a l by (auto simp: decoder_inv_def abs_state_def Let_def)
  next
    case True
    have n: "header_size ?k \<le> ?n" "?n \<noteq> header_size ?k \<Longrightarrow> ?k \<noteq> kImPairing"
      using i(3,6) announced_pairing [of "view (dec_frame d)" ?n] by (auto simp: header_size_def)
    have e: "Push_expected (d\<lparr>dec_frame := f\<rparr>) = (out, d')" using p True assms(2) by simp
    have 0: "abs_state d = Reading ?k (view (dec_frame d)) ?n" using kReadingFrame by (simp add: abs_state_def)
    have m: "decoder_inv (d\<lparr>dec_frame := f, dec_expected := m\<rparr>)" "abs_state (d\<lparr>dec_frame := f, dec_expected := m\<rparr>) = Reading ?k (view f) m"
      if "announced ?k (view f) = Some m" "?n = header_size ?k" "m \<noteq> ?n" for m
      using that True kReadingFrame i(2) f announced_bound [OF that(1)] by (auto simp: decoder_inv_def abs_state_def)
    show ?thesis
      using e True i(4) f l n m unfolding 0
      by (subst (asm) Push_expected_refines) (auto simp: Let_def split: if_splits option.splits)
  qed
qed

lemma decode_refines:
  "decoder_inv d \<Longrightarrow> decode d bs = (fs, d') \<Longrightarrow>
     decoder_inv d' \<and> stream_decode (abs_state d) bs = (map (\<lambda>f. (usb_kind f, view f)) fs, abs_state d') \<and>
     (\<forall>f \<in> set fs. length (usb_bytes f) = kUsbSerialMaximumFrameBytes \<and> usb_size f = length (view f))"
proof (induction bs arbitrary: d fs)
  case (Cons b bs)
  obtain out d1 where 1: "Usb_Push d b = (out, d1)" by fastforce
  obtain gs where 2: "decode d1 bs = (gs, d')" "fs = (case out of None \<Rightarrow> gs | Some f \<Rightarrow> f # gs)"
    using Cons.prems(2) 1 by (auto split: prod.splits)
  show ?case using Usb_Push_refines [OF Cons.prems(1) 1] Cons.IH [OF _ 2(1)] 2(2) by (cases out) auto
qed simp

lemma decoder_start: "decoder_inv new_usb_decoder" "abs_state new_usb_decoder = Searching []"
  by (simp_all add: decoder_inv_def new_usb_decoder_def abs_state_def view_def)

section \<open>What is delivered\<close>

text \<open>A frame of the format: it begins with the magic number of its kind and is as long as its valid header says.\<close>

definition usb_format :: "UsbSerialFrameKind \<Rightarrow> octet list \<Rightarrow> bool" where
  "usb_format k f \<longleftrightarrow> FullMagicKind (take 4 f) = Some k \<and> header_size k \<le> length f \<and> announced k f = Some (length f)"

fun held :: "stream_state \<Rightarrow> octet list" where
  "held (Searching bs) = bs"
| "held (Reading k bs n) = bs"

fun stream_inv :: "stream_state \<Rightarrow> bool" where
  "stream_inv (Searching bs) = True"
| "stream_inv (Reading k bs n) \<longleftrightarrow> 4 \<le> length bs \<and> FullMagicKind (take 4 bs) = Some k \<and>
     (n = header_size k \<or> header_size k \<le> length bs \<and> announced k bs = Some n)"

lemma stream_push_step:
  assumes "stream_inv s" "stream_push s b = (out, s')"
  shows "stream_inv s' \<and>
    (case out of None \<Rightarrow> suffix (held s') (held s @ [b]) | Some (k, f) \<Rightarrow> usb_format k f \<and> f = held s @ [b] \<and> held s' = [])"
proof (cases s)
  case (Searching bs)
  have "length (trim_front (bs @ [b])) = 4" if "FullMagicKind (trim_front (bs @ [b])) \<noteq> None"
    using that FullMagicKind_trim trim_front_length by (metis less_le)
  then show ?thesis using assms Searching trim_front_props(2) [of "bs @ [b]"] by (auto simp: Let_def split: option.splits)
next
  case (Reading k bs n)
  then have "FullMagicKind (take 4 (bs @ [b])) = Some k" "4 \<le> length bs" using assms(1) by auto
  moreover have "announced k (bs @ [b]) = Some n" if "n \<noteq> header_size k" using that assms(1) Reading announced_append by auto
  moreover have "header_size k \<le> length (bs @ [b])" if "n \<noteq> header_size k" using that assms(1) Reading by auto
  ultimately show ?thesis using assms(2) Reading
    by (auto simp: Let_def usb_format_def split: if_splits option.splits)
qed

lemma stream_decode_pieces:
  "stream_inv s \<Longrightarrow> stream_decode s bs = (fs, s') \<Longrightarrow>
     list_all (\<lambda>(k, f). usb_format k f) fs \<and> pieces (held s @ bs) (map snd fs)"
proof (induction bs arbitrary: s fs)
  case (Cons b bs)
  obtain out s1 where 1: "stream_push s b = (out, s1)" by fastforce
  obtain gs where 2: "stream_decode s1 bs = (gs, s')" "fs = (case out of None \<Rightarrow> gs | Some f \<Rightarrow> f # gs)"
    using Cons.prems(2) 1 by (auto split: prod.splits)
  note step = stream_push_step [OF Cons.prems(1) 1]
  have IH: "list_all (\<lambda>(k, f). usb_format k f) gs" "pieces (held s1 @ bs) (map snd gs)"
    using Cons.IH [OF _ 2(1)] step by auto
  have h: "held s @ b # bs = (held s @ [b]) @ bs" by simp
  show ?case
  proof (cases out)
    case None
    then obtain pre where "held s @ [b] = pre @ held s1" using step by (auto simp: suffix_def)
    then show ?thesis using IH None 2(2) pieces_gap [OF IH(2), of pre] unfolding h by simp
  next
    case (Some kf)
    then show ?thesis using IH step 2(2) pieces_frame [of bs "map snd gs" "held s @ [b]"] unfolding h
      by (auto split: prod.splits)
  qed
qed (simp add: pieces_Nil)

lemma stream_decode_append:
  "stream_decode s (as @ bs) =
     (case stream_decode s as of (fs, s1) \<Rightarrow> case stream_decode s1 bs of (gs, s2) \<Rightarrow> (fs @ gs, s2))"
  by (induction as arbitrary: s) (auto split: prod.splits option.splits)

text \<open>A part of the stream without a magic number.\<close>

definition no_magic :: "octet list \<Rightarrow> bool" where
  "no_magic s \<longleftrightarrow> list_all (\<lambda>m. \<not> sublist m s) magics"

lemma magic_prefix_butlast: "magic_prefix (c @ [x]) \<Longrightarrow> magic_prefix c"
  by (auto simp: magic_prefix_def list_ex_iff dest: append_prefixD)

lemma trim_front_snoc: "trim_front (trim_front s @ [x]) = trim_front (s @ [x])"
proof (rule suffix_order.antisym)
  have "suffix (trim_front (trim_front s @ [x])) (s @ [x])"
    using trim_front_props(2) [of "trim_front s @ [x]"] trim_front_props(2) [of s] by (auto intro: suffix_order.trans)
  then show "suffix (trim_front (trim_front s @ [x])) (trim_front (s @ [x]))"
    by (rule trim_front_props(3) [OF _ trim_front_props(1)])
  show "suffix (trim_front (s @ [x])) (trim_front (trim_front s @ [x]))"
  proof (cases "trim_front (s @ [x])" rule: rev_cases)
    case (snoc c y)
    have "magic_prefix (c @ [y])" "suffix (c @ [y]) (s @ [x])" using trim_front_props [of "s @ [x]"] snoc by metis+
    moreover from this have "suffix c s" "y = x" by auto
    ultimately have "suffix c (trim_front s)" using magic_prefix_butlast by (intro trim_front_props) auto
    then show ?thesis using snoc \<open>magic_prefix (c @ [y])\<close> \<open>y = x\<close> by (simp add: trim_front_props(3))
  qed simp
qed

lemma trim_front_magic: "m \<in> set magics \<Longrightarrow> suffix m s \<Longrightarrow> trim_front s = m"
proof -
  assume m: "m \<in> set magics" "suffix m s"
  then have "suffix m (trim_front s)" by (intro trim_front_props) (auto simp: magic_prefix_def list_ex_iff)
  moreover have "length (trim_front s) \<le> length m" using trim_front_length length_magics [OF m(1)] by simp
  ultimately show ?thesis by (auto simp: suffix_def)
qed

lemma no_magic_snoc: "no_magic (s @ [x]) \<Longrightarrow> no_magic s"
  unfolding no_magic_def list_all_iff sublist_def by (metis append.assoc)

lemma no_magic_decode: "no_magic s \<Longrightarrow> stream_decode (Searching []) s = ([], Searching (trim_front s))"
proof (induction s rule: rev_induct)
  case (snoc x s)
  have "FullMagicKind (trim_front (s @ [x])) = None"
  proof (rule ccontr)
    assume "FullMagicKind (trim_front (s @ [x])) \<noteq> None"
    then have "trim_front (s @ [x]) \<in> set magics" using FullMagicKind_magics by blast
    then show False using snoc.prems trim_front_props(2) [of "s @ [x]"] by (auto simp: no_magic_def list_all_iff)
  qed
  then show ?case using snoc.IH [OF no_magic_snoc [OF snoc.prems]] by (simp add: stream_decode_append trim_front_snoc Let_def)
qed simp

lemma magic_decode:
  assumes "FullMagicKind m = Some k" "no_magic (noise @ take 3 m)"
  shows "stream_decode (Searching []) (noise @ m) = ([], Reading k m (header_size k))"
proof -
  have m: "m \<in> set magics" using assms(1) FullMagicKind_magics by fastforce
  define w x where "w = noise @ take 3 m" and "x = m ! 3"
  have wx: "noise @ m = w @ [x]"
    using length_magics [OF m] take_Suc_conv_app_nth [of 3 m] by (simp add: w_def x_def)
  have "trim_front (w @ [x]) = m" using trim_front_magic [OF m, of "w @ [x]"] wx by (metis suffix_def)
  moreover have "no_magic w" using assms(2) by (simp only: w_def)
  ultimately show ?thesis unfolding wx
    using assms(1) by (simp add: no_magic_decode stream_decode_append trim_front_snoc Let_def)
qed

lemma fill_decode: "length bs + length xs < n \<Longrightarrow> stream_decode (Reading k bs n) xs = ([], Reading k (bs @ xs) n)"
  by (induction xs arbitrary: bs) (auto simp: Let_def)

lemma last_decode:
  "length bs + length xs = n \<Longrightarrow> xs \<noteq> [] \<Longrightarrow>
     stream_decode (Reading k bs n) xs =
       (if n \<noteq> header_size k then ([(k, bs @ xs)], Searching [])
        else case announced k (bs @ xs) of None \<Rightarrow> ([], Searching [])
             | Some m \<Rightarrow> if m = n then ([(k, bs @ xs)], Searching []) else ([], Reading k (bs @ xs) m))"
  by (cases xs rule: rev_cases) (auto simp: stream_decode_append fill_decode Let_def split: option.splits)

lemma frame_decode:
  assumes "usb_format k f"
  shows "stream_decode (Reading k (take 4 f) (header_size k)) (drop 4 f) = ([(k, f)], Searching [])"
proof -
  let ?h = "header_size k" and ?n = "length f"
  have f: "?h \<le> ?n" "4 < ?h" "announced k f = Some ?n" using assms by (auto simp: usb_format_def header_size_def)
  have d: "drop 4 f = take (?h - 4) (drop 4 f) @ drop ?h f"
    using f(1,2) by (metis append_take_drop_id drop_drop le_add_diff_inverse2 less_imp_le)
  have a: "announced k (take ?h f) = Some ?n"
    using announced_append [of k "take ?h f" "drop ?h f"] f by simp
  have t: "take 4 f @ take (?h - 4) (drop 4 f) = take ?h f" using f(2) by (metis less_imp_le le_add_diff_inverse take_add)
  have 1: "stream_decode (Reading k (take 4 f) ?h) (take (?h - 4) (drop 4 f)) =
     (if ?n = ?h then ([(k, f)], Searching []) else ([], Reading k (take ?h f) ?n))"
    using f a by (subst last_decode) (auto simp: t)
  have 2: "stream_decode (Reading k (take ?h f) ?n) (drop ?h f) = ([(k, f)], Searching [])" if "?n \<noteq> ?h"
    using f that by (subst last_decode) auto
  show ?thesis by (subst d) (use 1 2 f in \<open>auto simp: stream_decode_append\<close>)
qed

lemma items_decode:
  assumes "list_all (\<lambda>(noise, k, f). usb_format k f \<and> no_magic (noise @ take 3 f)) items" "no_magic tail"
  shows "fst (stream_decode (Searching []) (concat (map (\<lambda>(noise, k, f). noise @ f) items) @ tail)) = map snd items"
  using assms(1)
proof (induction items)
  case (Cons item items)
  obtain noise k f where item: "item = (noise, k, f)" by (cases item)
  then have f: "usb_format k f" "no_magic (noise @ take 3 (take 4 f))" using Cons.prems by simp_all
  have "stream_decode (Searching []) (noise @ f) = ([(k, f)], Searching [])"
    using magic_decode [OF _ f(2)] frame_decode [OF f(1)] f(1)
      stream_decode_append [of "Searching []" "noise @ take 4 f" "drop 4 f"]
    by (simp add: usb_format_def)
  then show ?case using Cons by (simp add: item stream_decode_append split: prod.splits)
qed (simp add: no_magic_decode assms(2))

text \<open>
  C11. No frame is lost and none is made up: when frames of the three protocols are sent over the
  line, each after some console output in which no magic number is completed, the decoder delivers
  exactly those frames, unchanged and in order, even when the output ends with the beginning of a
  magic number or a frame's content contains one.
\<close>

theorem usb_frames_recovered:
  assumes "list_all (\<lambda>(noise, k, f). usb_format k f \<and> no_magic (noise @ take 3 f)) items" "no_magic tail"
  shows "map (\<lambda>f. (usb_kind f, view f))
           (fst (decode new_usb_decoder (concat (map (\<lambda>(noise, k, f). noise @ f) items) @ tail))) = map snd items"
proof -
  let ?input = "concat (map (\<lambda>(noise, k, f). noise @ f) items) @ tail"
  obtain fs d where d: "decode new_usb_decoder ?input = (fs, d)" by fastforce
  show ?thesis using decode_refines [OF decoder_start(1) d] items_decode [OF assms] unfolding d decoder_start(2) by simp
qed

text \<open>Console output that ends with a part of a magic number, a frame, and a pairing trigger.\<close>

theorem usb_frames_recovered_witness:
  "map (\<lambda>f. (usb_kind f, view f)) (fst (decode new_usb_decoder
       [0x49, 0x20, 0x56, 0x4C,  0x56, 0x4C, 0x56, 0x54, 1, 1, 0, 0,  0x0A,  0x56, 0x4C, 0x50, 0x31, 5, 0, 0, 0, 0, 0, 0, 0,  0x56]))
   = [(kSerialVoice, [0x56, 0x4C, 0x56, 0x54, 1, 1, 0, 0]), (kImPairing, [0x56, 0x4C, 0x50, 0x31, 5, 0, 0, 0, 0, 0, 0, 0])]"
  using usb_frames_recovered
    [of "[([0x49, 0x20, 0x56, 0x4C], kSerialVoice, [0x56, 0x4C, 0x56, 0x54, 1, 1, 0, 0]),
          ([0x0A], kImPairing, [0x56, 0x4C, 0x50, 0x31, 5, 0, 0, 0, 0, 0, 0, 0])]" "[0x56]"]
  by (simp add: usb_format_def FullMagicKind_def header_size_def announced_def no_magic_def magics_def serial_header_def
      IsValidSerialVoiceHeader_def ParseImPairingTrigger_def kImProvisioningV1Magic_def kImProvisioningV2Magic_def
      kImPairingMagic_def kSerialVoiceMagic_def kImPairingTriggerSize_def kPairingMagic_def kSerialVoiceProtocolVersion_def
      kSerialVoicePcmBytes_def kSerialVoicePcm_def kSerialVoiceBegin_def sublist_Cons_right)

text \<open>
  Whatever arrives, the decoder stays within its array of 1035 bytes, and every frame it delivers
  is one of the format, with a valid header and exactly the announced length; the delivered frames
  are disjoint pieces of the received bytes, in their order.
\<close>

theorem usb_frames_well_formed:
  "case decode new_usb_decoder input of (frames, d) \<Rightarrow>
     usb_size (dec_frame d) \<le> kUsbSerialMaximumFrameBytes \<and> length (usb_bytes (dec_frame d)) = kUsbSerialMaximumFrameBytes \<and>
     list_all (\<lambda>f. usb_format (usb_kind f) (view f) \<and> usb_size f = length (view f) \<and> usb_size f \<le> kUsbSerialMaximumFrameBytes) frames \<and>
     pieces input (map view frames)"
proof -
  obtain frames d where d: "decode new_usb_decoder input = (frames, d)" by fastforce
  from decode_refines [OF decoder_start(1) this]
  have r: "decoder_inv d" "stream_decode (Searching []) input = (map (\<lambda>f. (usb_kind f, view f)) frames, abs_state d)"
    "\<forall>f \<in> set frames. length (usb_bytes f) = kUsbSerialMaximumFrameBytes \<and> usb_size f = length (view f)"
    by (simp_all add: decoder_start)
  have "usb_size (dec_frame d) \<le> kUsbSerialMaximumFrameBytes" "length (usb_bytes (dec_frame d)) = kUsbSerialMaximumFrameBytes"
    using r(1) by (auto simp: decoder_inv_def kUsbSerialMaximumFrameBytes_def split: DecoderState.splits)
  moreover have "\<forall>f \<in> set frames. usb_size f \<le> kUsbSerialMaximumFrameBytes" using r(3) by (metis view_def length_take min.cobounded1)
  ultimately show ?thesis using r(3) stream_decode_pieces [OF _ r(2)] unfolding d
    by (auto simp: list_all_iff comp_def)
qed

section \<open>The matcher\<close>

text \<open>The bytes matched so far are the longest proper prefix of the magic number that the stream ends with.\<close>

definition matched_at :: "octet list \<Rightarrow> nat \<Rightarrow> bool" where
  "matched_at s j \<longleftrightarrow> suffix (take j kSerialVoiceMagic) s"

definition matcher_inv :: "octet list \<Rightarrow> nat \<Rightarrow> bool" where
  "matcher_inv s m \<longleftrightarrow> m < 4 \<and> matched_at s m \<and> (\<forall>j < 4. matched_at s j \<longrightarrow> j \<le> m)"

lemma matched_at_snoc:
  "matched_at s 0" "matched_at (s @ [x]) 1 \<longleftrightarrow> x = 0x56" "matched_at (s @ [x]) 2 \<longleftrightarrow> matched_at s 1 \<and> x = 0x4C"
  "matched_at (s @ [x]) 3 \<longleftrightarrow> matched_at s 2 \<and> x = 0x56" "matched_at (s @ [x]) 4 \<longleftrightarrow> matched_at s 3 \<and> x = 0x54"
  using snoc_suffix_snoc [of "[]" _ s x] snoc_suffix_snoc [of "[0x56]" _ s x] snoc_suffix_snoc [of "[0x56, 0x4C]" _ s x]
    snoc_suffix_snoc [of "[0x56, 0x4C, 0x56]" _ s x]
  by (auto simp: matched_at_def kSerialVoiceMagic_def)

lemma matched_at_overlap: "matched_at s 3 \<Longrightarrow> matched_at s 1 \<and> \<not> matched_at s 2" "matched_at s 2 \<Longrightarrow> \<not> matched_at s 1"
  by (auto simp: matched_at_def kSerialVoiceMagic_def suffix_def)

lemma below_four: "(\<forall>j < 4. P j) \<longleftrightarrow> P 0 \<and> P 1 \<and> P 2 \<and> P (3 :: nat)"
  by (auto simp: less_Suc_eq numeral_eq_Suc)

lemma Matcher_Push_cases:
  "Matcher_Push 0 x = (False, if x = 0x56 then 1 else 0)"
  "Matcher_Push 1 x = (False, if x = 0x4C then 2 else if x = 0x56 then 1 else 0)"
  "Matcher_Push 2 x = (False, if x = 0x56 then 3 else 0)"
  "Matcher_Push 3 x = (if x = 0x54 then (True, 0) else (False, if x = 0x4C then 2 else if x = 0x56 then 1 else 0))"
  by (simp_all add: Matcher_Push_def Let_def Matcher_fallback.simps kSerialVoiceMagic_def kFailure_def)

lemma matcher_step:
  assumes "matcher_inv s m" "Matcher_Push m x = (found, m')"
  shows "matcher_inv (s @ [x]) m' \<and> (found \<longleftrightarrow> matched_at (s @ [x]) 4)"
proof -
  consider "m = 0" | "m = 1" | "m = 2" | "m = 3" using assms(1) unfolding matcher_inv_def by linarith
  then show ?thesis using assms matched_at_overlap [of s]
    by cases (auto simp: matcher_inv_def below_four matched_at_snoc Matcher_Push_cases simp del: One_nat_def split: if_splits)
qed

theorem matcher_exact:
  "fst (Matcher_Push (snd (foldl (\<lambda>(found, m) b. Matcher_Push m b) (False, 0) s)) x) \<longleftrightarrow> suffix kSerialVoiceMagic (s @ [x])"
proof -
  have "matcher_inv s (snd (foldl (\<lambda>(found, m) b. Matcher_Push m b) (False, 0) s))"
  proof (induction s rule: rev_induct)
    case Nil
    show ?case by (auto simp: matcher_inv_def matched_at_def kSerialVoiceMagic_def)
  next
    case (snoc b s)
    then show ?case using matcher_step [OF _ surjective_pairing, of s _ b] by (auto split: prod.splits)
  qed
  from matcher_step [OF this, of x] show ?thesis
    by (cases "Matcher_Push (snd (foldl (\<lambda>(found, m) b. Matcher_Push m b) (False, 0) s)) x")
      (auto simp: matched_at_def kSerialVoiceMagic_def)
qed

end
