(* ===== verification/Websocket_Frames.thy ===== *)
theory Websocket_Frames
  imports Contracts
begin

text \<open>
  \<open>WebSocketFragmentAssembler\<close> (\<open>websocket_fragment_assembler.cc\<close>): the fragments that the WebSocket
  client delivers are put together to messages within a memory bound.

  A fragment's data is the memory its pointer designates, \<open>None\<close> for the null pointer. The opcode is
  the byte of the protocol, of which three values are named.
\<close>

section \<open>The assembler\<close>

type_synonym WebSocketOpcode = "8 word"

abbreviation (input) kContinuation :: WebSocketOpcode where "kContinuation \<equiv> 0"
abbreviation (input) kText :: WebSocketOpcode where "kText \<equiv> 1"
abbreviation (input) kBinary :: WebSocketOpcode where "kBinary \<equiv> 2"

definition IsWebSocketDataOpcode :: "WebSocketOpcode \<Rightarrow> bool" where
  "IsWebSocketDataOpcode opcode \<longleftrightarrow> opcode = kContinuation \<or> opcode = kText \<or> opcode = kBinary"

record WebSocketFragment =
  wf_generation :: nat
  wf_opcode :: WebSocketOpcode
  wf_data :: "8 word list option"
  wf_data_len :: nat
  wf_payload_len :: nat
  wf_payload_offset :: nat
  wf_fin :: bool

record WebSocketMessage =
  wm_generation :: nat
  wm_opcode :: WebSocketOpcode
  wm_payload :: "8 word list"

record WebSocketAssemblyResult =
  wr_complete :: bool
  wr_message :: WebSocketMessage

record WebSocketFragmentAssembler =
  max_message_bytes :: nat
  wa_assembling :: bool
  wa_generation :: nat
  wa_opcode :: WebSocketOpcode
  wa_expected :: nat
  wa_payload :: "8 word list"

definition new_assembler :: "nat \<Rightarrow> WebSocketFragmentAssembler" where
  "new_assembler n = \<lparr>max_message_bytes = n, wa_assembling = False, wa_generation = 0, wa_opcode = kContinuation,
     wa_expected = 0, wa_payload = []\<rparr>"

definition pending_result :: WebSocketAssemblyResult where
  "pending_result = \<lparr>wr_complete = False, wr_message = \<lparr>wm_generation = 0, wm_opcode = kContinuation, wm_payload = []\<rparr>\<rparr>"

definition msg_ws_bounds :: string where
  "msg_ws_bounds = ''WebSocket '' @ utf8 [20998, 29255, 36793, 30028, 26080, 25928]"

definition msg_ws_orphan :: string where
  "msg_ws_orphan = utf8 [27809, 26377, 39318, 24103, 30340] @ '' continuation''"

definition msg_ws_opcode :: string where
  "msg_ws_opcode = ''WebSocket opcode '' @ utf8 [19981, 25903, 25345]"

definition msg_ws_first :: string where
  "msg_ws_first = ''WebSocket '' @ utf8 [39318, 24103, 36793, 30028, 26080, 25928]"

definition msg_ws_generation :: string where
  "msg_ws_generation = ''WebSocket '' @ utf8 [20998, 29255] @ '' generation '' @ utf8 [24050, 36807, 26399]"

definition msg_ws_sequence :: string where
  "msg_ws_sequence = ''WebSocket continuation '' @ utf8 [24207, 21015, 26080, 25928]"

definition msg_ws_length :: string where
  "msg_ws_length = ''WebSocket '' @ utf8 [23436, 25972, 24103, 38271, 24230, 19981, 21305, 37197]"

definition Ws_Reset :: "WebSocketFragmentAssembler \<Rightarrow> WebSocketFragmentAssembler" where
  "Ws_Reset a = a\<lparr>wa_assembling := False, wa_generation := 0, wa_opcode := kContinuation, wa_expected := 0, wa_payload := []\<rparr>"

definition Ws_Reject :: "WebSocketFragmentAssembler \<Rightarrow> ErrorCode \<Rightarrow> string \<Rightarrow> WebSocketAssemblyResult Result \<times> WebSocketFragmentAssembler" where
  "Ws_Reject a c m = (Failure c m, Ws_Reset a)"

definition Ws_Complete :: "WebSocketFragmentAssembler \<Rightarrow> WebSocketAssemblyResult Result \<times> WebSocketFragmentAssembler" where
  "Ws_Complete a =
     (Success \<lparr>wr_complete = True, wr_message = \<lparr>wm_generation = wa_generation a, wm_opcode = wa_opcode a, wm_payload = wa_payload a\<rparr>\<rparr>,
      Ws_Reset a)"

text \<open>The end of \<open>Push\<close>, once the fragment is known to be the next one.\<close>

definition Ws_accept :: "WebSocketFragmentAssembler \<Rightarrow> WebSocketFragment \<Rightarrow> WebSocketAssemblyResult Result \<times> WebSocketFragmentAssembler" where
  "Ws_accept a fragment =
     (let a = (if wf_data_len fragment > 0
               then a\<lparr>wa_payload := wa_payload a @ take (wf_data_len fragment) (the (wf_data fragment))\<rparr> else a)
      in if length (wa_payload a) = wa_expected a then Ws_Complete a
         else if length (wa_payload a) > wa_expected a then Ws_Reject a kInvalidArgument msg_ws_length
         else (Success pending_result, a))"

definition Ws_Push :: "WebSocketFragmentAssembler \<Rightarrow> WebSocketFragment \<Rightarrow> WebSocketAssemblyResult Result \<times> WebSocketFragmentAssembler" where
  "Ws_Push a fragment =
     (if max_message_bytes a = 0 \<or> wf_payload_len fragment > max_message_bytes a \<or> wf_data_len fragment > max_message_bytes a \<or>
         wf_payload_offset fragment > wf_payload_len fragment \<or>
         wf_data_len fragment > wf_payload_len fragment - wf_payload_offset fragment \<or>
         wf_data_len fragment > 0 \<and> wf_data fragment = None
      then Ws_Reject a kInvalidArgument msg_ws_bounds
      else if \<not> wa_assembling a then
        (if wf_opcode fragment = kContinuation then Ws_Reject a kInvalidArgument msg_ws_orphan
         else if wf_opcode fragment \<noteq> kText \<and> wf_opcode fragment \<noteq> kBinary then Ws_Reject a kInvalidArgument msg_ws_opcode
         else if wf_payload_offset fragment \<noteq> 0 \<or> wf_payload_len fragment = 0 then Ws_Reject a kInvalidArgument msg_ws_first
         else Ws_accept (a\<lparr>wa_assembling := True, wa_generation := wf_generation fragment, wa_opcode := wf_opcode fragment,
                            wa_expected := wf_payload_len fragment\<rparr>) fragment)
      else if wf_generation fragment \<noteq> wa_generation a then Ws_Reject a kConflict msg_ws_generation
      else
        (let same_frame_chunk = (wf_opcode fragment = wa_opcode a \<and> wf_payload_len fragment = wa_expected a);
             protocol_continuation = (wf_opcode fragment = kContinuation \<and> wf_payload_len fragment = wa_expected a)
         in if \<not> same_frame_chunk \<and> \<not> protocol_continuation then Ws_Reject a kConflict msg_ws_sequence
            else if wf_payload_offset fragment \<noteq> length (wa_payload a) then Ws_Reject a kConflict msg_ws_sequence
            else Ws_accept a fragment))"

text \<open>A sequence of fragments, with the messages it completes.\<close>

fun ws_run :: "WebSocketFragmentAssembler \<Rightarrow> WebSocketFragment list \<Rightarrow> WebSocketMessage list \<times> WebSocketFragmentAssembler" where
  "ws_run a [] = ([], a)"
| "ws_run a (f # fs) =
     (case Ws_Push a f of (r, a) \<Rightarrow> case ws_run a fs of (ms, a) \<Rightarrow>
        (case val r of Some v \<Rightarrow> if wr_complete v then wr_message v # ms else ms | None \<Rightarrow> ms, a))"

section \<open>Bounds and isolation\<close>

definition fragment_bytes :: "WebSocketFragment \<Rightarrow> 8 word list" where
  "fragment_bytes f = (if wf_data_len f > 0 then take (wf_data_len f) (the (wf_data f)) else [])"

text \<open>
  The fragments that belong to one message: one generation, one announced length, the opcode of the
  first one repeated or continued.
\<close>

definition one_message :: "nat \<Rightarrow> WebSocketOpcode \<Rightarrow> nat \<Rightarrow> WebSocketFragment list \<Rightarrow> bool" where
  "one_message g opcode n fs \<longleftrightarrow> fs \<noteq> [] \<and> wf_opcode (hd fs) = opcode \<and> (opcode = kText \<or> opcode = kBinary) \<and>
     list_all (\<lambda>f. wf_generation f = g \<and> wf_payload_len f = n \<and> (wf_opcode f = opcode \<or> wf_opcode f = kContinuation)) fs"

definition carries_message :: "nat \<Rightarrow> WebSocketMessage \<Rightarrow> WebSocketFragment list \<Rightarrow> bool" where
  "carries_message limit m fs \<longleftrightarrow>
     one_message (wm_generation m) (wm_opcode m) (length (wm_payload m)) fs \<and>
     wm_payload m = concat (map fragment_bytes fs) \<and> 0 < length (wm_payload m) \<and> length (wm_payload m) \<le> limit"

text \<open>An assembler and the fragments it has accepted of the current message.\<close>

definition ws_inv :: "WebSocketFragmentAssembler \<Rightarrow> WebSocketFragment list \<Rightarrow> bool" where
  "ws_inv a fs \<longleftrightarrow>
     (if wa_assembling a
      then length (wa_payload a) < wa_expected a \<and> wa_expected a \<le> max_message_bytes a \<and>
           one_message (wa_generation a) (wa_opcode a) (wa_expected a) fs \<and> wa_payload a = concat (map fragment_bytes fs)
      else fs = [] \<and> a = new_assembler (max_message_bytes a))"

lemma Ws_Reset_simps [simp]:
  "Ws_Reset a = new_assembler (max_message_bytes a)" "wa_assembling (new_assembler n) = False"
  "max_message_bytes (new_assembler n) = n" "wa_payload (new_assembler n) = []"
  by (simp_all add: Ws_Reset_def new_assembler_def)

lemma ws_inv_new [simp]: "ws_inv (new_assembler n) fs \<longleftrightarrow> fs = []"
  by (simp add: ws_inv_def)

lemma Ws_accept_cases:
  "Ws_accept a f =
     (let p = wa_payload a @ fragment_bytes f
      in if length p = wa_expected a
         then (Success \<lparr>wr_complete = True, wr_message = \<lparr>wm_generation = wa_generation a, wm_opcode = wa_opcode a, wm_payload = p\<rparr>\<rparr>,
               new_assembler (max_message_bytes a))
         else if length p > wa_expected a then (Failure kInvalidArgument msg_ws_length, new_assembler (max_message_bytes a))
         else (Success pending_result, a\<lparr>wa_payload := p\<rparr>))"
  by (simp add: Ws_accept_def fragment_bytes_def Ws_Complete_def Ws_Reject_def Let_def)

lemma Ws_accept_step:
  assumes "Ws_accept a f = (r, a')" "wa_assembling a" "wa_expected a \<le> max_message_bytes a" "0 < wa_expected a"
    and "one_message (wa_generation a) (wa_opcode a) (wa_expected a) (fs @ [f])" "wa_payload a = concat (map fragment_bytes fs)"
  shows "max_message_bytes a' = max_message_bytes a \<and>
     (case val r of
        Some v \<Rightarrow> if wr_complete v then carries_message (max_message_bytes a) (wr_message v) (fs @ [f]) \<and> ws_inv a' [] else ws_inv a' (fs @ [f])
      | None \<Rightarrow> ws_inv a' [])"
  using assms by (auto simp: Ws_accept_cases Let_def carries_message_def pending_result_def ws_inv_def split: if_splits)

lemma Ws_Push_step:
  assumes "ws_inv a fs" "Ws_Push a f = (r, a')"
  shows "max_message_bytes a' = max_message_bytes a \<and>
     (case val r of
        Some v \<Rightarrow> if wr_complete v then carries_message (max_message_bytes a) (wr_message v) (fs @ [f]) \<and> ws_inv a' [] else ws_inv a' (fs @ [f])
      | None \<Rightarrow> ws_inv a' [])"
proof (cases "\<exists>c m. (r, a') = Ws_Reject a c m")
  case True
  then show ?thesis by (auto simp: Ws_Reject_def)
next
  case False
  then have nr [simp]: "Ws_Reject a c m = (r, a') \<longleftrightarrow> False" for c m by metis
  show ?thesis
  proof (cases "wa_assembling a")
    case True
    then have "Ws_accept a f = (r, a')" "one_message (wa_generation a) (wa_opcode a) (wa_expected a) (fs @ [f])"
      using assms by (auto simp: Ws_Push_def ws_inv_def one_message_def Let_def split: if_splits)
    then show ?thesis using True assms(1) by (intro Ws_accept_step) (auto simp: ws_inv_def)
  next
    case not: False
    let ?a = "a\<lparr>wa_assembling := True, wa_generation := wf_generation f, wa_opcode := wf_opcode f, wa_expected := wf_payload_len f\<rparr>"
    have "Ws_accept ?a f = (r, a')" "one_message (wf_generation f) (wf_opcode f) (wf_payload_len f) (fs @ [f])"
      "wf_payload_len f \<le> max_message_bytes a" "0 < wf_payload_len f"
      using not assms by (auto simp: Ws_Push_def ws_inv_def one_message_def Let_def split: if_splits)
    moreover have "wa_payload a = []" "fs = []" using not assms(1) by (simp_all add: ws_inv_def) (metis Ws_Reset_simps(4))
    ultimately show ?thesis using Ws_accept_step [of ?a f r a' fs] by (cases "val r") (simp_all split: if_splits)
  qed
qed

lemma ws_run_pieces:
  "ws_inv a fs \<Longrightarrow> ws_run a gs = (ms, a') \<Longrightarrow>
     max_message_bytes a' = max_message_bytes a \<and> (\<exists>hs. ws_inv a' hs) \<and>
     (\<exists>blocks. list_all2 (carries_message (max_message_bytes a)) ms blocks \<and> pieces (fs @ gs) blocks)"
proof (induction gs arbitrary: a fs ms)
  case Nil
  then show ?case using pieces_Nil by fastforce
next
  case (Cons g gs)
  obtain r a1 where 1: "Ws_Push a g = (r, a1)" by fastforce
  obtain ms1 where 2: "ws_run a1 gs = (ms1, a')"
    "ms = (case val r of Some v \<Rightarrow> if wr_complete v then wr_message v # ms1 else ms1 | None \<Rightarrow> ms1)"
    using Cons.prems(2) 1 by (auto split: prod.splits)
  note step = Ws_Push_step [OF Cons.prems(1) 1]
  have g: "fs @ g # gs = (fs @ [g]) @ gs" by simp
  consider (reject) "val r = None" "ws_inv a1 []" "ms = ms1"
    | (complete) m where "carries_message (max_message_bytes a) m (fs @ [g])" "ws_inv a1 []" "ms = m # ms1"
    | (pending) "ws_inv a1 (fs @ [g])" "ms = ms1"
    using step 2(2) by (auto split: option.splits if_splits)
  then show ?case
  proof cases
    case reject
    then show ?thesis using Cons.IH [OF reject(2) 2(1)] step pieces_gap [of gs _ "fs @ [g]"] unfolding g by auto
  next
    case complete
    then obtain blocks where "list_all2 (carries_message (max_message_bytes a)) ms1 blocks" "pieces gs blocks"
      "max_message_bytes a' = max_message_bytes a" "\<exists>hs. ws_inv a' hs"
      using Cons.IH [OF complete(2) 2(1)] step by auto
    then show ?thesis using complete pieces_frame [of gs blocks "fs @ [g]"] unfolding g by auto
  next
    case pending
    then show ?thesis using Cons.IH [OF pending(1) 2(1)] step by auto
  qed
qed


section \<open>Reassembly\<close>

text \<open>
  A message is cut: each piece comes with the flag that it is marked as a continuation and with the
  \<open>fin\<close> bit, which the assembler does not look at.
\<close>

type_synonym cut = "bool \<times> bool \<times> 8 word list"

abbreviation cut_bytes :: "cut \<Rightarrow> 8 word list" where
  "cut_bytes c \<equiv> snd (snd c)"

primrec cut_message :: "nat \<Rightarrow> WebSocketOpcode \<Rightarrow> nat \<Rightarrow> nat \<Rightarrow> cut list \<Rightarrow> WebSocketFragment list" where
  "cut_message g opcode n offset [] = []"
| "cut_message g opcode n offset (c # cs) =
     \<lparr>wf_generation = g, wf_opcode = (if fst c then kContinuation else opcode), wf_data = Some (cut_bytes c),
      wf_data_len = length (cut_bytes c), wf_payload_len = n, wf_payload_offset = offset, wf_fin = fst (snd c)\<rparr>
     # cut_message g opcode n (offset + length (cut_bytes c)) cs"

definition cut_content :: "cut list \<Rightarrow> 8 word list" where
  "cut_content cs = concat (map cut_bytes cs)"

lemma cut_content_pos: "cs \<noteq> [] \<Longrightarrow> cut_bytes (last cs) \<noteq> [] \<Longrightarrow> cut_content cs \<noteq> []"
  using last_in_set by (fastforce simp: cut_content_def)

lemma cut_message_continues:
  assumes "wa_assembling a" "wa_expected a = length (wa_payload a @ cut_content cs)" "wa_expected a \<le> max_message_bytes a"
    and "cs \<noteq> []" "cut_bytes (last cs) \<noteq> []" "offset = length (wa_payload a)"
  shows "ws_run a (cut_message (wa_generation a) (wa_opcode a) (wa_expected a) offset cs) =
     ([\<lparr>wm_generation = wa_generation a, wm_opcode = wa_opcode a, wm_payload = wa_payload a @ cut_content cs\<rparr>],
      new_assembler (max_message_bytes a))"
  using assms
proof (induction cs arbitrary: a offset)
  case (Cons c cs)
  define f where "f = \<lparr>wf_generation = wa_generation a, wf_opcode = (if fst c then kContinuation else wa_opcode a),
    wf_data = Some (cut_bytes c), wf_data_len = length (cut_bytes c), wf_payload_len = wa_expected a,
    wf_payload_offset = offset, wf_fin = fst (snd c)\<rparr>"
  define p where "p = wa_payload a @ cut_bytes c"
  have content: "wa_payload a @ cut_content (c # cs) = p @ cut_content cs" by (simp add: cut_content_def p_def)
  have b: "fragment_bytes f = cut_bytes c" by (simp add: fragment_bytes_def f_def)
  have n: "wa_expected a = length p + length (cut_content cs)" using Cons.prems(2) content by simp
  have "0 < max_message_bytes a" using Cons.prems(2,3) cut_content_pos [OF Cons.prems(4,5)]
    by (metis add_gr_0 length_append length_greater_0_conv less_le_trans)
  then have "Ws_Push a f = Ws_accept a f"
    using Cons.prems(1,3,6) n by (auto simp: Ws_Push_def f_def Let_def p_def)
  then have push: "Ws_Push a f = (if length p = wa_expected a
      then (Success \<lparr>wr_complete = True, wr_message = \<lparr>wm_generation = wa_generation a, wm_opcode = wa_opcode a, wm_payload = p\<rparr>\<rparr>,
            new_assembler (max_message_bytes a))
      else (Success pending_result, a\<lparr>wa_payload := p\<rparr>))"
    using n by (simp add: Ws_accept_cases b p_def [symmetric])
  have cm: "cut_message (wa_generation a) (wa_opcode a) (wa_expected a) offset (c # cs) =
      f # cut_message (wa_generation a) (wa_opcode a) (wa_expected a) (length p) cs"
    using Cons.prems(6) by (simp add: f_def p_def)
  show ?case unfolding cm content
  proof (cases "cs = []")
    case True
    then show "ws_run a (f # cut_message (wa_generation a) (wa_opcode a) (wa_expected a) (length p) cs) =
        ([\<lparr>wm_generation = wa_generation a, wm_opcode = wa_opcode a, wm_payload = p @ cut_content cs\<rparr>], new_assembler (max_message_bytes a))"
      using push n by (simp add: cut_content_def)
  next
    case False
    then have "cut_content cs \<noteq> []" using Cons.prems(5) by (intro cut_content_pos) auto
    then have pend: "Ws_Push a f = (Success pending_result, a\<lparr>wa_payload := p\<rparr>)" using push n by simp
    have "cut_bytes (last cs) \<noteq> []" using Cons.prems(5) False by simp
    from Cons.IH [of "a\<lparr>wa_payload := p\<rparr>", OF _ _ _ False this refl]
    have IH: "ws_run (a\<lparr>wa_payload := p\<rparr>) (cut_message (wa_generation a) (wa_opcode a) (wa_expected a) (length p) cs) =
        ([\<lparr>wm_generation = wa_generation a, wm_opcode = wa_opcode a, wm_payload = p @ cut_content cs\<rparr>], new_assembler (max_message_bytes a))"
      using Cons.prems(1,3) n by simp
    then show "ws_run a (f # cut_message (wa_generation a) (wa_opcode a) (wa_expected a) (length p) cs) =
        ([\<lparr>wm_generation = wa_generation a, wm_opcode = wa_opcode a, wm_payload = p @ cut_content cs\<rparr>], new_assembler (max_message_bytes a))"
      by (simp only: ws_run.simps pend prod.case result_simps_basic option.case) (simp add: pending_result_def)
  qed
qed simp

text \<open>A message to be sent: generation, opcode and its pieces, the last of which is not empty.\<close>

definition sendable :: "nat \<Rightarrow> nat \<times> WebSocketOpcode \<times> cut list \<Rightarrow> bool" where
  "sendable limit s = (case s of (g, opcode, cs) \<Rightarrow>
     (opcode = kText \<or> opcode = kBinary) \<and> cs \<noteq> [] \<and> \<not> fst (hd cs) \<and> cut_bytes (last cs) \<noteq> [] \<and> length (cut_content cs) \<le> limit)"

definition sent_fragments :: "nat \<times> WebSocketOpcode \<times> cut list \<Rightarrow> WebSocketFragment list" where
  "sent_fragments s = (case s of (g, opcode, cs) \<Rightarrow> cut_message g opcode (length (cut_content cs)) 0 cs)"

definition sent_message :: "nat \<times> WebSocketOpcode \<times> cut list \<Rightarrow> WebSocketMessage" where
  "sent_message s = (case s of (g, opcode, cs) \<Rightarrow> \<lparr>wm_generation = g, wm_opcode = opcode, wm_payload = cut_content cs\<rparr>)"

lemma sent_message_received:
  assumes "sendable limit s"
  shows "ws_run (new_assembler limit) (sent_fragments s) = ([sent_message s], new_assembler limit)"
proof -
  obtain g opcode c cs where "s = (g, opcode, c # cs)"
    using assms by (cases s) (auto simp: sendable_def neq_Nil_conv)
  with assms have s: "s = (g, opcode, c # cs)" "opcode = kText \<or> opcode = kBinary" "\<not> fst c"
    "cut_bytes (last (c # cs)) \<noteq> []" "length (cut_content (c # cs)) \<le> limit"
    by (simp_all add: sendable_def)
  let ?n = "length (cut_content (c # cs))"
  define a where "a = (new_assembler limit)\<lparr>wa_assembling := True, wa_generation := g, wa_opcode := opcode, wa_expected := ?n\<rparr>"
  have n: "0 < ?n" "length (cut_bytes c) \<le> ?n" using cut_content_pos [OF _ s(4)] by (simp_all add: cut_content_def)
  have "Ws_Push (new_assembler limit) f = Ws_Push a f"
    if "wf_generation f = g" "wf_opcode f = opcode" "wf_payload_len f = ?n" "wf_payload_offset f = 0"
      "wf_data_len f = length (cut_bytes c)" "wf_data f = Some (cut_bytes c)" for f
    using that s(2,5) n by (auto simp: Ws_Push_def a_def new_assembler_def Let_def)
  then have "ws_run (new_assembler limit) (sent_fragments s) = ws_run a (sent_fragments s)"
    using s(1,3) by (simp add: sent_fragments_def)
  also have "\<dots> = ([sent_message s], new_assembler limit)"
    using cut_message_continues [of a "c # cs" 0] s by (simp add: a_def sent_fragments_def sent_message_def)
  finally show ?thesis .
qed

lemma ws_run_append:
  "ws_run a (fs @ gs) = (case ws_run a fs of (ms, a1) \<Rightarrow> case ws_run a1 gs of (ns, a2) \<Rightarrow> (ms @ ns, a2))"
  by (induction fs arbitrary: a) (auto split: prod.splits option.splits)



text \<open>
  The \<open>fin\<close> bit has no effect: a frame that announces a continuation is delivered as a message of its
  own, and the continuation frame that follows it, with its own length, is an error.
\<close>

theorem ws_ignores_fin: "Ws_Push a (f\<lparr>wf_fin := b\<rparr>) = Ws_Push a f"
  by (simp add: Ws_Push_def Ws_accept_def)

theorem ws_split_frames_rejected:
  "(let first = \<lparr>wf_generation = 1, wf_opcode = kText, wf_data = Some [1, 2, 3], wf_data_len = 3, wf_payload_len = 3, wf_payload_offset = 0, wf_fin = False\<rparr>;
        second = \<lparr>wf_generation = 1, wf_opcode = kContinuation, wf_data = Some [4, 5], wf_data_len = 2, wf_payload_len = 2, wf_payload_offset = 0, wf_fin = True\<rparr>;
        (r1, a) = Ws_Push (new_assembler 8) first
    in (map_option (wm_payload \<circ> wr_message) (val r1), fst (Ws_Push a second))) =
   (Some [1, 2, 3], Failure kInvalidArgument msg_ws_orphan)"
  by (simp add: Ws_Push_def Ws_accept_def Ws_Complete_def Ws_Reject_def Let_def new_assembler_def Ws_Reset_def)

end
