(* ===== verification/Audio_Pool.thy ===== *)
theory Audio_Pool
  imports Audio_Queue
begin

text \<open>
  \<open>AudioPayloadPool\<close> (\<open>audio_payload.cc\<close>): a pool of slots that real-time tasks lease and return without
  a lock, through four atomic words in which a set bit is a free slot. Every atomic operation of
  \<open>TryAcquire\<close> and \<open>Release\<close> is one step, and the steps of any number of payloads interleave in any
  order; \<open>compare_exchange_weak\<close> may also fail although the value is the expected one.

  \<open>std::size_t\<close> has 32 bits on the device; the counters are natural numbers, and the invariant shows
  that they are never decremented at zero.
\<close>

unbundle bit_operations_syntax

section \<open>The pool\<close>

definition kSlotsPerBitmapWord :: nat where "kSlotsPerBitmapWord = 32"
definition kBitmapWordCount :: nat where "kBitmapWordCount = 4"
definition kMaximumSlots :: nat where "kMaximumSlots = kSlotsPerBitmapWord * kBitmapWordCount"
definition size_max :: nat where "size_max = 2 ^ 32 - 1"

record AudioPayloadPool =
  slot_count :: nat
  slot_bytes :: nat
  available_slots :: "32 word list"
  in_use :: nat
  pool_high_watermark :: nat
  acquisition_failures :: nat

definition AvailableMask :: "nat \<Rightarrow> 32 word" where
  "AvailableMask n = (if n = kSlotsPerBitmapWord then - 1 else push_bit n 1 - 1)"

definition Pool_Initialize :: "nat \<Rightarrow> nat \<Rightarrow> AudioPayloadPool" where
  "Pool_Initialize slots bytes =
     \<lparr>slot_count = slots, slot_bytes = bytes,
      available_slots = map (\<lambda>word.
        let word_start = word * kSlotsPerBitmapWord;
            slots_in_word = (if word_start < slots then min kSlotsPerBitmapWord (slots - word_start) else 0)
        in if slots_in_word = 0 then 0 else AvailableMask slots_in_word) [0..<kBitmapWordCount],
      in_use = 0, pool_high_watermark = 0, acquisition_failures = 0\<rparr>"

text \<open>\<open>Create\<close>; the argument \<open>allocated\<close> says whether the two allocations succeed.\<close>

definition Pool_Create :: "bool \<Rightarrow> nat \<Rightarrow> nat \<Rightarrow> AudioPayloadPool option" where
  "Pool_Create allocated slots bytes =
     (if slots = 0 \<or> slots > kMaximumSlots \<or> bytes = 0 \<or> slots > size_max div bytes then None
      else if allocated then Some (Pool_Initialize slots bytes) else None)"

text \<open>\<open>std::countr_zero\<close>.\<close>

definition countr_zero :: "32 word \<Rightarrow> nat" where
  "countr_zero w = length (takeWhile (\<lambda>i. \<not> bit w i) [0..<32])"

section \<open>The life of a payload\<close>

text \<open>
  Where a task stands that acquires, holds and returns a slot: about to load a bitmap word or, past
  the last one, to count a failure; about to exchange the word it has seen; about to count the slot
  it has won; about to load and to raise the high watermark; the payload is returned (\<open>Leased\<close>) or
  empty (\<open>Exhausted\<close>). From \<open>Leased\<close> on, \<open>AudioPayload::Reset\<close> calls \<open>Release\<close>: the bit is about to be set
  (\<open>Give\<close>), then the counter decremented.
\<close>

datatype payload =
    Load nat
  | Swap nat "32 word"
  | Count nat
  | Peak nat nat
  | Raise nat nat nat
  | Leased nat
  | Exhausted
  | Give nat
  | Discount
  | Finished

text \<open>The head of the \<open>while\<close> loop on \<open>available\<close>.\<close>

definition examine :: "nat \<Rightarrow> 32 word \<Rightarrow> payload" where
  "examine word available = (if available \<noteq> 0 then Swap word available else Load (word + 1))"

definition compare_peak :: "nat \<Rightarrow> nat \<Rightarrow> nat \<Rightarrow> payload" where
  "compare_peak slot n high = (if n > high then Raise slot n high else Leased slot)"

fun TryAcquire_step :: "bool \<Rightarrow> AudioPayloadPool \<Rightarrow> payload \<Rightarrow> AudioPayloadPool \<times> payload" where
  "TryAcquire_step spurious p (Load word) =
     (if word < kBitmapWordCount then (p, examine word (available_slots p ! word))
      else (p\<lparr>acquisition_failures := acquisition_failures p + 1\<rparr>, Exhausted))"
| "TryAcquire_step spurious p (Swap word available) =
     (let selected = available AND (0 - available);
          next_word = available AND NOT selected
      in if \<not> spurious \<and> available_slots p ! word = available
         then (p\<lparr>available_slots := (available_slots p)[word := next_word]\<rparr>,
               Count (word * kSlotsPerBitmapWord + countr_zero selected))
         else (p, examine word (available_slots p ! word)))"
| "TryAcquire_step spurious p (Count slot) = (p\<lparr>in_use := in_use p + 1\<rparr>, Peak slot (in_use p + 1))"
| "TryAcquire_step spurious p (Peak slot n) = (p, compare_peak slot n (pool_high_watermark p))"
| "TryAcquire_step spurious p (Raise slot n high) =
     (if \<not> spurious \<and> pool_high_watermark p = high then (p\<lparr>pool_high_watermark := n\<rparr>, Leased slot)
      else (p, compare_peak slot n (pool_high_watermark p)))"
| "TryAcquire_step spurious p x = (p, x)"

fun Release_step :: "AudioPayloadPool \<Rightarrow> payload \<Rightarrow> AudioPayloadPool \<times> payload" where
  "Release_step p (Give slot) =
     (if slot \<ge> slot_count p then (p, Finished)
      else let word = slot div kSlotsPerBitmapWord;
               slot_bit = push_bit (slot mod kSlotsPerBitmapWord) 1;
               previous = available_slots p ! word
           in (p\<lparr>available_slots := (available_slots p)[word := previous OR slot_bit]\<rparr>,
               if previous AND slot_bit = 0 then Discount else Finished))"
| "Release_step p Discount = (p\<lparr>in_use := in_use p - 1\<rparr>, Finished)"
| "Release_step p x = (p, x)"

fun releasing :: "payload \<Rightarrow> bool" where
  "releasing (Give slot) = True"
| "releasing Discount = True"
| "releasing _ = False"

definition payload_step :: "bool \<Rightarrow> AudioPayloadPool \<Rightarrow> payload \<Rightarrow> AudioPayloadPool \<times> payload" where
  "payload_step spurious p x = (if releasing x then Release_step p x else TryAcquire_step spurious p x)"

section \<open>Interleavings\<close>

datatype pool_action = Acquire | Step nat bool | Return nat

fun pool_move :: "AudioPayloadPool \<times> payload list \<Rightarrow> pool_action \<Rightarrow> AudioPayloadPool \<times> payload list" where
  "pool_move (p, xs) Acquire = (p, xs @ [Load 0])"
| "pool_move (p, xs) (Step i spurious) =
     (if i < length xs then (case payload_step spurious p (xs ! i) of (p', x) \<Rightarrow> (p', xs[i := x])) else (p, xs))"
| "pool_move (p, xs) (Return i) =
     (if i < length xs then (case xs ! i of Leased slot \<Rightarrow> (p, xs[i := Give slot]) | _ \<Rightarrow> (p, xs)) else (p, xs))"

definition pool_run :: "AudioPayloadPool \<Rightarrow> pool_action list \<Rightarrow> AudioPayloadPool \<times> payload list" where
  "pool_run p moves = foldl pool_move (p, []) moves"

section \<open>Bits\<close>

lemma takeWhile_length_less: "\<exists>x \<in> set xs. \<not> P x \<Longrightarrow> length (takeWhile P xs) < length xs"
  by (induction xs) auto

lemma countr_zero_props:
  assumes "w \<noteq> 0"
  shows "countr_zero w < 32" "bit w (countr_zero w)" "i < countr_zero w \<Longrightarrow> \<not> bit w i"
proof -
  have "\<exists>i \<in> set [0..<32]. bit w i"
    using assms by (fastforce simp: bit_eq_iff)
  then show l: "countr_zero w < 32"
    unfolding countr_zero_def using takeWhile_length_less [of "[0..<32]" "\<lambda>i. \<not> bit w i"] by simp
  show "bit w (countr_zero w)"
    using nth_length_takeWhile [of "\<lambda>i. \<not> bit w i" "[0..<32]"] l by (simp add: countr_zero_def)
  show "\<not> bit w i" if "i < countr_zero w"
    using that l nth_mem [of i "takeWhile (\<lambda>i. \<not> bit w i) [0..<32]"] takeWhile_nth [of i "\<lambda>i. \<not> bit w i" "[0..<32]"]
    by (auto simp: countr_zero_def dest!: set_takeWhileD)
qed

lemma odd_and_minus:
  assumes "odd (v :: 32 word)"
  shows "v AND - v = 1"
proof -
  have "- v = NOT v OR 1"
    using assms disjunctive_add_eq_or [of "NOT v" 1] by (simp add: minus_eq_not_plus_1 and_one_eq even_not_iff mod2_eq_if)
  then have "v AND - v = v AND 1" by (simp add: bit.conj_disj_distrib)
  also have "\<dots> = 1" using assms by (simp add: and_one_eq odd_iff_mod_2_eq_one)
  finally show ?thesis .
qed

lemma lowest_bit:
  assumes "w \<noteq> 0"
  shows "w AND (0 - w) = push_bit (countr_zero w) 1"
proof -
  let ?n = "countr_zero w"
  define v where "v = drop_bit ?n w"
  have low: "?n \<le> i" if "bit w i" for i using countr_zero_props(3) [OF assms, of i] that by fastforce
  have w: "w = push_bit ?n v"
    by (rule bit_eqI) (auto simp: v_def bit_simps low)
  have "odd v" using countr_zero_props(2) [OF assms] by (simp add: v_def bit_iff_odd_drop_bit)
  have "w AND (0 - w) = push_bit ?n v AND push_bit ?n (- v)"
    by (subst (1 2) w) (simp add: push_bit_minus)
  also have "\<dots> = push_bit ?n (v AND - v)" by (simp add: push_bit_and)
  finally show ?thesis by (simp add: odd_and_minus [OF \<open>odd v\<close>])
qed

lemma bit_lowest [simp]: "w \<noteq> 0 \<Longrightarrow> bit (w AND (0 - w)) i \<longleftrightarrow> i = countr_zero w"
  using countr_zero_props(1) [of w] unfolding lowest_bit by (auto simp: bit_simps)

lemma countr_zero_lowest: "w \<noteq> 0 \<Longrightarrow> countr_zero (w AND (0 - w)) = countr_zero w"
proof -
  assume w: "w \<noteq> 0"
  then have "w AND (0 - w) \<noteq> 0" by (simp only: bit_eq_iff) (metis bit_lowest bit_0_eq bot_apply bot_bool_def bit_imp_possible_bit)
  then show ?thesis using countr_zero_props(2) [of "w AND (0 - w)"] bit_lowest [OF w] by blast
qed

section \<open>Free slots\<close>

definition free :: "AudioPayloadPool \<Rightarrow> nat \<Rightarrow> bool" where
  "free p s \<longleftrightarrow> bit (available_slots p ! (s div 32)) (s mod 32)"

lemmas pool_constants = kSlotsPerBitmapWord_def kBitmapWordCount_def kMaximumSlots_def

lemma free_initially:
  assumes "s < 128" "slots \<le> 128"
  shows "free (Pool_Initialize slots bytes) s \<longleftrightarrow> s < slots"
proof -
  define q r where "q = s div 32" and "r = s mod 32"
  then have s: "s = q * 32 + r" "q < 4" "r < 32" using assms(1) by auto
  show ?thesis using s(2,3) assms(2) unfolding s(1)
    by (auto simp: free_def Pool_Initialize_def pool_constants AvailableMask_def Let_def bit_simps
        mask_eq_exp_minus_1 [symmetric] min_def)
qed

lemma free_swap:
  assumes "length (available_slots p) = 4" "w < 4" "available_slots p ! w = a" "a \<noteq> 0"
  defines "s \<equiv> w * 32 + countr_zero (a AND (0 - a))"
  shows "s < 128" "free p s"
    "t < 128 \<Longrightarrow> free (p\<lparr>available_slots := (available_slots p)[w := a AND NOT (a AND (0 - a))]\<rparr>) t \<longleftrightarrow> free p t \<and> t \<noteq> s"
proof -
  let ?n = "countr_zero a"
  have s: "s = w * 32 + ?n" "?n < 32" using countr_zero_props(1) [OF assms(4)] by (simp_all only: s_def countr_zero_lowest [OF assms(4)])
  then have d: "s div 32 = w" "s mod 32 = ?n" by simp_all
  show "s < 128" using s assms(2) by simp
  show "free p s" using countr_zero_props(2) [OF assms(4)] assms(3) by (simp add: free_def d)
  define b where "b = a AND NOT (a AND (0 - a))"
  have b: "bit b i \<longleftrightarrow> bit a i \<and> i \<noteq> ?n" if "i < 32" for i
    unfolding b_def bit_and_iff [of a "NOT (a AND (0 - a))"] bit_not_iff bit_lowest [OF assms(4)] using that by simp
  have "t = s \<longleftrightarrow> t div 32 = w \<and> t mod 32 = ?n" using d by (metis div_mult_mod_eq)
  then show "free (p\<lparr>available_slots := (available_slots p)[w := a AND NOT (a AND (0 - a))]\<rparr>) t \<longleftrightarrow> free p t \<and> t \<noteq> s" if "t < 128"
    unfolding b_def [symmetric] using assms(1-3) b by (cases "t div 32 = w") (auto simp: free_def)
qed

lemma free_give:
  assumes "length (available_slots p) = 4" "s < 128"
  shows "free (p\<lparr>available_slots := (available_slots p)[s div 32 := available_slots p ! (s div 32) OR push_bit (s mod 32) 1]\<rparr>) t
     \<longleftrightarrow> free p t \<or> t = s"
    "available_slots p ! (s div 32) AND push_bit (s mod 32) 1 = 0 \<longleftrightarrow> \<not> free p s"
proof -
  have "t = s \<longleftrightarrow> t div 32 = s div 32 \<and> t mod 32 = s mod 32" by (metis div_mult_mod_eq)
  then show "free (p\<lparr>available_slots := (available_slots p)[s div 32 := available_slots p ! (s div 32) OR push_bit (s mod 32) 1]\<rparr>) t
     \<longleftrightarrow> free p t \<or> t = s"
    using assms by (cases "t div 32 = s div 32") (auto simp: free_def bit_simps)
  show "available_slots p ! (s div 32) AND push_bit (s mod 32) 1 = 0 \<longleftrightarrow> \<not> free p s"
    by (simp add: free_def and_exp_eq_0_iff_not_bit)
qed

section \<open>The invariant\<close>

fun owns :: "payload \<Rightarrow> nat list" where
  "owns (Count s) = [s]"
| "owns (Peak s n) = [s]"
| "owns (Raise s n h) = [s]"
| "owns (Leased s) = [s]"
| "owns (Give s) = [s]"
| "owns _ = []"

fun counted :: "payload \<Rightarrow> bool" where
  "counted (Peak s n) = True"
| "counted (Raise s n h) = True"
| "counted (Leased s) = True"
| "counted (Give s) = True"
| "counted Discount = True"
| "counted _ = False"

text \<open>The number that a payload is about to report as the high watermark.\<close>

fun reports :: "payload \<Rightarrow> nat" where
  "reports (Peak s n) = n"
| "reports (Raise s n h) = n"
| "reports _ = 0"

fun sensible :: "payload \<Rightarrow> bool" where
  "sensible (Swap w a) \<longleftrightarrow> w < 4 \<and> a \<noteq> 0"
| "sensible (Raise s n h) \<longleftrightarrow> h < n"
| "sensible _ = True"

definition owned :: "payload list \<Rightarrow> nat list" where
  "owned xs = concat (map owns xs)"

definition slots_inv :: "AudioPayloadPool \<Rightarrow> nat list \<Rightarrow> bool" where
  "slots_inv p os \<longleftrightarrow>
     length (available_slots p) = 4 \<and> slot_count p \<le> 128 \<and> distinct os \<and> (\<forall>s \<in> set os. s < slot_count p) \<and>
     (\<forall>s < 128. free p s \<longleftrightarrow> s < slot_count p \<and> s \<notin> set os)"

definition count_inv :: "AudioPayloadPool \<Rightarrow> payload list \<Rightarrow> bool" where
  "count_inv p xs \<longleftrightarrow> in_use p = length (filter counted xs) \<and>
     (in_use p \<le> pool_high_watermark p \<or> list_ex (\<lambda>x. in_use p \<le> reports x) xs)"

definition pool_inv :: "AudioPayloadPool \<Rightarrow> payload list \<Rightarrow> bool" where
  "pool_inv p xs \<longleftrightarrow> list_all sensible xs \<and> slots_inv p (owned xs) \<and> count_inv p xs"

lemma owned_simps [simp]: "owned [] = []" "owned (x # xs) = owns x @ owned xs" "owned (us @ vs) = owned us @ owned vs"
  by (simp_all add: owned_def)

lemma pool_inv_start: "slots \<le> 128 \<Longrightarrow> pool_inv (Pool_Initialize slots bytes) []"
  using free_initially by (auto simp: pool_inv_def slots_inv_def count_inv_def) (auto simp: Pool_Initialize_def pool_constants)

lemma slots_inv_same [simp]:
  "slots_inv (p\<lparr>in_use := n\<rparr>) os = slots_inv p os" "slots_inv (p\<lparr>pool_high_watermark := n\<rparr>) os = slots_inv p os"
  "slots_inv (p\<lparr>acquisition_failures := n\<rparr>) os = slots_inv p os"
  by (simp_all add: slots_inv_def free_def)

lemma slots_inv_swap:
  assumes "slots_inv p (us @ vs)" "w < 4" "a \<noteq> 0" "available_slots p ! w = a"
  shows "slots_inv (p\<lparr>available_slots := (available_slots p)[w := a AND NOT (a AND (0 - a))]\<rparr>)
           (us @ (w * 32 + countr_zero (a AND (0 - a))) # vs)"
proof -
  have l: "length (available_slots p) = 4" using assms(1) by (simp add: slots_inv_def)
  note f = free_swap [OF l assms(2,4,3)]
  then show ?thesis using assms(1) f(1,2) unfolding slots_inv_def by (auto simp del: diff_0)
qed

lemma slots_inv_give:
  assumes "slots_inv p (us @ s # vs)"
  shows "slots_inv (p\<lparr>available_slots := (available_slots p)[s div 32 := available_slots p ! (s div 32) OR push_bit (s mod 32) 1]\<rparr>) (us @ vs)"
    "available_slots p ! (s div 32) AND push_bit (s mod 32) 1 = 0" "s < slot_count p"
proof -
  have l: "length (available_slots p) = 4" "s < 128" using assms by (auto simp: slots_inv_def)
  show "slots_inv (p\<lparr>available_slots := (available_slots p)[s div 32 := available_slots p ! (s div 32) OR push_bit (s mod 32) 1]\<rparr>) (us @ vs)"
    using assms free_give(1) [OF l] unfolding slots_inv_def by auto
  show "available_slots p ! (s div 32) AND push_bit (s mod 32) 1 = 0" "s < slot_count p"
    using assms l unfolding free_give(2) [OF l] by (auto simp: slots_inv_def)
qed

lemma step_parts:
  "owns (examine w a) = []" "counted (examine w a) = False" "reports (examine w a) = 0" "w < 4 \<Longrightarrow> sensible (examine w a)"
  "owns (compare_peak s n h) = [s]" "counted (compare_peak s n h)" "sensible (compare_peak s n h)"
  "reports (compare_peak s n h) = (if n > h then n else 0)"
  by (auto simp: examine_def compare_peak_def)

lemma payload_step_inv:
  assumes "pool_inv p (us @ x # vs)" "payload_step spurious p x = (p', x')"
  shows "pool_inv p' (us @ x' # vs) \<and> slot_count p' = slot_count p"
proof -
  have i: "list_all sensible us" "sensible x" "list_all sensible vs" "slots_inv p (owned us @ owns x @ owned vs)" "count_inv p (us @ x # vs)"
    using assms(1) by (auto simp: pool_inv_def)
  have "sensible x' \<and> slots_inv p' (owned us @ owns x' @ owned vs) \<and> count_inv p' (us @ x' # vs) \<and> slot_count p' = slot_count p"
  proof (cases x)
    case (Load w)
    then show ?thesis using assms(2) i
      by (auto simp: payload_step_def count_inv_def step_parts pool_constants split: if_splits)
  next
    case (Swap w a)
    define b s where "b = a AND NOT (a AND (0 - a))" and "s = w * 32 + countr_zero (a AND (0 - a))"
    have wa: "w < 4" "a \<noteq> 0" using i(2) Swap by auto
    have "(p', x') = (if \<not> spurious \<and> available_slots p ! w = a
        then (p\<lparr>available_slots := (available_slots p)[w := b]\<rparr>, Count s) else (p, examine w (available_slots p ! w)))"
      using assms(2) by (simp only: Swap payload_step_def releasing.simps if_False TryAcquire_step.simps Let_def b_def s_def pool_constants)
    moreover have "slots_inv (p\<lparr>available_slots := (available_slots p)[w := b]\<rparr>) (owned us @ s # owned vs)" if "available_slots p ! w = a"
      using slots_inv_swap [of p "owned us" "owned vs", OF _ wa that] i(4) Swap by (simp add: b_def s_def)
    ultimately show ?thesis using i(4,5) wa Swap by (auto simp: count_inv_def step_parts split: if_splits)
  next
    case (Count s)
    then show ?thesis using assms(2) i by (auto simp: payload_step_def count_inv_def)
  next
    case (Peak s n)
    then show ?thesis using assms(2) i by (auto simp: payload_step_def count_inv_def step_parts)
  next
    case (Raise s n h)
    then show ?thesis using assms(2) i
      by (auto simp: payload_step_def count_inv_def step_parts split: if_splits)
  next
    case (Give s)
    then show ?thesis using assms(2) i slots_inv_give [of p "owned us" s "owned vs"]
      by (auto simp: payload_step_def count_inv_def Let_def pool_constants split: if_splits)
  next
    case Discount
    then show ?thesis using assms(2) i by (fastforce simp: payload_step_def count_inv_def list_ex_iff dest: Suc_leD)
  qed (use assms(2) i in \<open>auto simp: payload_step_def\<close>)
  then show ?thesis using i by (auto simp: pool_inv_def)
qed

lemma pool_move_inv:
  assumes "pool_inv p xs" "pool_move (p, xs) m = (p', xs')"
  shows "pool_inv p' xs' \<and> slot_count p' = slot_count p"
proof (cases m)
  case Acquire
  then show ?thesis using assms by (auto simp: pool_inv_def count_inv_def)
next
  case (Step i spurious)
  show ?thesis
  proof (cases "i < length xs")
    case True
    then have xs: "xs = take i xs @ xs ! i # drop (Suc i) xs" by (rule id_take_nth_drop)
    obtain x' where "payload_step spurious p (xs ! i) = (p', x')" "xs' = take i xs @ x' # drop (Suc i) xs"
      using assms(2) True Step by (auto simp: upd_conv_take_nth_drop split: prod.splits)
    then show ?thesis using payload_step_inv assms(1) xs by metis
  qed (use assms Step in auto)
next
  case (Return i)
  show ?thesis
  proof (cases "i < length xs \<and> (\<exists>s. xs ! i = Leased s)")
    case True
    then obtain s where s: "i < length xs" "xs ! i = Leased s" by blast
    then have xs: "xs = take i xs @ Leased s # drop (Suc i) xs" using id_take_nth_drop by metis
    have "p' = p" "xs' = take i xs @ Give s # drop (Suc i) xs" using assms(2) s Return by (auto simp: upd_conv_take_nth_drop)
    moreover have "pool_inv p (take i xs @ Leased s # drop (Suc i) xs)" using assms(1) xs by simp
    ultimately show ?thesis by (auto simp: pool_inv_def count_inv_def)
  qed (use assms Return in \<open>auto split: payload.splits if_splits\<close>)
qed

lemma pool_run_inv:
  assumes "Pool_Create allocated slots bytes = Some p0" "pool_run p0 moves = (p, xs)"
  shows "pool_inv p xs \<and> slot_count p = slots"
  using assms(2) unfolding pool_run_def
proof (induction moves arbitrary: p xs rule: rev_induct)
  case Nil
  then show ?case using assms(1) pool_inv_start [of slots bytes]
    by (auto simp: Pool_Create_def pool_constants split: if_splits) (simp_all add: Pool_Initialize_def)
next
  case (snoc m moves)
  then show ?case using pool_move_inv by (cases "foldl pool_move (p0, []) moves") fastforce
qed

text \<open>
  C7. However acquisitions and releases of any number of tasks interleave, also when exchanges fail
  spuriously: no slot is ever leased to two payloads, every leased slot exists, a slot is marked as
  free exactly when no payload has it; the counter of slots in use counts the payloads between their
  two updates of it, and the high watermark is no smaller once every acquisition has reported.
\<close>

theorem pool_leases_exclusive:
  assumes "Pool_Create allocated slots bytes = Some p0" "pool_run p0 moves = (p, xs)"
  shows "distinct (owned xs) \<and> set (owned xs) \<subseteq> {..<slots} \<and>
     list_all (\<lambda>s. free p s \<longleftrightarrow> s \<notin> set (owned xs)) [0..<slots] \<and>
     in_use p = length (filter counted xs) \<and> (list_ex (\<lambda>x. 0 < reports x) xs \<or> in_use p \<le> pool_high_watermark p)"
  using pool_run_inv [OF assms]
  by (auto simp: pool_inv_def slots_inv_def count_inv_def list_all_iff list_ex_iff) (metis le_zero_eq neq0_conv zero_le)

text \<open>Two tasks race for the first slot: the one whose exchange fails takes the second.\<close>

definition racing :: "pool_action list" where
  "racing = [Acquire, Acquire, Step 0 False, Step 1 False, Step 1 False, Step 0 False, Step 0 False]"

lemma racing_run:
  "Pool_Create True 2 640 = Some (Pool_Initialize 2 640)"
  "pool_run (Pool_Initialize 2 640) racing =
     (\<lparr>slot_count = 2, slot_bytes = 640, available_slots = [0, 0, 0, 0], in_use = 0, pool_high_watermark = 0, acquisition_failures = 0\<rparr>,
      [Count 1, Count 0])"
proof -
  show "Pool_Create True 2 640 = Some (Pool_Initialize 2 640)"
    by (simp add: Pool_Create_def pool_constants size_max_def)
qed code_simp

theorem pool_leases_exclusive_witness:
  "distinct (owned [Count 1, Count 0]) \<and> set (owned [Count 1, Count 0]) \<subseteq> {..<2}"
  using pool_leases_exclusive [OF racing_run] by blast

text \<open>
  The high watermark is not the largest number of slots leased at a time: a slot is marked as free
  before it is counted as returned, so that another task may lease it and count it again.
\<close>

definition overcounting :: "pool_action list" where
  "overcounting = [Acquire] @ replicate 5 (Step 0 False) @ [Return 0, Step 0 False, Acquire] @ replicate 5 (Step 1 False)"

theorem watermark_overcounts:
  "case pool_run (Pool_Initialize 1 640) overcounting of (p, xs) \<Rightarrow>
     xs = [Discount, Leased 0] \<and> slot_count p = 1 \<and> pool_high_watermark p = 2"
  by code_simp

section \<open>A task on its own\<close>

definition solo :: "nat \<Rightarrow> AudioPayloadPool \<times> payload \<Rightarrow> AudioPayloadPool \<times> payload" where
  "solo n = (\<lambda>(p, x). payload_step False p x) ^^ n"

fun acquiring :: "payload \<Rightarrow> bool" where
  "acquiring (Load w) = True"
| "acquiring (Swap w a) = True"
| "acquiring (Count s) = True"
| "acquiring (Peak s n) = True"
| "acquiring (Raise s n h) = True"
| "acquiring _ = False"

text \<open>A bound on the steps to come when nothing interferes; a value seen before may be out of date once.\<close>

fun budget :: "AudioPayloadPool \<Rightarrow> payload \<Rightarrow> nat" where
  "budget p (Load w) = 2 * (4 - w) + 5"
| "budget p (Swap w a) = (if available_slots p ! w = a \<and> a \<noteq> 0 then 5 else 2 * (3 - w) + 6)"
| "budget p (Count s) = 4"
| "budget p (Peak s n) = 3"
| "budget p (Raise s n h) = (if pool_high_watermark p = h then 1 else 2)"
| "budget p x = 0"

lemma budget_decreases: "acquiring x \<Longrightarrow> payload_step False p x = (p', x') \<Longrightarrow> budget p' x' < budget p x"
  by (cases x) (auto simp: payload_step_def examine_def compare_peak_def Let_def pool_constants split: if_splits)

lemma budget_bound: "budget p x \<le> 13"
  by (cases x) auto

lemma acquiring_step: "acquiring x \<Longrightarrow> payload_step s p x = (p', x') \<Longrightarrow> acquiring x' \<or> x' = Exhausted \<or> (\<exists>s. x' = Leased s)"
  by (cases x) (auto simp: payload_step_def examine_def compare_peak_def Let_def split: if_splits)

lemma solo_simps: "solo 0 px = px" "solo (Suc n) (p, x) = solo n (payload_step False p x)"
  by (simp_all add: solo_def funpow_Suc_right del: funpow.simps)

lemma solo_ends:
  "acquiring x \<Longrightarrow> \<exists>n \<le> budget p x. snd (solo n (p, x)) = Exhausted \<or> (\<exists>s. snd (solo n (p, x)) = Leased s)"
proof (induction "budget p x" arbitrary: p x rule: less_induct)
  case less
  obtain p' x' where s: "payload_step False p x = (p', x')" by fastforce
  show ?case
  proof (cases "acquiring x'")
    case True
    then obtain n where "n \<le> budget p' x'" "snd (solo n (p', x')) = Exhausted \<or> (\<exists>s. snd (solo n (p', x')) = Leased s)"
      using less(1) [OF budget_decreases [OF less(2) s]] by blast
    then show ?thesis using budget_decreases [OF less(2) s] s by (intro exI [of _ "Suc n"]) (simp add: solo_simps)
  next
    case False
    then have "x' = Exhausted \<or> (\<exists>s. x' = Leased s)" using acquiring_step [OF less(2) s] by blast
    then show ?thesis using budget_decreases [OF less(2) s] s by (intro exI [of _ "Suc 0"]) (auto simp: solo_simps)
  qed
qed

text \<open>\<open>TryAcquire\<close> of a task that nothing interferes with.\<close>

definition TryAcquire :: "AudioPayloadPool \<Rightarrow> AudioPayloadPool \<times> payload" where
  "TryAcquire p = solo 13 (p, Load 0)"

lemma solo_stable: "solo n (p, Leased s) = (p, Leased s)" "solo n (p, Exhausted) = (p, Exhausted)"
  by (induction n) (simp_all add: solo_simps payload_step_def)

lemma solo_win:
  assumes "w < 4" "available_slots p ! w \<noteq> 0" "5 \<le> n"
  shows "snd (solo n (p, Load w)) = Leased (w * 32 + countr_zero (available_slots p ! w))"
proof -
  let ?a = "available_slots p ! w"
  obtain m where n: "n = Suc (Suc (Suc (Suc (Suc m))))" using assms(3) that [of "n - 5"] by simp
  show ?thesis using assms(1,2) countr_zero_lowest [OF assms(2)]
    by (simp add: n solo_simps payload_step_def examine_def compare_peak_def Let_def pool_constants solo_stable)
qed

lemma find_upt: "List.find P [0..<n] = Some s \<longleftrightarrow> s < n \<and> P s \<and> (\<forall>t < s. \<not> P t)"
  by (auto simp: find_Some_iff)

lemma lowest_free:
  assumes "slots_inv p os" "w < 4" "available_slots p ! w \<noteq> 0" "\<And>v. v < w \<Longrightarrow> available_slots p ! v = 0"
  shows "List.find (free p) [0..<slot_count p] = Some (w * 32 + countr_zero (available_slots p ! w))"
proof -
  let ?n = "countr_zero (available_slots p ! w)"
  note c = countr_zero_props [OF assms(3)]
  have "free p (w * 32 + ?n)" using c(1,2) by (simp add: free_def)
  moreover have "w * 32 + ?n < 128" using c(1) assms(2) by simp
  moreover have "\<not> free p t" if "t < w * 32 + ?n" for t
  proof (cases "t div 32 = w")
    case True
    then have "t mod 32 < ?n" using that by (metis add.commute add_less_cancel_right div_mult_mod_eq)
    then show ?thesis using c(3) True by (simp add: free_def)
  next
    case False
    then have "t div 32 < w" using that c(1) by auto
    then show ?thesis using assms(4) by (simp add: free_def)
  qed
  ultimately show ?thesis using assms(1) by (auto simp: find_upt slots_inv_def)
qed

lemma solo_scan:
  "slots_inv p os \<Longrightarrow> w \<le> 4 \<Longrightarrow> (\<And>v. v < w \<Longrightarrow> available_slots p ! v = 0) \<Longrightarrow> 9 - w \<le> n \<Longrightarrow>
     snd (solo n (p, Load w)) = (case List.find (free p) [0..<slot_count p] of Some s \<Rightarrow> Leased s | None \<Rightarrow> Exhausted)"
proof (induction "4 - w" arbitrary: w n)
  case 0
  then have w: "w = 4" and n: "n = Suc (n - 1)" by auto
  have "\<not> free p t" if "t < 128" for t using 0(4) [of "t div 32"] that by (simp add: free_def w less_mult_imp_div_less)
  then have "List.find (free p) [0..<slot_count p] = None" using 0(2) by (auto simp: find_None_iff slots_inv_def)
  then show ?case by (subst n) (simp add: w solo_simps payload_step_def pool_constants solo_stable)
next
  case (Suc k)
  then have w: "w < 4" by simp
  show ?case
  proof (cases "available_slots p ! w = 0")
    case True
    have n: "n = Suc (n - 1)" using Suc.prems(4) w by simp
    have "snd (solo (n - 1) (p, Load (Suc w))) = (case List.find (free p) [0..<slot_count p] of Some s \<Rightarrow> Leased s | None \<Rightarrow> Exhausted)"
      using Suc.hyps(2) Suc.prems True w by (intro Suc.hyps(1)) (auto simp: less_Suc_eq)
    then show ?thesis using True w by (subst n) (simp add: solo_simps payload_step_def examine_def pool_constants)
  next
    case False
    then show ?thesis using lowest_free [OF Suc.prems(1) w False Suc.prems(3)] solo_win [OF w False, of n] Suc.prems(4) w by simp
  qed
qed

text \<open>
  C27. The pool never blocks and never refuses without need: in any state, a task in the middle of an
  acquisition finishes it within 13 steps of its own when nothing interferes, and an acquisition
  begun and finished without interference leases the lowest free slot, or reports exhaustion exactly
  when there is none.
\<close>

theorem pool_acquire_finishes:
  assumes "Pool_Create allocated slots bytes = Some p0" "pool_run p0 moves = (p, xs)" "acquiring x"
  shows "(\<exists>n \<le> 13. snd (solo n (p, x)) = Exhausted \<or> (\<exists>s. snd (solo n (p, x)) = Leased s)) \<and>
     snd (TryAcquire p) = (case List.find (free p) [0..<slots] of Some s \<Rightarrow> Leased s | None \<Rightarrow> Exhausted)"
proof (rule conjI)
  show "\<exists>n \<le> 13. snd (solo n (p, x)) = Exhausted \<or> (\<exists>s. snd (solo n (p, x)) = Leased s)"
    using solo_ends [OF assms(3), of p] budget_bound [of p x] order_trans by blast
  have "slots_inv p (owned xs)" "slot_count p = slots" using pool_run_inv [OF assms(1,2)] by (simp_all add: pool_inv_def)
  then show "snd (TryAcquire p) = (case List.find (free p) [0..<slots] of Some s \<Rightarrow> Leased s | None \<Rightarrow> Exhausted)"
    using solo_scan [of p "owned xs" 0 13] by (simp add: TryAcquire_def)
qed

theorem pool_acquire_finishes_witness:
  "\<exists>n \<le> 13. snd (solo n (Pool_Initialize 2 640, Swap 0 1)) = Exhausted \<or> (\<exists>s. snd (solo n (Pool_Initialize 2 640, Swap 0 1)) = Leased s)"
  using pool_acquire_finishes [OF racing_run(1), of "[]" "Pool_Initialize 2 640" "[]" "Swap 0 1"] by (simp add: pool_run_def)

end
