(* ===== verification/Pcm_Frames.thy ===== *)
theory Pcm_Frames
  imports Audio_Pool
begin

text \<open>
  \<open>PcmFrameAssembler\<close> (\<open>pcm_frame_assembler.cc\<close>): the samples of the hardware periods are put together
  to frames of the transport's length. The buffer is the list of the samples waiting in it.

  The pool is shared with the tasks that consume the frames, so that an acquisition may succeed or
  fail at any time, and the sink is a callback: both are functions on a state of the environment,
  \<open>acquire\<close> and \<open>sink\<close> below.
\<close>

section \<open>The assembler\<close>

definition kPcmPayloadPoolSlots :: nat where "kPcmPayloadPoolSlots = 16"

record PcmFrameAssembler =
  frame_format :: AudioFormat
  hardware_period_ms :: nat
  frame_samples :: nat
  pending_samples :: "16 word list"
  payload_pool :: "AudioPayloadPool option"
  pcm_prepared :: bool

definition Pcm_Invalid :: "string \<Rightarrow> Status" where
  "Pcm_Invalid m = Status_Error kInvalidArgument m"

definition msg_pcm_format :: string where
  "msg_pcm_format = ''PCM '' @ utf8 [32452, 24103, 26684, 24335, 24517, 39035, 26159, 21512, 27861, 30340] @ '' S16LE''"

definition msg_pcm_period :: string where
  "msg_pcm_period = utf8 [20256, 36755, 24103, 26102, 38271, 24517, 39035, 26159, 30828, 20214] @ '' period '' @ utf8 [30340, 25972, 25968, 20493]"

definition msg_pcm_buffer :: string where
  "msg_pcm_buffer = ''PCM '' @ utf8 [32452, 24103, 32531, 23384, 20998, 37197, 22833, 36133]"

definition msg_pcm_pool :: string where
  "msg_pcm_pool = ''PCM payload pool '' @ utf8 [20998, 37197, 22833, 36133]"

definition msg_pcm_unprepared :: string where
  "msg_pcm_unprepared = ''PCM '' @ utf8 [32452, 24103, 22120, 23578, 26410, 20934, 22791]"

definition msg_pcm_null :: string where
  "msg_pcm_null = ''PCM '' @ utf8 [32452, 24103, 19981, 33021, 25509, 25910, 31354, 26679, 26412, 25351, 38024]"

definition msg_pcm_sink :: string where
  "msg_pcm_sink = ''PCM '' @ utf8 [32452, 24103, 32570, 23569, 36755, 20986] @ '' sink''"

definition msg_pcm_channels :: string where
  "msg_pcm_channels = ''PCM '' @ utf8 [26679, 26412, 25968, 19981, 33021, 32452, 25104, 23436, 25972, 22768, 36947, 24103]"

definition msg_pcm_overflow :: string where
  "msg_pcm_overflow = ''PCM '' @ utf8 [32452, 24103, 36127, 36733, 38271, 24230, 28322, 20986]"

definition msg_pcm_exhausted :: string where
  "msg_pcm_exhausted = ''PCM payload pool '' @ utf8 [24050, 32791, 23613]"

definition new_pcm :: "AudioFormat \<Rightarrow> nat \<Rightarrow> PcmFrameAssembler" where
  "new_pcm f period =
     (let frame_numerator = af_sample_rate_hz f * af_frame_duration_ms f;
          samples = (if af_channels f \<noteq> 0 \<and> frame_numerator mod 1000 = 0 \<and> frame_numerator div 1000 \<le> size_max div af_channels f
                     then frame_numerator div 1000 * af_channels f else 0)
      in \<lparr>frame_format = f, hardware_period_ms = period, frame_samples = samples, pending_samples = [], payload_pool = None,
          pcm_prepared = False\<rparr>)"

definition Pcm_Validate :: "PcmFrameAssembler \<Rightarrow> Status" where
  "Pcm_Validate a =
     (let f = frame_format a
      in if \<not> format_valid f \<or> af_codec f \<noteq> kPcmS16Le \<or> af_bits_per_sample f \<noteq> 16 \<or> af_channels f = 0 \<or> hardware_period_ms a = 0
         then Pcm_Invalid msg_pcm_format
         else
           (let period_numerator = af_sample_rate_hz f * hardware_period_ms a;
                frame_numerator = af_sample_rate_hz f * af_frame_duration_ms f;
                samples_per_channel = frame_numerator div 1000
            in if period_numerator mod 1000 \<noteq> 0 \<or> frame_numerator mod 1000 \<noteq> 0 \<or>
                  af_frame_duration_ms f mod hardware_period_ms a \<noteq> 0 \<or> samples_per_channel = 0 \<or>
                  samples_per_channel > size_max div af_channels f \<or> frame_samples a = 0 \<or> frame_samples a > kMaxPayloadBytes div 2
               then Pcm_Invalid msg_pcm_period
               else Status_Ok))"

text \<open>\<open>Prepare\<close>; the two arguments say whether the allocation of the buffer and of the pool succeed.\<close>

definition Pcm_Prepare :: "bool \<Rightarrow> bool \<Rightarrow> PcmFrameAssembler \<Rightarrow> Status \<times> PcmFrameAssembler" where
  "Pcm_Prepare buffer_allocated pool_allocated a =
     (if \<not> status_ok (Pcm_Validate a) then (Pcm_Validate a, a)
      else if pcm_prepared a then (Status_Ok, a)
      else if \<not> buffer_allocated then (Status_Error kUnavailable msg_pcm_buffer, a)
      else case Pool_Create pool_allocated kPcmPayloadPoolSlots (frame_samples a * 2) of
          None \<Rightarrow> (Status_Error kUnavailable msg_pcm_pool, a)
        | Some pool \<Rightarrow> (Status_Ok, a\<lparr>payload_pool := Some pool, pcm_prepared := True\<rparr>))"

text \<open>The bytes of a sample in the little-endian order of the processor.\<close>

definition sample_bytes :: "16 word \<Rightarrow> 8 word list" where
  "sample_bytes s = [ucast s, ucast (drop_bit 8 s)]"

definition pcm_frame :: "AudioFormat \<Rightarrow> 16 word list \<Rightarrow> AudioFrame" where
  "pcm_frame f samples = \<lparr>fr_generation = 0, fr_sequence = 0, fr_format = f, fr_payload = concat (map sample_bytes samples)\<rparr>"

text \<open>The loop of \<open>Push\<close>: the status, the buffer and the environment when it ends, \<open>None\<close> if it does not.\<close>

partial_function (option) pcm_loop ::
  "('w \<Rightarrow> bool \<times> 'w) \<Rightarrow> ('w \<Rightarrow> AudioFrame \<Rightarrow> Status \<times> 'w) \<Rightarrow> AudioFormat \<Rightarrow> nat \<Rightarrow> 16 word list \<Rightarrow> 16 word list \<Rightarrow> 'w \<Rightarrow>
   (Status \<times> 16 word list \<times> 'w) option" where
  "pcm_loop acquire sink f n pending samples w =
     (if samples = [] then Some (Status_Ok, pending, w)
      else let copied = min (length samples) (n - length pending);
               pending = pending @ take copied samples;
               samples = drop copied samples
           in if length pending \<noteq> n then pcm_loop acquire sink f n pending samples w
              else if n > size_max div 2 then Some (Pcm_Invalid msg_pcm_overflow, pending, w)
              else (case acquire w of (acquired, w) \<Rightarrow>
                      if \<not> acquired then Some (Status_Error kUnavailable msg_pcm_exhausted, [], w)
                      else case sink w (pcm_frame f pending) of (v, w) \<Rightarrow>
                        if \<not> status_ok v then Some (v, [], w)
                        else pcm_loop acquire sink f n [] samples w))"

text \<open>\<open>Push\<close>; the sample pointer and the sink may be null.\<close>

definition Pcm_Push ::
  "('w \<Rightarrow> bool \<times> 'w) \<Rightarrow> ('w \<Rightarrow> AudioFrame \<Rightarrow> Status \<times> 'w) option \<Rightarrow> PcmFrameAssembler \<Rightarrow> 16 word list option \<Rightarrow> nat \<Rightarrow> 'w \<Rightarrow>
   (Status \<times> PcmFrameAssembler \<times> 'w) option" where
  "Pcm_Push acquire sink a samples sample_count w =
     (if \<not> pcm_prepared a then Some (Status_Error kUnavailable msg_pcm_unprepared, a, w)
      else if sample_count \<noteq> 0 \<and> samples = None then Some (Pcm_Invalid msg_pcm_null, a, w)
      else case sink of
          None \<Rightarrow> Some (Pcm_Invalid msg_pcm_sink, a, w)
        | Some sink \<Rightarrow>
            if frame_samples a = 0 \<or> sample_count mod af_channels (frame_format a) \<noteq> 0 then Some (Pcm_Invalid msg_pcm_channels, a, w)
            else map_option (\<lambda>(v, pending, w). (v, a\<lparr>pending_samples := pending\<rparr>, w))
                   (pcm_loop acquire sink (frame_format a) (frame_samples a) (pending_samples a)
                      (if sample_count = 0 then [] else take sample_count (the samples)) w))"

definition Pcm_Reset :: "PcmFrameAssembler \<Rightarrow> PcmFrameAssembler" where
  "Pcm_Reset a = a\<lparr>pending_samples := []\<rparr>"

section \<open>The reference\<close>

text \<open>The stream is cut into frames, which are delivered one after the other until one is refused.\<close>

function cut_frames :: "nat \<Rightarrow> 'a list \<Rightarrow> 'a list list \<times> 'a list" where
  "cut_frames n xs =
     (if n = 0 \<or> length xs < n then ([], xs)
      else case cut_frames n (drop n xs) of (fs, rest) \<Rightarrow> (take n xs # fs, rest))"
  by pat_completeness auto
termination by (relation "measure (length \<circ> snd)") auto

declare cut_frames.simps [simp del]

primrec deliver ::
  "('w \<Rightarrow> bool \<times> 'w) \<Rightarrow> ('w \<Rightarrow> AudioFrame \<Rightarrow> Status \<times> 'w) \<Rightarrow> AudioFormat \<Rightarrow> 16 word list list \<Rightarrow> 'w \<Rightarrow> Status \<times> 'w" where
  "deliver acquire sink f [] w = (Status_Ok, w)"
| "deliver acquire sink f (s # ss) w =
     (case acquire w of (acquired, w) \<Rightarrow>
        if \<not> acquired then (Status_Error kUnavailable msg_pcm_exhausted, w)
        else case sink w (pcm_frame f s) of (v, w) \<Rightarrow>
          if \<not> status_ok v then (v, w) else deliver acquire sink f ss w)"

lemma cut_frames_props:
  assumes "0 < n" "cut_frames n xs = (fs, rest)"
  shows "concat fs @ rest = xs \<and> list_all (\<lambda>f. length f = n) fs \<and> length rest < n"
  using assms
proof (induction n xs arbitrary: fs rest rule: cut_frames.induct)
  case (1 n xs)
  show ?case
  proof (cases "length xs < n")
    case True
    then show ?thesis using 1(3) by (simp add: cut_frames.simps [of n xs])
  next
    case False
    then obtain gs where g: "cut_frames n (drop n xs) = (gs, rest)" "fs = take n xs # gs"
      using 1(2,3) by (auto simp: cut_frames.simps [of n xs] split: prod.splits)
    then show ?thesis using 1(1) [OF _ 1(2) g(1)] 1(2) False by auto
  qed
qed

lemma pcm_loop_reference:
  assumes "length pending < n" "n \<le> size_max div 2" "cut_frames n (pending @ samples) = (fs, rest)"
    "deliver acquire sink f fs w = (v, w')"
  shows "pcm_loop acquire sink f n pending samples w = Some (v, if status_ok v then rest else [], w')"
  using assms
proof (induction "length samples" arbitrary: pending samples fs w rule: less_induct)
  case less
  show ?case
  proof (cases "length (pending @ samples) < n")
    case True
    then have "fs = []" "rest = pending @ samples" using less(4) by (auto simp: cut_frames.simps [of n "pending @ samples"])
    moreover have "pcm_loop acquire sink f n (pending @ samples) [] w = Some (Status_Ok, pending @ samples, w)"
      by (simp add: pcm_loop.simps)
    ultimately show ?thesis using True less(5)
      by (cases "samples = []") (simp_all add: pcm_loop.simps [of acquire sink f n pending samples] Let_def)
  next
    case False
    define c where "c = n - length pending"
    define fr where "fr = pending @ take c samples"
    have c: "0 < c" "c \<le> length samples" "length fr = n" "length pending + c = n" using False less(2) by (auto simp: c_def fr_def)
    have t: "take n (pending @ samples) = fr" "drop n (pending @ samples) = drop c samples"
      using less(2) by (simp_all add: c_def fr_def)
    obtain gs where g: "cut_frames n (drop c samples) = (gs, rest)" "fs = fr # gs"
      using less(2,4) False by (auto simp: cut_frames.simps [of n "pending @ samples"] c_def fr_def split: prod.splits)
    obtain ac w1 where ac: "acquire w = (ac, w1)" by fastforce
    obtain st w2 where st: "sink w1 (pcm_frame f fr) = (st, w2)" by fastforce
    have "pcm_loop acquire sink f n pending samples w =
       (if \<not> ac then Some (Status_Error kUnavailable msg_pcm_exhausted, [], w1)
        else if \<not> status_ok st then Some (st, [], w2) else pcm_loop acquire sink f n [] (drop c samples) w2)"
      using c less(3) by (subst pcm_loop.simps) (auto simp: Let_def min_absorb2 c_def [symmetric] fr_def [symmetric] ac st)
    moreover have "pcm_loop acquire sink f n [] (drop c samples) w2 = Some (v, if status_ok v then rest else [], w')"
      if "ac" "status_ok st"
      using that less(1) [of "drop c samples" "[]" gs w2] c g less(2,3,5) ac st by auto
    ultimately show ?thesis using less(5) g(2) by (auto simp: ac st)
  qed
qed

section \<open>Correctness\<close>

text \<open>The states of an assembler between calls.\<close>

definition pcm_inv :: "PcmFrameAssembler \<Rightarrow> bool" where
  "pcm_inv a \<longleftrightarrow> (pcm_prepared a \<longrightarrow> status_ok (Pcm_Validate a)) \<and> (length (pending_samples a) < frame_samples a \<or> pending_samples a = []) \<and>
     frame_samples a = frame_samples (new_pcm (frame_format a) (hardware_period_ms a))"

lemma validated: "status_ok (Pcm_Validate a) \<Longrightarrow>
   0 < frame_samples a \<and> frame_samples a \<le> 8192 \<and> format_valid (frame_format a) \<and> 0 < af_channels (frame_format a)"
  by (auto simp: Pcm_Validate_def Pcm_Invalid_def Let_def kMaxPayloadBytes_def split: if_splits)

lemma new_pcm_simps [simp]:
  "pending_samples (new_pcm f n) = []" "pcm_prepared (new_pcm f n) = False" "frame_format (new_pcm f n) = f"
  "hardware_period_ms (new_pcm f n) = n"
  by (simp_all add: new_pcm_def Let_def)

lemma Pcm_Validate_pending [simp]:
  "Pcm_Validate (a\<lparr>pending_samples := x\<rparr>) = Pcm_Validate a" "Pcm_Validate (a\<lparr>payload_pool := pp, pcm_prepared := b\<rparr>) = Pcm_Validate a"
  by (simp_all add: Pcm_Validate_def Let_def)

lemma Pcm_Push_inv:
  assumes "pcm_inv a" "Pcm_Push acquire sink a samples n w = Some (v, a', w')"
  shows "pcm_inv a'"
proof (cases "\<exists>k. sink = Some k \<and> pcm_prepared a \<and> a' \<noteq> a")
  case True
  then obtain k where k: "sink = Some k" "pcm_prepared a" "a' \<noteq> a" by blast
  let ?s = "if n = 0 then [] else take n (the samples)"
  have v: "0 < frame_samples a" "frame_samples a \<le> size_max div 2" "status_ok (Pcm_Validate a)" "length (pending_samples a) < frame_samples a"
    using assms(1) k(2) validated [of a] by (auto simp: pcm_inv_def size_max_def)
  obtain fs rest where c: "cut_frames (frame_samples a) (pending_samples a @ ?s) = (fs, rest)" by fastforce
  obtain st w1 where d: "deliver acquire k (frame_format a) fs w = (st, w1)" by fastforce
  have "a' = a\<lparr>pending_samples := if status_ok st then rest else []\<rparr>"
    using assms(2) k pcm_loop_reference [OF v(4,2) c d] by (auto simp: Pcm_Push_def split: if_splits)
  then show ?thesis using assms(1) cut_frames_props [OF v(1) c] by (auto simp: pcm_inv_def)
next
  case False
  then show ?thesis using assms by (auto simp: Pcm_Push_def split: if_splits option.splits)
qed

lemma pcm_inv_ops:
  "pcm_inv (new_pcm f period)" "pcm_inv a \<Longrightarrow> pcm_inv (snd (Pcm_Prepare b p a))" "pcm_inv a \<Longrightarrow> pcm_inv (Pcm_Reset a)"
  by (auto simp: Pcm_Prepare_def pcm_inv_def Pcm_Reset_def split: option.splits)

text \<open>
  C19. Pushing samples always returns, and does what cutting the stream into frames does: the samples
  that were waiting and the new ones, in order and none twice, are cut into frames of the exact
  length; each whole frame is delivered, in order, until the pool or the sink refuses one; then the
  rest, shorter than a frame, waits, or after a refusal the buffer is empty.
\<close>

theorem pcm_push_cuts_stream:
  assumes "pcm_inv a" "pcm_prepared a" "length samples mod af_channels (frame_format a) = 0"
    and "cut_frames (frame_samples a) (pending_samples a @ samples) = (frames, rest)"
    and "deliver acquire sink (frame_format a) frames w = (v, w')"
  shows "Pcm_Push acquire (Some sink) a (Some samples) (length samples) w =
       Some (v, a\<lparr>pending_samples := if status_ok v then rest else []\<rparr>, w') \<and>
     concat frames @ rest = pending_samples a @ samples \<and> list_all (\<lambda>f. length f = frame_samples a) frames \<and>
     length rest < frame_samples a \<and> pcm_inv (a\<lparr>pending_samples := if status_ok v then rest else []\<rparr>)"
proof -
  have "status_ok (Pcm_Validate a)" "length (pending_samples a) < frame_samples a \<or> pending_samples a = []"
    using assms(1,2) by (auto simp: pcm_inv_def)
  then have v: "0 < frame_samples a" "frame_samples a \<le> size_max div 2" "length (pending_samples a) < frame_samples a"
    using validated [of a] by (auto simp: size_max_def)
  have "(if length samples = 0 then [] else take (length samples) (the (Some samples))) = samples" by simp
  then show ?thesis using assms(2,3) v(1) pcm_loop_reference [OF v(3,2) assms(4,5)] cut_frames_props [OF v(1) assms(4)] assms(1)
    by (auto simp: Pcm_Push_def pcm_inv_def)
qed

text \<open>A frame of 5 ms at 1 kHz on one channel, with a sink that takes one frame.\<close>

definition small_pcm :: PcmFrameAssembler where
  "small_pcm = snd (Pcm_Prepare True True (new_pcm
     \<lparr>af_codec = kPcmS16Le, af_sample_rate_hz = 1000, af_channels = 1, af_bits_per_sample = 16, af_frame_duration_ms = 5\<rparr> 1))"

definition small_sink :: "AudioFrame list \<Rightarrow> AudioFrame \<Rightarrow> Status \<times> AudioFrame list" where
  "small_sink w f = (if w = [] then (Status_Ok, [f]) else (Status_Error kConflict [], w))"

lemma small_pcm_simps [simp]:
  "pcm_inv small_pcm" "pcm_prepared small_pcm" "frame_samples small_pcm = 5" "pending_samples small_pcm = []"
  "af_channels (frame_format small_pcm) = 1"
  unfolding small_pcm_def
  by (simp_all add: pcm_inv_ops, simp_all add: Pcm_Prepare_def Pcm_Validate_def new_pcm_def format_valid_def Let_def size_max_def
      kMaxPayloadBytes_def Pool_Create_def pool_constants kPcmPayloadPoolSlots_def)

theorem pcm_push_cuts_stream_witness:
  "Pcm_Push (\<lambda>w. (True, w)) (Some small_sink) small_pcm (Some [1, 2, 3, 4, 5, 6]) 6 [] =
     Some (Status_Ok, small_pcm\<lparr>pending_samples := [6]\<rparr>, [pcm_frame (frame_format small_pcm) [1, 2, 3, 4, 5]])"
  using pcm_push_cuts_stream [of small_pcm "[1, 2, 3, 4, 5, 6]" "[[1, 2, 3, 4, 5]]" "[6]" "\<lambda>w. (True, w)" small_sink "[]" Status_Ok
    "[pcm_frame (frame_format small_pcm) [1, 2, 3, 4, 5]]"]
  by (simp add: cut_frames.simps small_sink_def numeral_eq_Suc)

end
