(* ===== verification/Linx_Provider.thy ===== *)
theory Linx_Provider
  imports Voice_Session
begin

text \<open>
  \<open>LinxSpeechProviderAdapter\<close> (\<open>linx_speech_provider.cc\<close>) with the types of \<open>linx_types.h\<close>: the speech
  provider behind the voice session. It turns the session's calls into messages of the cloud
  protocol and the messages of the transport into events and frames of the session.

  Its methods are programs in the sense of \<open>Interleaving\<close>: every access to an atomic variable and
  every block under a mutex is a section, every call of the transport, the codec strategy, the
  handler of tool calls or a sink is a port call. \<open>config_\<close> has no mutex; a method reads it where its
  code does, once for consecutive reads. The protocol codec, whose methods are constant, is a record
  of functions. Logging is left out.
\<close>

section \<open>Types of the protocol\<close>

record LinxConnectionConfig =
  lc_websocket_url :: string
  lc_token_ref :: string
  lc_device_id :: string
  lc_client_id :: string
  lc_agent_id :: "string option"
  lc_playback_buffer_duration_ms :: nat
  lc_preferred_audio :: "AudioFormat option"

definition connection_valid :: "LinxConnectionConfig \<Rightarrow> bool" where
  "connection_valid c \<longleftrightarrow> lc_websocket_url c \<noteq> [] \<and> lc_token_ref c \<noteq> [] \<and> lc_device_id c \<noteq> [] \<and> lc_client_id c \<noteq> [] \<and>
     lc_playback_buffer_duration_ms c > 0 \<and>
     (case lc_preferred_audio c of None \<Rightarrow> True | Some f \<Rightarrow> format_valid f)"

record LinxAudioParams =
  la_codec :: AudioCodec
  la_sample_rate_hz :: nat
  la_channels :: nat
  la_bits_per_sample :: nat
  la_frame_duration_ms :: nat

definition params_valid :: "LinxAudioParams \<Rightarrow> bool" where
  "params_valid p \<longleftrightarrow> la_sample_rate_hz p > 0 \<and> la_channels p > 0 \<and> la_bits_per_sample p > 0 \<and> la_frame_duration_ms p > 0"

datatype LinxMessageKind =
  Linx_kHello | Linx_kStt | Linx_kTts | Linx_kMcp | Linx_kError | Linx_kGoodbye | Linx_kLlm

datatype LinxTtsState = Tts_kStart | Tts_kSentenceStart | Tts_kStop

record LinxInboundMessage =
  im_kind :: LinxMessageKind
  im_session_id :: "string option"
  im_audio_params :: "LinxAudioParams option"
  im_tts_state :: "LinxTtsState option"
  im_text :: string
  im_aborted :: bool
  im_emotion :: "string option"
  im_action :: "string option"

record LinxCodec =
  EncodeHello :: "VoiceSessionConfig \<Rightarrow> LinxConnectionConfig \<Rightarrow> string Result"
  EncodeListenStart :: "VoiceSessionConfig \<Rightarrow> string Result"
  EncodeListenStop :: "VoiceSessionConfig \<Rightarrow> string Result"
  EncodeListenDetect :: "VoiceSessionConfig \<Rightarrow> string \<Rightarrow> string \<Rightarrow> string Result"
  EncodeAbort :: "VoiceSessionConfig \<Rightarrow> string \<Rightarrow> string Result"
  DecodeText :: "string \<Rightarrow> LinxInboundMessage Result"

section \<open>The adapter\<close>

record McpRequest =
  mr_payload :: string
  mr_session_id :: string
  mr_generation :: nat

text \<open>What the constructor is given; of the codec strategy, if there is one, the codec it has.\<close>

record LinxSetup =
  ls_connection :: LinxConnectionConfig
  ls_capabilities :: CapabilityProfile
  ls_mcp_handler :: bool
  ls_strategy :: "AudioCodec option"
  ls_codec :: LinxCodec

record LinxProvider =
  lp_config :: VoiceSessionConfig
  event_sink :: bool
  audio_sink :: bool
  lp_generation :: nat
  output_sequence :: nat
  connected :: bool
  transport_connected :: bool
  explicit_disconnect :: bool
  hello_received :: bool
  audio_formats_ready :: bool
  has_negotiated_formats :: bool
  remote_session_id :: "string option"
  lp_audio_formats :: VoiceAudioFormats
  last_audio_formats :: VoiceAudioFormats
  hello_status :: Status
  mcp_queue :: "McpRequest list"
  mcp_stop :: bool
  mcp_worker :: bool

definition kMcpQueueCapacity :: nat where
  "kMcpQueueCapacity = 4"

definition new_provider :: LinxProvider where
  "new_provider = \<lparr>lp_config = default_config, event_sink = False, audio_sink = False, lp_generation = 0, output_sequence = 0,
     connected = False, transport_connected = False, explicit_disconnect = False, hello_received = False,
     audio_formats_ready = False, has_negotiated_formats = False, remote_session_id = None,
     lp_audio_formats = \<lparr>fm_capture = default_format, fm_playback = default_format\<rparr>,
     last_audio_formats = \<lparr>fm_capture = default_format, fm_playback = default_format\<rparr>,
     hello_status = Status_Ok, mcp_queue = [], mcp_stop = False, mcp_worker = False\<rparr>"

definition DefaultCapabilities :: CapabilityProfile where
  "DefaultCapabilities = \<lparr>cp_provider_id = ''xrobot-websocket'',
     cp_capabilities = [''streaming-asr'', ''tts'', ''cancel-generation'', ''pcm'', ''opus'']\<rparr>"

text \<open>
  The calls of ports. \<open>Await_Hello\<close> is the wait for the condition variable, whose outcome the section
  behind it reads; \<open>Join_Worker\<close> waits for the thread of the tool calls.
\<close>

datatype LinxCall =
    Transport_Connect LinxConnectionConfig
  | Transport_SendText string
  | Transport_SendAudio AudioFrame
  | Transport_Close
  | Transport_SetGeneration nat
  | Codec_Configure AudioFormat AudioFormat
  | Codec_Encode AudioFrame
  | Codec_Decode AudioFrame
  | Mcp_Handle string string
  | Event_Sink VoiceEvent
  | Audio_Sink AudioFrame
  | Await_Hello nat
  | Join_Worker

text \<open>An answer has a result of each type; a caller reads the one of its type.\<close>

record LinxAnswer =
  answer_frame :: "AudioFrame Result"
  answer_text :: "string Result"

datatype LinxReply = Reply_None | Reply_Status Status | Reply_Formats "VoiceAudioFormats Result"

type_synonym linx_program = "(LinxProvider, LinxCall, LinxAnswer, LinxReply) program"

abbreviation reply :: "Status \<Rightarrow> linx_program" where
  "reply v \<equiv> Return (Reply_Status v)"

abbreviation no_reply :: linx_program where
  "no_reply \<equiv> Return Reply_None"

definition Load :: "(LinxProvider \<Rightarrow> 'a) \<Rightarrow> ('a \<Rightarrow> linx_program) \<Rightarrow> linx_program" where
  "Load f k = Section (\<lambda>s. Leave s (k (f s)))"

section \<open>Messages\<close>

definition msg_linx_config :: string where
  "msg_linx_config = utf8 [76, 105, 110, 120, 32, 80, 114, 111, 118, 105, 100, 101, 114, 32, 36830, 25509, 37197, 32622, 26080, 25928]"

definition msg_linx_connected :: string where
  "msg_linx_connected = utf8 [76, 105, 110, 120, 32, 80, 114, 111, 118, 105, 100, 101, 114, 32, 25110, 24213, 23618, 32, 84, 114, 97, 110, 115, 112, 111, 114, 116, 32, 24050, 36830, 25509]"

definition msg_linx_timeout :: string where
  "msg_linx_timeout = utf8 [76, 105, 110, 120, 32, 104, 101, 108, 108, 111, 32, 31561, 24453, 36229, 26102]"

definition msg_linx_no_formats :: string where
  "msg_linx_no_formats = utf8 [76, 105, 110, 120, 32, 104, 101, 108, 108, 111, 32, 23578, 26410, 23436, 25104, 38899, 39057, 26684, 24335, 21327, 21830]"

definition msg_linx_not_connected :: string where
  "msg_linx_not_connected = utf8 [76, 105, 110, 120, 32, 80, 114, 111, 118, 105, 100, 101, 114, 32, 23578, 26410, 36830, 25509]"

definition msg_linx_stale_frame :: string where
  "msg_linx_stale_frame = utf8 [76, 105, 110, 120, 32, 38899, 39057, 24103, 23646, 20110, 26087, 36830, 25509, 20195, 27425]"

definition msg_linx_uplink_format :: string where
  "msg_linx_uplink_format = utf8 [76, 105, 110, 120, 32, 19978, 34892, 24103, 19981, 26159, 26412, 22320, 21327, 21830, 32, 80, 67, 77, 32, 26684, 24335]"

definition msg_linx_no_encoder :: string where
  "msg_linx_no_encoder = utf8 [76, 105, 110, 120, 32, 19978, 34892, 32570, 23569, 24050, 37197, 32622, 30340, 38899, 39057, 36716, 30721, 31574, 30053]"

definition msg_linx_encoded_format :: string where
  "msg_linx_encoded_format = utf8 [76, 105, 110, 120, 32, 32534, 30721, 22120, 36820, 22238, 30340, 32447, 19978, 26684, 24335, 19982, 32, 104, 101, 108, 108, 111, 32, 19981, 19968, 33268]"

definition msg_linx_wake_word :: string where
  "msg_linx_wake_word = utf8 [26412, 22320, 21796, 37266, 35789, 20026, 31354]"

definition msg_linx_no_strategy :: string where
  "msg_linx_no_strategy = utf8 [76, 105, 110, 120, 32, 104, 101, 108, 108, 111, 32, 35831, 27714, 30340, 32534, 30721, 32570, 23569, 36716, 30721, 31574, 30053]"

definition msg_linx_lost :: string where
  "msg_linx_lost = utf8 [76, 105, 110, 120, 32, 84, 114, 97, 110, 115, 112, 111, 114, 116, 32, 22312, 32, 104, 101, 108, 108, 111, 32, 23436, 25104, 21069, 26029, 24320]"

definition msg_linx_session :: string where
  "msg_linx_session = utf8 [76, 105, 110, 120, 32, 28040, 24687, 32, 115, 101, 115, 115, 105, 111, 110, 95, 105, 100, 32, 19981, 21305, 37197, 25110, 32, 104, 101, 108, 108, 111, 32, 26410, 23436, 25104]"

definition msg_linx_no_params :: string where
  "msg_linx_no_params = utf8 [76, 105, 110, 120, 32, 104, 101, 108, 108, 111, 32, 32570, 23569, 32, 97, 117, 100, 105, 111, 95, 112, 97, 114, 97, 109, 115, 65292, 26080, 27861, 30830, 35748, 38899, 39057, 26684, 24335, 21327, 21830]"

definition msg_linx_wire_format :: string where
  "msg_linx_wire_format = utf8 [76, 105, 110, 120, 32, 104, 101, 108, 108, 111, 32, 36820, 22238, 20102, 24403, 21069, 22266, 20214, 26410, 37197, 32622, 30340, 32447, 19978, 38899, 39057, 26684, 24335]"

definition msg_linx_changed_format :: string where
  "msg_linx_changed_format = utf8 [76, 105, 110, 120, 32, 37325, 36830, 32, 104, 101, 108, 108, 111, 32, 25913, 21464, 24050, 21327, 21830, 38899, 39057, 26684, 24335, 65292, 24403, 21069, 26410, 37197, 32622, 32, 65, 117, 100, 105, 111, 79, 117, 116, 112, 117, 116, 32, 37325, 37197, 32622, 31574, 30053]"

definition msg_linx_empty_session :: string where
  "msg_linx_empty_session = utf8 [76, 105, 110, 120, 32, 104, 101, 108, 108, 111, 32, 115, 101, 115, 115, 105, 111, 110, 95, 105, 100, 32, 19981, 33021, 20026, 31354]"

definition msg_linx_tts_state :: string where
  "msg_linx_tts_state = utf8 [76, 105, 110, 120, 32, 84, 84, 83, 32, 32570, 23569, 29366, 24577]"

definition msg_linx_no_mcp :: string where
  "msg_linx_no_mcp = utf8 [76, 105, 110, 120, 32, 25910, 21040, 32, 77, 67, 80, 32, 35831, 27714, 65292, 20294, 35774, 22791, 26410, 37197, 32622, 32, 77, 67, 80, 32, 104, 97, 110, 100, 108, 101, 114]"

definition msg_linx_mcp_full :: string where
  "msg_linx_mcp_full = utf8 [76, 105, 110, 120, 32, 77, 67, 80, 32, 35831, 27714, 38431, 21015, 24050, 28385]"

definition msg_linx_early_audio :: string where
  "msg_linx_early_audio = utf8 [76, 105, 110, 120, 32, 104, 101, 108, 108, 111, 32, 26410, 23436, 25104, 65292, 25298, 32477, 19979, 34892, 38899, 39057]"

definition msg_linx_empty_audio :: string where
  "msg_linx_empty_audio = utf8 [76, 105, 110, 120, 32, 19979, 34892, 38899, 39057, 24103, 20026, 31354]"

definition msg_linx_large_audio :: string where
  "msg_linx_large_audio = utf8 [76, 105, 110, 120, 32, 19979, 34892, 38899, 39057, 24103, 36229, 36807, 21333, 24103, 20869, 23384, 19978, 38480]"

definition msg_linx_no_decoder :: string where
  "msg_linx_no_decoder = utf8 [76, 105, 110, 120, 32, 19979, 34892, 32570, 23569, 24050, 37197, 32622, 30340, 38899, 39057, 35299, 30721, 31574, 30053]"

definition msg_linx_decoded_format :: string where
  "msg_linx_decoded_format = utf8 [76, 105, 110, 120, 32, 35299, 30721, 22120, 36820, 22238, 30340, 26412, 22320, 32, 80, 67, 77, 32, 26684, 24335, 19981, 21305, 37197]"

definition msg_linx_no_output :: string where
  "msg_linx_no_output = utf8 [76, 105, 110, 120, 32, 19979, 34892, 38899, 39057, 27809, 26377, 32465, 23450, 36755, 20986, 31471, 21475]"

section \<open>Shared steps\<close>

definition Event :: "VoiceEventKind \<Rightarrow> string \<Rightarrow> bool \<Rightarrow> VoiceEvent" where
  "Event kind words aborted = \<lparr>ev_kind = kind, ev_generation = 0, ev_text = words, ev_aborted = aborted\<rparr>"

definition SameFormat :: "AudioFormat \<Rightarrow> AudioFormat \<Rightarrow> bool" where
  "SameFormat left right \<longleftrightarrow>
     af_codec left = af_codec right \<and> af_sample_rate_hz left = af_sample_rate_hz right \<and>
     af_channels left = af_channels right \<and> af_bits_per_sample left = af_bits_per_sample right \<and>
     af_frame_duration_ms left = af_frame_duration_ms right"

definition SameAudioFormats :: "VoiceAudioFormats \<Rightarrow> VoiceAudioFormats \<Rightarrow> bool" where
  "SameAudioFormats left right \<longleftrightarrow> SameFormat (fm_capture left) (fm_capture right) \<and> SameFormat (fm_playback left) (fm_playback right)"

definition Linx_Emit :: "VoiceEvent \<Rightarrow> linx_program \<Rightarrow> linx_program" where
  "Linx_Emit event p =
     Load lp_generation (\<lambda>generation. Load event_sink (\<lambda>sink.
       if sink then Tell (Event_Sink (event\<lparr>ev_generation := generation\<rparr>)) p else p))"

abbreviation Emit_error :: "string \<Rightarrow> linx_program \<Rightarrow> linx_program" where
  "Emit_error words \<equiv> Linx_Emit (Event Kind_kError words False)"

definition Send :: "string Result \<Rightarrow> (Status \<Rightarrow> linx_program) \<Rightarrow> linx_program" where
  "Send encoded k = (if \<not> ok encoded then k (status encoded) else Call (Transport_SendText (the (val encoded))) k)"

definition ActiveSessionConfig :: "LinxProvider \<Rightarrow> VoiceSessionConfig" where
  "ActiveSessionConfig s =
     (case remote_session_id s of None \<Rightarrow> lp_config s | Some sid \<Rightarrow> (lp_config s)\<lparr>cfg_session_id := sid\<rparr>)"

definition WireAudioFormat :: "LinxSetup \<Rightarrow> VoiceSessionConfig \<Rightarrow> AudioFormat" where
  "WireAudioFormat P config = (case lc_preferred_audio (ls_connection P) of None \<Rightarrow> cfg_audio config | Some f \<Rightarrow> f)"

definition ConfigureCodecStrategy :: "LinxSetup \<Rightarrow> (Status \<Rightarrow> linx_program) \<Rightarrow> linx_program" where
  "ConfigureCodecStrategy P k =
     Load lp_config (\<lambda>config.
       let wire = WireAudioFormat P config
       in if af_codec wire = af_codec (cfg_audio config) then k Status_Ok
          else if ls_strategy P \<noteq> Some (af_codec wire) then k (Status_Error kUnavailable msg_linx_no_strategy)
          else Call (Codec_Configure (cfg_audio config) wire) k)"

definition Linx_SetGeneration :: "nat \<Rightarrow> linx_program \<Rightarrow> linx_program" where
  "Linx_SetGeneration generation p =
     (if generation \<noteq> 0 then
        Update (\<lambda>s. s\<lparr>lp_generation := generation\<rparr>) (Update (\<lambda>s. s\<lparr>output_sequence := 0\<rparr>)
          (Tell (Transport_SetGeneration generation) p))
      else p)"

definition StartMcpWorker :: "LinxSetup \<Rightarrow> linx_program \<Rightarrow> linx_program" where
  "StartMcpWorker P p =
     (if \<not> ls_mcp_handler P then p
      else Update (\<lambda>s. if mcp_worker s then s else s\<lparr>mcp_stop := False, mcp_worker := True\<rparr>) p)"

definition StopMcpWorker :: "linx_program \<Rightarrow> linx_program" where
  "StopMcpWorker p =
     Update (\<lambda>s. s\<lparr>mcp_stop := True, mcp_queue := []\<rparr>)
       (Load mcp_worker (\<lambda>joinable.
          if joinable then Tell Join_Worker (Update (\<lambda>s. s\<lparr>mcp_worker := False\<rparr>) p) else p))"

section \<open>Connecting\<close>

definition connect_state :: "VoiceSessionConfig \<Rightarrow> LinxProvider \<Rightarrow> LinxProvider" where
  "connect_state config s = s\<lparr>hello_received := False, audio_formats_ready := False, has_negotiated_formats := False,
     remote_session_id := None, lp_audio_formats := \<lparr>fm_capture = cfg_audio config, fm_playback = cfg_audio config\<rparr>,
     last_audio_formats := \<lparr>fm_capture = cfg_audio config, fm_playback = cfg_audio config\<rparr>, hello_status := Status_Ok\<rparr>"

text \<open>The failing ends: the worker is stopped and the session's sink dropped.\<close>

definition Connect_fail :: "Status \<Rightarrow> linx_program" where
  "Connect_fail v = StopMcpWorker (Update (\<lambda>s. s\<lparr>event_sink := False\<rparr>) (reply v))"

text \<open>From the wait for the answer to the greeting on.\<close>

definition Connect_wait :: linx_program where
  "Connect_wait =
     Load (\<lambda>s. cfg_hello_timeout_ms (lp_config s)) (\<lambda>timeout. Tell (Await_Hello timeout)
       (Section (\<lambda>s.
          if \<not> hello_received s then
            Leave s (Call Transport_Close (\<lambda>_. Connect_fail (Status_Error kUnavailable msg_linx_timeout)))
          else if \<not> status_ok (hello_status s) then
            Leave s (Call Transport_Close (\<lambda>_. Connect_fail (hello_status s)))
          else Leave s (reply Status_Ok))))"

definition Connect_open :: "LinxSetup \<Rightarrow> VoiceSessionConfig \<Rightarrow> linx_program" where
  "Connect_open P config =
     Update (\<lambda>s. s\<lparr>explicit_disconnect := False\<rparr>) (Update (\<lambda>s. s\<lparr>transport_connected := False\<rparr>)
      (Update (\<lambda>s. s\<lparr>connected := False\<rparr>)
       (Linx_SetGeneration (cfg_generation config)
         (Update (connect_state config) (Update (\<lambda>s. s\<lparr>event_sink := True\<rparr>)
           (StartMcpWorker P
             (Call (Transport_Connect (ls_connection P)) (\<lambda>v.
                if \<not> status_ok v then Connect_fail v else Connect_wait))))))))"

definition Linx_Connect :: "LinxSetup \<Rightarrow> VoiceSessionConfig \<Rightarrow> linx_program" where
  "Linx_Connect P config =
     (if \<not> connection_valid (ls_connection P) \<or> cfg_provider_id config \<noteq> cp_provider_id (ls_capabilities P) \<or>
         cfg_generation config = 0
      then reply (Status_Error kInvalidArgument msg_linx_config)
      else
        Load connected (\<lambda>up.
          if up then reply (Status_Error kConflict msg_linx_connected)
          else Load transport_connected (\<lambda>up.
            if up then reply (Status_Error kConflict msg_linx_connected)
            else Update (\<lambda>s. s\<lparr>lp_config := config\<rparr>)
              (ConfigureCodecStrategy P (\<lambda>codec_status.
                 if \<not> status_ok codec_status then reply codec_status else Connect_open P config)))))"

definition Disconnect_then :: "(Status \<Rightarrow> linx_program) \<Rightarrow> linx_program" where
  "Disconnect_then k =
     Update (\<lambda>s. s\<lparr>explicit_disconnect := True\<rparr>)
       (Call Transport_Close (\<lambda>v.
          StopMcpWorker (Update (\<lambda>s. s\<lparr>connected := False\<rparr>) (Update (\<lambda>s. s\<lparr>transport_connected := False\<rparr>)
            (Update (\<lambda>s. s\<lparr>lp_generation := 0\<rparr>) (Update (\<lambda>s. s\<lparr>output_sequence := 0\<rparr>)
              (Update (\<lambda>s. s\<lparr>event_sink := False, audio_sink := False\<rparr>) (k v))))))))"

definition Linx_Disconnect :: linx_program where
  "Linx_Disconnect = Disconnect_then reply"

definition Linx_destroy :: linx_program where
  "Linx_destroy = Disconnect_then (\<lambda>_. StopMcpWorker no_reply)"

definition Linx_audio_formats :: linx_program where
  "Linx_audio_formats =
     Load (\<lambda>s. (connected s \<and> audio_formats_ready s, lp_audio_formats s)) (\<lambda>(ready, formats).
       Return (Reply_Formats (if \<not> ready then Failure kUnavailable msg_linx_no_formats else Success formats)))"

section \<open>Calls of the session\<close>

definition when_connected :: "linx_program \<Rightarrow> linx_program" where
  "when_connected p = Load connected (\<lambda>up. if \<not> up then reply (Status_Error kUnavailable msg_linx_not_connected) else p)"

definition Linx_SetAudioSink :: "bool \<Rightarrow> linx_program" where
  "Linx_SetAudioSink sink = Update (\<lambda>s. s\<lparr>audio_sink := sink\<rparr>) no_reply"

definition Linx_StartCapture :: "LinxSetup \<Rightarrow> linx_program" where
  "Linx_StartCapture P =
     when_connected (Load ActiveSessionConfig (\<lambda>config. Send (EncodeListenStart (ls_codec P) config) reply))"

definition Linx_StopCapture :: "LinxSetup \<Rightarrow> linx_program" where
  "Linx_StopCapture P =
     when_connected (Load ActiveSessionConfig (\<lambda>config. Send (EncodeListenStop (ls_codec P) config) reply))"

definition Linx_SendAudio :: "LinxSetup \<Rightarrow> AudioFrame \<Rightarrow> linx_program" where
  "Linx_SendAudio P frame =
     when_connected (Load lp_generation (\<lambda>generation.
       if fr_generation frame \<noteq> generation then reply (Status_Error kConflict msg_linx_stale_frame)
       else Load lp_config (\<lambda>config.
         if \<not> SameFormat (fr_format frame) (cfg_audio config) then reply (Status_Error kInvalidArgument msg_linx_uplink_format)
         else
           (let wire = WireAudioFormat P config
            in if af_codec wire \<noteq> af_codec (fr_format frame) then
                 (if ls_strategy P \<noteq> Some (af_codec wire) then reply (Status_Error kUnavailable msg_linx_no_encoder)
                  else Query (Codec_Encode frame) (\<lambda>answer.
                    let encoded = answer_frame answer
                    in if \<not> ok encoded then reply (status encoded)
                       else if \<not> SameFormat (fr_format (the (val encoded))) wire then
                         reply (Status_Error kInvalidArgument msg_linx_encoded_format)
                       else Call (Transport_SendAudio (the (val encoded))) reply))
               else Call (Transport_SendAudio frame) reply))))"

definition Linx_Abort :: "LinxSetup \<Rightarrow> string \<Rightarrow> linx_program" where
  "Linx_Abort P reason =
     when_connected (Load ActiveSessionConfig (\<lambda>config. Send (EncodeAbort (ls_codec P) config reason) reply))"

definition Linx_Speak :: "LinxSetup \<Rightarrow> string \<Rightarrow> linx_program" where
  "Linx_Speak P speech =
     when_connected (Load ActiveSessionConfig (\<lambda>config.
       Send (EncodeListenDetect (ls_codec P) config ''system_prompt'' speech) reply))"

definition Linx_NotifyLocalWakeWord :: "LinxSetup \<Rightarrow> string \<Rightarrow> string \<Rightarrow> linx_program" where
  "Linx_NotifyLocalWakeWord P wake_word text_response =
     when_connected
       (if wake_word = [] then reply (Status_Error kInvalidArgument msg_linx_wake_word)
        else Load ActiveSessionConfig (\<lambda>config.
          Send (EncodeListenDetect (ls_codec P) config wake_word text_response) reply))"

section \<open>Events of the transport\<close>

definition OnTransportConnected :: "LinxSetup \<Rightarrow> linx_program" where
  "OnTransportConnected P =
     Section (\<lambda>s.
       if transport_connected s then Leave s no_reply
       else Leave (s\<lparr>transport_connected := True\<rparr>)
         (Update (\<lambda>s. s\<lparr>connected := False\<rparr>) (Update (\<lambda>s. s\<lparr>output_sequence := 0\<rparr>)
           (Update (\<lambda>s. s\<lparr>hello_received := False, audio_formats_ready := False, remote_session_id := None, hello_status := Status_Ok\<rparr>)
             (Load lp_config (\<lambda>config. Send (EncodeHello (ls_codec P) config (ls_connection P)) (\<lambda>v.
                if \<not> status_ok v then
                  Update (\<lambda>s. s\<lparr>hello_received := True, hello_status := v\<rparr>) (Emit_error (message v) no_reply)
                else no_reply)))))))"

definition OnTransportDisconnected :: linx_program where
  "OnTransportDisconnected =
     Section (\<lambda>s.
       if \<not> transport_connected s then Leave s no_reply
       else Leave (s\<lparr>transport_connected := False\<rparr>)
         (Update (\<lambda>s. s\<lparr>connected := False\<rparr>) (Update (\<lambda>s. s\<lparr>output_sequence := 0\<rparr>)
           (Update (\<lambda>s. if \<not> hello_received s
                        then s\<lparr>hello_received := True, hello_status := Status_Error kUnavailable msg_linx_lost\<rparr> else s)
             (Load explicit_disconnect (\<lambda>wanted.
                if \<not> wanted then Linx_Emit (Event Kind_kDisconnected [] False) no_reply else no_reply))))))"

definition OnTransportError :: "Status \<Rightarrow> linx_program" where
  "OnTransportError v =
     Update (\<lambda>s. s\<lparr>connected := False\<rparr>)
       (Update (\<lambda>s. if \<not> hello_received s then s\<lparr>hello_status := v, hello_received := True\<rparr> else s)
         (Emit_error (message v) no_reply))"

definition hello_failed :: "Status \<Rightarrow> LinxProvider \<Rightarrow> LinxProvider" where
  "hello_failed v s = s\<lparr>hello_received := True, audio_formats_ready := False, hello_status := v\<rparr>"

definition hello_accepted :: "string option \<Rightarrow> VoiceAudioFormats \<Rightarrow> LinxProvider \<Rightarrow> LinxProvider" where
  "hello_accepted session formats s = s\<lparr>remote_session_id := session, hello_received := True, lp_audio_formats := formats,
     last_audio_formats := formats, has_negotiated_formats := True, audio_formats_ready := formats_valid formats,
     hello_status := Status_Ok\<rparr>"

text \<open>The last part of the answer to the greeting, once its format is acceptable.\<close>

definition OnHello_store :: "string option \<Rightarrow> VoiceAudioFormats \<Rightarrow> linx_program" where
  "OnHello_store session formats =
     (let refuse = (\<lambda>v s. Leave (hello_failed v s)
            (Update (\<lambda>s. s\<lparr>connected := False\<rparr>) (Emit_error (message v) no_reply)))
      in Section (\<lambda>s.
           if hello_received s \<and> connected s then Leave s no_reply
           else if has_negotiated_formats s \<and> \<not> SameAudioFormats (last_audio_formats s) formats then
             refuse (Status_Error kInvalidArgument msg_linx_changed_format) s
           else if session = Some [] then refuse (Status_Error kInvalidArgument msg_linx_empty_session) s
           else Leave (hello_accepted session formats s)
             (Update (\<lambda>s. s\<lparr>connected := True\<rparr>) (Linx_Emit (Event Kind_kConnected [] False) no_reply))))"

definition OnHello :: "LinxSetup \<Rightarrow> LinxInboundMessage \<Rightarrow> linx_program" where
  "OnHello P inbound =
     (let refuse = (\<lambda>m. Emit_error m
            (Update (\<lambda>s. s\<lparr>hello_received := True, hello_status := Status_Error kInvalidArgument m\<rparr>) no_reply))
      in Load transport_connected (\<lambda>up.
           if \<not> up then no_reply
           else Load lp_config (\<lambda>config.
             case im_audio_params inbound of
               None \<Rightarrow> refuse msg_linx_no_params
             | Some negotiated \<Rightarrow>
                 (let wire = WireAudioFormat P config;
                      server_wire = \<lparr>af_codec = la_codec negotiated, af_sample_rate_hz = la_sample_rate_hz negotiated,
                                     af_channels = la_channels negotiated, af_bits_per_sample = la_bits_per_sample negotiated,
                                     af_frame_duration_ms = la_frame_duration_ms negotiated\<rparr>;
                      is_transcoded_wire = (af_codec wire \<noteq> af_codec (cfg_audio config))
                  in if is_transcoded_wire \<and> \<not> SameFormat server_wire wire \<or>
                        \<not> is_transcoded_wire \<and> af_codec server_wire \<noteq> af_codec wire
                     then refuse msg_linx_wire_format
                     else OnHello_store (im_session_id inbound)
                       \<lparr>fm_capture = cfg_audio config,
                        fm_playback = (if af_codec wire = af_codec (cfg_audio config) then server_wire else cfg_audio config)\<rparr>))))"

definition OnMcp :: "LinxSetup \<Rightarrow> LinxInboundMessage \<Rightarrow> linx_program" where
  "OnMcp P inbound =
     (if \<not> ls_mcp_handler P then Emit_error msg_linx_no_mcp no_reply
      else Load ActiveSessionConfig (\<lambda>config.
        let session_id = (case im_session_id inbound of None \<Rightarrow> cfg_session_id config | Some sid \<Rightarrow> sid)
        in Section (\<lambda>s.
             if mcp_stop s \<or> length (mcp_queue s) \<ge> kMcpQueueCapacity then Leave s (Emit_error msg_linx_mcp_full no_reply)
             else Leave (s\<lparr>mcp_queue := mcp_queue s @
                 [\<lparr>mr_payload = im_text inbound, mr_session_id = session_id, mr_generation = lp_generation s\<rparr>]\<rparr>) no_reply)))"

definition OnMessage :: "LinxSetup \<Rightarrow> LinxInboundMessage \<Rightarrow> linx_program" where
  "OnMessage P inbound =
     (case im_kind inbound of
        Linx_kHello \<Rightarrow> OnHello P inbound
      | Linx_kStt \<Rightarrow> Linx_Emit (Event Kind_kAsrText (im_text inbound) False) no_reply
      | Linx_kTts \<Rightarrow>
          (case im_tts_state inbound of
             None \<Rightarrow> Emit_error msg_linx_tts_state no_reply
           | Some Tts_kStart \<Rightarrow> Linx_Emit (Event Kind_kTtsStarted [] False) no_reply
           | Some Tts_kSentenceStart \<Rightarrow> Linx_Emit (Event Kind_kTtsSentenceStarted (im_text inbound) False) no_reply
           | Some Tts_kStop \<Rightarrow> Linx_Emit (Event Kind_kTtsStopped [] (im_aborted inbound)) no_reply)
      | Linx_kMcp \<Rightarrow> OnMcp P inbound
      | Linx_kGoodbye \<Rightarrow> no_reply
      | Linx_kLlm \<Rightarrow>
          (let emotion = (if im_emotion inbound \<noteq> None \<and> im_emotion inbound \<noteq> Some [] then the (im_emotion inbound)
                          else case im_action inbound of None \<Rightarrow> [] | Some action \<Rightarrow> action)
           in if emotion \<noteq> [] then Linx_Emit (Event Kind_kLlmEmotion emotion False) no_reply else no_reply)
      | Linx_kError \<Rightarrow> Emit_error (im_text inbound) no_reply)"

definition OnText :: "LinxSetup \<Rightarrow> string \<Rightarrow> linx_program" where
  "OnText P words =
     (let decoded = DecodeText (ls_codec P) words
      in if \<not> ok decoded then Emit_error (message (status decoded)) no_reply
         else
           (let inbound = the (val decoded)
            in if im_kind inbound \<noteq> Linx_kHello then
                 Load connected (\<lambda>up. Load remote_session_id (\<lambda>remote.
                   if \<not> up \<or> remote \<noteq> None \<and> im_session_id inbound \<noteq> None \<and> im_session_id inbound \<noteq> remote
                   then Emit_error msg_linx_session no_reply
                   else OnMessage P inbound))
               else OnMessage P inbound))"

text \<open>A frame of the transport, in the format of the wire or decoded, goes to the session.\<close>

definition deliver_audio :: "AudioFrame \<Rightarrow> linx_program" where
  "deliver_audio frame =
     Load audio_sink (\<lambda>sink.
       if sink then
         Call (Audio_Sink frame) (\<lambda>v.
           if \<not> status_ok v then
             (if code v = kConflict \<or> code v = kUnavailable then no_reply else Emit_error (message v) no_reply)
           else no_reply)
       else Emit_error msg_linx_no_output no_reply)"

definition decode_audio :: "LinxSetup \<Rightarrow> VoiceSessionConfig \<Rightarrow> AudioFrame \<Rightarrow> linx_program" where
  "decode_audio P config frame =
     (if af_codec (fr_format frame) = af_codec (cfg_audio config) then deliver_audio frame
      else if ls_strategy P \<noteq> Some (af_codec (fr_format frame)) then Emit_error msg_linx_no_decoder no_reply
      else Query (Codec_Decode frame) (\<lambda>answer.
        let decoded = answer_frame answer
        in if \<not> ok decoded then
             (if code (status decoded) = kConflict then no_reply else Emit_error (message (status decoded)) no_reply)
           else if \<not> SameFormat (fr_format (the (val decoded))) (cfg_audio config) then Emit_error msg_linx_decoded_format no_reply
           else deliver_audio (the (val decoded))))"

definition OnBinary :: "LinxSetup \<Rightarrow> 8 word list \<Rightarrow> linx_program" where
  "OnBinary P payload =
     Load connected (\<lambda>up.
       if \<not> up then Emit_error msg_linx_early_audio no_reply
       else if payload = [] then Emit_error msg_linx_empty_audio no_reply
       else if length payload > kMaxPayloadBytes then Emit_error msg_linx_large_audio no_reply
       else Load lp_generation (\<lambda>generation.
         Section (\<lambda>s. Leave (s\<lparr>output_sequence := output_sequence s + 1\<rparr>)
           (let sequence = output_sequence s;
                frame = (\<lambda>format. \<lparr>fr_generation = generation, fr_sequence = sequence, fr_format = format, fr_payload = payload\<rparr>)
            in Load lp_config (\<lambda>config.
                 let wire = WireAudioFormat P config
                 in if af_codec wire = af_codec (cfg_audio config) then
                      Load (\<lambda>s. fm_playback (lp_audio_formats s)) (\<lambda>playback. decode_audio P config (frame playback))
                    else decode_audio P config (frame wire))))))"

section \<open>Tool calls\<close>

text \<open>One round of the worker's loop, with a request to take.\<close>

definition McpWorkerLoop_round :: linx_program where
  "McpWorkerLoop_round =
     Section (\<lambda>s. case mcp_queue s of
        [] \<Rightarrow> Leave s no_reply
      | request # rest \<Rightarrow> Leave (s\<lparr>mcp_queue := rest\<rparr>)
          (let current = (\<lambda>p. Load lp_generation (\<lambda>generation.
                 if mr_generation request \<noteq> generation then no_reply
                 else Load connected (\<lambda>up. if \<not> up then no_reply else p)))
           in current (Query (Mcp_Handle (mr_payload request) (mr_session_id request)) (\<lambda>answer.
                let response = answer_text answer
                in current
                     (if \<not> ok response then Emit_error (message (status response)) no_reply
                      else if the (val response) = [] then no_reply
                      else Call (Transport_SendText (the (val response))) (\<lambda>v.
                        if \<not> status_ok v then Emit_error (message v) no_reply else no_reply))))))"

section \<open>The system\<close>

text \<open>
  Connecting, disconnecting and destruction happen one at a time: they are the life-cycle operations.
  All other methods, the events of the transport and the rounds of the worker run beside them and
  each other. That is more than the code allows, where one thread delivers the events, one thread
  takes the tool calls and stopping waits for it; what holds for all these runs holds for the code's.
\<close>

datatype LinxOp = Op_Linx_Connect VoiceSessionConfig | Op_Linx_Disconnect | Op_Linx_destroy

datatype LinxCallback =
    Cb_SetAudioSink bool
  | Cb_SetGeneration nat
  | Cb_StartCapture VoiceMode
  | Cb_StopCapture
  | Cb_SendAudio AudioFrame
  | Cb_Abort string
  | Cb_Speak string
  | Cb_NotifyLocalWakeWord string string
  | Cb_audio_formats
  | Cb_OnTransportConnected
  | Cb_OnTransportDisconnected
  | Cb_OnTransportError Status
  | Cb_OnText string
  | Cb_OnBinary "8 word list"
  | Cb_McpWorker

fun linx_op :: "LinxSetup \<Rightarrow> LinxOp \<Rightarrow> linx_program" where
  "linx_op P (Op_Linx_Connect config) = Linx_Connect P config"
| "linx_op P Op_Linx_Disconnect = Linx_Disconnect"
| "linx_op P Op_Linx_destroy = Linx_destroy"

text \<open>
  The transport of the board passes only statuses that are errors to \<open>on_error\<close> (every call of it in
  \<open>esp_websocket_events.cc\<close>); a report of success is no event of the model.
\<close>

fun linx_callback :: "LinxSetup \<Rightarrow> LinxCallback \<Rightarrow> linx_program" where
  "linx_callback P (Cb_SetAudioSink sink) = Linx_SetAudioSink sink"
| "linx_callback P (Cb_SetGeneration generation) = Linx_SetGeneration generation no_reply"
| "linx_callback P (Cb_StartCapture mode) = Linx_StartCapture P"
| "linx_callback P Cb_StopCapture = Linx_StopCapture P"
| "linx_callback P (Cb_SendAudio frame) = Linx_SendAudio P frame"
| "linx_callback P (Cb_Abort reason) = Linx_Abort P reason"
| "linx_callback P (Cb_Speak speech) = Linx_Speak P speech"
| "linx_callback P (Cb_NotifyLocalWakeWord wake_word text_response) = Linx_NotifyLocalWakeWord P wake_word text_response"
| "linx_callback P Cb_audio_formats = Linx_audio_formats"
| "linx_callback P Cb_OnTransportConnected = OnTransportConnected P"
| "linx_callback P Cb_OnTransportDisconnected = OnTransportDisconnected"
| "linx_callback P (Cb_OnTransportError v) = (if status_ok v then no_reply else OnTransportError v)"
| "linx_callback P (Cb_OnText words) = OnText P words"
| "linx_callback P (Cb_OnBinary payload) = OnBinary P payload"
| "linx_callback P Cb_McpWorker = McpWorkerLoop_round"

end
