(* ===== verification/Linx_Json.thy ===== *)
theory Linx_Json
  imports Contracts
begin

text \<open>
  The field reader of the cloud protocol (\<open>linx_json_reader.cc\<close>), which scans the text of a JSON
  object for a member without building a tree, and its writer of string literals.

  A position in a text is the text from that position on. A reader that returns through reference
  parameters takes their values and returns the new ones; reading never looks at what was read into
  them before.
\<close>

unbundle bit_operations_syntax

section \<open>Strings\<close>

definition DQ :: char where "DQ = CHR 0x22"
definition BACKSLASH :: char where "BACKSLASH = CHR 0x5C"

definition SkipSpace :: "string \<Rightarrow> string" where
  "SkipSpace src = dropWhile isspace src"

definition hex_digit :: "char \<Rightarrow> int" where
  "hex_digit d =
     (if byte CHR ''0'' \<le> byte d \<and> byte d \<le> byte CHR ''9'' then int (byte d) - int (byte CHR ''0'')
      else if byte CHR ''a'' \<le> byte d \<and> byte d \<le> byte CHR ''f'' then int (byte d) - int (byte CHR ''a'') + 10
      else if byte CHR ''A'' \<le> byte d \<and> byte d \<le> byte CHR ''F'' then int (byte d) - int (byte CHR ''A'') + 10
      else - 1)"

fun hex_number :: "nat \<Rightarrow> string \<Rightarrow> nat option" where
  "hex_number code_point [] = Some code_point"
| "hex_number code_point (d # ds) =
     (if hex_digit d < 0 then None else hex_number (push_bit 4 code_point OR nat (hex_digit d)) ds)"

text \<open>The bytes appended for a code point.\<close>

definition utf8_bytes :: "nat \<Rightarrow> string" where
  "utf8_bytes n =
     (if n \<le> 0x7F then [char_of n]
      else if n \<le> 0x7FF then [char_of (0xC0 OR drop_bit 6 n), char_of (0x80 OR n AND 0x3F)]
      else if n \<le> 0xFFFF then
        [char_of (0xE0 OR drop_bit 12 n), char_of (0x80 OR drop_bit 6 n AND 0x3F), char_of (0x80 OR n AND 0x3F)]
      else [char_of (0xF0 OR drop_bit 18 n), char_of (0x80 OR drop_bit 12 n AND 0x3F),
            char_of (0x80 OR drop_bit 6 n AND 0x3F), char_of (0x80 OR n AND 0x3F)])"

text \<open>An escape \<open>\u\<close>, after the letter: the bytes it stands for and the rest of the text.\<close>

definition ReadUnicodeEscape :: "string \<Rightarrow> (string \<times> string) option" where
  "ReadUnicodeEscape src =
     (if length src < 4 then None
      else case hex_number 0 (take 4 src) of
          None \<Rightarrow> None
        | Some code_point \<Rightarrow>
            (let src = drop 4 src
             in if 0xD800 \<le> code_point \<and> code_point \<le> 0xDBFF then
                  (if length src < 6 \<or> src ! 0 \<noteq> BACKSLASH \<or> src ! 1 \<noteq> CHR ''u'' then None
                   else case hex_number 0 (take 4 (drop 2 src)) of
                       None \<Rightarrow> None
                     | Some low \<Rightarrow>
                         if low < 0xDC00 \<or> low > 0xDFFF then None
                         else Some (utf8_bytes (0x10000 + push_bit 10 (code_point - 0xD800) + (low - 0xDC00)), drop 6 src))
                else if 0xDC00 \<le> code_point \<and> code_point \<le> 0xDFFF then None
                else Some (utf8_bytes code_point, src)))"

definition ReadEscape :: "char \<Rightarrow> string \<Rightarrow> (string \<times> string) option" where
  "ReadEscape escaped src =
     (if escaped = DQ \<or> escaped = BACKSLASH \<or> escaped = CHR ''/'' then Some ([escaped], src)
      else if escaped = CHR ''b'' then Some ([CHR 0x08], src)
      else if escaped = CHR ''f'' then Some ([CHR 0x0C], src)
      else if escaped = CHR ''n'' then Some ([CHR 0x0A], src)
      else if escaped = CHR ''r'' then Some ([CHR 0x0D], src)
      else if escaped = CHR ''t'' then Some ([CHR 0x09], src)
      else if escaped = CHR ''u'' then ReadUnicodeEscape src
      else None)"

lemma ReadEscape_shorter: "ReadEscape e src = Some (bytes, rest) \<Longrightarrow> length rest \<le> length src"
  by (auto simp: ReadEscape_def ReadUnicodeEscape_def Let_def split: if_splits option.splits)

text \<open>The loop of \<open>ReadJsonString\<close>: whether it succeeds, the characters read, and the text after the literal.\<close>

function ReadStringChars :: "string \<Rightarrow> string \<Rightarrow> bool \<times> string \<times> string" where
  "ReadStringChars value [] = (False, value, [])"
| "ReadStringChars value (c # src) =
     (if c = DQ then (True, value, src)
      else if byte c < 0x20 then (False, value, src)
      else if c \<noteq> BACKSLASH then ReadStringChars (value @ [c]) src
      else case src of
          [] \<Rightarrow> (False, value, src)
        | escaped # src \<Rightarrow>
            (case ReadEscape escaped src of
               None \<Rightarrow> (False, value, src)
             | Some (bytes, src) \<Rightarrow> ReadStringChars (value @ bytes) src))"
  by pat_completeness auto
termination by (relation "measure (length \<circ> snd)") (auto dest: ReadEscape_shorter)

declare ReadStringChars.simps(2) [simp del]

definition ReadJsonString :: "string \<Rightarrow> string \<Rightarrow> bool \<times> string \<times> string" where
  "ReadJsonString src value =
     (case SkipSpace src of
        [] \<Rightarrow> (False, value, [])
      | c # src \<Rightarrow> if c \<noteq> DQ then (False, value, c # src) else ReadStringChars [] src)"

section \<open>Members\<close>

text \<open>
  The scan to the closing bracket of a nested value: \<open>depth\<close> open brackets of its kind, whether it is
  inside a string literal and behind a backslash there.
\<close>

fun scan_nested :: "char \<Rightarrow> char \<Rightarrow> int \<Rightarrow> bool \<Rightarrow> bool \<Rightarrow> string \<Rightarrow> string option" where
  "scan_nested open_char close_char depth in_string escaped [] = None"
| "scan_nested open_char close_char depth in_string escaped (c # src) =
     (if in_string then
        (if escaped then scan_nested open_char close_char depth True False src
         else if c = BACKSLASH then scan_nested open_char close_char depth True True src
         else scan_nested open_char close_char depth (c \<noteq> DQ) False src)
      else if c = DQ then scan_nested open_char close_char depth True escaped src
      else if c = open_char then scan_nested open_char close_char (depth + 1) False escaped src
      else if c = close_char then
        (if depth - 1 = 0 then Some src else scan_nested open_char close_char (depth - 1) False escaped src)
      else scan_nested open_char close_char depth False escaped src)"

definition SkipJsonValue :: "string \<Rightarrow> string option" where
  "SkipJsonValue src =
     (case SkipSpace src of
        [] \<Rightarrow> None
      | c # rest \<Rightarrow>
          if c = DQ then (case ReadJsonString (c # rest) [] of (good, _, rest) \<Rightarrow> if good then Some rest else None)
          else if c = CHR ''{'' then scan_nested c CHR ''}'' 1 False False rest
          else if c = CHR ''['' then scan_nested c CHR '']'' 1 False False rest
          else (let after = dropWhile (\<lambda>c. c \<noteq> CHR '','' \<and> c \<noteq> CHR ''}'' \<and> c \<noteq> CHR '']'') (c # rest)
                in if length after < length (c # rest) then Some after else None))"

lemma SkipSpace_shorter: "length (SkipSpace s) \<le> length s"
  by (simp add: SkipSpace_def length_dropWhile_le)

lemma ReadStringChars_shorter: "ReadStringChars v s = (good, w, rest) \<Longrightarrow> length rest \<le> length s"
proof (induction v s rule: ReadStringChars.induct)
  case (2 v c t)
  show ?case
  proof (cases "c = DQ \<or> byte c < 0x20 \<or> c \<noteq> BACKSLASH")
    case True
    then show ?thesis using 2(1,3) by (auto simp: ReadStringChars.simps(2) split: if_splits)
  next
    case False
    then show ?thesis using 2(2,3)
      by (fastforce simp: ReadStringChars.simps(2) dest: ReadEscape_shorter split: list.splits option.splits prod.splits)
  qed
qed simp

lemma ReadJsonString_shorter: "ReadJsonString s v = (True, w, rest) \<Longrightarrow> length rest < length s"
proof -
  assume r: "ReadJsonString s v = (True, w, rest)"
  then obtain c src where "SkipSpace s = c # src" "ReadStringChars [] src = (True, w, rest)"
    by (auto simp: ReadJsonString_def split: list.splits if_splits)
  then show ?thesis using ReadStringChars_shorter SkipSpace_shorter [of s] by fastforce
qed

lemma scan_nested_shorter: "scan_nested open_char close_char d i e s = Some rest \<Longrightarrow> length rest \<le> length s"
  by (induction open_char close_char d i e s rule: scan_nested.induct) (force split: if_splits)+

lemma SkipJsonValue_shorter: "SkipJsonValue s = Some rest \<Longrightarrow> length rest \<le> length s"
proof -
  assume s: "SkipJsonValue s = Some rest"
  then obtain c t where c: "SkipSpace s = c # t" by (auto simp: SkipJsonValue_def split: list.splits)
  then have t: "length t < length s" using SkipSpace_shorter [of s] by simp
  have "length (dropWhile P (c # t)) \<le> length (c # t)" for P by (rule length_dropWhile_le)
  then have d: "length (dropWhile P (c # t)) \<le> length s" for P using t by (metis Suc_leI le_trans length_Cons)
  show ?thesis
  proof (cases "c = DQ")
    case True
    then obtain w where "ReadJsonString (c # t) [] = (True, w, rest)"
      using s c by (auto simp: SkipJsonValue_def split: prod.splits if_splits)
    then show ?thesis using ReadJsonString_shorter [of "c # t"] t by fastforce
  next
    case False
    then show ?thesis using s c t d scan_nested_shorter [of c _ 1 False False t rest]
      by (auto simp: SkipJsonValue_def Let_def split: if_splits) (meson le_trans less_imp_le)+
  qed
qed

text \<open>The name of the next member, and the text from its value on; there is none at a closing brace.\<close>

definition ReadMemberName :: "string \<Rightarrow> (string \<times> string) option" where
  "ReadMemberName src =
     (let src = SkipSpace src
      in if src \<noteq> [] \<and> hd src = CHR ''}'' then None
         else case ReadJsonString src [] of (good, candidate, src) \<Rightarrow>
           if \<not> good then None
           else let src = SkipSpace src
                in if src = [] \<or> hd src \<noteq> CHR '':'' then None else Some (candidate, tl src))"

lemma ReadMemberName_shorter:
  assumes "ReadMemberName t = Some (name, rest)"
  shows "length rest < length t"
proof -
  obtain r where r: "ReadJsonString (SkipSpace t) [] = (True, name, r)" "SkipSpace r \<noteq> []" "rest = tl (SkipSpace r)"
    using assms by (auto simp: ReadMemberName_def Let_def split: if_splits prod.splits)
  have "length rest \<le> length (SkipSpace r)" using r(3) by simp
  also have "\<dots> \<le> length r" by (rule SkipSpace_shorter)
  also have "\<dots> < length (SkipSpace t)" by (rule ReadJsonString_shorter [OF r(1)])
  also have "\<dots> \<le> length t" by (rule SkipSpace_shorter)
  finally show ?thesis .
qed

function FindMember :: "string \<Rightarrow> string \<Rightarrow> string option" where
  "FindMember key src =
     (if src = [] then None
      else case ReadMemberName src of
          None \<Rightarrow> None
        | Some (candidate, src) \<Rightarrow>
            if candidate = key then Some src
            else case SkipJsonValue src of
                None \<Rightarrow> None
              | Some src \<Rightarrow>
                  (case SkipSpace src of
                     [] \<Rightarrow> None
                   | c # src \<Rightarrow> if c = CHR '','' then FindMember key src else None))"
  by pat_completeness auto
termination
proof (relation "measure (length \<circ> snd)")
  fix key src :: string and m candidate src' src'' and c :: char and rest :: string
  assume "ReadMemberName src = Some m" "(candidate, src') = m" "SkipJsonValue src' = Some src''" "SkipSpace src'' = c # rest"
  then show "((key, rest), key, src) \<in> measure (length \<circ> snd)"
    using ReadMemberName_shorter [of src candidate src'] SkipJsonValue_shorter [of src' src''] SkipSpace_shorter [of src''] by simp
qed simp

declare FindMember.simps [simp del]

definition FindField :: "string \<Rightarrow> string \<Rightarrow> string option" where
  "FindField object key =
     (case SkipSpace object of [] \<Rightarrow> None | c # src \<Rightarrow> if c \<noteq> CHR ''{'' then None else FindMember key src)"

section \<open>The field readers\<close>

text \<open>Each returns its verdict, the value and the error text.\<close>

definition missing_string :: string where "missing_string = utf8 [32570, 23569, 23383, 31526, 20018, 23383, 27573, 58, 32]"
definition invalid_string :: string where "invalid_string = utf8 [23383, 31526, 20018, 23383, 27573, 26684, 24335, 26080, 25928, 58, 32]"
definition missing_number :: string where "missing_number = utf8 [32570, 23569, 25968, 23383, 23383, 27573, 58, 32]"
definition number_range :: string where "number_range = utf8 [25968, 23383, 23383, 27573, 36229, 20986, 33539, 22260, 58, 32]"
definition invalid_number :: string where "invalid_number = utf8 [25968, 23383, 23383, 27573, 26684, 24335, 26080, 25928, 58, 32]"
definition number_tail :: string where "number_tail = utf8 [25968, 23383, 23383, 27573, 23614, 37096, 26080, 25928, 58, 32]"
definition missing_bool :: string where "missing_bool = utf8 [32570, 23569, 24067, 23572, 23383, 27573, 58, 32]"
definition bool_tail :: string where "bool_tail = utf8 [24067, 23572, 23383, 27573, 23614, 37096, 26080, 25928, 58, 32]"
definition invalid_bool :: string where "invalid_bool = utf8 [24067, 23572, 23383, 27573, 26684, 24335, 26080, 25928, 58, 32]"
definition missing_object :: string where "missing_object = utf8 [32570, 23569, 23545, 35937, 23383, 27573, 58, 32]"
definition invalid_object :: string where "invalid_object = utf8 [23545, 35937, 23383, 27573, 26684, 24335, 26080, 25928, 58, 32]"
definition unclosed_object :: string where "unclosed_object = utf8 [23545, 35937, 23383, 27573, 26410, 38381, 21512, 58, 32]"

definition ReadStringField :: "string \<Rightarrow> string \<Rightarrow> string \<Rightarrow> bool \<Rightarrow> string \<Rightarrow> bool \<times> string \<times> string" where
  "ReadStringField object key value required error =
     (case FindField object key of
        None \<Rightarrow> if required then (False, value, missing_string @ key) else (True, value, error)
      | Some src \<Rightarrow>
          (case ReadJsonString src value of (good, value, _) \<Rightarrow>
             if \<not> good then (False, value, invalid_string @ key) else (True, value, error)))"

text \<open>The loop over the digits: the number and the rest of the text, \<open>None\<close> if it leaves the range.\<close>

fun read_digits :: "nat \<Rightarrow> string \<Rightarrow> (nat \<times> string) option" where
  "read_digits parsed [] = Some (parsed, [])"
| "read_digits parsed (c # src) =
     (if byte CHR ''0'' \<le> byte c \<and> byte c \<le> byte CHR ''9'' then
        (let digit = byte c - byte CHR ''0''
         in if parsed > ((2 ^ 32 - 1) - digit) div 10 then None else read_digits (parsed * 10 + digit) src)
      else Some (parsed, c # src))"

definition ends_member :: "string \<Rightarrow> bool" where
  "ends_member src \<longleftrightarrow> src = [] \<or> hd src = CHR '','' \<or> hd src = CHR ''}''"

definition ReadUnsignedField :: "string \<Rightarrow> string \<Rightarrow> nat \<Rightarrow> bool \<Rightarrow> string \<Rightarrow> bool \<times> nat \<times> string" where
  "ReadUnsignedField object key value required error =
     (case FindField object key of
        None \<Rightarrow> if required then (False, value, missing_number @ key) else (True, value, error)
      | Some src \<Rightarrow>
          (let start = SkipSpace src
           in case read_digits 0 start of
                None \<Rightarrow> (False, value, number_range @ key)
              | Some (parsed, src) \<Rightarrow>
                  if length src = length start then (False, value, invalid_number @ key)
                  else if \<not> ends_member (SkipSpace src) then (False, value, number_tail @ key)
                  else (True, parsed, error)))"

definition ReadBoolField :: "string \<Rightarrow> string \<Rightarrow> bool \<Rightarrow> bool \<Rightarrow> string \<Rightarrow> bool \<times> bool \<times> string" where
  "ReadBoolField object key value required error =
     (case FindField object key of
        None \<Rightarrow> if required then (False, value, missing_bool @ key) else (True, value, error)
      | Some src \<Rightarrow>
          (let src = SkipSpace src
           in if take 4 src = ''true'' then
                (if \<not> ends_member (SkipSpace (drop 4 src)) then (False, True, bool_tail @ key) else (True, True, error))
              else if take 5 src = ''false'' then
                (if \<not> ends_member (SkipSpace (drop 5 src)) then (False, False, bool_tail @ key) else (True, False, error))
              else (False, value, invalid_bool @ key)))"

definition ReadObjectField :: "string \<Rightarrow> string \<Rightarrow> string \<Rightarrow> bool \<Rightarrow> string \<Rightarrow> bool \<times> string \<times> string" where
  "ReadObjectField object key value required error =
     (case FindField object key of
        None \<Rightarrow> if required then (False, value, missing_object @ key) else (True, value, error)
      | Some src \<Rightarrow>
          (let start = SkipSpace src
           in if start = [] \<or> hd start \<noteq> CHR ''{'' then (False, value, invalid_object @ key)
              else case scan_nested CHR ''{'' CHR ''}'' 1 False False (tl start) of
                  None \<Rightarrow> (False, value, unclosed_object @ key)
                | Some rest \<Rightarrow> (True, take (length start - length rest) start, error)))"

section \<open>The writer of strings\<close>

definition kHex :: string where "kHex = ''0123456789abcdef''"

definition quote_char :: "char \<Rightarrow> string" where
  "quote_char c =
     (if c = DQ then [BACKSLASH, DQ]
      else if c = BACKSLASH then [BACKSLASH, BACKSLASH]
      else if c = CHR 0x0A then [BACKSLASH, CHR ''n'']
      else if c = CHR 0x0D then [BACKSLASH, CHR ''r'']
      else if c = CHR 0x09 then [BACKSLASH, CHR ''t'']
      else if byte c < 0x20 then BACKSLASH # ''u00'' @ [kHex ! drop_bit 4 (byte c), kHex ! (byte c AND 0x0F)]
      else [c])"

definition Quote :: "string \<Rightarrow> string" where
  "Quote src = DQ # concat (map quote_char src) @ [DQ]"

section \<open>String literals\<close>

lemma json_chars [simp]: "DQ \<noteq> BACKSLASH" "BACKSLASH \<noteq> DQ" "byte DQ = 34" "byte BACKSLASH = 92" "\<not> isspace DQ" "\<not> isspace BACKSLASH"
  by (simp_all add: DQ_def BACKSLASH_def isspace_def)

lemma control_escape:
  assumes "n < 32"
  shows "hex_number 0 (CHR ''0'' # CHR ''0'' # kHex ! drop_bit 4 n # [kHex ! (n AND 0x0F)]) = Some n"
    "kHex ! drop_bit 4 n \<notin> {DQ, BACKSLASH}" "kHex ! (n AND 0x0F) \<notin> {DQ, BACKSLASH}"
proof -
  have "\<forall>n \<in> set [0..<32]. hex_number 0 (CHR ''0'' # CHR ''0'' # kHex ! drop_bit 4 n # [kHex ! (n AND 0x0F)]) = Some n \<and>
     kHex ! drop_bit 4 n \<notin> {DQ, BACKSLASH} \<and> kHex ! (n AND 0x0F) \<notin> {DQ, BACKSLASH}"
    by code_simp
  then show "hex_number 0 (CHR ''0'' # CHR ''0'' # kHex ! drop_bit 4 n # [kHex ! (n AND 0x0F)]) = Some n"
    "kHex ! drop_bit 4 n \<notin> {DQ, BACKSLASH}" "kHex ! (n AND 0x0F) \<notin> {DQ, BACKSLASH}"
    using assms by auto
qed

lemma char_eqI: "byte c = n \<Longrightarrow> c = char_of n"
  by (metis char_of_char)

lemma quote_char_cases:
  obtains (escape) e where "quote_char c = [BACKSLASH, e]" "e \<noteq> CHR ''u''" "\<And>t. ReadEscape e t = Some ([c], t)"
  | (control) "byte c < 32" "quote_char c = BACKSLASH # ''u00'' @ [kHex ! drop_bit 4 (byte c), kHex ! (byte c AND 0x0F)]"
  | (plain) "quote_char c = [c]" "c \<noteq> DQ" "c \<noteq> BACKSLASH" "32 \<le> byte c"
proof -
  consider "c \<in> {DQ, BACKSLASH, CHR 0x0A, CHR 0x0D, CHR 0x09}" | "c \<notin> {DQ, BACKSLASH, CHR 0x0A, CHR 0x0D, CHR 0x09}" by blast
  then show ?thesis
  proof cases
    case 1
    then show ?thesis by (auto simp: quote_char_def ReadEscape_def DQ_def BACKSLASH_def intro!: escape)
  next
    case 2
    then show ?thesis using control plain by (cases "byte c < 32") (simp_all add: quote_char_def)
  qed
qed

lemma ReadUnicodeEscape_control:
  assumes "byte c < 32"
  shows "ReadUnicodeEscape (CHR ''0'' # CHR ''0'' # kHex ! drop_bit 4 (byte c) # kHex ! (byte c AND 0x0F) # t) = Some ([c], t)"
  using control_escape(1) [OF assms] assms by (simp add: ReadUnicodeEscape_def Let_def utf8_bytes_def)

lemma ReadStringChars_quote_char: "ReadStringChars v (quote_char c @ t) = ReadStringChars (v @ [c]) t"
proof (cases c rule: quote_char_cases)
  case (escape e)
  then show ?thesis by (simp add: ReadStringChars.simps(2))
next
  case control
  then have "ReadEscape CHR ''u'' (CHR ''0'' # CHR ''0'' # kHex ! drop_bit 4 (byte c) # kHex ! (byte c AND 0x0F) # t) = Some ([c], t)"
    using ReadUnicodeEscape_control by (simp add: ReadEscape_def DQ_def BACKSLASH_def)
  then show ?thesis using control by (simp add: ReadStringChars.simps(2))
next
  case plain
  then show ?thesis by (simp add: ReadStringChars.simps(2))
qed

lemma ReadStringChars_quoted: "ReadStringChars v (concat (map quote_char s) @ DQ # t) = (True, v @ s, t)"
proof (induction s arbitrary: v)
  case Nil
  show ?case by (simp add: ReadStringChars.simps(2))
next
  case (Cons c s)
  then show ?case using ReadStringChars_quote_char [of v c "concat (map quote_char s) @ DQ # t"] by simp
qed

definition blank :: "string \<Rightarrow> bool" where
  "blank w \<longleftrightarrow> list_all isspace w"

lemma SkipSpace_blank: "blank w \<Longrightarrow> SkipSpace (w @ t) = SkipSpace t"
  by (induction w) (auto simp: blank_def SkipSpace_def)

lemma SkipSpace_Cons [simp]: "\<not> isspace c \<Longrightarrow> SkipSpace (c # t) = c # t"
  by (simp add: SkipSpace_def)

lemma quote_literal: "blank w \<Longrightarrow> ReadJsonString (w @ Quote s @ t) v = (True, s, t)"
  using ReadStringChars_quoted [of "[]" s t] by (simp add: ReadJsonString_def SkipSpace_blank Quote_def)

text \<open>
  Whatever bytes a string holds, its literal is read back: a reader that meets the text written by
  \<open>Quote\<close>, behind any white space and before any other text, accepts it, returns the string and stops
  behind the closing quotation mark.
\<close>

theorem quote_roundtrip:
  assumes "blank w"
  shows "ReadJsonString (w @ Quote s @ t) v = (True, s, t)"
  using assms by (rule quote_literal)

theorem quote_roundtrip_witness:
  "ReadJsonString ('' '' @ Quote [CHR ''a'', CHR 0x22, CHR 0x1F, CHR 0x5C, CHR 0x00] @ '',1'') [] =
     (True, [CHR ''a'', CHR 0x22, CHR 0x1F, CHR 0x5C, CHR 0x00], '',1'')"
  by (rule quote_roundtrip) (simp add: blank_def isspace_def)

section \<open>Objects\<close>

text \<open>A writer of objects, with some white space between all tokens.\<close>

datatype json = JNull | JBool bool | JNumber nat | JString string | JArray "json list" | JObject "(string \<times> json) list"

fun write_json :: "string \<Rightarrow> json \<Rightarrow> string"
  and write_items :: "string \<Rightarrow> json list \<Rightarrow> string"
  and write_members :: "string \<Rightarrow> (string \<times> json) list \<Rightarrow> string" where
  "write_json w JNull = ''null''"
| "write_json w (JBool b) = (if b then ''true'' else ''false'')"
| "write_json w (JNumber n) = digits (int n)"
| "write_json w (JString s) = Quote s"
| "write_json w (JArray js) = CHR ''['' # w @ write_items w js"
| "write_json w (JObject ms) = CHR ''{'' # w @ write_members w ms"
| "write_items w [] = '']''"
| "write_items w (j # js) = write_json w j @ w @ (if js = [] then '']'' else CHR '','' # w @ write_items w js)"
| "write_members w [] = ''}''"
| "write_members w (m # ms) = Quote (fst m) @ w @ CHR '':'' # w @ write_json w (snd m) @ w @
     (if ms = [] then ''}'' else CHR '','' # w @ write_members w ms)"

text \<open>The scan over a nested value passes over whatever is written inside it.\<close>

definition brackets :: "char \<Rightarrow> char \<Rightarrow> bool" where
  "brackets a b \<longleftrightarrow> a = CHR ''{'' \<and> b = CHR ''}'' \<or> a = CHR ''['' \<and> b = CHR '']''"

lemma brackets_simps: "brackets a b \<Longrightarrow> a \<noteq> DQ \<and> b \<noteq> DQ \<and> \<not> isspace a \<and> \<not> isspace b \<and> a \<noteq> b"
  by (auto simp: brackets_def DQ_def isspace_def)

definition neutral :: "char \<Rightarrow> bool" where
  "neutral c \<longleftrightarrow> c \<noteq> DQ \<and> c \<noteq> CHR ''{'' \<and> c \<noteq> CHR ''}'' \<and> c \<noteq> CHR ''['' \<and> c \<noteq> CHR '']''"

lemma scan_neutral: "brackets a b \<Longrightarrow> list_all neutral u \<Longrightarrow> scan_nested a b d False e (u @ t) = scan_nested a b d False e t"
  by (induction u) (auto simp: brackets_def neutral_def)

lemma blank_neutral: "blank w \<Longrightarrow> list_all neutral w"
  by (auto simp: blank_def neutral_def list_all_iff isspace_def DQ_def)

lemma scan_string_char: "scan_nested a b d True False (quote_char c @ t) = scan_nested a b d True False t"
proof (cases c rule: quote_char_cases)
  case control
  then show ?thesis using control_escape(2,3) [of "byte c"] by (auto simp: DQ_def BACKSLASH_def)
qed simp_all

lemma scan_quoted: "scan_nested a b d True False (concat (map quote_char s) @ DQ # t) = scan_nested a b d False False t"
  by (induction s) (simp_all add: scan_string_char)

lemma scan_Quote: "scan_nested a b d False False (Quote s @ t) = scan_nested a b d False False t"
  by (simp add: Quote_def scan_quoted)

lemma digit_byte: "m < 10 \<Longrightarrow> byte (char_of (48 + int m)) = 48 + m"
proof -
  have "\<forall>m \<in> set [0..<10]. byte (char_of (48 + int m)) = 48 + m" by code_simp
  then show "m < 10 \<Longrightarrow> byte (char_of (48 + int m)) = 48 + m" by simp
qed

lemma digits_step: "digits (int n) = (if n < 10 then [char_of (48 + int n)] else digits (int (n div 10)) @ [char_of (48 + int (n mod 10))])"
  by (subst digits.simps) (simp add: zdiv_int zmod_int)

lemma digits_decimal: "list_all (\<lambda>c. 48 \<le> byte c \<and> byte c \<le> 57) (digits (int n))"
proof (induction n rule: less_induct)
  case (less n)
  then show ?case using less [of "n div 10"] by (subst digits_step) (auto simp: digit_byte)
qed

lemma digits_not_Nil: "digits (int n) \<noteq> []"
  by (subst digits_step) simp

lemma decimal_neutral: "list_all (\<lambda>c. 48 \<le> byte c \<and> byte c \<le> 57) u \<Longrightarrow> list_all neutral u"
  by (induction u) (auto simp: neutral_def DQ_def)

lemma scan_blank: "brackets a b \<Longrightarrow> blank w \<Longrightarrow> scan_nested a b d False e (w @ t) = scan_nested a b d False e t"
  by (rule scan_neutral [OF _ blank_neutral])

lemma scan_separator: "brackets a b \<Longrightarrow> c \<in> {CHR '','', CHR '':''} \<Longrightarrow> scan_nested a b d False e (c # t) = scan_nested a b d False e t"
  using scan_neutral [of a b "[c]" d e t] by (auto simp: neutral_def DQ_def)

text \<open>A bracket pair around a text that the scan passes over, up to the closing one.\<close>

lemma scan_bracketed:
  assumes "brackets a b" "brackets x y" "0 < d"
    and "\<And>d. 0 < d \<Longrightarrow> scan_nested a b d False False u = scan_nested a b d False False (y # t)"
  shows "scan_nested a b d False False (x # u) = scan_nested a b d False False t"
  using assms(1-3) assms(4) [of d] assms(4) [of "d + 1"] by (auto simp: brackets_def DQ_def)

lemma scan_written:
  assumes "blank w" "brackets a b"
  shows "0 < d \<Longrightarrow> scan_nested a b d False False (write_json w j @ t) = scan_nested a b d False False t"
    and "0 < d \<Longrightarrow> scan_nested a b d False False (write_items w js @ t) = scan_nested a b d False False (CHR '']'' # t)"
    and "0 < d \<Longrightarrow> scan_nested a b d False False (write_members w ms @ t) = scan_nested a b d False False (CHR ''}'' # t)"
  using assms(1)
proof (induction w j and w js and w ms arbitrary: d t and d t and d t rule: write_json_write_items_write_members.induct)
  case (3 w n)
  then show ?case using scan_neutral [OF assms(2) decimal_neutral [OF digits_decimal]] by simp
next
  case (1 w)
  then show ?case using scan_neutral [OF assms(2), of "''null''"] by (simp add: neutral_def DQ_def)
next
  case (2 w b)
  then show ?case using scan_neutral [OF assms(2), of "''true''"] scan_neutral [OF assms(2), of "''false''"] by (simp add: neutral_def DQ_def)
next
  case (4 w s)
  then show ?case by (simp add: scan_Quote)
next
  case (5 w js)
  have "scan_nested a b d False False (w @ write_items w js @ t) = scan_nested a b d False False (CHR '']'' # t)" if "0 < d" for d
    using 5(1) [OF that 5(3)] by (simp add: scan_blank [OF assms(2) 5(3)])
  from scan_bracketed [OF assms(2) _ 5(2) this] show ?case by (simp add: brackets_def)
next
  case (6 w ms)
  have "scan_nested a b d False False (w @ write_members w ms @ t) = scan_nested a b d False False (CHR ''}'' # t)" if "0 < d" for d
    using 6(1) [OF that 6(3)] by (simp add: scan_blank [OF assms(2) 6(3)])
  from scan_bracketed [OF assms(2) _ 6(2) this] show ?case by (simp add: brackets_def)
next
  case (8 w j js)
  then show ?case by (cases js) (simp_all del: scan_nested.simps add: scan_blank [OF assms(2) 8(4)] scan_separator [OF assms(2)])
next
  case (10 w m ms)
  then show ?case
    by (cases ms) (simp_all del: scan_nested.simps add: scan_Quote scan_blank [OF assms(2) 10(4)] scan_separator [OF assms(2)])
qed simp_all

lemma scan_object: "blank w \<Longrightarrow> scan_nested CHR ''{'' CHR ''}'' 1 False False (w @ write_members w ms @ t) = Some t"
  using scan_written(3) [of w "CHR ''{''" "CHR ''}''" 1 ms t] scan_blank [of "CHR ''{''" "CHR ''}''" w]
  by (simp add: brackets_def DQ_def)

lemma scan_array: "blank w \<Longrightarrow> scan_nested CHR ''['' CHR '']'' 1 False False (w @ write_items w js @ t) = Some t"
  using scan_written(2) [of w "CHR ''[''" "CHR '']''" 1 js t] scan_blank [of "CHR ''[''" "CHR '']''" w]
  by (simp add: brackets_def DQ_def)

subsection \<open>Walking over the members\<close>

lemma SkipSpace_stop: "blank w \<Longrightarrow> \<not> isspace c \<Longrightarrow> SkipSpace (w @ c # t) = c # t"
  by (simp add: SkipSpace_blank)

lemma separators_not_space [simp]: "\<not> isspace CHR '',''" "\<not> isspace CHR '':''" "\<not> isspace CHR ''{''" "\<not> isspace CHR ''}''"
  "\<not> isspace CHR ''[''" "\<not> isspace CHR '']''"
  by (simp_all add: isspace_def)

lemma Quote_hd: "Quote s = DQ # concat (map quote_char s) @ [DQ]"
  by (rule Quote_def)

lemma ReadMemberName_written: "blank w \<Longrightarrow> ReadMemberName (w @ Quote k @ w @ CHR '':'' # t) = Some (k, t)"
proof -
  assume w: "blank w"
  have "SkipSpace (w @ Quote k @ w @ CHR '':'' # t) = Quote k @ w @ CHR '':'' # t"
    by (simp add: SkipSpace_blank [OF w] Quote_hd)
  moreover have "ReadJsonString (Quote k @ w @ CHR '':'' # t) [] = (True, k, w @ CHR '':'' # t)"
    using quote_literal [of "[]" k] by (simp add: blank_def)
  ultimately show ?thesis by (simp add: ReadMemberName_def Let_def SkipSpace_stop [OF w] Quote_hd DQ_def)
qed

lemma ReadMemberName_end: "blank w \<Longrightarrow> ReadMemberName (w @ CHR ''}'' # t) = None"
  by (simp add: ReadMemberName_def SkipSpace_stop)

text \<open>A value without structure is skipped together with the white space behind it.\<close>

definition plain_value :: "string \<Rightarrow> bool" where
  "plain_value u \<longleftrightarrow> u \<noteq> [] \<and> \<not> isspace (hd u) \<and> list_all (\<lambda>c. neutral c \<and> c \<noteq> CHR '','') u"

lemma decimal_plain: "list_all (\<lambda>c. 48 \<le> byte c \<and> byte c \<le> 57) u \<Longrightarrow> u \<noteq> [] \<Longrightarrow> plain_value u"
  using decimal_neutral [of u] by (auto simp: plain_value_def list_all_iff isspace_def dest!: hd_in_set)

lemma plain_values: "plain_value ''null''" "plain_value ''true''" "plain_value ''false''" "plain_value (digits (int n))"
  using decimal_plain [OF digits_decimal digits_not_Nil] by (simp_all add: plain_value_def neutral_def DQ_def isspace_def)

lemma SkipSpace_plain: "blank w \<Longrightarrow> plain_value u \<Longrightarrow> SkipSpace (w @ u @ t) = u @ t"
  by (cases u) (simp_all add: plain_value_def SkipSpace_stop)

lemma SkipJsonValue_plain:
  assumes "blank w" "plain_value u" "x \<in> {CHR '','', CHR ''}''}"
  shows "SkipJsonValue (w @ u @ w @ x # t) = Some (x # t)"
proof -
  obtain c v where u: "u = c # v" "neutral c" using assms(2) by (cases u) (auto simp: plain_value_def)
  have "dropWhile (\<lambda>c. c \<noteq> CHR '','' \<and> c \<noteq> CHR ''}'' \<and> c \<noteq> CHR '']'') ((u @ w) @ x # t) = x # t"
  proof (subst dropWhile_append2)
    have "neutral a" "a \<noteq> CHR '',''" if "a \<in> set (u @ w)" for a
      using that assms(1,2) blank_neutral [OF assms(1)] by (auto simp: plain_value_def blank_def list_all_iff)
    then show "a \<noteq> CHR '','' \<and> a \<noteq> CHR ''}'' \<and> a \<noteq> CHR '']''" if "a \<in> set (u @ w)" for a
      using that by (auto simp: neutral_def)
  qed (use assms(3) in auto)
  then have stop: "dropWhile (\<lambda>c. c \<noteq> CHR '','' \<and> c \<noteq> CHR ''}'' \<and> c \<noteq> CHR '']'') (c # v @ w @ x # t) = x # t" by (simp only: u append_assoc append_Cons)
  have "SkipSpace (w @ u @ w @ x # t) = c # v @ w @ x # t" using SkipSpace_plain [OF assms(1,2)] u by simp
  then show ?thesis using u(2) by (simp add: SkipJsonValue_def stop neutral_def Let_def del: dropWhile.simps)
qed

lemma SkipJsonValue_written:
  assumes w: "blank w" and x: "x \<in> {CHR '','', CHR ''}''}"
  shows "\<exists>r. SkipJsonValue (w @ write_json w v @ w @ x # t) = Some r \<and> SkipSpace r = x # t"
proof -
  have stop: "SkipSpace (w @ x # t) = x # t" "SkipSpace (x # t) = x # t" using x SkipSpace_stop [OF w] by auto
  have plain: ?thesis if "plain_value (write_json w v)" using SkipJsonValue_plain [OF w that x] stop by simp
  show ?thesis
  proof (cases v)
    case (JString s)
    have "ReadJsonString (Quote s @ w @ x # t) [] = (True, s, w @ x # t)" using quote_literal [of "[]" s] by (simp add: blank_def)
    then show ?thesis using JString stop by (simp add: SkipJsonValue_def SkipSpace_blank [OF w] Quote_hd)
  next
    case (JArray js)
    then show ?thesis using stop scan_array [OF w] by (simp add: SkipJsonValue_def SkipSpace_stop [OF w] DQ_def)
  next
    case (JObject ms)
    then show ?thesis using stop scan_object [OF w] by (simp add: SkipJsonValue_def SkipSpace_stop [OF w] DQ_def)
  qed (rule plain, simp add: plain_values)+
qed

text \<open>What is found for a key: the text from its value on, up to a separator.\<close>

definition found_value :: "string \<Rightarrow> json option \<Rightarrow> string option \<Rightarrow> bool" where
  "found_value w v src \<longleftrightarrow>
     (case v of None \<Rightarrow> src = None
      | Some v \<Rightarrow> \<exists>x t. x \<in> {CHR '','', CHR ''}''} \<and> src = Some (w @ write_json w v @ w @ x # t))"

lemma FindMember_written: "blank w \<Longrightarrow> found_value w (map_of ms key) (FindMember key (w @ write_members w ms @ t))"
proof (induction ms)
  case Nil
  then show ?case using ReadMemberName_end by (subst FindMember.simps) (simp add: found_value_def)
next
  case (Cons m ms)
  define rest where "rest = (if ms = [] then CHR ''}'' # t else CHR '','' # w @ write_members w ms @ t)"
  obtain x t' where x: "rest = x # t'" "x \<in> {CHR '','', CHR ''}''}" by (cases "ms = []") (auto simp: rest_def)
  have name: "ReadMemberName (w @ write_members w (m # ms) @ t) = Some (fst m, w @ write_json w (snd m) @ w @ rest)"
    using ReadMemberName_written [OF Cons.prems, of "fst m" "w @ write_json w (snd m) @ w @ rest"] by (cases "ms = []") (simp_all add: rest_def)
  obtain r where r: "SkipJsonValue (w @ write_json w (snd m) @ w @ rest) = Some r" "SkipSpace r = rest"
    using SkipJsonValue_written [OF Cons.prems x(2)] x(1) by blast
  have text_not_empty: "w @ write_members w (m # ms) @ t \<noteq> []" by simp
  have step: "FindMember key (w @ write_members w (m # ms) @ t) =
      (if fst m = key then Some (w @ write_json w (snd m) @ w @ rest)
       else if x = CHR '','' then FindMember key t' else None)"
    unfolding FindMember.simps [of key "w @ write_members w (m # ms) @ t"] name if_not_P [OF text_not_empty]
    using r(2) by (simp add: r(1) x(1) [symmetric]) (simp add: x(1))
  show ?case
  proof (cases "fst m = key")
    case True
    then show ?thesis using step x by (auto simp: found_value_def)
  next
    case False
    show ?thesis
    proof (cases "ms = []")
      case True
      then show ?thesis using step x False by (auto simp: rest_def found_value_def)
    next
      case nonempty: False
      then have "FindMember key (w @ write_members w (m # ms) @ t) = FindMember key (w @ write_members w ms @ t)"
        using step x False by (simp add: rest_def)
      then show ?thesis using Cons False by (cases m) simp
    qed
  qed
qed

lemma FindField_written: "blank w \<Longrightarrow> found_value w (map_of ms key) (FindField (w @ write_json w (JObject ms) @ t) key)"
  using FindMember_written [of w ms key t] by (simp add: FindField_def SkipSpace_stop)

subsection \<open>The digits of a number\<close>

definition horner :: "nat \<Rightarrow> string \<Rightarrow> nat" where
  "horner n u = foldl (\<lambda>p c. p * 10 + (byte c - 48)) n u"

lemma horner_Cons [simp]: "horner n (c # u) = horner (n * 10 + (byte c - 48)) u" "horner n [] = n"
  by (simp_all add: horner_def)

lemma horner_grows: "n \<le> horner n u"
proof (induction u arbitrary: n)
  case (Cons c u)
  show ?case using Cons [of "n * 10 + (byte c - 48)"] by simp
qed simp

lemma horner_digits: "horner 0 (digits (int n)) = n"
proof (induction n rule: less_induct)
  case (less n)
  then show ?case using less [of "n div 10"] by (subst digits_step) (auto simp: digit_byte horner_def)
qed

definition digit :: "char \<Rightarrow> bool" where
  "digit c \<longleftrightarrow> 48 \<le> byte c \<and> byte c \<le> 57"

lemma read_digits_stop: "t = [] \<or> \<not> digit (hd t) \<Longrightarrow> read_digits n t = Some (n, t)"
  by (cases t) (auto simp: digit_def)

lemma read_digits_horner:
  assumes "t = [] \<or> \<not> digit (hd t)" "list_all digit u"
  shows "n < 2 ^ 32 \<Longrightarrow> read_digits n (u @ t) = (if horner n u < 2 ^ 32 then Some (horner n u, t) else None)"
  using assms(2)
proof (induction u arbitrary: n)
  case Nil
  then show ?case using read_digits_stop [OF assms(1)] by simp
next
  case (Cons c u)
  let ?m = "n * 10 + (byte c - 48)"
  have c: "48 \<le> byte c" "byte c \<le> 57" using Cons.prems by (auto simp: digit_def)
  have m: "n > ((2 ^ 32 - 1) - (byte c - 48)) div 10 \<longleftrightarrow> \<not> ?m < 2 ^ 32" using c
    by (simp add: div_less_iff_less_mult less_diff_conv) arith
  show ?case
  proof (cases "?m < 2 ^ 32")
    case True
    then show ?thesis using Cons c m by (simp add: Let_def)
  next
    case False
    then have "\<not> horner ?m u < 2 ^ 32" using horner_grows [of ?m u] by linarith
    then show ?thesis using False c m by (simp add: Let_def)
  qed
qed

lemma read_digits_written:
  assumes "t = [] \<or> \<not> digit (hd t)"
  shows "read_digits 0 (digits (int n) @ t) = (if n < 2 ^ 32 then Some (n, t) else None)"
  using read_digits_horner [OF assms, of "digits (int n)" 0] digits_decimal [of n] by (simp add: horner_digits flip: digit_def)

section \<open>Reading a written object\<close>

lemma value_not_space: "write_json w v \<noteq> []" "\<not> isspace (hd (write_json w v))"
proof -
  have "plain_value (write_json w v) \<or> \<not> isspace (hd (write_json w v)) \<and> write_json w v \<noteq> []"
    using plain_values by (cases v) (simp_all add: Quote_hd)
  then show "write_json w v \<noteq> []" "\<not> isspace (hd (write_json w v))" by (auto simp: plain_value_def)
qed

lemma SkipSpace_value: "blank w \<Longrightarrow> SkipSpace (w @ write_json w v @ t) = write_json w v @ t"
  using value_not_space [of w v] by (cases "write_json w v") (simp_all add: SkipSpace_stop)

lemma plain_not_quoted: "plain_value u \<Longrightarrow> hd (u @ t) \<noteq> DQ \<and> hd (u @ t) \<noteq> CHR ''{'' \<and> u @ t \<noteq> []"
  by (cases u) (auto simp: plain_value_def neutral_def)

lemma value_hd:
  "hd (write_json w v @ t) = DQ \<longleftrightarrow> (\<exists>s. v = JString s)"
  "hd (write_json w v @ t) = CHR ''{'' \<longleftrightarrow> (\<exists>ms. v = JObject ms)"
  "digit (hd (write_json w v @ t)) \<longleftrightarrow> (\<exists>n. v = JNumber n)"
proof -
  have n: "hd (digits (int n) @ t) \<noteq> DQ \<and> hd (digits (int n) @ t) \<noteq> CHR ''{''" for n using plain_not_quoted [OF plain_values(4)] by blast
  have d: "digit (hd (digits (int n) @ t))" for n
    using digits_decimal [of n] digits_not_Nil [of n] by (cases "digits (int n)") (auto simp: digit_def)
  show "hd (write_json w v @ t) = DQ \<longleftrightarrow> (\<exists>s. v = JString s)" using n by (cases v) (auto simp: Quote_hd DQ_def)
  show "hd (write_json w v @ t) = CHR ''{'' \<longleftrightarrow> (\<exists>ms. v = JObject ms)" using n by (cases v) (auto simp: Quote_hd DQ_def)
  show "digit (hd (write_json w v @ t)) \<longleftrightarrow> (\<exists>n. v = JNumber n)" using d by (cases v) (auto simp: Quote_hd DQ_def digit_def)
qed

text \<open>The four ways to read the text of a value that a separator follows.\<close>

lemma read_string_value:
  assumes "blank w"
  shows "case ReadJsonString (w @ write_json w v @ t) old of (good, new, rest) \<Rightarrow>
    (good, new) = (case v of JString s \<Rightarrow> (True, s) | _ \<Rightarrow> (False, old))"
proof (cases "\<exists>s. v = JString s")
  case True
  then show ?thesis using quote_literal [OF assms] by auto
next
  case False
  obtain c u where c: "write_json w v @ t = c # u" "c \<noteq> DQ"
    using value_hd(1) [of w v t] value_not_space(1) [of w v] False by (cases "write_json w v @ t") auto
  have "SkipSpace (w @ write_json w v @ t) = c # u" using SkipSpace_value [OF assms, of v t] by (simp only: c(1))
  then have "ReadJsonString (w @ write_json w v @ t) old = (False, old, c # u)" using c(2) by (simp add: ReadJsonString_def)
  then show ?thesis using False by (cases v) auto
qed

lemma ends_member_written: "blank w \<Longrightarrow> x \<in> {CHR '','', CHR ''}''} \<Longrightarrow> ends_member (SkipSpace (w @ x # t))"
  by (auto simp: SkipSpace_stop ends_member_def)

lemma not_digit_behind: "blank w \<Longrightarrow> x \<in> {CHR '','', CHR ''}''} \<Longrightarrow> \<not> digit (hd (w @ x # t))"
  by (cases w) (auto simp: blank_def digit_def isspace_def)

lemma true_or_false:
  "take 4 (write_json w v @ t) = ''true'' \<longleftrightarrow> v = JBool True" "take 5 (write_json w v @ t) = ''false'' \<longleftrightarrow> v = JBool False"
proof -
  have n: "take 4 (digits (int n) @ t) \<noteq> ''true'' \<and> take 5 (digits (int n) @ t) \<noteq> ''false''" for n
    using value_hd(3) [of w "JNumber n" t] by (cases "digits (int n) @ t") (auto simp: digit_def)
  show "take 4 (write_json w v @ t) = ''true'' \<longleftrightarrow> v = JBool True" using n by (cases v) (auto simp: Quote_hd DQ_def)
  show "take 5 (write_json w v @ t) = ''false'' \<longleftrightarrow> v = JBool False" using n by (cases v) (auto simp: Quote_hd DQ_def)
qed

lemma string_field_read:
  assumes "blank w"
  shows "ReadStringField (w @ write_json w (JObject ms) @ t) key s required error =
    (case map_of ms key of
       None \<Rightarrow> if required then (False, s, missing_string @ key) else (True, s, error)
     | Some (JString s) \<Rightarrow> (True, s, error)
     | Some _ \<Rightarrow> (False, s, invalid_string @ key))"
proof (cases "map_of ms key")
  case None
  then show ?thesis using FindField_written [OF assms, of ms key t] by (simp add: ReadStringField_def found_value_def)
next
  case (Some v)
  then obtain t' where t': "FindField (w @ write_json w (JObject ms) @ t) key = Some (w @ write_json w v @ t')"
    using FindField_written [OF assms, of ms key t] by (auto simp: found_value_def)
  obtain good new rest where r: "ReadJsonString (w @ write_json w v @ t') s = (good, new, rest)" by (metis prod_cases3)
  then have "(good, new) = (case v of JString s \<Rightarrow> (True, s) | _ \<Rightarrow> (False, s))"
    using read_string_value [OF assms, where v = v and t = t' and old = s] by simp
  then show ?thesis unfolding ReadStringField_def t' Some option.case r by (cases v) simp_all
qed

lemma unsigned_field_read:
  assumes "blank w"
  shows "ReadUnsignedField (w @ write_json w (JObject ms) @ t) key n required error =
    (case map_of ms key of
       None \<Rightarrow> if required then (False, n, missing_number @ key) else (True, n, error)
     | Some (JNumber m) \<Rightarrow> if m < 2 ^ 32 then (True, m, error) else (False, n, number_range @ key)
     | Some _ \<Rightarrow> (False, n, invalid_number @ key))"
proof (cases "map_of ms key")
  case None
  then show ?thesis using FindField_written [OF assms, of ms key t] by (simp add: ReadUnsignedField_def found_value_def)
next
  case (Some v)
  then obtain x t' where x: "x \<in> {CHR '','', CHR ''}''}"
    and t': "FindField (w @ write_json w (JObject ms) @ t) key = Some (w @ write_json w v @ w @ x # t')"
    using FindField_written [OF assms, of ms key t] by (auto simp: found_value_def)
  show ?thesis
  proof (cases "\<exists>m. v = JNumber m")
    case True
    then obtain m where m: "v = JNumber m" by blast
    have "read_digits 0 (digits (int m) @ w @ x # t') = (if m < 2 ^ 32 then Some (m, w @ x # t') else None)"
      using read_digits_written not_digit_behind [OF assms x] by blast
    then show ?thesis
      unfolding ReadUnsignedField_def t' Some option.case m Let_def SkipSpace_value [OF assms]
      using ends_member_written [OF assms x] digits_not_Nil [of m] by simp
  next
    case False
    then have "read_digits 0 (write_json w v @ w @ x # t') = Some (0, write_json w v @ w @ x # t')"
      using read_digits_stop value_hd(3) by blast
    then show ?thesis
      unfolding ReadUnsignedField_def t' Some option.case Let_def SkipSpace_value [OF assms]
      using False by (cases v) simp_all
  qed
qed

lemma bool_field_read:
  assumes "blank w"
  shows "ReadBoolField (w @ write_json w (JObject ms) @ t) key b required error =
    (case map_of ms key of
       None \<Rightarrow> if required then (False, b, missing_bool @ key) else (True, b, error)
     | Some (JBool b) \<Rightarrow> (True, b, error)
     | Some _ \<Rightarrow> (False, b, invalid_bool @ key))"
proof (cases "map_of ms key")
  case None
  then show ?thesis using FindField_written [OF assms, of ms key t] by (simp add: ReadBoolField_def found_value_def)
next
  case (Some v)
  then obtain x t' where x: "x \<in> {CHR '','', CHR ''}''}"
    and t': "FindField (w @ write_json w (JObject ms) @ t) key = Some (w @ write_json w v @ w @ x # t')"
    using FindField_written [OF assms, of ms key t] by (auto simp: found_value_def)
  note behind = ends_member_written [OF assms x, of t']
  show ?thesis
    unfolding ReadBoolField_def t' Some option.case Let_def SkipSpace_value [OF assms] true_or_false
    by (cases v) (use behind in \<open>auto split: bool.splits\<close>)
qed

lemma object_field_read:
  assumes "blank w"
  shows "ReadObjectField (w @ write_json w (JObject ms) @ t) key src required error =
    (case map_of ms key of
       None \<Rightarrow> if required then (False, src, missing_object @ key) else (True, src, error)
     | Some (JObject ms) \<Rightarrow> (True, write_json w (JObject ms), error)
     | Some _ \<Rightarrow> (False, src, invalid_object @ key))"
proof (cases "map_of ms key")
  case None
  then show ?thesis using FindField_written [OF assms, of ms key t] by (simp add: ReadObjectField_def found_value_def)
next
  case (Some v)
  then obtain t' where t': "FindField (w @ write_json w (JObject ms) @ t) key = Some (w @ write_json w v @ t')"
    using FindField_written [OF assms, of ms key t] by (auto simp: found_value_def)
  show ?thesis
  proof (cases "\<exists>ms. v = JObject ms")
    case True
    then show ?thesis
      unfolding ReadObjectField_def t' Some option.case Let_def SkipSpace_value [OF assms]
      using scan_object [OF assms] by (auto simp del: scan_nested.simps)
  next
    case False
    then show ?thesis
      unfolding ReadObjectField_def t' Some option.case Let_def SkipSpace_value [OF assms] value_hd(2)
      by (cases v) auto
  qed
qed



end
