(* ===== verification/Linx_Codec.thy ===== *)
theory Linx_Codec
  imports Complex_Main Linx_Provider Linx_Json
begin

text \<open>
  \<open>LinxJsonCodec\<close> (\<open>linx_json_codec.cc\<close>): the messages of the cloud protocol as JSON texts.

  The library cJSON is a parameter: a record of its functions over a type of documents that stays
  open. A number is a rational, or nothing when it is not finite. Building an object inside another
  one takes the finished inner object. Texts handed over as C strings end at their first zero byte.
\<close>

section \<open>The JSON library\<close>

datatype cJSON_Type =
    cJSON_Invalid | cJSON_False | cJSON_True | cJSON_NULL | cJSON_Number | cJSON_String | cJSON_Array | cJSON_Object | cJSON_Raw

record 'j cJSON =
  cJSON_Parse :: "string \<Rightarrow> 'j option"
  cJSON_GetObjectItem :: "'j \<Rightarrow> string \<Rightarrow> 'j option"
  cJSON_GetObjectItemCaseSensitive :: "'j \<Rightarrow> string \<Rightarrow> 'j option"
  cj_type :: "'j \<Rightarrow> cJSON_Type"
  cJSON_GetStringValue :: "'j \<Rightarrow> string"
  valuedouble :: "'j \<Rightarrow> rat option"
  valueint :: "'j \<Rightarrow> int"
  cJSON_PrintUnformatted :: "'j \<Rightarrow> string option"
  cJSON_CreateObject :: 'j
  cJSON_AddStringToObject :: "string \<Rightarrow> string \<Rightarrow> 'j \<Rightarrow> 'j"
  cJSON_AddNumberToObject :: "string \<Rightarrow> int \<Rightarrow> 'j \<Rightarrow> 'j"
  cJSON_AddBoolToObject :: "string \<Rightarrow> bool \<Rightarrow> 'j \<Rightarrow> 'j"
  cJSON_AddItemToObject :: "string \<Rightarrow> 'j \<Rightarrow> 'j \<Rightarrow> 'j"

definition c_str :: "string \<Rightarrow> string" where
  "c_str s = takeWhile (\<lambda>c. c \<noteq> CHR 0x00) s"

text \<open>A finite number without a fraction in a range.\<close>

definition integral_within :: "int \<Rightarrow> int \<Rightarrow> rat option \<Rightarrow> bool" where
  "integral_within low high x =
     (case x of None \<Rightarrow> False | Some d \<Rightarrow> of_int \<lfloor>d\<rfloor> = d \<and> \<not> d < of_int low \<and> \<not> d > of_int high)"

definition to_unsigned :: "rat option \<Rightarrow> nat" where
  "to_unsigned x = (case x of None \<Rightarrow> 0 | Some d \<Rightarrow> nat \<lfloor>d\<rfloor>)"

section \<open>Encoding\<close>

definition msg_codec_print :: string where
  "msg_codec_print = utf8 [99, 74, 83, 79, 78, 32, 24207, 21015, 21270, 22833, 36133]"

definition msg_codec_hello :: string where
  "msg_codec_hello = utf8 [76, 105, 110, 120, 32, 104, 101, 108, 108, 111, 32, 38899, 39057, 21442, 25968, 26080, 25928]"

definition msg_codec_wire :: string where
  "msg_codec_wire = utf8 [76, 105, 110, 120, 32, 104, 101, 108, 108, 111, 32, 32447, 19978, 38899, 39057, 21442, 25968, 26080, 25928]"

definition msg_codec_detect :: string where
  "msg_codec_detect = utf8 [76, 105, 110, 120, 32, 100, 101, 116, 101, 99, 116, 32, 25991, 26412, 19981, 33021, 20026, 31354]"

definition msg_codec_abort :: string where
  "msg_codec_abort = utf8 [76, 105, 110, 120, 32, 97, 98, 111, 114, 116, 32, 21407, 22240, 19981, 33021, 20026, 31354]"

definition StringToResult :: "string option \<Rightarrow> string Result" where
  "StringToResult printed = (case printed of None \<Rightarrow> Failure kInternal msg_codec_print | Some words \<Rightarrow> Success (c_str words))"

fun CodecName :: "AudioCodec \<Rightarrow> string" where
  "CodecName kOpus = ''opus''"
| "CodecName kPcmS16Le = ''pcm''"

fun ModeName :: "VoiceMode \<Rightarrow> string" where
  "ModeName Mode_kManual = ''manual''"
| "ModeName Mode_kAuto = ''auto''"
| "ModeName Mode_kRealtime = ''realtime''"

definition hello_audio :: "'j cJSON \<Rightarrow> AudioFormat \<Rightarrow> nat \<Rightarrow> 'j" where
  "hello_audio J wire_audio playback =
     (let audio = cJSON_AddNumberToObject J ''play_buffer_duration'' (int playback)
            (cJSON_AddNumberToObject J ''frame_duration'' (int (af_frame_duration_ms wire_audio))
              (cJSON_AddNumberToObject J ''channels'' (int (af_channels wire_audio))
                (cJSON_AddNumberToObject J ''sample_rate'' (int (af_sample_rate_hz wire_audio))
                  (cJSON_AddStringToObject J ''format'' (CodecName (af_codec wire_audio)) (cJSON_CreateObject J)))))
      in if af_codec wire_audio = kPcmS16Le then
           (let frame_size = (af_sample_rate_hz wire_audio * af_frame_duration_ms wire_audio) mod 2 ^ 32 div 1000
            in cJSON_AddStringToObject J ''sample_format'' ''signed_int16''
                 (cJSON_AddNumberToObject J ''frame_size'' (int frame_size)
                   (cJSON_AddStringToObject J ''endianness'' ''little''
                     (cJSON_AddNumberToObject J ''bit_depth'' (int (af_bits_per_sample wire_audio)) audio))))
         else audio)"

definition Json_EncodeHello :: "'j cJSON \<Rightarrow> VoiceSessionConfig \<Rightarrow> LinxConnectionConfig \<Rightarrow> string Result" where
  "Json_EncodeHello J config connection =
     (if \<not> format_valid (cfg_audio config) \<or> \<not> connection_valid connection then Failure kInvalidArgument msg_codec_hello
      else
        (let wire_audio = (case lc_preferred_audio connection of None \<Rightarrow> cfg_audio config | Some f \<Rightarrow> f)
         in if \<not> format_valid wire_audio then Failure kInvalidArgument msg_codec_wire
            else StringToResult (cJSON_PrintUnformatted J
              (cJSON_AddItemToObject J ''audio_params'' (hello_audio J wire_audio (lc_playback_buffer_duration_ms connection))
                (cJSON_AddStringToObject J ''transport'' ''websocket''
                  (cJSON_AddItemToObject J ''features'' (cJSON_AddBoolToObject J ''mcp'' True (cJSON_CreateObject J))
                    (cJSON_AddNumberToObject J ''version'' 1
                      (cJSON_AddStringToObject J ''type'' ''hello'' (cJSON_CreateObject J)))))))))"

definition add_session :: "'j cJSON \<Rightarrow> VoiceSessionConfig \<Rightarrow> 'j \<Rightarrow> 'j" where
  "add_session J config tree =
     (if cfg_session_id config \<noteq> [] then cJSON_AddStringToObject J ''session_id'' (c_str (cfg_session_id config)) tree else tree)"

definition Json_EncodeListenStart :: "'j cJSON \<Rightarrow> VoiceSessionConfig \<Rightarrow> string Result" where
  "Json_EncodeListenStart J config =
     StringToResult (cJSON_PrintUnformatted J (add_session J config
       (cJSON_AddStringToObject J ''mode'' (ModeName (cfg_mode config))
         (cJSON_AddStringToObject J ''state'' ''start''
           (cJSON_AddStringToObject J ''type'' ''listen'' (cJSON_CreateObject J))))))"

definition Json_EncodeListenStop :: "'j cJSON \<Rightarrow> VoiceSessionConfig \<Rightarrow> string Result" where
  "Json_EncodeListenStop J config =
     StringToResult (cJSON_PrintUnformatted J (add_session J config
       (cJSON_AddStringToObject J ''state'' ''stop''
         (cJSON_AddStringToObject J ''type'' ''listen'' (cJSON_CreateObject J)))))"

definition Json_EncodeListenDetect :: "'j cJSON \<Rightarrow> VoiceSessionConfig \<Rightarrow> string \<Rightarrow> string \<Rightarrow> string Result" where
  "Json_EncodeListenDetect J config words text_response =
     (if words = [] then Failure kInvalidArgument msg_codec_detect
      else
        (let tree = cJSON_AddStringToObject J ''text'' (c_str words)
               (cJSON_AddStringToObject J ''state'' ''detect''
                 (cJSON_AddStringToObject J ''type'' ''listen'' (cJSON_CreateObject J)));
             tree = (if text_response \<noteq> [] then cJSON_AddStringToObject J ''text_response'' (c_str text_response) tree else tree)
         in StringToResult (cJSON_PrintUnformatted J (add_session J config tree))))"

definition Json_EncodeAbort :: "'j cJSON \<Rightarrow> VoiceSessionConfig \<Rightarrow> string \<Rightarrow> string Result" where
  "Json_EncodeAbort J config reason =
     (if reason = [] then Failure kInvalidArgument msg_codec_abort
      else StringToResult (cJSON_PrintUnformatted J (add_session J config
        (cJSON_AddStringToObject J ''reason'' (c_str reason)
          (cJSON_AddStringToObject J ''type'' ''abort'' (cJSON_CreateObject J))))))"

section \<open>Decoding\<close>

definition msg_codec_field :: string where
  "msg_codec_field = utf8 [32570, 23569, 25110, 31867, 22411, 38169, 35823, 30340, 23383, 27573, 58, 32]"

definition msg_codec_format :: string where
  "msg_codec_format = utf8 [19981, 25903, 25345, 30340, 32, 76, 105, 110, 120, 32, 38899, 39057, 26684, 24335, 58, 32]"

definition msg_codec_range :: string where
  "msg_codec_range = utf8 [76, 105, 110, 120, 32, 38899, 39057, 21442, 25968, 36229, 20986, 33539, 22260]"

definition msg_codec_bits :: string where
  "msg_codec_bits = utf8 [76, 105, 110, 120, 32, 98, 105, 116, 95, 100, 101, 112, 116, 104, 32, 36229, 20986, 33539, 22260]"

definition msg_codec_duration :: string where
  "msg_codec_duration = utf8 [76, 105, 110, 120, 32, 102, 114, 97, 109, 101, 95, 100, 117, 114, 97, 116, 105, 111, 110, 32, 36229, 20986, 33539, 22260]"

definition msg_codec_parse :: string where
  "msg_codec_parse = utf8 [76, 105, 110, 120, 32, 74, 83, 79, 78, 32, 35299, 26512, 22833, 36133]"

definition msg_codec_object :: string where
  "msg_codec_object = utf8 [76, 105, 110, 120, 32, 25511, 21046, 28040, 24687, 24517, 39035, 26159, 32, 74, 83, 79, 78, 32, 23545, 35937]"

definition msg_codec_transport :: string where
  "msg_codec_transport = utf8 [76, 105, 110, 120, 32, 104, 101, 108, 108, 111, 32, 116, 114, 97, 110, 115, 112, 111, 114, 116, 32, 26080, 25928, 58, 32]"

definition msg_codec_tts :: string where
  "msg_codec_tts = utf8 [26410, 30693, 32, 76, 105, 110, 120, 32, 84, 84, 83, 32, 29366, 24577, 58, 32]"

definition msg_codec_payload :: string where
  "msg_codec_payload = utf8 [76, 105, 110, 120, 32, 77, 67, 80, 32, 112, 97, 121, 108, 111, 97, 100, 32, 24207, 21015, 21270, 22833, 36133]"

definition msg_codec_type :: string where
  "msg_codec_type = utf8 [26410, 30693, 32, 76, 105, 110, 120, 32, 28040, 24687, 31867, 22411, 58, 32]"

text \<open>The item, if it has the expected type, and the error text, which a missing item replaces.\<close>

definition GetRequired :: "'j cJSON \<Rightarrow> 'j \<Rightarrow> string \<Rightarrow> cJSON_Type \<Rightarrow> string \<Rightarrow> 'j option \<times> string" where
  "GetRequired J tree key expected_type error =
     (case cJSON_GetObjectItem J tree key of
        None \<Rightarrow> (None, msg_codec_field @ key)
      | Some item \<Rightarrow> if cj_type J item \<noteq> expected_type then (None, msg_codec_field @ key) else (Some item, error))"

definition GetOptional :: "'j cJSON \<Rightarrow> 'j \<Rightarrow> string \<Rightarrow> cJSON_Type list \<Rightarrow> 'j option" where
  "GetOptional J tree key expected_types =
     (case cJSON_GetObjectItem J tree key of
        None \<Rightarrow> None
      | Some item \<Rightarrow> if cj_type J item \<in> set expected_types then Some item else None)"

definition GetOptional_string :: "'j cJSON \<Rightarrow> 'j \<Rightarrow> string \<Rightarrow> string option" where
  "GetOptional_string J tree key = map_option (cJSON_GetStringValue J) (GetOptional J tree key [cJSON_String])"

definition default_params :: LinxAudioParams where
  "default_params = \<lparr>la_codec = kPcmS16Le, la_sample_rate_hz = 16000, la_channels = 1, la_bits_per_sample = 16, la_frame_duration_ms = 20\<rparr>"

definition ParseAudioParams :: "'j cJSON \<Rightarrow> 'j \<Rightarrow> LinxAudioParams Result" where
  "ParseAudioParams J audio =
     (case GetRequired J audio ''format'' cJSON_String [] of (fmt, error) \<Rightarrow>
      case GetRequired J audio ''sample_rate'' cJSON_Number error of (sr, error) \<Rightarrow>
      case GetRequired J audio ''channels'' cJSON_Number error of (ch, error) \<Rightarrow>
        if fmt = None \<or> sr = None \<or> ch = None then Failure kInvalidArgument error
        else
          (let format_str = cJSON_GetStringValue J (the fmt);
               rate = valuedouble J (the sr);
               channels = valuedouble J (the ch)
           in if format_str \<noteq> ''pcm'' \<and> format_str \<noteq> ''opus'' then Failure kInvalidArgument (msg_codec_format @ format_str)
              else if \<not> integral_within 1 0xFFFFFFFF rate \<or> \<not> integral_within 1 255 channels then Failure kInvalidArgument msg_codec_range
              else
                (let params = default_params\<lparr>la_codec := (if format_str = ''pcm'' then kPcmS16Le else kOpus),
                       la_sample_rate_hz := to_unsigned rate, la_channels := to_unsigned channels\<rparr>;
                     bit = GetOptional J audio ''bit_depth'' [cJSON_Number];
                     dur = GetOptional J audio ''frame_duration'' [cJSON_Number]
                 in if bit \<noteq> None \<and> \<not> integral_within 1 255 (valuedouble J (the bit)) then Failure kInvalidArgument msg_codec_bits
                    else
                      (let params = (if bit \<noteq> None then params\<lparr>la_bits_per_sample := to_unsigned (valuedouble J (the bit))\<rparr> else params)
                       in if dur \<noteq> None \<and> \<not> integral_within 1 65535 (valuedouble J (the dur)) then Failure kInvalidArgument msg_codec_duration
                          else Success (if dur \<noteq> None then params\<lparr>la_frame_duration_ms := to_unsigned (valuedouble J (the dur))\<rparr>
                                        else params)))))"

definition no_message :: LinxInboundMessage where
  "no_message = \<lparr>im_kind = Linx_kError, im_session_id = None, im_audio_params = None, im_tts_state = None, im_text = [],
     im_aborted = False, im_emotion = None, im_action = None\<rparr>"

definition text_or_empty :: "string option \<Rightarrow> string" where
  "text_or_empty x = (case x of None \<Rightarrow> [] | Some words \<Rightarrow> words)"

definition Decode_hello :: "'j cJSON \<Rightarrow> 'j \<Rightarrow> LinxInboundMessage \<Rightarrow> LinxInboundMessage Result" where
  "Decode_hello J tree decoded =
     (let decoded = decoded\<lparr>im_kind := Linx_kHello\<rparr>;
          transport = GetOptional_string J tree ''transport''
      in if transport \<noteq> None \<and> transport \<noteq> Some ''websocket'' then Failure kInvalidArgument (msg_codec_transport @ the transport)
         else case GetOptional J tree ''audio_params'' [cJSON_Object] of
             None \<Rightarrow> Success decoded
           | Some audio \<Rightarrow>
               (let params = ParseAudioParams J audio
                in if \<not> ok params then Failure (code (status params)) (message (status params))
                   else Success (decoded\<lparr>im_audio_params := val params\<rparr>)))"

definition Decode_tts :: "'j cJSON \<Rightarrow> 'j \<Rightarrow> string \<Rightarrow> LinxInboundMessage \<Rightarrow> LinxInboundMessage Result" where
  "Decode_tts J tree error decoded =
     (case GetRequired J tree ''state'' cJSON_String error of
        (None, error) \<Rightarrow> Failure kInvalidArgument error
      | (Some state, _) \<Rightarrow>
          (let decoded = decoded\<lparr>im_kind := Linx_kTts\<rparr>;
               state_str = cJSON_GetStringValue J state
           in if state_str = ''start'' then Success (decoded\<lparr>im_tts_state := Some Tts_kStart\<rparr>)
              else if state_str = ''sentence_start'' then
                Success (decoded\<lparr>im_tts_state := Some Tts_kSentenceStart, im_text := text_or_empty (GetOptional_string J tree ''text'')\<rparr>)
              else if state_str = ''stop'' then
                Success (decoded\<lparr>im_tts_state := Some Tts_kStop,
                  im_aborted := (case GetOptional J tree ''is_aborted'' [cJSON_False, cJSON_True] of
                                   None \<Rightarrow> False | Some aborted \<Rightarrow> cj_type J aborted = cJSON_True)\<rparr>)
              else Failure kInvalidArgument (msg_codec_tts @ state_str)))"

definition Json_DecodeText :: "'j cJSON \<Rightarrow> string \<Rightarrow> LinxInboundMessage Result" where
  "Json_DecodeText J words =
     (case cJSON_Parse J words of
        None \<Rightarrow> Failure kInvalidArgument msg_codec_parse
      | Some tree \<Rightarrow>
          if cj_type J tree \<noteq> cJSON_Object then Failure kInvalidArgument msg_codec_object
          else case GetRequired J tree ''type'' cJSON_String [] of
              (None, error) \<Rightarrow> Failure kInvalidArgument error
            | (Some type, error) \<Rightarrow>
                (let type_str = cJSON_GetStringValue J type;
                     decoded = no_message\<lparr>im_session_id := GetOptional_string J tree ''session_id''\<rparr>
                 in if type_str = ''hello'' then Decode_hello J tree decoded
                    else if type_str = ''stt'' then
                      (case GetRequired J tree ''text'' cJSON_String error of
                         (None, error) \<Rightarrow> Failure kInvalidArgument error
                       | (Some words, _) \<Rightarrow> Success (decoded\<lparr>im_kind := Linx_kStt, im_text := cJSON_GetStringValue J words\<rparr>))
                    else if type_str = ''tts'' then Decode_tts J tree error decoded
                    else if type_str = ''mcp'' then
                      (case GetRequired J tree ''payload'' cJSON_Object error of
                         (None, error) \<Rightarrow> Failure kInvalidArgument error
                       | (Some payload, _) \<Rightarrow>
                           (case cJSON_PrintUnformatted J payload of
                              None \<Rightarrow> Failure kInternal msg_codec_payload
                            | Some serialized \<Rightarrow> Success (decoded\<lparr>im_kind := Linx_kMcp, im_text := c_str serialized\<rparr>)))
                    else if type_str = ''error'' then
                      Success (decoded\<lparr>im_kind := Linx_kError, im_text := text_or_empty (GetOptional_string J tree ''message'')\<rparr>)
                    else if type_str = ''goodbye'' then
                      Success (decoded\<lparr>im_kind := Linx_kGoodbye, im_text := text_or_empty (GetOptional_string J tree ''message'')\<rparr>)
                    else if type_str = ''llm'' then
                      Success (decoded\<lparr>im_kind := Linx_kLlm, im_text := text_or_empty (GetOptional_string J tree ''text''),
                        im_emotion := GetOptional_string J tree ''emotion'', im_action := GetOptional_string J tree ''action''\<rparr>)
                    else Failure kInvalidArgument (msg_codec_type @ type_str)))"

definition LinxJsonCodec :: "'j cJSON \<Rightarrow> LinxCodec" where
  "LinxJsonCodec J = \<lparr>EncodeHello = Json_EncodeHello J, EncodeListenStart = Json_EncodeListenStart J,
     EncodeListenStop = Json_EncodeListenStop J, EncodeListenDetect = Json_EncodeListenDetect J,
     EncodeAbort = Json_EncodeAbort J, DecodeText = Json_DecodeText J\<rparr>"

section \<open>What a decoded message is\<close>

definition params_in_range :: "LinxAudioParams \<Rightarrow> bool" where
  "params_in_range p \<longleftrightarrow> params_valid p \<and> la_sample_rate_hz p < 2 ^ 32 \<and> la_channels p < 2 ^ 8 \<and> la_bits_per_sample p < 2 ^ 8 \<and>
     la_frame_duration_ms p < 2 ^ 16"

lemma integral_within_unsigned:
  "integral_within low high x \<Longrightarrow> 1 \<le> low \<Longrightarrow> 0 < to_unsigned x \<and> int (to_unsigned x) \<le> high"
  by (auto simp: integral_within_def to_unsigned_def not_less le_floor_iff floor_le_iff split: option.splits)

lemma ParseAudioParams_in_range:
  assumes "ok (ParseAudioParams J audio)"
  shows "\<exists>p. val (ParseAudioParams J audio) = Some p \<and> params_in_range p"
proof -
  obtain fmt e1 sr e2 ch e3 where g: "GetRequired J audio ''format'' cJSON_String [] = (fmt, e1)"
    "GetRequired J audio ''sample_rate'' cJSON_Number e1 = (sr, e2)" "GetRequired J audio ''channels'' cJSON_Number e2 = (ch, e3)"
    by (metis surj_pair)
  let ?rate = "valuedouble J (the sr)" and ?channels = "valuedouble J (the ch)"
  let ?bit = "GetOptional J audio ''bit_depth'' [cJSON_Number]" and ?dur = "GetOptional J audio ''frame_duration'' [cJSON_Number]"
  have r: "integral_within 1 0xFFFFFFFF ?rate" "integral_within 1 255 ?channels"
    "?bit \<noteq> None \<Longrightarrow> integral_within 1 255 (valuedouble J (the ?bit))" "?dur \<noteq> None \<Longrightarrow> integral_within 1 65535 (valuedouble J (the ?dur))"
    using assms unfolding ParseAudioParams_def g prod.case Let_def by (simp_all split: if_splits)
  show ?thesis
    using assms integral_within_unsigned [OF r(1)] integral_within_unsigned [OF r(2)] integral_within_unsigned [OF r(3)]
      integral_within_unsigned [OF r(4)]
    unfolding ParseAudioParams_def g prod.case Let_def
    by (auto simp: params_in_range_def params_valid_def default_params_def split: if_splits)
qed

text \<open>What every decoded message satisfies, whatever its text and whatever the library makes of it.\<close>

definition message_well_formed :: "LinxInboundMessage \<Rightarrow> bool" where
  "message_well_formed m \<longleftrightarrow>
     (im_kind m = Linx_kTts \<longleftrightarrow> im_tts_state m \<noteq> None) \<and>
     (\<forall>p. im_audio_params m = Some p \<longrightarrow> im_kind m = Linx_kHello \<and> params_in_range p) \<and>
     (im_aborted m \<longrightarrow> im_tts_state m = Some Tts_kStop) \<and>
     (im_emotion m \<noteq> None \<or> im_action m \<noteq> None \<longrightarrow> im_kind m = Linx_kLlm)"

definition decoded_well :: "LinxInboundMessage Result \<Rightarrow> bool" where
  "decoded_well r \<longleftrightarrow> (\<exists>m. r = Success m \<and> message_well_formed m) \<or> (\<exists>c e. r = Failure c e \<and> c \<noteq> kNone)"

lemma decoded_well_simps [simp]:
  "decoded_well (Success m) \<longleftrightarrow> message_well_formed m" "decoded_well (Failure c e) \<longleftrightarrow> c \<noteq> kNone"
  by (auto simp: decoded_well_def)

lemma ParseAudioParams_value: "ok (ParseAudioParams J audio) \<Longrightarrow> val (ParseAudioParams J audio) = Some p \<Longrightarrow> params_in_range p"
  using ParseAudioParams_in_range [of J audio] by auto

lemma ParseAudioParams_error: "\<not> ok (ParseAudioParams J audio) \<Longrightarrow> code (status (ParseAudioParams J audio)) \<noteq> kNone"
  by (auto simp: ParseAudioParams_def Let_def split: prod.splits if_splits)

lemma Decode_hello_well: "decoded_well (Decode_hello J tree (no_message\<lparr>im_session_id := i\<rparr>))"
  by (auto simp: ParseAudioParams_value ParseAudioParams_error Decode_hello_def Let_def message_well_formed_def no_message_def split: option.splits)

lemma Decode_tts_well: "decoded_well (Decode_tts J tree error (no_message\<lparr>im_session_id := i\<rparr>))"
  by (auto simp: Decode_tts_def Let_def message_well_formed_def no_message_def split: option.splits prod.splits)

lemma Json_DecodeText_well: "decoded_well (Json_DecodeText J words)"
proof -
  have f: "message_well_formed (no_message\<lparr>im_session_id := i, im_kind := k, im_text := w\<rparr>) \<longleftrightarrow> k \<noteq> Linx_kTts" for i k w
    by (simp add: message_well_formed_def no_message_def)
  have l: "message_well_formed (no_message\<lparr>im_session_id := i, im_kind := Linx_kLlm, im_text := w, im_emotion := e, im_action := a\<rparr>)" for i w e a
    by (simp add: message_well_formed_def no_message_def)
  show ?thesis
    by (auto simp: Json_DecodeText_def Let_def f l Decode_hello_well Decode_tts_well split: option.split prod.split)
qed

text \<open>
  C21. Whatever the cloud sends and whatever the JSON library makes of it, decoding gives an error or a
  message that the provider can rely on: it has a speech state exactly if it is about speech, audio
  parameters only in an answer to the greeting, and then every number is positive and fits the
  width it is stored in; it is marked as aborted only at the end of speech, and only messages of the
  language model carry an emotion or an action.
\<close>

theorem linx_decode_well_formed: "decoded_well (Json_DecodeText J words)"
  by (rule Json_DecodeText_well)

text \<open>
  The provider's greeting is only sent with valid formats, and then fails only if the library cannot
  print it.
\<close>

lemma Json_EncodeHello_ok:
  "ok (Json_EncodeHello J config connection) \<Longrightarrow> format_valid (cfg_audio config) \<and> connection_valid connection"
  by (auto simp: Json_EncodeHello_def split: if_splits)

end
