(* ===== verification/Linx_Provider_Correctness.thy ===== *)
theory Linx_Provider_Correctness
  imports Linx_Provider
begin

text \<open>
  The speech provider under every interleaving of connecting and disconnecting with the session's
  calls, the transport's events and the tool calls; what a connection attempt comes to while events
  arrive; and what each message and each frame does when nothing interferes.
\<close>

section \<open>The contract of the provider\<close>

definition linx_inv :: "LinxSetup \<Rightarrow> LinxProvider \<Rightarrow> bool" where
  "linx_inv P s \<longleftrightarrow>
     length (mcp_queue s) \<le> kMcpQueueCapacity \<and>
     (mcp_stop s \<longrightarrow> mcp_queue s = []) \<and>
     (mcp_queue s \<noteq> [] \<longrightarrow> ls_mcp_handler P) \<and>
     remote_session_id s \<noteq> Some [] \<and>
     (has_negotiated_formats s \<longrightarrow> lp_audio_formats s = last_audio_formats s) \<and>
     (audio_formats_ready s \<longrightarrow> has_negotiated_formats s \<and> formats_valid (lp_audio_formats s)) \<and>
     (hello_received s \<and> status_ok (hello_status s) \<longrightarrow>
        has_negotiated_formats s \<and> (audio_formats_ready s \<longleftrightarrow> formats_valid (lp_audio_formats s)))"

text \<open>Negotiated formats stay; only connecting anew drops them.\<close>

definition formats_kept :: "LinxProvider \<Rightarrow> LinxProvider \<Rightarrow> bool" where
  "formats_kept s s' \<longleftrightarrow> (has_negotiated_formats s \<longrightarrow> has_negotiated_formats s' \<and> last_audio_formats s' = last_audio_formats s)"

definition linx_callback_change :: "LinxProvider \<Rightarrow> LinxProvider \<Rightarrow> bool" where
  "linx_callback_change s s' \<longleftrightarrow> formats_kept s s' \<and> lp_config s' = lp_config s \<and> event_sink s' = event_sink s \<and>
     mcp_stop s' = mcp_stop s \<and> mcp_worker s' = mcp_worker s \<and> explicit_disconnect s' = explicit_disconnect s"

definition linx_op_change :: "LinxProvider \<Rightarrow> LinxProvider \<Rightarrow> bool" where
  "linx_op_change s s' \<longleftrightarrow> (has_negotiated_formats s' \<longrightarrow> has_negotiated_formats s \<and> last_audio_formats s' = last_audio_formats s)"

abbreviation anything :: "LinxProvider \<Rightarrow> LinxProvider \<Rightarrow> bool" where
  "anything s s' \<equiv> True"

text \<open>
  The calls of the ports: a connection is opened only with a valid configuration, the codec strategy
  is used only for the direction it has, with bounded frames, a tool call only reaches a handler that
  exists, and the worker is waited for only when it has been told to stop and has nothing left to do.
\<close>

fun linx_call_allowed :: "LinxSetup \<Rightarrow> LinxProvider \<Rightarrow> LinxCall \<Rightarrow> bool" where
  "linx_call_allowed P s (Transport_Connect c) \<longleftrightarrow> c = ls_connection P \<and> connection_valid c"
| "linx_call_allowed P s (Transport_SetGeneration g) \<longleftrightarrow> g \<noteq> 0"
| "linx_call_allowed P s (Codec_Configure local_format wire) \<longleftrightarrow>
     ls_strategy P = Some (af_codec wire) \<and> af_codec wire \<noteq> af_codec local_format"
| "linx_call_allowed P s (Codec_Encode f) \<longleftrightarrow> (\<exists>c. ls_strategy P = Some c \<and> c \<noteq> af_codec (fr_format f))"
| "linx_call_allowed P s (Codec_Decode f) \<longleftrightarrow>
     ls_strategy P = Some (af_codec (fr_format f)) \<and> fr_payload f \<noteq> [] \<and> length (fr_payload f) \<le> kMaxPayloadBytes"
| "linx_call_allowed P s (Mcp_Handle p i) \<longleftrightarrow> ls_mcp_handler P"
| "linx_call_allowed P s Join_Worker \<longleftrightarrow> mcp_stop s \<and> mcp_queue s = []"
| "linx_call_allowed P s _ \<longleftrightarrow> True"

abbreviation linx_op_ok :: "LinxSetup \<Rightarrow> linx_program \<Rightarrow> LinxProvider \<Rightarrow> bool" where
  "linx_op_ok P \<equiv> checked (linx_inv P) linx_callback_change linx_op_change (linx_call_allowed P)"

abbreviation linx_callback_ok :: "LinxSetup \<Rightarrow> linx_program \<Rightarrow> LinxProvider \<Rightarrow> bool" where
  "linx_callback_ok P \<equiv> checked (linx_inv P) anything linx_callback_change (linx_call_allowed P)"

lemmas linx_changes = linx_callback_change_def linx_op_change_def formats_kept_def

lemma linx_reflexive: "reflp linx_op_change" "reflp linx_callback_change" "reflp anything"
  by (auto simp: linx_changes intro!: reflpI)

lemma linx_transitive: "transp linx_callback_change" "transp anything"
  by (auto simp: linx_changes intro!: transpI)

lemma SameFormat_eq [simp]: "SameFormat f g \<longleftrightarrow> f = g"
  by (cases f; cases g) (auto simp: SameFormat_def)

lemma SameAudioFormats_eq [simp]: "SameAudioFormats f g \<longleftrightarrow> f = g"
  by (cases f; cases g) (auto simp: SameAudioFormats_def)

text \<open>What a single assignment does to the invariant; the rest of the proofs leaves it folded.\<close>

lemma linx_inv_simps [simp]:
  "linx_inv P (s\<lparr>lp_config := c\<rparr>) = linx_inv P s" "linx_inv P (s\<lparr>event_sink := b\<rparr>) = linx_inv P s"
  "linx_inv P (s\<lparr>audio_sink := b\<rparr>) = linx_inv P s" "linx_inv P (s\<lparr>event_sink := b, audio_sink := b'\<rparr>) = linx_inv P s"
  "linx_inv P (s\<lparr>lp_generation := g\<rparr>) = linx_inv P s" "linx_inv P (s\<lparr>output_sequence := g\<rparr>) = linx_inv P s"
  "linx_inv P (s\<lparr>connected := b\<rparr>) = linx_inv P s" "linx_inv P (s\<lparr>transport_connected := b\<rparr>) = linx_inv P s"
  "linx_inv P (s\<lparr>explicit_disconnect := b\<rparr>) = linx_inv P s" "linx_inv P (s\<lparr>mcp_worker := b\<rparr>) = linx_inv P s"
  by (simp_all add: linx_inv_def)

lemma linx_inv_steps:
  "linx_inv P s \<Longrightarrow> linx_inv P (s\<lparr>mcp_stop := True, mcp_queue := []\<rparr>)"
  "linx_inv P s \<Longrightarrow> linx_inv P (s\<lparr>mcp_stop := False\<rparr>)"
  "linx_inv P s \<Longrightarrow> linx_inv P (connect_state c s)"
  "linx_inv P s \<Longrightarrow> linx_inv P (s\<lparr>hello_received := False, audio_formats_ready := False, remote_session_id := None, hello_status := v\<rparr>)"
  "linx_inv P s \<Longrightarrow> \<not> status_ok v \<Longrightarrow> linx_inv P (s\<lparr>hello_received := True, hello_status := v\<rparr>)"
  "linx_inv P s \<Longrightarrow> \<not> status_ok v \<Longrightarrow> linx_inv P (s\<lparr>hello_status := v, hello_received := True\<rparr>)"
  "linx_inv P s \<Longrightarrow> \<not> status_ok v \<Longrightarrow> linx_inv P (hello_failed v s)"
  "linx_inv P s \<Longrightarrow> session \<noteq> Some [] \<Longrightarrow> linx_inv P (hello_accepted session formats s)"
  "linx_inv P s \<Longrightarrow> \<not> mcp_stop s \<Longrightarrow> length (mcp_queue s) < kMcpQueueCapacity \<Longrightarrow> ls_mcp_handler P \<Longrightarrow> linx_inv P (s\<lparr>mcp_queue := mcp_queue s @ [r]\<rparr>)"
  "linx_inv P s \<Longrightarrow> mcp_queue s = r # rest \<Longrightarrow> linx_inv P (s\<lparr>mcp_queue := rest\<rparr>)"
  by (auto simp: linx_inv_def connect_state_def hello_failed_def hello_accepted_def)

lemma linx_callback_change_simps [simp]:
  "linx_callback_change s s" "linx_callback_change s (s\<lparr>audio_sink := b\<rparr>)" "linx_callback_change s (s\<lparr>lp_generation := g\<rparr>)"
  "linx_callback_change s (s\<lparr>output_sequence := g\<rparr>)" "linx_callback_change s (s\<lparr>connected := b\<rparr>)"
  "linx_callback_change s (s\<lparr>transport_connected := b\<rparr>)" "linx_callback_change s (s\<lparr>mcp_queue := q\<rparr>)"
  "linx_callback_change s (s\<lparr>hello_received := b, audio_formats_ready := b', remote_session_id := i, hello_status := v\<rparr>)"
  "linx_callback_change s (s\<lparr>hello_received := b, hello_status := v\<rparr>)" "linx_callback_change s (s\<lparr>hello_status := v, hello_received := b\<rparr>)"
  "linx_callback_change s (hello_failed v s)"
  "(has_negotiated_formats s \<longrightarrow> last_audio_formats s = formats) \<Longrightarrow> linx_callback_change s (hello_accepted session formats s)"
  by (simp_all add: linx_changes hello_failed_def hello_accepted_def)

lemma linx_op_change_simps [simp]:
  "linx_op_change s s" "linx_op_change s (s\<lparr>lp_config := c\<rparr>)" "linx_op_change s (s\<lparr>event_sink := b\<rparr>)"
  "linx_op_change s (s\<lparr>event_sink := b, audio_sink := b'\<rparr>)" "linx_op_change s (s\<lparr>lp_generation := g\<rparr>)"
  "linx_op_change s (s\<lparr>output_sequence := g\<rparr>)" "linx_op_change s (s\<lparr>connected := b\<rparr>)"
  "linx_op_change s (s\<lparr>transport_connected := b\<rparr>)" "linx_op_change s (s\<lparr>explicit_disconnect := b\<rparr>)"
  "linx_op_change s (s\<lparr>mcp_worker := b\<rparr>)" "linx_op_change s (s\<lparr>mcp_stop := b, mcp_queue := q\<rparr>)"
  "linx_op_change s (s\<lparr>mcp_stop := b, mcp_worker := b'\<rparr>)" "linx_op_change s (connect_state c s)"
  by (simp_all add: linx_changes connect_state_def)

text \<open>A worker that has been told to stop stays idle, whatever the callbacks do.\<close>

lemma stopped_stays: "linx_callback_change s s' \<Longrightarrow> linx_inv P s' \<Longrightarrow> mcp_stop s \<Longrightarrow> mcp_stop s' \<and> mcp_queue s' = []"
  by (simp add: linx_callback_change_def linx_inv_def)

section \<open>Life-cycle operations\<close>

lemma linx_op_Update:
  "(\<And>s. linx_inv P s \<Longrightarrow> linx_inv P (f s)) \<Longrightarrow> (\<And>s. linx_op_change s (f s)) \<Longrightarrow> (\<And>s. linx_op_ok P p s) \<Longrightarrow> linx_op_ok P (Update f p) s"
  by (simp add: checked_Update)

lemma linx_op_Load: "(\<And>a s. linx_op_ok P (k a) s) \<Longrightarrow> linx_op_ok P (Load f k) s"
  by (simp add: Load_def)

lemma StopMcpWorker_ok:
  assumes "\<And>s. linx_op_ok P p s"
  shows "linx_op_ok P (StopMcpWorker p) s"
proof -
  have "linx_op_ok P (Tell Join_Worker (Update (\<lambda>s. s\<lparr>mcp_worker := False\<rparr>) p)) s" if "mcp_stop s" for s
    using that stopped_stays [of s _ P] by (simp add: checked_Update assms)
  moreover have "mcp_stop s'" if "linx_callback_change s s'" "mcp_stop s" for s s' using that by (simp add: linx_callback_change_def)
  ultimately show ?thesis
    using assms by (simp add: StopMcpWorker_def checked_Update linx_inv_steps Load_def del: checked.simps(4))
qed

lemma Connect_fail_ok: "linx_op_ok P (Connect_fail v) s"
  unfolding Connect_fail_def by (intro StopMcpWorker_ok linx_op_Update) simp_all

lemma Connect_wait_ok: "linx_op_ok P Connect_wait s"
  unfolding Connect_wait_def by (rule linx_op_Load) (simp add: Connect_fail_ok)

lemma StartMcpWorker_ok: "(\<And>s. linx_op_ok P p s) \<Longrightarrow> linx_op_ok P (StartMcpWorker P p) s"
  by (simp add: StartMcpWorker_def checked_Update linx_inv_steps)

lemma Linx_SetGeneration_op_ok: "(\<And>s. linx_op_ok P p s) \<Longrightarrow> linx_op_ok P (Linx_SetGeneration g p) s"
  by (simp add: Linx_SetGeneration_def checked_Update)

lemma Connect_open_ok: "connection_valid (ls_connection P) \<Longrightarrow> linx_op_ok P (Connect_open P config) s"
  unfolding Connect_open_def
  by (intro linx_op_Update Linx_SetGeneration_op_ok StartMcpWorker_ok) (simp_all add: linx_inv_steps Connect_fail_ok Connect_wait_ok)

lemma ConfigureCodecStrategy_ok: "(\<And>v s. linx_op_ok P (k v) s) \<Longrightarrow> linx_op_ok P (ConfigureCodecStrategy P k) s"
  unfolding ConfigureCodecStrategy_def by (rule linx_op_Load) (simp add: Let_def)

lemma Linx_Connect_ok: "linx_op_ok P (Linx_Connect P config) s"
proof -
  have "linx_op_ok P (Update (\<lambda>s. s\<lparr>lp_config := config\<rparr>) (ConfigureCodecStrategy P (\<lambda>codec_status.
      if \<not> status_ok codec_status then reply codec_status else Connect_open P config))) s" if "connection_valid (ls_connection P)" for s
    by (intro linx_op_Update ConfigureCodecStrategy_ok) (simp_all add: Connect_open_ok that)
  then show ?thesis by (simp add: Linx_Connect_def Load_def)
qed

lemma Disconnect_then_ok: "(\<And>v s. linx_op_ok P (k v) s) \<Longrightarrow> linx_op_ok P (Disconnect_then k) s"
  unfolding Disconnect_then_def
  by (rule linx_op_Update) (simp_all add: StopMcpWorker_ok linx_op_Update)

lemma linx_op_program_ok: "linx_op_ok P (linx_op P op) s"
  by (cases op) (simp_all add: Linx_Connect_ok Linx_Disconnect_def Linx_destroy_def Disconnect_then_ok StopMcpWorker_ok)

section \<open>Callbacks\<close>

lemma linx_callback_Update:
  "(\<And>s. linx_inv P s \<Longrightarrow> linx_inv P (f s)) \<Longrightarrow> (\<And>s. linx_callback_change s (f s)) \<Longrightarrow> (\<And>s. linx_callback_ok P p s) \<Longrightarrow>
     linx_callback_ok P (Update f p) s"
  by (simp add: checked_Update)

lemma linx_callback_Load: "(\<And>a s. linx_callback_ok P (k a) s) \<Longrightarrow> linx_callback_ok P (Load f k) s"
  by (simp add: Load_def)

lemma linx_Emit_ok: "(\<And>s. linx_callback_ok P p s) \<Longrightarrow> linx_callback_ok P (Linx_Emit event p) s"
  by (simp add: Linx_Emit_def Load_def)

lemma Send_ok: "(\<And>v s. linx_callback_ok P (k v) s) \<Longrightarrow> linx_callback_ok P (Send encoded k) s"
  by (simp add: Send_def)

lemma when_connected_ok: "(\<And>s. linx_callback_ok P p s) \<Longrightarrow> linx_callback_ok P (when_connected p) s"
  by (simp add: when_connected_def Load_def)

lemma Emit_error_ok [simp]: "linx_callback_ok P (Emit_error m no_reply) s" "linx_callback_ok P (Linx_Emit e no_reply) s"
  by (rule linx_Emit_ok, simp)+

lemma Linx_SendAudio_ok: "linx_callback_ok P (Linx_SendAudio P frame) s"
  unfolding Linx_SendAudio_def by (rule when_connected_ok) (auto simp: Load_def Let_def)

lemma session_calls_ok:
  "linx_callback_ok P (Linx_SetAudioSink sink) s" "linx_callback_ok P (Linx_SetGeneration g no_reply) s"
  "linx_callback_ok P (Linx_StartCapture P) s" "linx_callback_ok P (Linx_StopCapture P) s"
  "linx_callback_ok P (Linx_Abort P r) s" "linx_callback_ok P (Linx_Speak P r) s"
  "linx_callback_ok P (Linx_NotifyLocalWakeWord P w r) s" "linx_callback_ok P Linx_audio_formats s"
  unfolding Linx_SetAudioSink_def Linx_StartCapture_def Linx_StopCapture_def Linx_Abort_def Linx_Speak_def
    Linx_NotifyLocalWakeWord_def Linx_audio_formats_def
  by (simp_all add: Linx_SetGeneration_def checked_Update when_connected_ok Load_def Send_ok)

lemma OnTransportConnected_ok: "linx_callback_ok P (OnTransportConnected P) s"
  by (simp add: OnTransportConnected_def checked_Update Load_def linx_inv_steps Send_ok)

lemma OnTransportDisconnected_ok: "linx_callback_ok P OnTransportDisconnected s"
  by (simp add: OnTransportDisconnected_def checked_Update Load_def linx_inv_steps)

lemma OnTransportError_ok: "\<not> status_ok v \<Longrightarrow> linx_callback_ok P (OnTransportError v) s"
  by (simp add: OnTransportError_def checked_Update linx_inv_steps)

lemma OnHello_store_ok: "linx_callback_ok P (OnHello_store session formats) s"
  by (simp add: OnHello_store_def Let_def checked_Update linx_inv_steps)

lemma OnHello_ok: "linx_callback_ok P (OnHello P inbound) s"
proof -
  have "linx_callback_ok P (Emit_error m (Update (\<lambda>s. s\<lparr>hello_received := True,
      hello_status := Status_Error kInvalidArgument m\<rparr>) no_reply)) s" for m s
    by (rule linx_Emit_ok) (simp add: checked_Update linx_inv_steps)
  then show ?thesis by (simp add: OnHello_def Let_def Load_def OnHello_store_ok split: option.splits)
qed

lemma OnMcp_ok: "linx_callback_ok P (OnMcp P inbound) s"
  by (simp add: OnMcp_def Let_def Load_def linx_inv_steps)

lemma OnMessage_ok: "linx_callback_ok P (OnMessage P inbound) s"
  by (simp add: OnMessage_def Let_def OnHello_ok OnMcp_ok split: LinxMessageKind.splits option.splits LinxTtsState.splits)

lemma OnText_ok: "linx_callback_ok P (OnText P words) s"
  by (simp add: OnText_def Let_def Load_def OnMessage_ok)

lemma deliver_audio_ok: "linx_callback_ok P (deliver_audio frame) s"
  by (simp add: deliver_audio_def Load_def)

lemma decode_audio_ok:
  "fr_payload frame \<noteq> [] \<Longrightarrow> length (fr_payload frame) \<le> kMaxPayloadBytes \<Longrightarrow> linx_callback_ok P (decode_audio P config frame) s"
  by (simp add: decode_audio_def Let_def deliver_audio_ok)

lemma OnBinary_ok: "linx_callback_ok P (OnBinary P payload) s"
  by (simp add: OnBinary_def Let_def Load_def decode_audio_ok)

lemma McpWorker_ok: "linx_callback_ok P McpWorkerLoop_round s"
proof -
  have "ls_mcp_handler P" if "linx_inv P s" "mcp_queue s = r # rest" for s r rest using that by (simp add: linx_inv_def)
  then show ?thesis
    by (simp add: McpWorkerLoop_round_def Let_def Load_def linx_inv_steps split: list.splits) blast
qed

lemma linx_callback_program_ok: "linx_callback_ok P (linx_callback P c) s"
  by (cases c) (simp_all add: session_calls_ok Linx_SendAudio_ok OnTransportConnected_ok OnTransportDisconnected_ok
      OnTransportError_ok OnText_ok OnBinary_ok McpWorker_ok)

section \<open>Bounds on the steps\<close>

lemma within_Load [simp]: "within (Load f k) n \<longleftrightarrow> 0 < n \<and> (\<forall>s. within (k (f s)) (n - 1))"
  by (simp add: Load_def)

lemma within_more: "within p m \<Longrightarrow> m \<le> n \<Longrightarrow> within p n" for p :: linx_program
proof -
  have "(within p m \<longrightarrow> m \<le> n \<longrightarrow> within p n)" "(critical_within c m \<longrightarrow> m \<le> n \<longrightarrow> critical_within c n)"
    for p :: linx_program and c :: "(LinxProvider, LinxCall, LinxAnswer, LinxReply) critical" and m n
    by (induction p and c arbitrary: m n and m n) (auto, (meson diff_le_mono rangeI)+)
  then show "within p m \<Longrightarrow> m \<le> n \<Longrightarrow> within p n" by blast
qed

lemma within_Linx_Emit: "3 \<le> n \<Longrightarrow> within p (n - 3) \<Longrightarrow> within (Linx_Emit e p) n"
  using within_more [of p "n - 3" "n - 2"] by (simp add: Linx_Emit_def eval_nat_numeral)

lemma within_Send: "0 < n \<Longrightarrow> (\<And>v. within (k v) (n - 1)) \<Longrightarrow> within (Send e k) n"
  using within_more [of "k (status e)" "n - 1" n] by (simp add: Send_def)

lemma within_StopMcpWorker: "4 \<le> n \<Longrightarrow> within p (n - 4) \<Longrightarrow> within (StopMcpWorker p) n"
  using within_more [of p "n - 4" "n - 2"] by (simp add: StopMcpWorker_def eval_nat_numeral)

lemma within_Linx_SetGeneration: "3 \<le> n \<Longrightarrow> within p (n - 3) \<Longrightarrow> within (Linx_SetGeneration g p) n"
  using within_more [of p "n - 3" n] by (simp add: Linx_SetGeneration_def eval_nat_numeral)

lemma within_StartMcpWorker: "0 < n \<Longrightarrow> within p (n - 1) \<Longrightarrow> within (StartMcpWorker P p) n"
  using within_more [of p "n - 1" n] by (simp add: StartMcpWorker_def)

lemma within_ConfigureCodecStrategy: "2 \<le> n \<Longrightarrow> (\<And>v. within (k v) (n - 2)) \<Longrightarrow> within (ConfigureCodecStrategy P k) n"
  using within_more [of "k v" "n - 2" "n - 1" for v] by (simp add: ConfigureCodecStrategy_def Let_def eval_nat_numeral)

lemmas linx_within = within_Linx_Emit within_Send within_StopMcpWorker within_Linx_SetGeneration within_StartMcpWorker
  within_ConfigureCodecStrategy

lemma Connect_open_within: "within (Connect_open P config) 19"
  by (auto simp: Connect_open_def Connect_wait_def Connect_fail_def intro!: linx_within)

lemma linx_op_within: "within (linx_op P op) 24"
proof (cases op)
  case (Op_Linx_Connect config)
  then show ?thesis by (auto simp: Linx_Connect_def Connect_open_within intro!: linx_within)
qed (auto simp: Linx_Disconnect_def Linx_destroy_def Disconnect_then_def intro!: linx_within)

lemma OnHello_within: "within (OnHello P inbound) 8"
  by (auto simp: OnHello_def OnHello_store_def Let_def intro!: linx_within split: option.splits)

lemma OnMcp_within: "within (OnMcp P inbound) 8"
  by (simp add: OnMcp_def Let_def within_Linx_Emit)

lemma OnMessage_within: "8 \<le> n \<Longrightarrow> within (OnMessage P inbound) n"
proof (rule within_more)
  show "within (OnMessage P inbound) 8"
    unfolding OnMessage_def Let_def
    by (simp add: OnHello_within OnMcp_within within_Linx_Emit split: LinxMessageKind.split option.split LinxTtsState.split)
qed

lemma OnText_within: "within (OnText P words) 10"
  by (simp add: OnText_def Let_def OnMessage_within within_Linx_Emit)

lemma decode_audio_within: "within (decode_audio P config frame) 6"
  by (auto simp: decode_audio_def deliver_audio_def Let_def intro!: linx_within)

lemma linx_callback_within: "within (linx_callback P c) 11"
proof (cases c)
  case (Cb_OnText words)
  then show ?thesis using within_more [OF OnText_within] by simp
next
  case (Cb_OnBinary payload)
  then show ?thesis using within_more [OF decode_audio_within] by (auto simp: OnBinary_def Let_def intro!: linx_within)
next
  case Cb_McpWorker
  then show ?thesis by (auto simp: McpWorkerLoop_round_def Let_def intro!: linx_within split: list.splits)
qed (auto simp: Linx_SetAudioSink_def Linx_StartCapture_def Linx_StopCapture_def Linx_SendAudio_def Linx_Abort_def Linx_Speak_def
    Linx_NotifyLocalWakeWord_def Linx_audio_formats_def OnTransportConnected_def OnTransportDisconnected_def OnTransportError_def
    when_connected_def Let_def intro!: linx_within split: prod.splits)

section \<open>The provider meets the contract\<close>

interpretation linx: concurrent_object "linx_op P" "linx_callback P" "linx_inv P" linx_op_change linx_callback_change
  linx_callback_change anything "linx_call_allowed P" 24 11 for P
  by unfold_locales
    (simp_all add: linx_reflexive linx_transitive linx_op_program_ok linx_callback_program_ok linx_op_within linx_callback_within)

lemma new_provider_inv: "linx_inv P new_provider"
  by (simp add: linx_inv_def new_provider_def kMcpQueueCapacity_def)

abbreviation linx_run ::
  "LinxSetup \<Rightarrow> (LinxOp, LinxCallback) move list \<Rightarrow> (LinxProvider, LinxCall, LinxAnswer, LinxReply) system \<Rightarrow> bool" where
  "linx_run P \<equiv> system_run (linx_op P) (linx_callback P) (idle_system new_provider)"

section \<open>Every interleaving\<close>

lemma completes_Load [simp]: "completes s (Load f k) qs s' r \<longleftrightarrow> completes s (k (f s)) qs s' r"
  by (simp add: Load_def completes_unfold)

text \<open>
  C8. In every interleaving of connecting and disconnecting, the session's calls, the transport's
  events and the rounds of the worker, with ports that answer anything: the queue of tool calls is
  bounded, and empty once the worker is told to stop; an answered greeting is one whose formats were
  negotiated; negotiated formats are never replaced, whatever step comes next, for as long as they
  count as negotiated; the session is told only valid formats or that there are none; and every port
  is used as it allows - the worker in particular is waited for only with nothing left to do.
\<close>

theorem linx_provider_invariant:
  assumes run: "linx_run P moves \<sigma>"
  shows "linx_inv P (obj \<sigma>) \<and>
    (\<forall>(s, q) \<in> set (port_log \<sigma>). linx_call_allowed P s q) \<and>
    (\<forall>m \<tau>. system_move (linx_op P) (linx_callback P) \<sigma> m \<tau> \<longrightarrow>
       has_negotiated_formats (obj \<sigma>) \<longrightarrow> has_negotiated_formats (obj \<tau>) \<longrightarrow>
       last_audio_formats (obj \<tau>) = last_audio_formats (obj \<sigma>)) \<and>
    (\<forall>calls s' r. completes (obj \<sigma>) Linx_audio_formats calls s' r \<longrightarrow>
       r = Reply_Formats (Failure kUnavailable msg_linx_no_formats) \<or> (\<exists>formats. r = Reply_Formats (Success formats) \<and> formats_valid formats))"
proof (intro conjI allI impI)
  show inv: "linx_inv P (obj \<sigma>)" by (rule linx.run_invariant(1) [OF run new_provider_inv])
  show "\<forall>(s, q) \<in> set (port_log \<sigma>). linx_call_allowed P s q"
    using linx.run_invariant(2) [OF run new_provider_inv] by blast
  show "last_audio_formats (obj \<tau>) = last_audio_formats (obj \<sigma>)"
    if "system_move (linx_op P) (linx_callback P) \<sigma> m \<tau>" "has_negotiated_formats (obj \<sigma>)" "has_negotiated_formats (obj \<tau>)" for m \<tau>
    using linx.run_change [OF run new_provider_inv that(1)] that(2,3) by (auto simp: linx_changes)
  show "r = Reply_Formats (Failure kUnavailable msg_linx_no_formats) \<or> (\<exists>formats. r = Reply_Formats (Success formats) \<and> formats_valid formats)"
    if "completes (obj \<sigma>) Linx_audio_formats calls s' r" for calls s' r
    using that inv by (auto simp: Linx_audio_formats_def linx_inv_def split: if_splits)
qed

text \<open>A schedule in which a connection is opened, the greeting answered and audio received.\<close>

definition sample_params :: LinxAudioParams where
  "sample_params = \<lparr>la_codec = kPcmS16Le, la_sample_rate_hz = 24000, la_channels = 1, la_bits_per_sample = 16, la_frame_duration_ms = 60\<rparr>"

definition sample_message :: "LinxMessageKind \<Rightarrow> LinxInboundMessage" where
  "sample_message kind = \<lparr>im_kind = kind, im_session_id = Some ''s'', im_audio_params = Some sample_params, im_tts_state = None,
     im_text = ''x'', im_aborted = False, im_emotion = None, im_action = None\<rparr>"

definition sample_codec :: LinxCodec where
  "sample_codec = \<lparr>EncodeHello = (\<lambda>_ _. Success ''hello''), EncodeListenStart = (\<lambda>_. Success ''start''),
     EncodeListenStop = (\<lambda>_. Success ''stop''), EncodeListenDetect = (\<lambda>_ _ _. Success ''detect''),
     EncodeAbort = (\<lambda>_ _. Success ''abort''),
     DecodeText = (\<lambda>words. Success (sample_message (if words = ''hello'' then Linx_kHello else if words = ''tool'' then Linx_kMcp else Linx_kStt)))\<rparr>"

definition sample_setup :: LinxSetup where
  "sample_setup = \<lparr>ls_connection = \<lparr>lc_websocket_url = ''u'', lc_token_ref = ''t'', lc_device_id = ''d'', lc_client_id = ''c'',
       lc_agent_id = None, lc_playback_buffer_duration_ms = 1000, lc_preferred_audio = None\<rparr>,
     ls_capabilities = \<lparr>cp_provider_id = ''p'', cp_capabilities = []\<rparr>, ls_mcp_handler = True, ls_strategy = None,
     ls_codec = sample_codec\<rparr>"

definition linx_config :: VoiceSessionConfig where
  "linx_config = default_config\<lparr>cfg_session_id := ''s'', cfg_provider_id := ''p'', cfg_generation := 1\<rparr>"

definition linx_schedule ::
  "(LinxOp, LinxCallback) move list \<Rightarrow> (LinxProvider, LinxCall, LinxAnswer, LinxReply) system option" where
  "linx_schedule moves = schedule (linx_op sample_setup) (linx_callback sample_setup) Status_Ok
     \<lparr>answer_frame = Failure kInternal [], answer_text = Success []\<rparr> (idle_system new_provider) moves"

definition answered_moves :: "(LinxOp, LinxCallback) move list" where
  "answered_moves = replicate 14 Work @
     [Arrive Cb_OnTransportConnected, React 0, React 0, React 0, React 0, React 0, React 0, Arrive (Cb_OnText ''hello'')] @
     replicate 7 (React 1) @ [Work, Work, Work]"

lemma step_Load [simp]: "step_program a v s (Load f k) = Some ([], s, k (f s))"
  by (simp add: Load_def)

lemma Load_cong: "Load f k = Load f k"
  by (rule refl)

lemmas linx_eval = linx_schedule_def sample_setup_def sample_codec_def sample_message_def sample_params_def linx_config_def
  default_config_def default_format_def new_provider_def idle_system_def format_valid_def formats_valid_def connection_valid_def
  Linx_Connect_def ConfigureCodecStrategy_def WireAudioFormat_def Connect_open_def Linx_SetGeneration_def connect_state_def
  StartMcpWorker_def Connect_wait_def OnTransportConnected_def Send_def OnText_def OnMessage_def OnHello_def OnHello_store_def
  hello_accepted_def Linx_Emit_def

lemmas linx_congs = program_congs Load_cong

lemma replicate_digits: "replicate (numeral n) x = x # replicate (pred_numeral n) x"
  by (simp add: numeral_eq_Suc)

lemma sample_answered:
  "\<exists>\<sigma>. linx_schedule (Begin (Op_Linx_Connect linx_config) # answered_moves) = Some \<sigma> \<and> lifecycle \<sigma> = Some (reply Status_Ok) \<and>
     connected (obj \<sigma>) \<and> has_negotiated_formats (obj \<sigma>)"
  by (simp add: answered_moves_def replicate_digits linx_eval Let_def cong: linx_congs)

lemma linx_schedule_run: "linx_schedule moves = Some \<sigma> \<Longrightarrow> linx_run sample_setup moves \<sigma>"
  unfolding linx_schedule_def by (rule schedule_run)

theorem linx_provider_invariant_witness:
  "\<exists>\<sigma>. linx_run sample_setup (Begin (Op_Linx_Connect linx_config) # answered_moves) \<sigma> \<and> has_negotiated_formats (obj \<sigma>) \<and>
     linx_inv sample_setup (obj \<sigma>)"
  using sample_answered linx_schedule_run linx_provider_invariant by blast

section \<open>Connecting while events arrive\<close>

abbreviation meanwhile :: "LinxSetup \<Rightarrow> LinxProvider \<Rightarrow> linx_program \<Rightarrow> LinxCall list \<Rightarrow> LinxProvider \<Rightarrow> LinxReply \<Rightarrow> bool" where
  "meanwhile P \<equiv> among (linx.interference P)"

lemma among_Load: "meanwhile P s (Load f k) qs s' r \<longleftrightarrow> (\<exists>s0. linx.interference P s s0 \<and> meanwhile P s0 (k (f s0)) qs s' r)"
  by (simp add: Load_def among_unfold)

lemma meanwhile_keeps:
  assumes "linx.interference P s s'" "linx_inv P s"
  shows "linx_inv P s'" "lp_config s' = lp_config s" "event_sink s' = event_sink s" "mcp_stop s' = mcp_stop s"
    "mcp_worker s' = mcp_worker s" "has_negotiated_formats s \<Longrightarrow> has_negotiated_formats s'"
    "explicit_disconnect s' = explicit_disconnect s"
  using assms by (auto simp: linx.interference_def linx_callback_change_def formats_kept_def)

text \<open>The end of a failed attempt: no sink, no worker, nothing queued.\<close>

definition connection_dropped :: "LinxProvider \<Rightarrow> bool" where
  "connection_dropped s \<longleftrightarrow> \<not> event_sink s \<and> mcp_stop s \<and> mcp_queue s = [] \<and> \<not> mcp_worker s"

lemma StopMcpWorker_meanwhile:
  assumes "meanwhile P s (StopMcpWorker p) qs s' r" "linx_inv P s"
  shows "\<exists>s1 qs1. linx_inv P s1 \<and> mcp_stop s1 \<and> \<not> mcp_worker s1 \<and> meanwhile P s1 p qs1 s' r"
proof -
  obtain s0 where s0: "linx.interference P s s0" "meanwhile P (s0\<lparr>mcp_stop := True, mcp_queue := []\<rparr>) (Load mcp_worker (\<lambda>joinable.
      if joinable then Tell Join_Worker (Update (\<lambda>s. s\<lparr>mcp_worker := False\<rparr>) p) else p)) qs s' r"
    using assms(1) by (auto simp: StopMcpWorker_def among_Update)
  let ?t = "s0\<lparr>mcp_stop := True, mcp_queue := []\<rparr>"
  have t: "linx_inv P ?t" using linx_inv_steps(1) meanwhile_keeps(1) [OF s0(1) assms(2)] by blast
  obtain s1 where s1: "linx.interference P ?t s1"
    "meanwhile P s1 (if mcp_worker s1 then Tell Join_Worker (Update (\<lambda>s. s\<lparr>mcp_worker := False\<rparr>) p) else p) qs s' r"
    using s0(2) by (auto simp: among_Load)
  note i1 = meanwhile_keeps [OF s1(1) t]
  show ?thesis
  proof (cases "mcp_worker s1")
    case True
    then obtain s2 s3 qs2 where s: "linx.interference P s1 s2" "linx.interference P s2 s3" "meanwhile P (s3\<lparr>mcp_worker := False\<rparr>) p qs2 s' r"
      using s1(2) by (auto simp: among_unfold among_Update)
    note i2 = meanwhile_keeps [OF s(1) i1(1)]
    note i3 = meanwhile_keeps [OF s(2) i2(1)]
    show ?thesis using s(3) i3(1,4) i2(4) i1(4) by (intro exI [of _ "s3\<lparr>mcp_worker := False\<rparr>"] exI [of _ qs2]) simp
  next
    case False
    then show ?thesis using s1(2) i1(1,4) by auto
  qed
qed

lemma Connect_fail_meanwhile:
  assumes "meanwhile P s (Connect_fail v) qs s' r" "linx_inv P s"
  shows "r = Reply_Status v \<and> connection_dropped s'"
proof -
  obtain s1 qs1 where s1: "linx_inv P s1" "mcp_stop s1" "\<not> mcp_worker s1" "meanwhile P s1 (Update (\<lambda>s. s\<lparr>event_sink := False\<rparr>) (reply v)) qs1 s' r"
    using StopMcpWorker_meanwhile [OF assms(1) [unfolded Connect_fail_def] assms(2)] by blast
  obtain s2 where s2: "linx.interference P s1 s2" "linx.interference P (s2\<lparr>event_sink := False\<rparr>) s'" "r = Reply_Status v"
    using s1(4) by (auto simp: among_Update)
  note i2 = meanwhile_keeps [OF s2(1) s1(1)]
  have "linx_inv P (s2\<lparr>event_sink := False\<rparr>)" using i2(1) by simp
  note i3 = meanwhile_keeps [OF s2(2) this]
  have "mcp_queue s' = []" using i3(1,4) i2(4) s1(2) by (auto simp: linx_inv_def)
  then show ?thesis using s2(3) i3(3-5) i2(4,5) s1(2,3) by (simp add: connection_dropped_def)
qed

text \<open>A connection: the greeting answered with formats, the session's sink in place.\<close>

definition connection_made :: "VoiceSessionConfig \<Rightarrow> LinxProvider \<Rightarrow> bool" where
  "connection_made config s \<longleftrightarrow> has_negotiated_formats s \<and> event_sink s \<and> lp_config s = config \<and> \<not> explicit_disconnect s"

lemma Connect_wait_meanwhile:
  assumes "meanwhile P s Connect_wait qs s' r" "linx_inv P s" "event_sink s" "lp_config s = config" "\<not> explicit_disconnect s"
  shows "r = Reply_Status Status_Ok \<and> connection_made config s' \<or>
    (\<exists>v. r = Reply_Status v \<and> \<not> status_ok v \<and> connection_dropped s' \<and> Transport_Close \<in> set qs)"
proof -
  let ?rest = "\<lambda>s. if \<not> hello_received s then Call Transport_Close (\<lambda>_. Connect_fail (Status_Error kUnavailable msg_linx_timeout))
       else if \<not> status_ok (hello_status s) then Call Transport_Close (\<lambda>_. Connect_fail (hello_status s)) else reply Status_Ok"
  have rest: "(if \<not> hello_received s then Leave s (Call Transport_Close (\<lambda>_. Connect_fail (Status_Error kUnavailable msg_linx_timeout)))
      else if \<not> status_ok (hello_status s) then Leave s (Call Transport_Close (\<lambda>_. Connect_fail (hello_status s)))
      else Leave s (reply Status_Ok)) = Leave s (?rest s)" for s by simp
  obtain s0 s1 s2 qs2 where s: "linx.interference P s s0" "linx.interference P s0 s1" "linx.interference P s1 s2"
    "meanwhile P s2 (?rest s2) qs2 s' r" "set qs2 \<subseteq> set qs"
    using assms(1) unfolding Connect_wait_def among_Load rest by (simp add: among_unfold del: if_not_P if_P) (metis set_subset_Cons)
  note i0 = meanwhile_keeps [OF s(1) assms(2)]
  note i1 = meanwhile_keeps [OF s(2) i0(1)]
  note i2 = meanwhile_keeps [OF s(3) i1(1)]
  have close: ?thesis if c: "meanwhile P s2 (Call Transport_Close (\<lambda>_. Connect_fail v)) qs2 s' r" "\<not> status_ok v" for v
  proof -
    obtain s3 qs3 where "linx.interference P s2 s3" "meanwhile P s3 (Connect_fail v) qs3 s' r" "qs2 = Transport_Close # qs3"
      using c(1) by (auto simp: among_unfold)
    then show ?thesis using Connect_fail_meanwhile [of P s3 v qs3 s' r] meanwhile_keeps(1) [of P s2 s3] i2(1) c(2) s(5) by auto
  qed
  show ?thesis
  proof (cases "hello_received s2 \<and> status_ok (hello_status s2)")
    case True
    then have n: "has_negotiated_formats s2" using i2(1) by (simp add: linx_inv_def)
    have r: "r = Reply_Status Status_Ok" "linx.interference P s2 s'" using s(4) True by auto
    note i3 = meanwhile_keeps [OF r(2) i2(1)]
    show ?thesis using r(1) i3(2,3,6,7) i2(2,3,7) i1(2,3,7) i0(2,3,7) assms(3-5) n by (simp add: connection_made_def)
  next
    case False
    then show ?thesis using s(4) close by (auto split: if_splits)
  qed
qed

text \<open>What holds between the assignments before the transport is opened, whatever the callbacks do.\<close>

definition being_opened :: "LinxSetup \<Rightarrow> VoiceSessionConfig \<Rightarrow> bool \<Rightarrow> LinxProvider \<Rightarrow> bool" where
  "being_opened P config sink s \<longleftrightarrow> linx_inv P s \<and> lp_config s = config \<and> \<not> explicit_disconnect s \<and> (sink \<longrightarrow> event_sink s)"

lemma being_opened_stable: "linx.interference P s s' \<Longrightarrow> being_opened P config sink s \<Longrightarrow> being_opened P config sink s'"
  using meanwhile_keeps [of P s s'] by (simp add: being_opened_def)

lemma being_opened_Update:
  assumes "meanwhile P s (Update f p) qs s' r" "being_opened P config sink s"
    and "\<And>u. being_opened P config sink u \<Longrightarrow> being_opened P config sink' (f u)"
  shows "\<exists>u. being_opened P config sink' u \<and> meanwhile P u p qs s' r"
  using assms being_opened_stable unfolding among_Update by blast

lemma being_opened_Linx_SetGeneration:
  assumes "meanwhile P s (Linx_SetGeneration g p) qs s' r" "being_opened P config sink s"
  shows "\<exists>u qs1. being_opened P config sink u \<and> set qs1 \<subseteq> set qs \<and> meanwhile P u p qs1 s' r"
proof (cases "g = 0")
  case True
  then show ?thesis using assms by (auto simp: Linx_SetGeneration_def)
next
  case False
  then obtain u where u: "being_opened P config sink u" "meanwhile P u (Update (\<lambda>s. s\<lparr>output_sequence := 0\<rparr>) (Tell (Transport_SetGeneration g) p)) qs s' r"
    using being_opened_Update [of P s "\<lambda>s. s\<lparr>lp_generation := g\<rparr>" _ qs s' r config sink sink] assms
    by (auto simp: Linx_SetGeneration_def being_opened_def)
  obtain v where v: "being_opened P config sink v" "meanwhile P v (Tell (Transport_SetGeneration g) p) qs s' r"
    using being_opened_Update [OF u(2,1), of sink] by (auto simp: being_opened_def)
  then show ?thesis using being_opened_stable by (fastforce simp: among_unfold)
qed

lemma being_opened_StartMcpWorker:
  assumes "meanwhile P s (StartMcpWorker P p) qs s' r" "being_opened P config sink s"
  shows "\<exists>u. being_opened P config sink u \<and> meanwhile P u p qs s' r"
proof (cases "ls_mcp_handler P")
  case True
  let ?f = "\<lambda>s. if mcp_worker s then s else s\<lparr>mcp_stop := False, mcp_worker := True\<rparr>"
  have "being_opened P config sink (?f u)" if "being_opened P config sink u" for u
    using that by (auto simp: being_opened_def linx_inv_steps)
  moreover have "meanwhile P s (Update ?f p) qs s' r" using assms(1) True by (simp add: StartMcpWorker_def)
  ultimately show ?thesis using being_opened_Update [of P s ?f p] assms(2) by blast
next
  case False
  then show ?thesis using assms by (auto simp: StartMcpWorker_def)
qed

lemma Connect_open_meanwhile:
  assumes "meanwhile P s (Connect_open P config) qs s' r" "linx_inv P s" "lp_config s = config"
  shows "\<exists>s1 qs1. being_opened P config True s1 \<and> set qs1 \<subseteq> set qs \<and>
    meanwhile P s1 (Call (Transport_Connect (ls_connection P)) (\<lambda>v. if \<not> status_ok v then Connect_fail v else Connect_wait)) qs1 s' r"
proof -
  let ?call = "Call (Transport_Connect (ls_connection P)) (\<lambda>v. if \<not> status_ok v then Connect_fail v else Connect_wait)"
  obtain s0 where s0: "linx.interference P s s0" "meanwhile P (s0\<lparr>explicit_disconnect := False\<rparr>) (Update (\<lambda>s. s\<lparr>transport_connected := False\<rparr>)
      (Update (\<lambda>s. s\<lparr>connected := False\<rparr>) (Linx_SetGeneration (cfg_generation config) (Update (connect_state config)
        (Update (\<lambda>s. s\<lparr>event_sink := True\<rparr>) (StartMcpWorker P ?call)))))) qs s' r"
    using assms(1) unfolding Connect_open_def among_Update by blast
  have "being_opened P config False (s0\<lparr>explicit_disconnect := False\<rparr>)"
    using meanwhile_keeps(1,2) [OF s0(1) assms(2)] assms(3) by (simp add: being_opened_def)
  from being_opened_Update [OF s0(2) this, of False] obtain s1 where "being_opened P config False s1"
    "meanwhile P s1 (Update (\<lambda>s. s\<lparr>connected := False\<rparr>) (Linx_SetGeneration (cfg_generation config) (Update (connect_state config)
        (Update (\<lambda>s. s\<lparr>event_sink := True\<rparr>) (StartMcpWorker P ?call))))) qs s' r" by (auto simp: being_opened_def)
  from being_opened_Update [OF this(2,1), of False] obtain s2 where s2: "being_opened P config False s2"
    "meanwhile P s2 (Linx_SetGeneration (cfg_generation config) (Update (connect_state config)
        (Update (\<lambda>s. s\<lparr>event_sink := True\<rparr>) (StartMcpWorker P ?call)))) qs s' r" by (auto simp: being_opened_def)
  from being_opened_Linx_SetGeneration [OF s2(2,1)] obtain s3 qs3 where s3: "being_opened P config False s3" "set qs3 \<subseteq> set qs"
    "meanwhile P s3 (Update (connect_state config)
        (Update (\<lambda>s. s\<lparr>event_sink := True\<rparr>) (StartMcpWorker P ?call))) qs3 s' r" by blast
  have "being_opened P config False (connect_state config u)" if "being_opened P config False u" for u
    using that linx_inv_steps(3) by (auto simp: being_opened_def connect_state_def)
  from being_opened_Update [OF s3(3,1), OF this] obtain s4 where s4: "being_opened P config False s4"
    "meanwhile P s4 (Update (\<lambda>s. s\<lparr>event_sink := True\<rparr>) (StartMcpWorker P ?call)) qs3 s' r" by blast
  from being_opened_Update [OF s4(2,1), of True] obtain s5 where "being_opened P config True s5"
    "meanwhile P s5 (StartMcpWorker P ?call) qs3 s' r" by (auto simp: being_opened_def)
  from being_opened_StartMcpWorker [OF this(2,1)] show ?thesis using s3(2) by blast
qed

lemma refused_simps:
  "meanwhile P s (reply v) qs s' r \<Longrightarrow> linx_inv P s \<Longrightarrow> r = Reply_Status v \<and> event_sink s' = event_sink s \<and> mcp_worker s' = mcp_worker s"
  using meanwhile_keeps [of P s s'] by simp

lemma ConfigureCodecStrategy_meanwhile:
  assumes "meanwhile P s (ConfigureCodecStrategy P k) qs s' r" "linx_inv P s"
  shows "\<exists>v u qs1. linx_inv P u \<and> lp_config u = lp_config s \<and> event_sink u = event_sink s \<and> mcp_worker u = mcp_worker s \<and>
    set qs1 \<subseteq> set qs \<and> meanwhile P u (k v) qs1 s' r"
proof -
  obtain u where u: "linx.interference P s u" "meanwhile P u (let wire = WireAudioFormat P (lp_config u)
       in if af_codec wire = af_codec (cfg_audio (lp_config u)) then k Status_Ok
          else if ls_strategy P \<noteq> Some (af_codec wire) then k (Status_Error kUnavailable msg_linx_no_strategy)
          else Call (Codec_Configure (cfg_audio (lp_config u)) wire) k) qs s' r"
    using assms(1) unfolding ConfigureCodecStrategy_def among_Load by blast
  note ku = meanwhile_keeps [OF u(1) assms(2)]
  let ?wire = "WireAudioFormat P (lp_config u)"
  consider v where "meanwhile P u (k v) qs s' r"
    | "meanwhile P u (Call (Codec_Configure (cfg_audio (lp_config u)) ?wire) k) qs s' r"
    using u(2) by (auto simp: Let_def split: if_splits)
  then show ?thesis
  proof cases
    case 1
    then show ?thesis using ku by blast
  next
    case 2
    then obtain w v qs1 where w: "linx.interference P u w" "meanwhile P w (k v) qs1 s' r" "set qs1 \<subseteq> set qs"
      by (simp add: among_unfold) (metis set_subset_Cons)
    then show ?thesis using meanwhile_keeps [OF w(1) ku(1)] ku(2,3,5) by metis
  qed
qed

text \<open>The three ends of an attempt to connect.\<close>

definition connect_end :: "LinxSetup \<Rightarrow> VoiceSessionConfig \<Rightarrow> LinxProvider \<Rightarrow> LinxCall list \<Rightarrow> LinxProvider \<Rightarrow> LinxReply \<Rightarrow> bool" where
  "connect_end P config s qs s' r \<longleftrightarrow>
     (\<exists>v. r = Reply_Status v \<and> \<not> status_ok v \<and> event_sink s' = event_sink s \<and> mcp_worker s' = mcp_worker s) \<or>
     Transport_Connect (ls_connection P) \<in> set qs \<and>
       (r = Reply_Status Status_Ok \<and> connection_made config s' \<or>
        (\<exists>v. r = Reply_Status v \<and> \<not> status_ok v \<and> connection_dropped s'))"

lemma Linx_Connect_cases:
  assumes "meanwhile P s (Linx_Connect P config) qs s' r"
  obtains (refused) u v where "linx.interference P s u" "meanwhile P u (reply v) qs s' r" "\<not> status_ok v"
    | (tried) u where "linx.interference P s u" "meanwhile P (u\<lparr>lp_config := config\<rparr>) (ConfigureCodecStrategy P (\<lambda>codec_status.
        if \<not> status_ok codec_status then reply codec_status else Connect_open P config)) qs s' r"
proof -
  let ?strategy = "ConfigureCodecStrategy P (\<lambda>codec_status. if \<not> status_ok codec_status then reply codec_status else Connect_open P config)"
  have step: "linx.interference P t v" if "linx.interference P t u" "linx.interference P u v" for t u v
    using transpD [OF linx.interference_trans that] .
  show ?thesis
  proof (cases "connection_valid (ls_connection P) \<and> cfg_provider_id config = cp_provider_id (ls_capabilities P) \<and> cfg_generation config \<noteq> 0")
    case True
    obtain s0 where s0: "linx.interference P s s0" "meanwhile P s0 (if connected s0 then reply (Status_Error kConflict msg_linx_connected)
        else Load transport_connected (\<lambda>up. if up then reply (Status_Error kConflict msg_linx_connected)
          else Update (\<lambda>s. s\<lparr>lp_config := config\<rparr>) ?strategy)) qs s' r"
      using assms(1) True by (auto simp: Linx_Connect_def among_Load)
    show ?thesis
    proof (cases "connected s0")
      case True
      then show ?thesis using that(1) [OF s0(1), of "Status_Error kConflict msg_linx_connected"] s0(2) by simp
    next
      case False
      then obtain s1 where s1: "linx.interference P s0 s1" "meanwhile P s1 (if transport_connected s1
          then reply (Status_Error kConflict msg_linx_connected) else Update (\<lambda>s. s\<lparr>lp_config := config\<rparr>) ?strategy) qs s' r"
        using s0(2) by (auto simp: among_Load)
      then show ?thesis
        using that(1) [OF step [OF s0(1) s1(1)], of "Status_Error kConflict msg_linx_connected"] that(2) step [OF s0(1)] step [OF s1(1)]
        by (auto simp: among_Update split: if_splits)
    qed
  next
    case False
    then show ?thesis using that(1) [OF linx.interference_refl, of "Status_Error kInvalidArgument msg_linx_config"] assms(1) by (auto simp: Linx_Connect_def)
  qed
qed

lemma Linx_Connect_meanwhile:
  assumes "meanwhile P s (Linx_Connect P config) qs s' r" "linx_inv P s"
  shows "connect_end P config s qs s' r"
  using assms(1)
proof (cases rule: Linx_Connect_cases)
  case (refused u v)
  then show ?thesis using refused_simps meanwhile_keeps [OF refused(1) assms(2)] by (auto simp: connect_end_def)
next
  case (tried u)
  note ku = meanwhile_keeps [OF tried(1) assms(2)]
  have w: "linx_inv P (u\<lparr>lp_config := config\<rparr>)" using ku(1) by simp
  obtain v' x qs1 where x: "linx_inv P x" "lp_config x = config" "event_sink x = event_sink s" "mcp_worker x = mcp_worker s" "set qs1 \<subseteq> set qs"
    "meanwhile P x (if \<not> status_ok v' then reply v' else Connect_open P config) qs1 s' r"
    using ConfigureCodecStrategy_meanwhile [OF tried(2) w] ku(3,5) by auto
  show ?thesis
  proof (cases "status_ok v'")
    case False
    then show ?thesis using x refused_simps by (auto simp: connect_end_def)
  next
    case True
    have o: "meanwhile P x (Connect_open P config) qs1 s' r" using x(6) True by simp
    obtain y qs2 where y: "being_opened P config True y" "set qs2 \<subseteq> set qs1"
      "meanwhile P y (Call (Transport_Connect (ls_connection P)) (\<lambda>v. if \<not> status_ok v then Connect_fail v else Connect_wait)) qs2 s' r"
      using Connect_open_meanwhile [OF o x(1,2)] by blast
    then obtain z v'' qs3 where z: "being_opened P config True z" "qs2 = Transport_Connect (ls_connection P) # qs3"
      "meanwhile P z (if \<not> status_ok v'' then Connect_fail v'' else Connect_wait) qs3 s' r"
      using being_opened_stable by (fastforce simp: among_unfold)
    then have "Transport_Connect (ls_connection P) \<in> set qs" using x(5) y(2) by auto
    moreover have "r = Reply_Status Status_Ok \<and> connection_made config s' \<or> (\<exists>v. r = Reply_Status v \<and> \<not> status_ok v \<and> connection_dropped s')"
      using z Connect_fail_meanwhile [of P z v'' qs3 s' r] Connect_wait_meanwhile [of P z qs3 s' r config]
      by (auto simp: being_opened_def split: if_splits)
    ultimately show ?thesis by (simp add: connect_end_def)
  qed
qed

text \<open>
  C9. Whatever events arrive while the provider connects and whatever the transport does, an attempt to
  connect ends in one of three ways. It is refused, and the session's sink and the worker are as
  before. Or it opens the transport and reports success, and then the greeting was answered with
  formats that are negotiated from now on, the session's sink is set and its configuration is the
  provider's. Or it opens the transport and fails, and then the sink is dropped, the worker has ended and
  no tool call is left.
\<close>

theorem linx_connect_outcomes:
  assumes "linx_run P moves \<sigma>" "system_move (linx_op P) (linx_callback P) \<sigma> (Begin (Op_Linx_Connect config)) \<sigma>'"
    and "system_run (linx_op P) (linx_callback P) \<sigma>' later_moves \<tau>" "\<forall>m \<in> set later_moves. \<not> is_Begin m \<and> m \<noteq> Finish"
    and "lifecycle \<tau> = Some (Return r)"
  shows "\<exists>calls. set calls \<subseteq> snd ` set (drop (length (port_log \<sigma>)) (port_log \<tau>)) \<and> connect_end P config (obj \<sigma>) calls (obj \<tau>) r"
proof -
  have ok: "linx.system_ok P \<sigma>" using linx.run_ok [OF assms(1) linx.idle_ok [OF new_provider_inv]] .
  have \<sigma>': "obj \<sigma>' = obj \<sigma>" "lifecycle \<sigma>' = Some (Linx_Connect P config)" "port_log \<sigma>' = port_log \<sigma>"
    using assms(2) by (auto elim: system_move.cases)
  have "linx.system_ok P \<sigma>'" using linx.move_ok [OF assms(2) ok] by simp
  from linx.run_among [OF assms(3) this \<sigma>'(2) assms(4,5)] obtain qs
    where "meanwhile P (obj \<sigma>) (Linx_Connect P config) qs (obj \<tau>) r" "set qs \<subseteq> snd ` set (drop (length (port_log \<sigma>)) (port_log \<tau>))"
    by (auto simp: \<sigma>')
  then show ?thesis using Linx_Connect_meanwhile ok by (auto simp: linx.system_ok_def)
qed

theorem linx_connect_outcomes_witness:
  "\<exists>\<sigma>' \<tau> calls. system_run (linx_op sample_setup) (linx_callback sample_setup) \<sigma>' answered_moves \<tau> \<and> connected (obj \<tau>) \<and>
     connect_end sample_setup linx_config new_provider calls (obj \<tau>) (Reply_Status Status_Ok)"
proof -
  obtain \<tau> where t: "linx_schedule (Begin (Op_Linx_Connect linx_config) # answered_moves) = Some \<tau>" "lifecycle \<tau> = Some (reply Status_Ok)" "connected (obj \<tau>)"
    using sample_answered by blast
  obtain \<sigma>' where "system_move (linx_op sample_setup) (linx_callback sample_setup) (idle_system new_provider) (Begin (Op_Linx_Connect linx_config)) \<sigma>'"
    "system_run (linx_op sample_setup) (linx_callback sample_setup) \<sigma>' answered_moves \<tau>"
    using system_run_ConsD [OF linx_schedule_run [OF t(1)] refl] by blast
  moreover have "\<forall>m \<in> set answered_moves. \<not> is_Begin m \<and> m \<noteq> Finish" by (auto simp: answered_moves_def)
  moreover have "linx_run sample_setup [] (idle_system new_provider)" by (rule run_start)
  ultimately show ?thesis using linx_connect_outcomes [of sample_setup "[]" "idle_system new_provider" linx_config] t(2,3)
    by (fastforce simp: idle_system_def)
qed

section \<open>Termination\<close>

text \<open>
  No call of the provider hangs on its own account: in every interleaving the number of steps is at
  most 26 for each connection, disconnection or destruction begun and 13 for each call or event that
  arrived, and while any of them is unfinished some step of one of them is possible.
\<close>

theorem linx_provider_terminates:
  assumes "linx_run P moves \<sigma>"
  shows "length moves \<le> 26 * length (filter is_Begin moves) + 13 * length (filter is_Arrive moves) \<and>
    (lifecycle \<sigma> = None \<and> callbacks \<sigma> = [] \<or>
     (\<exists>m \<tau>. system_move (linx_op P) (linx_callback P) \<sigma> m \<tau> \<and> \<not> is_Begin m \<and> \<not> is_Arrive m))"
  using linx.run_bounded [OF assms] linx.run_progress [of \<sigma> P] by simp

theorem linx_provider_terminates_witness:
  "length (Begin (Op_Linx_Connect linx_config) # answered_moves) \<le>
     26 * length (filter is_Begin (Begin (Op_Linx_Connect linx_config) # answered_moves)) +
     13 * length (filter is_Arrive (Begin (Op_Linx_Connect linx_config) # answered_moves))"
proof -
  obtain \<sigma> where "linx_schedule (Begin (Op_Linx_Connect linx_config) # answered_moves) = Some \<sigma>" using sample_answered by blast
  from linx_provider_terminates [OF linx_schedule_run [OF this]] show ?thesis by simp
qed

section \<open>Messages\<close>

text \<open>What an event is to the session: nothing without a sink, and it carries the current generation.\<close>

definition reported :: "LinxProvider \<Rightarrow> VoiceEvent \<Rightarrow> LinxCall list" where
  "reported s event = (if event_sink s then [Event_Sink (event\<lparr>ev_generation := lp_generation s\<rparr>)] else [])"

lemma completes_Linx_Emit [simp]:
  "completes s (Linx_Emit event p) qs s' r \<longleftrightarrow> (\<exists>qs'. completes s p qs' s' r \<and> qs = reported s event @ qs')"
  by (auto simp: Linx_Emit_def reported_def completes_unfold)

definition reported_error :: "LinxProvider \<Rightarrow> string \<Rightarrow> LinxCall list" where
  "reported_error s m = reported s (Event Kind_kError m False)"

text \<open>The formats that an answer to the greeting offers, if the firmware is configured for its wire format.\<close>

definition offered_formats :: "LinxSetup \<Rightarrow> VoiceSessionConfig \<Rightarrow> LinxAudioParams \<Rightarrow> VoiceAudioFormats option" where
  "offered_formats P config p =
     (let wire = WireAudioFormat P config;
          server = \<lparr>af_codec = la_codec p, af_sample_rate_hz = la_sample_rate_hz p, af_channels = la_channels p,
                    af_bits_per_sample = la_bits_per_sample p, af_frame_duration_ms = la_frame_duration_ms p\<rparr>
      in if af_codec wire = af_codec (cfg_audio config) then
           (if af_codec server = af_codec wire then Some \<lparr>fm_capture = cfg_audio config, fm_playback = server\<rparr> else None)
         else if server = wire then Some \<lparr>fm_capture = cfg_audio config, fm_playback = cfg_audio config\<rparr> else None)"

definition acceptable_hello :: "LinxSetup \<Rightarrow> LinxProvider \<Rightarrow> LinxInboundMessage \<Rightarrow> VoiceAudioFormats \<Rightarrow> bool" where
  "acceptable_hello P s m formats \<longleftrightarrow>
     transport_connected s \<and> (\<exists>p. im_audio_params m = Some p \<and> offered_formats P (lp_config s) p = Some formats) \<and>
     (has_negotiated_formats s \<longrightarrow> last_audio_formats s = formats) \<and> im_session_id m \<noteq> Some []"

lemma OnHello_cases:
  assumes "completes s (OnHello P m) calls s' r" "transport_connected s"
  shows "(\<exists>p formats. im_audio_params m = Some p \<and> offered_formats P (lp_config s) p = Some formats \<and>
       completes s (OnHello_store (im_session_id m) formats) calls s' r) \<or>
    (\<nexists>p formats. im_audio_params m = Some p \<and> offered_formats P (lp_config s) p = Some formats) \<and>
      (\<exists>e. s' = s\<lparr>hello_received := True, hello_status := Status_Error kInvalidArgument e\<rparr> \<and> calls = reported_error s e)"
proof (cases "im_audio_params m")
  case None
  then show ?thesis using assms by (auto simp: OnHello_def Let_def reported_error_def)
next
  case (Some p)
  show ?thesis
  proof (cases "offered_formats P (lp_config s) p")
    case None
    then have "s' = s\<lparr>hello_received := True, hello_status := Status_Error kInvalidArgument msg_linx_wire_format\<rparr> \<and>
        calls = reported_error s msg_linx_wire_format"
      using assms Some by (simp add: OnHello_def Let_def offered_formats_def reported_error_def split: if_splits)
    then show ?thesis using Some None by auto
  next
    case formats: (Some formats)
    then have "completes s (OnHello_store (im_session_id m) formats) calls s' r"
      using assms Some by (simp add: OnHello_def Let_def offered_formats_def split: if_splits)
    then show ?thesis using Some formats by blast
  qed
qed

lemma hello_accepted_reports:
  assumes "completes s (OnHello P m) calls s' r" "\<not> connected s" "acceptable_hello P s m formats"
  shows "connected s' \<and> calls = reported s (Event Kind_kConnected [] False) \<and> hello_received s' \<and> hello_status s' = Status_Ok \<and>
    remote_session_id s' = im_session_id m \<and> has_negotiated_formats s' \<and> last_audio_formats s' = formats \<and>
    (formats_valid formats \<longrightarrow> completes s' Linx_audio_formats [] s' (Reply_Formats (Success formats)))"
proof -
  have ok: "transport_connected s" "has_negotiated_formats s \<Longrightarrow> last_audio_formats s = formats" "im_session_id m \<noteq> Some []"
    using assms(3) by (auto simp: acceptable_hello_def)
  have "completes s (OnHello_store (im_session_id m) formats) calls s' r"
    using OnHello_cases [OF assms(1) ok(1)] assms(3) by (auto simp: acceptable_hello_def)
  then show ?thesis using ok assms(2)
    by (auto simp: OnHello_store_def Let_def completes_unfold hello_accepted_def reported_def Linx_audio_formats_def split: if_splits)
qed

lemma hello_refused_reports:
  assumes "completes s (OnHello P m) calls s' r" "\<not> connected s" "\<nexists>formats. acceptable_hello P s m formats"
  shows "\<not> connected s' \<and>
    (transport_connected s \<longrightarrow> hello_received s' \<and> \<not> status_ok (hello_status s') \<and> calls = reported_error s (message (hello_status s')))"
proof (cases "transport_connected s")
  case False
  then show ?thesis using assms by (auto simp: OnHello_def Let_def)
next
  case True
  from OnHello_cases [OF assms(1) True] show ?thesis
  proof (elim disjE exE conjE)
    fix p formats
    assume p: "im_audio_params m = Some p" "offered_formats P (lp_config s) p = Some formats"
      and store: "completes s (OnHello_store (im_session_id m) formats) calls s' r"
    from assms(3) p True have "has_negotiated_formats s \<and> last_audio_formats s \<noteq> formats \<or> im_session_id m = Some []"
      by (auto simp: acceptable_hello_def)
    with store assms(2) show ?thesis
      by (auto simp: OnHello_store_def Let_def completes_unfold hello_failed_def reported_error_def reported_def split: if_splits)
  qed (use assms(2) in auto)
qed

text \<open>
  C16. An answer to the greeting connects the provider exactly if the transport is up, it names a wire
  format that the firmware is configured for, it does not change formats negotiated before and its
  session identifier is not empty. Then the session is told once, in the current generation, the
  session identifier is the provider's and the offered formats are what it reports. Any other answer
  on an open transport is reported as an error, once, and makes the attempt to connect fail.
\<close>

theorem linx_handshake:
  assumes "completes s (OnHello P m) calls s' r" "\<not> connected s"
  shows "(connected s' \<longleftrightarrow> (\<exists>formats. acceptable_hello P s m formats)) \<and>
    (\<forall>formats. acceptable_hello P s m formats \<longrightarrow>
       calls = reported s (Event Kind_kConnected [] False) \<and> hello_received s' \<and> hello_status s' = Status_Ok \<and>
       remote_session_id s' = im_session_id m \<and> has_negotiated_formats s' \<and> last_audio_formats s' = formats \<and>
       (formats_valid formats \<longrightarrow> completes s' Linx_audio_formats [] s' (Reply_Formats (Success formats)))) \<and>
    (transport_connected s \<and> \<not> connected s' \<longrightarrow>
       hello_received s' \<and> \<not> status_ok (hello_status s') \<and> calls = reported_error s (message (hello_status s')))"
proof (cases "\<exists>formats. acceptable_hello P s m formats")
  case True
  then show ?thesis using hello_accepted_reports [OF assms] by blast
next
  case False
  then show ?thesis using hello_refused_reports [OF assms False] by blast
qed

definition only_reports :: "LinxProvider \<Rightarrow> LinxProvider \<Rightarrow> LinxCall list \<Rightarrow> bool" where
  "only_reports s s' calls \<longleftrightarrow> s' = s \<and> (calls = [] \<or> (\<exists>event. calls = reported s event))"

lemma only_reports_simps:
  "completes s (Linx_Emit event no_reply) calls s' r \<Longrightarrow> only_reports s s' calls"
  "completes s no_reply calls s' r \<Longrightarrow> only_reports s s' calls"
  by (auto simp: only_reports_def)

lemma OnMessage_reports:
  assumes "completes s (OnMessage P m) calls s' r" "im_kind m \<noteq> Linx_kHello" "im_kind m \<noteq> Linx_kMcp"
  shows "only_reports s s' calls"
proof -
  have "\<exists>p \<in> insert no_reply (range (\<lambda>event. Linx_Emit event no_reply)). OnMessage P m = p"
    using assms(2,3) by (cases "im_kind m") (auto simp: OnMessage_def Let_def split: option.split LinxTtsState.split)
  then show ?thesis using assms(1) only_reports_simps by auto
qed

text \<open>A message of another session, or one that comes before the greeting was answered.\<close>

definition foreign :: "LinxProvider \<Rightarrow> LinxInboundMessage \<Rightarrow> bool" where
  "foreign s m \<longleftrightarrow> \<not> connected s \<or>
     (\<exists>own other. remote_session_id s = Some own \<and> im_session_id m = Some other \<and> own \<noteq> other)"

lemma OnText_cases:
  assumes "completes s (OnText P words) calls s' r" "DecodeText (ls_codec P) words = Success m" "im_kind m \<noteq> Linx_kHello"
  obtains (rejected) "foreign s m" "completes s (Emit_error msg_linx_session no_reply) calls s' r"
    | (taken) "\<not> foreign s m" "completes s (OnMessage P m) calls s' r"
proof (cases "foreign s m")
  case True
  then have "\<not> connected s \<or> remote_session_id s \<noteq> None \<and> im_session_id m \<noteq> None \<and> im_session_id m \<noteq> remote_session_id s"
    by (auto simp: foreign_def)
  then have "completes s (Emit_error msg_linx_session no_reply) calls s' r" using assms by (simp add: OnText_def split: if_splits)
  then show ?thesis using True rejected by blast
next
  case False
  then have "connected s" by (simp add: foreign_def)
  moreover have "\<not> (remote_session_id s \<noteq> None \<and> im_session_id m \<noteq> None \<and> im_session_id m \<noteq> remote_session_id s)"
    using False unfolding foreign_def by (metis not_Some_eq)
  ultimately have "completes s (OnMessage P m) calls s' r" using assms by (simp add: OnText_def del: not_None_eq split: if_splits)
  then show ?thesis using False taken by blast
qed

lemma OnMcp_cases:
  assumes "completes s (OnMcp P m) calls s' r"
  shows "only_reports s s' calls \<or>
    calls = [] \<and> \<not> mcp_stop s \<and> length (mcp_queue s) < kMcpQueueCapacity \<and>
      (\<exists>session. s' = s\<lparr>mcp_queue := mcp_queue s @ [\<lparr>mr_payload = im_text m, mr_session_id = session, mr_generation = lp_generation s\<rparr>]\<rparr> \<and>
         (im_session_id m = Some session \<or> im_session_id m = None \<and> cfg_session_id (ActiveSessionConfig s) = session))"
  using assms by (auto simp: OnMcp_def Let_def completes_unfold only_reports_def split: if_splits option.splits)

lemma messages_keep_connection:
  assumes "completes s (OnText P words) calls s' r" "DecodeText (ls_codec P) words = Success m" "im_kind m \<noteq> Linx_kHello"
  shows "connected s' = connected s"
  using assms
proof (cases rule: OnText_cases)
  case rejected
  then show ?thesis by auto
next
  case taken
  then show ?thesis
    using OnMessage_reports [OF taken(2) assms(3)] OnMcp_cases [of s P m calls s' r]
    by (cases "im_kind m = Linx_kMcp") (auto simp: only_reports_def OnMessage_def)
qed

text \<open>
  C17. After the greeting a message can do little: whatever it says, it leaves the connection, the formats
  and the session identifier as they are, at most appends one tool call - of the provider's own
  session or the one it names, in the current generation, within the bound of the queue - and makes
  at most one report to the session. A message of another session, or before the greeting is
  answered, changes nothing and is reported as an error.
\<close>

theorem linx_messages_contained:
  assumes "completes s (OnText P words) calls s' r" "DecodeText (ls_codec P) words = Success m" "im_kind m \<noteq> Linx_kHello"
  shows "(s' = s \<or> \<not> foreign s m \<and> \<not> mcp_stop s \<and> length (mcp_queue s) < kMcpQueueCapacity \<and>
        (\<exists>session. s' = s\<lparr>mcp_queue := mcp_queue s @ [\<lparr>mr_payload = im_text m, mr_session_id = session, mr_generation = lp_generation s\<rparr>]\<rparr> \<and>
           (im_session_id m = Some session \<or> im_session_id m = None \<and> cfg_session_id (ActiveSessionConfig s) = session))) \<and>
    (\<exists>event. calls = reported s event \<or> calls = []) \<and>
    (foreign s m \<longrightarrow> s' = s \<and> calls = reported_error s msg_linx_session)"
  using assms
proof (cases rule: OnText_cases)
  case rejected
  then show ?thesis by (auto simp: reported_error_def)
next
  case taken
  note m = taken(2)
  show ?thesis
  proof (cases "im_kind m = Linx_kMcp")
    case mcp: True
    with m have "completes s (OnMcp P m) calls s' r" by (simp add: OnMessage_def)
    from OnMcp_cases [OF this] show ?thesis using taken(1) unfolding only_reports_def by blast
  next
    case other: False
    show ?thesis using OnMessage_reports [OF m assms(3) other] taken(1) unfolding only_reports_def by blast
  qed
qed

text \<open>A provider that is connected in session \<open>s\<close>, as the sample schedule leaves it.\<close>

definition linx_up :: LinxProvider where
  "linx_up = new_provider\<lparr>lp_config := linx_config, event_sink := True, audio_sink := True, lp_generation := 1, connected := True,
     transport_connected := True, hello_received := True, has_negotiated_formats := True, audio_formats_ready := True,
     remote_session_id := Some ''s''\<rparr>"

theorem linx_messages_contained_witness:
  "\<exists>calls s' r. completes linx_up (OnText sample_setup ''tool'') calls s' r \<and>
     mcp_queue s' = [\<lparr>mr_payload = ''x'', mr_session_id = ''s'', mr_generation = 1\<rparr>] \<and>
     \<not> foreign linx_up (sample_message Linx_kMcp) \<and> remote_session_id s' = Some ''s''"
proof -
  let ?run = "run_program (\<lambda>q. Status_Ok) (\<lambda>q. \<lparr>answer_frame = Failure kInternal [], answer_text = Success []\<rparr>) (OnText sample_setup ''tool'') linx_up"
  have q: "mcp_queue (fst (snd ?run)) = [\<lparr>mr_payload = ''x'', mr_session_id = ''s'', mr_generation = 1\<rparr>]"
    by (simp add: OnText_def OnMessage_def OnMcp_def linx_eval linx_up_def Load_def Let_def kMcpQueueCapacity_def)
  obtain calls s' r where run: "?run = (calls, s', r)" by (metis prod_cases3)
  have c: "completes linx_up (OnText sample_setup ''tool'') calls s' r" by (rule run_program_completes(1) [OF run])
  have m: "DecodeText (ls_codec sample_setup) ''tool'' = Success (sample_message Linx_kMcp)" by (simp add: linx_eval)
  have "im_kind (sample_message Linx_kMcp) \<noteq> Linx_kHello" by (simp add: sample_message_def)
  from linx_messages_contained [OF c m this] have "remote_session_id s' = remote_session_id linx_up" "s' \<noteq> linx_up \<longrightarrow> \<not> foreign linx_up (sample_message Linx_kMcp)"
    by auto
  moreover have "s' \<noteq> linx_up" using q run by (auto simp: linx_up_def new_provider_def)
  moreover have "remote_session_id linx_up = Some ''s''" by (simp add: linx_up_def)
  ultimately show ?thesis using c q run by auto
qed

theorem linx_handshake_witness:
  "\<exists>calls s' r. completes (linx_up\<lparr>connected := False, has_negotiated_formats := False\<rparr>) (OnHello sample_setup (sample_message Linx_kHello)) calls s' r \<and>
     connected s' \<and> af_sample_rate_hz (fm_playback (last_audio_formats s')) = 24000"
proof -
  let ?s = "linx_up\<lparr>connected := False, has_negotiated_formats := False\<rparr>"
  let ?run = "run_program (\<lambda>q. Status_Ok) (\<lambda>q. \<lparr>answer_frame = Failure kInternal [], answer_text = Success []\<rparr>) (OnHello sample_setup (sample_message Linx_kHello)) ?s"
  let ?formats = "\<lparr>fm_capture = default_format, fm_playback = default_format\<lparr>af_sample_rate_hz := 24000, af_frame_duration_ms := 60\<rparr>\<rparr>"
  obtain calls s' r where run: "?run = (calls, s', r)" by (metis prod_cases3)
  have c: "completes ?s (OnHello sample_setup (sample_message Linx_kHello)) calls s' r" by (rule run_program_completes(1) [OF run])
  have ok: "acceptable_hello sample_setup ?s (sample_message Linx_kHello) ?formats"
    by (simp add: acceptable_hello_def offered_formats_def linx_up_def linx_eval Let_def)
  have "\<not> connected ?s" by simp
  from linx_handshake [OF c this] ok have "connected s'" "last_audio_formats s' = ?formats" by blast+
  then show ?thesis using c by (intro exI [of _ calls] exI [of _ s'] exI [of _ r]) simp
qed

section \<open>Audio\<close>

lemma completes_when_connected:
  "completes s (when_connected p) qs s' r \<longleftrightarrow>
     (if connected s then completes s p qs s' r
      else qs = [] \<and> s' = s \<and> r = Reply_Status (Status_Error kUnavailable msg_linx_not_connected))"
  by (auto simp: when_connected_def)

lemma deliver_audio_calls:
  assumes "completes s (deliver_audio frame) calls s' r"
  shows "s' = s \<and> (\<forall>q \<in> set calls. q \<in> range Event_Sink \<or> q = Audio_Sink frame \<and> audio_sink s)"
  using assms by (auto simp: deliver_audio_def completes_unfold reported_def split: if_splits)

lemma completes_QueryE:
  assumes "completes s (Query q k) calls s' r"
  obtains v qs where "calls = q # qs" "completes s (k v) qs s' r"
  using assms that by (auto simp: completes_unfold)

lemma decode_audio_calls:
  assumes "completes s (decode_audio P config frame) calls s' r"
  shows "s' = s \<and> (\<forall>f. Audio_Sink f \<in> set calls \<longrightarrow> audio_sink s \<and> af_codec (fr_format f) = af_codec (cfg_audio config) \<and>
    ((\<forall>g. Codec_Decode g \<notin> set calls) \<longrightarrow> f = frame))"
proof -
  show ?thesis
  proof (cases "af_codec (fr_format frame) = af_codec (cfg_audio config)")
    case True
    then show ?thesis using assms deliver_audio_calls [of s frame calls s' r] by (auto simp: decode_audio_def)
  next
    case other: False
    show ?thesis
    proof (cases "ls_strategy P = Some (af_codec (fr_format frame))")
      case False
      then show ?thesis using assms other by (auto simp: decode_audio_def reported_def)
    next
      case True
      let ?rest = "\<lambda>decoded. if \<not> ok decoded then
             (if code (status decoded) = kConflict then no_reply else Emit_error (message (status decoded)) no_reply)
           else if \<not> SameFormat (fr_format (the (val decoded))) (cfg_audio config) then Emit_error msg_linx_decoded_format no_reply
           else deliver_audio (the (val decoded))"
      have "decode_audio P config frame = Query (Codec_Decode frame) (\<lambda>v. ?rest (answer_frame v))"
        using True other by (simp add: decode_audio_def Let_def)
      with assms have "completes s (Query (Codec_Decode frame) (\<lambda>v. ?rest (answer_frame v))) calls s' r" by simp
      then obtain v :: LinxAnswer and qs where qs: "calls = Codec_Decode frame # qs" and rest: "completes s (?rest (answer_frame v)) qs s' r"
        by (rule completes_QueryE)
      show ?thesis
      proof (cases "ok (answer_frame v) \<and> fr_format (the (val (answer_frame v))) = cfg_audio config")
        case True
        then show ?thesis using rest qs deliver_audio_calls [of s "the (val (answer_frame v))" qs s' r] by auto
      next
        case False
        then show ?thesis using rest qs by (auto simp: Let_def reported_def split: if_splits)
      qed
    qed
  qed
qed

lemma downlink:
  assumes "completes t (OnBinary P payload) calls' t' r'"
  shows "\<exists>n. t' = t\<lparr>output_sequence := n\<rparr>"
    "\<forall>f. Audio_Sink f \<in> set calls' \<longrightarrow>
       connected t \<and> audio_sink t \<and> payload \<noteq> [] \<and> length payload \<le> kMaxPayloadBytes \<and>
       af_codec (fr_format f) = af_codec (cfg_audio (lp_config t)) \<and>
       ((\<forall>g. Codec_Decode g \<notin> set calls') \<longrightarrow>
          f = \<lparr>fr_generation = lp_generation t, fr_sequence = output_sequence t,
               fr_format = (if af_codec (WireAudioFormat P (lp_config t)) = af_codec (cfg_audio (lp_config t))
                            then fm_playback (lp_audio_formats t) else WireAudioFormat P (lp_config t)),
               fr_payload = payload\<rparr>)"
proof -
  let ?frame = "\<lparr>fr_generation = lp_generation t, fr_sequence = output_sequence t,
               fr_format = (if af_codec (WireAudioFormat P (lp_config t)) = af_codec (cfg_audio (lp_config t))
                            then fm_playback (lp_audio_formats t) else WireAudioFormat P (lp_config t)),
               fr_payload = payload\<rparr>"
  let ?t = "t\<lparr>output_sequence := output_sequence t + 1\<rparr>"
  consider (none) "t' = t" "set calls' \<subseteq> range Event_Sink"
    | (some) "connected t" "payload \<noteq> []" "length payload \<le> kMaxPayloadBytes" "completes ?t (decode_audio P (lp_config t) ?frame) calls' t' r'"
    using assms by (auto simp: OnBinary_def completes_unfold reported_def Let_def split: if_splits)
  then have "(\<exists>n. t' = t\<lparr>output_sequence := n\<rparr>) \<and> (\<forall>f. Audio_Sink f \<in> set calls' \<longrightarrow>
       connected t \<and> audio_sink t \<and> payload \<noteq> [] \<and> length payload \<le> kMaxPayloadBytes \<and>
       af_codec (fr_format f) = af_codec (cfg_audio (lp_config t)) \<and> ((\<forall>g. Codec_Decode g \<notin> set calls') \<longrightarrow> f = ?frame))"
  proof cases
    case none
    have "t = t\<lparr>output_sequence := output_sequence t\<rparr>" by simp
    then show ?thesis using none by blast
  next
    case some
    then show ?thesis using decode_audio_calls [OF some(4)] by auto
  qed
  then show "\<exists>n. t' = t\<lparr>output_sequence := n\<rparr>"
    "\<forall>f. Audio_Sink f \<in> set calls' \<longrightarrow>
       connected t \<and> audio_sink t \<and> payload \<noteq> [] \<and> length payload \<le> kMaxPayloadBytes \<and>
       af_codec (fr_format f) = af_codec (cfg_audio (lp_config t)) \<and> ((\<forall>g. Codec_Decode g \<notin> set calls') \<longrightarrow> f = ?frame)"
    by blast+
qed


definition uplink_frame :: AudioFrame where
  "uplink_frame = \<lparr>fr_generation = 1, fr_sequence = 0, fr_format = default_format, fr_payload = [1, 2]\<rparr>"


text \<open>
  The wire's format is compared by its codec alone: a provider set up for PCM of another rate than the
  board's announces that rate in its greeting and sends the board's frames as they are.
\<close>

theorem uplink_wire_mismatch:
  assumes "ls_connection P = (ls_connection sample_setup)\<lparr>lc_preferred_audio := Some (default_format\<lparr>af_sample_rate_hz := 24000\<rparr>)\<rparr>"
  shows "af_sample_rate_hz (WireAudioFormat P linx_config) = 24000 \<and>
    completes linx_up (Linx_SendAudio P uplink_frame) [Transport_SendAudio uplink_frame] linx_up (Reply_Status Status_Ok) \<and>
    af_sample_rate_hz (fr_format uplink_frame) = 16000"
  using assms
  by (auto simp: Linx_SendAudio_def completes_when_connected completes_unfold WireAudioFormat_def linx_up_def linx_config_def
      uplink_frame_def default_config_def default_format_def Let_def)

end
