(* ===== verification/Linx_System.thy ===== *)
theory Linx_System
  imports Linx_Codec Linx_Provider_Correctness
begin

text \<open>
  The speech provider with the JSON codec: what the answer of the cloud to the greeting makes the
  provider promise to the voice session.
\<close>

lemma offered_formats_valid:
  assumes "offered_formats P config p = Some formats" "params_valid p" "format_valid (cfg_audio config)"
  shows "formats_valid formats \<and> fm_capture formats = cfg_audio config"
  using assms by (auto simp: offered_formats_def formats_valid_def format_valid_def params_valid_def Let_def split: if_splits)

text \<open>
  C15. The provider and its codec agree with what the voice session asks for: with a valid local format, a
  text of the cloud that connects the provider - whatever the JSON library makes of it - leaves it
  with formats that are valid, that capture in the local format, and that it reports when the session
  asks. The session's check of the formats then never fails.
\<close>

theorem linx_formats_agreed:
  assumes "ls_codec P = LinxJsonCodec J" "format_valid (cfg_audio (lp_config s))"
    and "completes s (OnText P words) calls s' r" "\<not> connected s" "connected s'"
  shows "\<exists>formats. formats_valid formats \<and> fm_capture formats = cfg_audio (lp_config s) \<and>
    completes s' Linx_audio_formats [] s' (Reply_Formats (Success formats))"
proof -
  have "Json_DecodeText J words \<noteq> Failure c e" for c e
    using assms by (auto simp: OnText_def LinxJsonCodec_def)
  then obtain m where m: "DecodeText (ls_codec P) words = Success m" "message_well_formed m"
    using Json_DecodeText_well [of J words] assms(1) by (auto simp: decoded_well_def LinxJsonCodec_def)
  show ?thesis
  proof (cases "im_kind m = Linx_kHello")
    case True
    then have h: "completes s (OnHello P m) calls s' r" using assms(3) m by (simp add: OnText_def OnMessage_def)
    obtain formats where f: "acceptable_hello P s m formats" using hello_refused_reports [OF h assms(4)] assms(5) by blast
    then obtain p where p: "im_audio_params m = Some p" "offered_formats P (lp_config s) p = Some formats" by (auto simp: acceptable_hello_def)
    then have "formats_valid formats" "fm_capture formats = cfg_audio (lp_config s)"
      using offered_formats_valid [OF p(2) _ assms(2)] m(2) by (auto simp: message_well_formed_def params_in_range_def)
    then show ?thesis using hello_accepted_reports [OF h assms(4) f] by blast
  next
    case False
    then show ?thesis using messages_keep_connection [OF assms(3) m(1) False] assms(4,5) by simp
  qed
qed

text \<open>The JSON library on the documents of \<open>Linx_Json\<close>, with one text that it can parse.\<close>

definition sample_hello :: json where
  "sample_hello = JObject [(''type'', JString ''hello''), (''transport'', JString ''websocket''), (''session_id'', JString ''s''),
     (''audio_params'', JObject [(''format'', JString ''pcm''), (''sample_rate'', JNumber 24000), (''channels'', JNumber 1), (''frame_duration'', JNumber 60)])]"

fun json_type :: "json \<Rightarrow> cJSON_Type" where
  "json_type JNull = cJSON_NULL"
| "json_type (JBool b) = (if b then cJSON_True else cJSON_False)"
| "json_type (JNumber n) = cJSON_Number"
| "json_type (JString s) = cJSON_String"
| "json_type (JArray js) = cJSON_Array"
| "json_type (JObject ms) = cJSON_Object"

fun json_members :: "json \<Rightarrow> (string \<times> json) list" where
  "json_members (JObject ms) = ms"
| "json_members _ = []"

fun json_string :: "json \<Rightarrow> string" where
  "json_string (JString s) = s"
| "json_string _ = []"

fun json_number :: "json \<Rightarrow> rat option" where
  "json_number (JNumber n) = Some (of_nat n)"
| "json_number _ = None"

definition json_library :: "json cJSON" where
  "json_library = \<lparr>cJSON_Parse = (\<lambda>words. if words = ''hello'' then Some sample_hello else None),
     cJSON_GetObjectItem = (\<lambda>j key. map_of (json_members j) key), cJSON_GetObjectItemCaseSensitive = (\<lambda>j key. map_of (json_members j) key),
     cj_type = json_type, cJSON_GetStringValue = json_string, valuedouble = json_number, valueint = (\<lambda>j. 0),
     cJSON_PrintUnformatted = (\<lambda>j. Some (write_json [] j)), cJSON_CreateObject = JObject [],
     cJSON_AddStringToObject = (\<lambda>key s j. JObject (json_members j @ [(key, JString s)])),
     cJSON_AddNumberToObject = (\<lambda>key n j. JObject (json_members j @ [(key, JNumber (nat n))])),
     cJSON_AddBoolToObject = (\<lambda>key b j. JObject (json_members j @ [(key, JBool b)])),
     cJSON_AddItemToObject = (\<lambda>key i j. JObject (json_members j @ [(key, i)]))\<rparr>"

lemma sample_decoded:
  "Json_DecodeText json_library ''hello'' = Success (no_message\<lparr>im_kind := Linx_kHello, im_session_id := Some ''s'',
     im_audio_params := Some \<lparr>la_codec = kPcmS16Le, la_sample_rate_hz = 24000, la_channels = 1, la_bits_per_sample = 16,
       la_frame_duration_ms = 60\<rparr>\<rparr>)"
  by (simp add: Json_DecodeText_def json_library_def sample_hello_def GetRequired_def GetOptional_def GetOptional_string_def
      Decode_hello_def ParseAudioParams_def integral_within_def to_unsigned_def default_params_def no_message_def Let_def)

theorem linx_formats_agreed_witness:
  "\<exists>calls s' r formats. completes (linx_up\<lparr>connected := False, has_negotiated_formats := False\<rparr>)
       (OnText (sample_setup\<lparr>ls_codec := LinxJsonCodec json_library\<rparr>) ''hello'') calls s' r \<and>
     completes s' Linx_audio_formats [] s' (Reply_Formats (Success formats)) \<and> formats_valid formats"
proof -
  let ?s = "linx_up\<lparr>connected := False, has_negotiated_formats := False\<rparr>" and ?P = "sample_setup\<lparr>ls_codec := LinxJsonCodec json_library\<rparr>"
  let ?run = "run_program (\<lambda>q. Status_Ok) (\<lambda>q. \<lparr>answer_frame = Failure kInternal [], answer_text = Success []\<rparr>) (OnText ?P ''hello'') ?s"
  obtain calls s' r where run: "?run = (calls, s', r)" by (metis prod_cases3)
  have "connected (fst (snd ?run))"
    by (simp add: linx_eval LinxJsonCodec_def sample_decoded no_message_def linx_up_def Load_def Let_def Update_def)
  then have "connected s'" using run by simp
  moreover have "format_valid (cfg_audio (lp_config ?s))" by (simp add: linx_up_def linx_eval)
  ultimately show ?thesis
    using linx_formats_agreed [of ?P json_library ?s "''hello''" calls s' r] run_program_completes(1) [OF run] by simp blast
qed

end
