(* ===== verification/Spec2Isabelle.thy ===== *)
theory Spec2Isabelle
  imports Schedule_Service Rule_Correctness Reminder_Correctness Voice_Interaction Voice_Session_Correctness Im_Stream
    Usb_Frames Websocket_Frames Pcm_Frames Linx_System
begin

text \<open>
  \<^bold>\<open>VoiceLife: a verification development\<close>

  VoiceLife is the firmware of a voice assistant for schedules and reminders, written in C++ for an
  ESP32 board (\<open>src/components\<close>). Its own logic lies in five groups of components, which this
  development models as they are written:

  \<^item> \<^bold>\<open>Schedules\<close> (\<open>voicelife_schedule\<close>, \<open>voicelife_storage_memory\<close>): single schedules with conflict
    rules and an operation log, recurring rules whose next instance is generated on demand, and the
    repositories that hold them.
  \<^item> \<^bold>\<open>Reminders\<close> (\<open>schedule_reminder_service.cc\<close>, \<open>voicelife_timing\<close>): chains of reminder tasks that a
    timing runner wakes, retries, snoozes and the user's actions complete.
  \<^item> \<^bold>\<open>Voice\<close> (\<open>voicelife_voice\<close>, \<open>voicelife_audio_esp\<close>): the session between the audio devices and the speech
    provider, the interaction state machine of the board, the queue of audio frames, the pool of
    payload buffers and the assembler that cuts recorded samples into frames.
  \<^item> \<^bold>\<open>Instant messaging\<close> (\<open>voicelife_im\<close>): the event stream by which reminder actions arrive, the retry
    policy of its transport and the frames by which a board is provisioned.
  \<^item> \<^bold>\<open>Cloud and host links\<close> (\<open>voicelife_linx\<close>, \<open>voicelife_linx_esp\<close>, \<open>voicelife_board_esp\<close>): the speech
    provider that speaks the protocol of the cloud (greeting, control messages, tool calls, audio) with its
    JSON codec, the reader of JSON members, the assembler of WebSocket fragments and the router of frames on
    the USB serial line.

  The services call repositories and the timing runner through interfaces; the runner calls the
  reminder service back; the speech provider is called by the voice session, by the
  thread of the transport and by its worker of tool calls, and calls the voice session back from them.

  \<^bold>\<open>Theories and sources\<close>

  \<^item> \<open>VL_Prelude\<close>: C++ integer widths and division, the parts of the standard library the code uses,
    UTF-8, vectors of entities. \<open>Contracts\<close>: \<open>contracts/status.h\<close>, \<open>status.cc\<close>. \<open>Messages\<close>: the message texts.
  \<^item> \<open>Calendar\<close>: \<open>calendar.cc\<close>. \<open>Schedule_Types\<close>: \<open>schedule_types.h\<close>, the commands, results and the factory.
    \<open>Time_Rules\<close>: \<open>schedule_time_rules.cc\<close>. \<open>Recurrence\<close>: \<open>recurrence_planner.cc\<close>. \<open>Schedule_Helpers\<close>: the files of
    \<open>src/helpers\<close>.
  \<^item> \<open>Repositories\<close>: the repository interfaces as records of operations and as locales. \<open>Memory_Store\<close>:
    \<open>memory_schedule_repository.cc\<close>. \<open>Rule_Store\<close>: the rule side of the store.
  \<^item> \<open>Schedule_Service\<close>: \<open>schedule_service.cc\<close>, \<open>schedule_operation_service.cc\<close>. \<open>Rule_Service\<close> and
    \<open>Rule_Correctness\<close>: \<open>schedule_rule_service.cc\<close> and its helpers.
  \<^item> \<open>Timing\<close>: \<open>timing_task.cc\<close>, \<open>timing_runtime.cc\<close>. \<open>Effects\<close>: state monad, loops, weakest preconditions.
    \<open>Reminder_Tasks\<close>: the reminder task repository. \<open>Reminder_Service\<close>: \<open>schedule_reminder_service.cc\<close>.
    \<open>Reminder_Chains\<close>, \<open>Reminder_System\<close>, \<open>Reminder_Correctness\<close>: the service together with its store, the
    runner and the schedule service.
  \<^item> \<open>Voice_Interaction\<close>: \<open>voice_interaction_controller.cc\<close>. \<open>Audio_Queue\<close>: \<open>audio_frame_queue.cc\<close> and the audio
    types of \<open>voice_types.h\<close>. \<open>Interleaving\<close>: programs with critical sections, their interleavings and the
    rely-guarantee contract. \<open>Voice_Session\<close> and \<open>Voice_Session_Correctness\<close>: \<open>voice_session.cc\<close>.
  \<^item> \<open>Audio_Pool\<close>: \<open>audio_payload.cc\<close>. \<open>Pcm_Frames\<close>: \<open>pcm_frame_assembler.cc\<close>.
  \<^item> \<open>Im_Stream\<close>: \<open>im_sse.cc\<close>, \<open>im_retry_policy.cc\<close>. \<open>Im_Provisioning\<close>: \<open>im_provisioning.cc\<close>.
  \<^item> \<open>Linx_Provider\<close> and \<open>Linx_Provider_Correctness\<close>: \<open>linx_speech_provider.cc\<close>, \<open>linx_types.h\<close>.
    \<open>Linx_Codec\<close>: \<open>linx_json_codec.cc\<close>, over the operations of the JSON library as a record. \<open>Linx_System\<close>: the
    provider with this codec. \<open>Linx_Json\<close>: \<open>linx_json_reader.cc\<close>. \<open>Websocket_Frames\<close>: \<open>websocket_fragment_assembler.cc\<close>. \<open>Usb_Frames\<close>:
    \<open>usb_serial_frame_router.cc\<close> with the formats of \<open>serial_voice_protocol.h\<close>.

  Definitions carry the names of the source; a struct is a record, an enum a datatype, an operation
  a function from the state to the result and the new state. Methods of the reminder service are
  values of the state monad, methods of the voice session and of the speech
  provider are programs.

  \<^bold>\<open>What the lemmas show\<close>

  \<^item> \<open>Calendar\<close>, \<open>Time_Rules\<close>, \<open>Recurrence\<close>: the calendar conversions are inverse to each other and count days;
    the conflict rule is the overlap of intervals; a date search finds the first matching date if
    there is one, and a plan lists the occurrences of a rule without gaps.
  \<^item> \<open>Memory_Store\<close>, \<open>Schedule_Service\<close>, \<open>Rule_Correctness\<close>: the stores keep their invariants; every operation of
    the services does what its branches say, errors included; without an override no two active
    schedules conflict; the next instance of a rule is the first open occurrence.
  \<^item> \<open>Timing\<close>, \<open>Reminder_Correctness\<close>: due tasks run once and in order; a reminder chain has at most one
    pending task through every sequence of calls and wake-ups; an action is applied once however
    often it is delivered; cancelled reminders do not fire.
  \<^item> \<open>Voice_Interaction\<close>, \<open>Audio_Queue\<close>: the board is never stuck; the queue is bounded and in order.
  \<^item> \<open>Voice_Session_Correctness\<close>: in every interleaving of operations and callbacks, with ports that answer
    anything, the session keeps its invariant, plays only frames of the current turn, isolates an
    interrupted turn for good and finishes every call in a bounded number of steps; a failed start
    gives up everything it had set up.
  \<^item> \<open>Linx_Provider_Correctness\<close>: in every interleaving of operations and callbacks, with ports that answer
    anything, the provider keeps its invariant: the queue of tool calls is bounded and empty once its worker
    is told to stop, a greeting answered without an error has negotiated formats, and formats count as ready
    only when they are valid. An attempt to connect, while any events arrive, is refused, succeeds, or fails
    and then leaves neither an event sink nor a worker. The answer to the greeting is accepted or refused on
    each of its branches; later messages leave the connection and the formats alone; sound passes only a
    finished handshake, in the current generation and the agreed formats.
  \<^item> \<open>Linx_Codec\<close>, \<open>Linx_System\<close>: a decoded message carries what its kind promises, with numbers in the range of
    their types; the formats that a greeting of the cloud leads to are valid and keep the local capture format.
  \<^item> \<open>Im_Stream\<close>: the decoder implements the specification of the whole stream however the bytes are cut,
    and its memory is bounded; retries are bounded and spaced out.
  \<^item> \<open>Audio_Pool\<close>: threads that acquire and release buffers in any interleaving of the atomic operations
    never hold the same buffer; an acquisition that runs alone finishes. \<open>Pcm_Frames\<close>: the frames are the
    recorded bytes cut into pieces of one length, however the driver delivers them.
  \<^item> \<open>Im_Provisioning\<close>: exactly the well-formed frames are accepted. \<open>Usb_Frames\<close>: frames written behind any
    other output come back in order. \<open>Websocket_Frames\<close>: a message is delivered once, whole and unmixed, or not
    at all. \<open>Linx_Json\<close>: a member is found and read whatever surrounds it, and string literals come back.

  \<^bold>\<open>Contracts between components\<close>

  Locales state what a client relies on: the repositories (\<open>Repositories\<close>, \<open>Reminder_Tasks\<close>), the timing
  callbacks and the environment of the reminder service (\<open>Timing\<close>, \<open>Reminder_Chains\<close>), the frame queue
  (\<open>Audio_Queue\<close>) and the concurrent object (\<open>Interleaving\<close>; the voice session and the speech provider are
  two of them). Each is interpreted on the definitions that
  model the code.

  \<^bold>\<open>Bounds\<close>

  The loops of the code are bounded by the code: 64 steps of a date search, 10 planned occurrences,
  256 occurrences of a rule in a query, 1000 candidates when the next instance is generated, 4096
  bytes of an unfinished event, 16384 bytes of a frame, 1035 bytes of a frame on the serial line. No further fuel is used; loops without a counter are recursive functions with a
  termination proof. Voice session operations take at most 16 steps, callbacks at most 17; operations of the
  speech provider take at most 24, its callbacks 11, and its worker holds at most 4 tool calls; an acquisition of a buffer that nothing
  interferes with takes at most 13.

  \<^bold>\<open>What the model leaves out\<close>

  \<^item> Outside the voice session, the speech provider and the payload pool the components are modelled sequentially: their
    mutexes or their only thread serialise the calls, and a call is one step. Generations, sequence numbers and counters are natural numbers;
    the integers whose width matters are words or are reduced explicitly.
  \<^item> The order in which an unordered container is walked, the answers of ports, and the clock are
    parameters.
  \<^item> Not modelled: the SQLite and FAT storage (SQL over a library), the registration of the device and the
    transport over a WebSocket client, the MCP server and the IM channels (JSON documents of a library over HTTP and WebSocket connections),
    the drivers and displays of the board, and the runtime that wires tasks and queues of the
    platform together. Of \<open>voicelife_voice\<close>, the wake gate, the session coordinator, the provider registry and
    the echo canceller, which forward to ports or guard them with flags, are left out.
\<close>

end
